(* ===== verification/Prelude.thy ===== *)
theory Prelude
  imports Main
begin

text \<open>
  Shared vocabulary of the development: Rust's checked integer arithmetic on
  bounded naturals, slices with a checked index, results as sums, loops with an
  early return, the outcome type of an admission plan, and sums over the slots of
  a ledger. Every lemma a component proof relies on twice lives here.
\<close>

named_theorems arith_defs \<open>checked arithmetic, unfolded\<close>
named_theorems slot_sums \<open>how a sum over ledger slots follows a slot update\<close>

section \<open>Checked machine arithmetic\<close>

text \<open>
  An unsigned Rust integer is a natural number. Its width appears at every
  operation that can leave it: \<open>checked_add\<close> is \<open>None\<close> above the largest value of
  the width, \<open>checked_sub\<close> is \<open>None\<close> below zero.
\<close>

type_synonym u8 = nat
type_synonym u16 = nat
type_synonym u32 = nat
type_synonym u64 = nat
type_synonym usize = nat

definition u16_max :: nat where "u16_max = 65535"
definition u32_max :: nat where "u32_max = 4294967295"
definition u64_max :: nat where "u64_max = 18446744073709551615"
definition u128_max :: nat where "u128_max = 340282366920938463463374607431768211455"

definition checked_add :: "nat \<Rightarrow> nat \<Rightarrow> nat \<Rightarrow> nat option" where
  "checked_add limit a b = (if a + b \<le> limit then Some (a + b) else None)"

definition checked_sub :: "nat \<Rightarrow> nat \<Rightarrow> nat option" where
  "checked_sub a b = (if b \<le> a then Some (a - b) else None)"

definition checked_mul :: "nat \<Rightarrow> nat \<Rightarrow> nat \<Rightarrow> nat option" where
  "checked_mul limit a b = (if a * b \<le> limit then Some (a * b) else None)"

definition checked_div :: "nat \<Rightarrow> nat \<Rightarrow> nat option" where
  "checked_div a b = (if b = 0 then None else Some (a div b))"

text \<open>A narrowing \<open>try_from\<close> keeps the value when it fits.\<close>

definition try_from :: "nat \<Rightarrow> nat \<Rightarrow> nat option" where
  "try_from limit a = (if a \<le> limit then Some a else None)"

lemmas [arith_defs] = checked_add_def checked_sub_def checked_mul_def checked_div_def try_from_def

lemma checked_add_Some_iff [simp]:
  "checked_add m a b = Some c \<longleftrightarrow> c = a + b \<and> a + b \<le> m"
  by (auto simp: checked_add_def)

lemma checked_add_None_iff [simp]: "checked_add m a b = None \<longleftrightarrow> m < a + b"
  by (auto simp: checked_add_def)

lemma checked_sub_Some_iff [simp]: "checked_sub a b = Some c \<longleftrightarrow> a = b + c"
  by (auto simp: checked_sub_def)

lemma checked_sub_None_iff [simp]: "checked_sub a b = None \<longleftrightarrow> a < b"
  by (auto simp: checked_sub_def)

lemma checked_add_then_sub: "checked_add m a b = Some c \<Longrightarrow> checked_sub c b = Some a"
  by simp

section \<open>Slices, results and loops\<close>

text \<open>\<open>slice.get(i)\<close> and a write through \<open>slice.get_mut(i)\<close>.\<close>

definition slice_get :: "'a list \<Rightarrow> nat \<Rightarrow> 'a option" where
  "slice_get xs i = (if i < length xs then Some (xs ! i) else None)"

definition slice_set :: "'a list \<Rightarrow> nat \<Rightarrow> 'a \<Rightarrow> 'a list option" where
  "slice_set xs i v = (if i < length xs then Some (xs[i := v]) else None)"

lemma slice_get_Some_iff [simp]: "slice_get xs i = Some x \<longleftrightarrow> i < length xs \<and> xs ! i = x"
  by (auto simp: slice_get_def)

lemma slice_get_None_iff [simp]: "slice_get xs i = None \<longleftrightarrow> length xs \<le> i"
  by (auto simp: slice_get_def)

lemma slice_set_Some_iff [simp]:
  "slice_set xs i v = Some ys \<longleftrightarrow> i < length xs \<and> ys = xs[i := v]"
  by (auto simp: slice_set_def)

lemma slice_set_None_iff [simp]: "slice_set xs i v = None \<longleftrightarrow> length xs \<le> i"
  by (auto simp: slice_set_def)

text \<open>\<open>Option<Option<T>>\<close> of the slots of a fixed table: an absent or an empty slot is \<open>None\<close>.\<close>

definition slot_get :: "'a option list \<Rightarrow> nat \<Rightarrow> 'a option" where
  "slot_get xs i = (if i < length xs then xs ! i else None)"

lemma slot_get_Some_iff [simp]: "slot_get xs i = Some x \<longleftrightarrow> i < length xs \<and> xs ! i = Some x"
  by (auto simp: slot_get_def)

text \<open>\<open>ok_or\<close>, the \<open>?\<close> operator on results, and \<open>Iterator::try_fold\<close> on options.\<close>

definition ok_or :: "'a option \<Rightarrow> 'e \<Rightarrow> 'e + 'a" where
  "ok_or x e = (case x of None \<Rightarrow> Inl e | Some a \<Rightarrow> Inr a)"

definition and_then :: "'e + 'a \<Rightarrow> ('a \<Rightarrow> 'e + 'b) \<Rightarrow> 'e + 'b" where
  "and_then r k = (case r of Inl e \<Rightarrow> Inl e | Inr a \<Rightarrow> k a)"

fun try_fold :: "('b \<Rightarrow> 'a \<Rightarrow> 'b option) \<Rightarrow> 'b \<Rightarrow> 'a list \<Rightarrow> 'b option" where
  "try_fold f b [] = Some b"
| "try_fold f b (x # xs) = (case f b x of None \<Rightarrow> None | Some c \<Rightarrow> try_fold f c xs)"

text \<open>A \<open>for\<close> loop whose body may return early with an error, and one that also builds a value.\<close>

fun for_each :: "('a \<Rightarrow> 'e + unit) \<Rightarrow> 'a list \<Rightarrow> 'e + unit" where
  "for_each f [] = Inr ()"
| "for_each f (x # xs) = and_then (f x) (\<lambda>_. for_each f xs)"

fun for_fold :: "('b \<Rightarrow> 'a \<Rightarrow> 'e + 'b) \<Rightarrow> 'b \<Rightarrow> 'a list \<Rightarrow> 'e + 'b" where
  "for_fold f b [] = Inr b"
| "for_fold f b (x # xs) = and_then (f b x) (\<lambda>c. for_fold f c xs)"

lemma ok_or_simps [simp]:
  "ok_or (Some a) e = Inr a"
  "ok_or None e = Inl e"
  by (simp_all add: ok_or_def)

lemma ok_or_Inr_iff [simp]: "ok_or x e = Inr a \<longleftrightarrow> x = Some a"
  by (cases x) simp_all

lemma ok_or_Inl_iff [simp]: "ok_or x e = Inl e' \<longleftrightarrow> x = None \<and> e' = e"
  by (cases x) auto

lemma and_then_simps [simp]:
  "and_then (Inr a) k = k a"
  "and_then (Inl e) k = Inl e"
  by (simp_all add: and_then_def)

lemma and_then_Inr_iff [simp]:
  "and_then r k = Inr b \<longleftrightarrow> (\<exists>a. r = Inr a \<and> k a = Inr b)"
  by (cases r) simp_all

lemma and_then_Inl_iff:
  "and_then r k = Inl e \<longleftrightarrow> r = Inl e \<or> (\<exists>a. r = Inr a \<and> k a = Inl e)"
  by (cases r) simp_all

lemma for_each_Inr_iff: "for_each f xs = Inr u \<longleftrightarrow> (\<forall>x \<in> set xs. f x = Inr ())"
  by (induction xs) auto

lemma for_each_Inl_first:
  assumes "for_each f xs = Inl e"
  obtains ys x zs where "xs = ys @ x # zs" "\<forall>y \<in> set ys. f y = Inr ()" "f x = Inl e"
  using assms
proof (induction xs arbitrary: thesis)
  case Nil
  then show ?case by simp
next
  case (Cons a xs)
  show ?case
  proof (cases "f a")
    case (Inl e')
    with Cons.prems(2) show ?thesis by (intro Cons.prems(1) [of "[]" a xs]) simp_all
  next
    case (Inr u)
    with Cons.prems(2) have "for_each f xs = Inl e" by simp
    then obtain ys x zs where "xs = ys @ x # zs" "\<forall>y \<in> set ys. f y = Inr ()" "f x = Inl e"
      using Cons.IH by blast
    with Inr show ?thesis by (intro Cons.prems(1) [of "a # ys" x zs]) simp_all
  qed
qed

text \<open>A loop that pushes one derived entry per element.\<close>

lemma for_push_Inr_iff:
  "for_fold (\<lambda>acc q. and_then (f q) (\<lambda>x. Inr (acc @ [x]))) acc qs = Inr r \<longleftrightarrow>
     (\<exists>xs. r = acc @ xs \<and> list_all2 (\<lambda>q x. f q = Inr x) qs xs)"
proof (induction qs arbitrary: acc)
  case Nil
  show ?case by auto
next
  case (Cons q qs)
  show ?case
  proof (cases "f q")
    case (Inl e)
    then show ?thesis by (auto simp: list_all2_Cons1)
  next
    case (Inr x)
    then show ?thesis using Cons.IH [of "acc @ [x]"] by (auto simp: list_all2_Cons1)
  qed
qed

lemma for_fold_Inl:
  "for_fold f b xs = Inl e \<Longrightarrow> \<exists>c x. x \<in> set xs \<and> f c x = Inl e"
  by (induction xs arbitrary: b) (simp_all add: and_then_Inl_iff, blast)

lemma try_fold_append:
  "try_fold f b (xs @ ys) = (case try_fold f b xs of None \<Rightarrow> None | Some c \<Rightarrow> try_fold f c ys)"
  by (induction xs arbitrary: b) (auto split: option.splits)

text \<open>The running total of a checked sum is the exact sum, and it fails exactly on overflow.\<close>

lemma try_fold_checked_sum:
  "try_fold (\<lambda>t x. checked_add m t (g x)) b xs = Some c \<longleftrightarrow>
     c = b + sum_list (map g xs) \<and> (xs = [] \<or> b + sum_list (map g xs) \<le> m)"
proof (induction xs arbitrary: b)
  case Nil
  show ?case by auto
next
  case (Cons x xs)
  show ?case
  proof (cases "b + g x \<le> m")
    case True
    then show ?thesis using Cons.IH [of "b + g x"] by (auto simp: checked_add_def)
  next
    case False
    then show ?thesis by (simp add: checked_add_def)
  qed
qed

section \<open>Plans: refuse, fence, or proceed\<close>

text \<open>
  An admission decision under the accounting lock has three exits. It returns an
  error and leaves the state alone (\<open>Refuse\<close>); it marks the governor as fenced and
  returns an error (\<open>Fence\<close>); or it goes on with a value (\<open>Proceed\<close>).
\<close>

datatype ('e, 'a) plan = Refuse 'e | Fence 'e | Proceed 'a

fun plan_bind :: "('e, 'a) plan \<Rightarrow> ('a \<Rightarrow> ('e, 'b) plan) \<Rightarrow> ('e, 'b) plan" where
  "plan_bind (Refuse e) k = Refuse e"
| "plan_bind (Fence e) k = Fence e"
| "plan_bind (Proceed a) k = k a"

definition some_or_fence :: "'e \<Rightarrow> 'a option \<Rightarrow> ('e, 'a) plan" where
  "some_or_fence e x = (case x of None \<Rightarrow> Fence e | Some a \<Rightarrow> Proceed a)"

definition some_or_refuse :: "'e \<Rightarrow> 'a option \<Rightarrow> ('e, 'a) plan" where
  "some_or_refuse e x = (case x of None \<Rightarrow> Refuse e | Some a \<Rightarrow> Proceed a)"

text \<open>The \<open>?\<close> operator: an error leaves the function and the state as it is.\<close>

definition question :: "'e + 'a \<Rightarrow> ('e, 'a) plan" where
  "question r = (case r of Inl e \<Rightarrow> Refuse e | Inr a \<Rightarrow> Proceed a)"

text \<open>A result whose error fences the governor when the error is an internal one.\<close>

definition question_fencing :: "('e \<Rightarrow> bool) \<Rightarrow> 'e + 'a \<Rightarrow> ('e, 'a) plan" where
  "question_fencing internal r =
     (case r of Inl e \<Rightarrow> (if internal e then Fence e else Refuse e) | Inr a \<Rightarrow> Proceed a)"

lemma plan_bind_Proceed_iff [simp]:
  "plan_bind p k = Proceed b \<longleftrightarrow> (\<exists>a. p = Proceed a \<and> k a = Proceed b)"
  by (cases p) simp_all

lemma plan_bind_Fence_iff [simp]:
  "plan_bind p k = Fence e \<longleftrightarrow> p = Fence e \<or> (\<exists>a. p = Proceed a \<and> k a = Fence e)"
  by (cases p) auto

lemma plan_bind_Refuse_iff [simp]:
  "plan_bind p k = Refuse e \<longleftrightarrow> p = Refuse e \<or> (\<exists>a. p = Proceed a \<and> k a = Refuse e)"
  by (cases p) auto

lemma some_or_fence_iffs [simp]:
  "some_or_fence e x = Proceed a \<longleftrightarrow> x = Some a"
  "some_or_fence e x = Fence e' \<longleftrightarrow> x = None \<and> e' = e"
  "some_or_fence e x \<noteq> Refuse e'"
  by (auto simp: some_or_fence_def split: option.splits)

lemma some_or_refuse_iffs [simp]:
  "some_or_refuse e x = Proceed a \<longleftrightarrow> x = Some a"
  "some_or_refuse e x = Refuse e' \<longleftrightarrow> x = None \<and> e' = e"
  "some_or_refuse e x \<noteq> Fence e'"
  by (auto simp: some_or_refuse_def split: option.splits)

lemma question_iffs [simp]:
  "question r = Proceed a \<longleftrightarrow> r = Inr a"
  "question r = Refuse e' \<longleftrightarrow> r = Inl e'"
  "question r \<noteq> Fence e'"
  by (auto simp: question_def split: sum.splits)

lemma question_fencing_iffs [simp]:
  "question_fencing f r = Proceed a \<longleftrightarrow> r = Inr a"
  "question_fencing f r = Refuse e' \<longleftrightarrow> r = Inl e' \<and> \<not> f e'"
  "question_fencing f r = Fence e' \<longleftrightarrow> r = Inl e' \<and> f e'"
  by (auto simp: question_fencing_def split: sum.splits)

section \<open>Sums over ledger slots\<close>

text \<open>
  A ledger is a fixed table of slots, each empty or holding a record. What the
  ledger owes to an account is the sum of a charge over its records.
\<close>

definition slot_sum :: "('r \<Rightarrow> nat) \<Rightarrow> 'r option list \<Rightarrow> nat" where
  "slot_sum f rs = sum_list (map (\<lambda>slot. case slot of None \<Rightarrow> 0 | Some r \<Rightarrow> f r) rs)"

lemma slot_sum_simps [simp]:
  "slot_sum f [] = 0"
  "slot_sum f (None # rs) = slot_sum f rs"
  "slot_sum f (Some r # rs) = f r + slot_sum f rs"
  by (simp_all add: slot_sum_def)

lemma slot_sum_append [simp]: "slot_sum f (xs @ ys) = slot_sum f xs + slot_sum f ys"
  by (simp add: slot_sum_def)

lemma slot_sum_replicate_None [simp]: "slot_sum f (replicate n None) = 0"
  by (induction n) simp_all

lemma slot_sum_split:
  assumes "i < length rs"
  shows "slot_sum f rs =
    slot_sum f (take i rs) + (case rs ! i of None \<Rightarrow> 0 | Some r \<Rightarrow> f r) + slot_sum f (drop (Suc i) rs)"
proof -
  have "rs = take i rs @ rs ! i # drop (Suc i) rs" using assms by (rule id_take_nth_drop)
  then have "slot_sum f rs = slot_sum f (take i rs @ rs ! i # drop (Suc i) rs)" by (rule arg_cong)
  also have "\<dots> = slot_sum f (take i rs) + (case rs ! i of None \<Rightarrow> 0 | Some r \<Rightarrow> f r)
      + slot_sum f (drop (Suc i) rs)"
    by (simp add: slot_sum_def)
  finally show ?thesis .
qed

lemma slot_sum_update:
  assumes "i < length rs"
  shows "slot_sum f (rs[i := x]) + (case rs ! i of None \<Rightarrow> 0 | Some r \<Rightarrow> f r) =
    slot_sum f rs + (case x of None \<Rightarrow> 0 | Some r \<Rightarrow> f r)"
  using assms slot_sum_split [OF assms, of f] slot_sum_split [of i "rs[i := x]" f]
  by (simp add: take_update_cancel)

lemma slot_sum_fill [slot_sums]:
  "i < length rs \<Longrightarrow> rs ! i = None \<Longrightarrow> slot_sum f (rs[i := Some r]) = slot_sum f rs + f r"
  using slot_sum_update [of i rs f "Some r"] by simp

lemma slot_sum_clear [slot_sums]:
  "i < length rs \<Longrightarrow> rs ! i = Some r \<Longrightarrow> slot_sum f rs = slot_sum f (rs[i := None]) + f r"
  using slot_sum_update [of i rs f None] by simp

lemma slot_sum_replace [slot_sums]:
  "i < length rs \<Longrightarrow> rs ! i = Some r \<Longrightarrow>
    slot_sum f (rs[i := Some r']) + f r = slot_sum f rs + f r'"
  using slot_sum_update [of i rs f "Some r'"] by simp

lemma slot_sum_replace_same:
  "i < length rs \<Longrightarrow> rs ! i = Some r \<Longrightarrow> f r' = f r \<Longrightarrow> slot_sum f (rs[i := Some r']) = slot_sum f rs"
  using slot_sum_replace [of i rs r f r'] by simp

lemma slot_sum_ge: "i < length rs \<Longrightarrow> rs ! i = Some r \<Longrightarrow> f r \<le> slot_sum f rs"
  using slot_sum_clear [of i rs r f] by simp

lemma slot_sum_mono:
  "(\<And>r. Some r \<in> set rs \<Longrightarrow> f r \<le> g r) \<Longrightarrow> slot_sum f rs \<le> slot_sum g rs"
  by (induction rs) (auto simp: slot_sum_def split: option.splits intro!: add_mono)

lemma slot_sum_cong:
  "(\<And>r. Some r \<in> set rs \<Longrightarrow> f r = g r) \<Longrightarrow> slot_sum f rs = slot_sum g rs"
  by (intro antisym slot_sum_mono) auto

lemma slot_sum_add: "slot_sum (\<lambda>r. f r + g r) rs = slot_sum f rs + slot_sum g rs"
  by (induction rs) (auto simp: slot_sum_def split: option.splits)

lemma slot_sum_const_le: "(\<And>r. Some r \<in> set rs \<Longrightarrow> f r \<le> 1) \<Longrightarrow> slot_sum f rs \<le> length rs"
proof (induction rs)
  case Nil
  show ?case by simp
next
  case (Cons a rs)
  then have "slot_sum f rs \<le> length rs" by simp
  moreover have "(case a of None \<Rightarrow> 0 | Some r \<Rightarrow> f r) \<le> 1"
    using Cons.prems by (auto split: option.splits)
  ultimately show ?case by (simp add: slot_sum_def)
qed

lemma slot_sum_eq_0_iff: "slot_sum f rs = 0 \<longleftrightarrow> (\<forall>r. Some r \<in> set rs \<longrightarrow> f r = 0)"
  by (induction rs) (auto simp: slot_sum_def split: option.splits)

end
