(* ===== verification/Amounts.thy ===== *)
theory Amounts
  imports Prelude
begin

text \<open>
  \<^verbatim>\<open>resource_governor/model.rs\<close>: the eleven resource dimensions and the fixed
  vector of amounts. A vector is one constructor with eleven fields, in the order
  of the array \<^verbatim>\<open>[u64; 11]\<close>, and \<open>amounts_get\<close> and \<open>set_amount\<close> are the two
  matches of the source. The loops over \<^verbatim>\<open>ResourceDimension::ALL\<close> are folds; their
  pointwise meaning is proved once here. The locale \<open>checked_vector\<close> is the
  interface every accounting vector offers: pointwise checked posting of a charge.
\<close>

section \<open>Dimensions and vectors\<close>

datatype resource_dimension =
    MemoryBytes | QueueSlots | TaskSlots | BufferCacheBytes | BatchItems | LeaseSlots
  | RetrySlots | IoPermits | CpuWorkUnits | FileDescriptors | DiskHeadroomBytes

definition resource_dimension_all :: "resource_dimension list" where
  "resource_dimension_all =
     [MemoryBytes, QueueSlots, TaskSlots, BufferCacheBytes, BatchItems, LeaseSlots,
      RetrySlots, IoPermits, CpuWorkUnits, FileDescriptors, DiskHeadroomBytes]"

lemma in_resource_dimension_all: "d \<in> set resource_dimension_all"
  by (cases d) (simp_all add: resource_dimension_all_def)

lemma set_resource_dimension_all [simp]: "set resource_dimension_all = UNIV"
  by (auto intro: in_resource_dimension_all)

lemma distinct_resource_dimension_all [simp]: "distinct resource_dimension_all"
  by (simp add: resource_dimension_all_def)

instantiation resource_dimension :: enum
begin

definition enum_resource_dimension :: "resource_dimension list" where
  "enum_resource_dimension = resource_dimension_all"

definition enum_all_resource_dimension :: "(resource_dimension \<Rightarrow> bool) \<Rightarrow> bool" where
  "enum_all_resource_dimension P = list_all P resource_dimension_all"

definition enum_ex_resource_dimension :: "(resource_dimension \<Rightarrow> bool) \<Rightarrow> bool" where
  "enum_ex_resource_dimension P = list_ex P resource_dimension_all"

instance
  by standard
    (simp_all add: enum_resource_dimension_def enum_all_resource_dimension_def
      enum_ex_resource_dimension_def list_all_iff list_ex_iff)

end

datatype resource_amounts = ResourceAmounts u64 u64 u64 u64 u64 u64 u64 u64 u64 u64 u64

fun amounts_get :: "resource_amounts \<Rightarrow> resource_dimension \<Rightarrow> u64" where
  "amounts_get (ResourceAmounts a0 a1 a2 a3 a4 a5 a6 a7 a8 a9 a10) dimension =
     (case dimension of
        MemoryBytes \<Rightarrow> a0
      | QueueSlots \<Rightarrow> a1
      | TaskSlots \<Rightarrow> a2
      | BufferCacheBytes \<Rightarrow> a3
      | BatchItems \<Rightarrow> a4
      | LeaseSlots \<Rightarrow> a5
      | RetrySlots \<Rightarrow> a6
      | IoPermits \<Rightarrow> a7
      | CpuWorkUnits \<Rightarrow> a8
      | FileDescriptors \<Rightarrow> a9
      | DiskHeadroomBytes \<Rightarrow> a10)"

fun set_amount :: "resource_amounts \<Rightarrow> resource_dimension \<Rightarrow> u64 \<Rightarrow> resource_amounts" where
  "set_amount (ResourceAmounts a0 a1 a2 a3 a4 a5 a6 a7 a8 a9 a10) dimension amount =
     (case dimension of
        MemoryBytes \<Rightarrow> ResourceAmounts amount a1 a2 a3 a4 a5 a6 a7 a8 a9 a10
      | QueueSlots \<Rightarrow> ResourceAmounts a0 amount a2 a3 a4 a5 a6 a7 a8 a9 a10
      | TaskSlots \<Rightarrow> ResourceAmounts a0 a1 amount a3 a4 a5 a6 a7 a8 a9 a10
      | BufferCacheBytes \<Rightarrow> ResourceAmounts a0 a1 a2 amount a4 a5 a6 a7 a8 a9 a10
      | BatchItems \<Rightarrow> ResourceAmounts a0 a1 a2 a3 amount a5 a6 a7 a8 a9 a10
      | LeaseSlots \<Rightarrow> ResourceAmounts a0 a1 a2 a3 a4 amount a6 a7 a8 a9 a10
      | RetrySlots \<Rightarrow> ResourceAmounts a0 a1 a2 a3 a4 a5 amount a7 a8 a9 a10
      | IoPermits \<Rightarrow> ResourceAmounts a0 a1 a2 a3 a4 a5 a6 amount a8 a9 a10
      | CpuWorkUnits \<Rightarrow> ResourceAmounts a0 a1 a2 a3 a4 a5 a6 a7 amount a9 a10
      | FileDescriptors \<Rightarrow> ResourceAmounts a0 a1 a2 a3 a4 a5 a6 a7 a8 amount a10
      | DiskHeadroomBytes \<Rightarrow> ResourceAmounts a0 a1 a2 a3 a4 a5 a6 a7 a8 a9 amount)"

definition amounts_zero :: resource_amounts where
  "amounts_zero = ResourceAmounts 0 0 0 0 0 0 0 0 0 0 0"

text \<open>\<open>ResourceAmounts::new([value; 11])\<close>.\<close>

definition amounts_uniform :: "u64 \<Rightarrow> resource_amounts" where
  "amounts_uniform a = ResourceAmounts a a a a a a a a a a a"

definition with_amount :: "resource_amounts \<Rightarrow> resource_dimension \<Rightarrow> u64 \<Rightarrow> resource_amounts" where
  "with_amount self dimension amount = set_amount self dimension amount"

definition amounts_all_positive :: "resource_amounts \<Rightarrow> bool" where
  "amounts_all_positive self = list_all (\<lambda>d. 0 < amounts_get self d) resource_dimension_all"

definition amounts_is_empty :: "resource_amounts \<Rightarrow> bool" where
  "amounts_is_empty self = list_all (\<lambda>d. amounts_get self d = 0) resource_dimension_all"

definition amounts_is_at_most :: "resource_amounts \<Rightarrow> resource_amounts \<Rightarrow> bool" where
  "amounts_is_at_most self other =
     list_all (\<lambda>d. amounts_get self d \<le> amounts_get other d) resource_dimension_all"

definition amounts_zip_map ::
  "resource_amounts \<Rightarrow> resource_amounts \<Rightarrow> (u64 \<Rightarrow> u64 \<Rightarrow> u64) \<Rightarrow> resource_amounts" where
  "amounts_zip_map self other operation =
     fold (\<lambda>d acc. set_amount acc d (operation (amounts_get self d) (amounts_get other d)))
       resource_dimension_all amounts_zero"

definition amounts_try_zip_map ::
  "resource_amounts \<Rightarrow> resource_amounts \<Rightarrow> (u64 \<Rightarrow> u64 \<Rightarrow> u64 option) \<Rightarrow> resource_amounts option" where
  "amounts_try_zip_map self other operation =
     try_fold (\<lambda>acc d. map_option (set_amount acc d) (operation (amounts_get self d) (amounts_get other d)))
       amounts_zero resource_dimension_all"

definition amounts_minimum :: "resource_amounts \<Rightarrow> resource_amounts \<Rightarrow> resource_amounts" where
  "amounts_minimum self other = amounts_zip_map self other min"

definition amounts_maximum :: "resource_amounts \<Rightarrow> resource_amounts \<Rightarrow> resource_amounts" where
  "amounts_maximum self other = amounts_zip_map self other max"

definition amounts_checked_add :: "resource_amounts \<Rightarrow> resource_amounts \<Rightarrow> resource_amounts option" where
  "amounts_checked_add self other = amounts_try_zip_map self other (checked_add u64_max)"

definition amounts_checked_sub :: "resource_amounts \<Rightarrow> resource_amounts \<Rightarrow> resource_amounts option" where
  "amounts_checked_sub self other = amounts_try_zip_map self other checked_sub"

text \<open>\<open>u64::saturating_sub\<close> is truncated subtraction.\<close>

definition amounts_excess_over :: "resource_amounts \<Rightarrow> resource_amounts \<Rightarrow> resource_amounts" where
  "amounts_excess_over self floor = amounts_zip_map self floor (-)"

section \<open>The pointwise view\<close>

lemma amounts_eqI: "(\<And>d. amounts_get a d = amounts_get b d) \<Longrightarrow> a = b"
proof -
  assume eq: "\<And>d. amounts_get a d = amounts_get b d"
  show "a = b"
    using eq [of MemoryBytes] eq [of QueueSlots] eq [of TaskSlots] eq [of BufferCacheBytes]
      eq [of BatchItems] eq [of LeaseSlots] eq [of RetrySlots] eq [of IoPermits]
      eq [of CpuWorkUnits] eq [of FileDescriptors] eq [of DiskHeadroomBytes]
    by (cases a; cases b) simp
qed

lemma amounts_get_set [simp]:
  "amounts_get (set_amount a d x) d' = (if d' = d then x else amounts_get a d')"
  by (cases a; cases d; cases d') simp_all

lemma amounts_get_with [simp]:
  "amounts_get (with_amount a d x) d' = (if d' = d then x else amounts_get a d')"
  by (simp add: with_amount_def)

lemma amounts_get_zero [simp]: "amounts_get amounts_zero d = 0"
  by (cases d) (simp_all add: amounts_zero_def)

lemma amounts_get_uniform [simp]: "amounts_get (amounts_uniform a) d = a"
  by (cases d) (simp_all add: amounts_uniform_def)

lemma amounts_all_positive_iff: "amounts_all_positive a \<longleftrightarrow> (\<forall>d. 0 < amounts_get a d)"
  by (simp add: amounts_all_positive_def list_all_iff)

lemma amounts_is_empty_iff: "amounts_is_empty a \<longleftrightarrow> a = amounts_zero"
  by (auto simp: amounts_is_empty_def list_all_iff intro: amounts_eqI)

lemma amounts_is_at_most_iff: "amounts_is_at_most a b \<longleftrightarrow> (\<forall>d. amounts_get a d \<le> amounts_get b d)"
  by (simp add: amounts_is_at_most_def list_all_iff)

lemma amounts_get_zip_map [simp]:
  "amounts_get (amounts_zip_map a b f) d = f (amounts_get a d) (amounts_get b d)"
  by (cases d) (simp_all add: amounts_zip_map_def resource_dimension_all_def)

lemma amounts_get_minimum [simp]:
  "amounts_get (amounts_minimum a b) d = min (amounts_get a d) (amounts_get b d)"
  by (simp add: amounts_minimum_def)

lemma amounts_get_maximum [simp]:
  "amounts_get (amounts_maximum a b) d = max (amounts_get a d) (amounts_get b d)"
  by (simp add: amounts_maximum_def)

lemma amounts_get_excess_over [simp]:
  "amounts_get (amounts_excess_over a b) d = amounts_get a d - amounts_get b d"
  by (simp add: amounts_excess_over_def)

text \<open>The loops that fill a fresh vector, one dimension at a time, with an early exit.\<close>

lemma try_fold_set_amount:
  assumes "distinct ds"
  shows "try_fold (\<lambda>acc d. map_option (set_amount acc d) (f d)) acc ds = Some c \<longleftrightarrow>
    (\<forall>d \<in> set ds. f d = Some (amounts_get c d)) \<and>
    (\<forall>d. d \<notin> set ds \<longrightarrow> amounts_get c d = amounts_get acc d)"
  using assms
proof (induction ds arbitrary: acc)
  case Nil
  show ?case by (auto intro: amounts_eqI)
next
  case (Cons d ds)
  show ?case
  proof (cases "f d")
    case None
    then show ?thesis by simp
  next
    case (Some x)
    have "try_fold (\<lambda>acc d. map_option (set_amount acc d) (f d)) acc (d # ds) = Some c \<longleftrightarrow>
        (\<forall>e \<in> set ds. f e = Some (amounts_get c e)) \<and>
        (\<forall>e. e \<notin> set ds \<longrightarrow> amounts_get c e = amounts_get (set_amount acc d x) e)"
      using Cons Some by simp
    then show ?thesis using Cons.prems Some by (auto split: if_splits)
  qed
qed

lemma amounts_try_zip_map_Some_iff:
  "amounts_try_zip_map a b f = Some c \<longleftrightarrow>
     (\<forall>d. f (amounts_get a d) (amounts_get b d) = Some (amounts_get c d))"
  by (simp add: amounts_try_zip_map_def
      try_fold_set_amount [where f = "\<lambda>d. f (amounts_get a d) (amounts_get b d)"])

definition try_build_amounts :: "(resource_dimension \<Rightarrow> u64 option) \<Rightarrow> resource_amounts option" where
  "try_build_amounts f =
     try_fold (\<lambda>acc d. map_option (with_amount acc d) (f d)) amounts_zero resource_dimension_all"

lemma try_build_amounts_Some_iff:
  "try_build_amounts f = Some c \<longleftrightarrow> (\<forall>d. f d = Some (amounts_get c d))"
  by (simp add: try_build_amounts_def with_amount_def [abs_def] try_fold_set_amount)

definition build_amounts :: "(resource_dimension \<Rightarrow> 'e + u64) \<Rightarrow> 'e + resource_amounts" where
  "build_amounts f =
     for_fold (\<lambda>acc d. and_then (f d) (\<lambda>x. Inr (with_amount acc d x))) amounts_zero resource_dimension_all"

text \<open>Two vectors filled in step: the shared and the protected half of a charge.\<close>

definition build_split ::
  "(resource_dimension \<Rightarrow> 'e + u64 \<times> u64) \<Rightarrow> 'e + resource_amounts \<times> resource_amounts" where
  "build_split f =
     for_fold (\<lambda>acc d. and_then (f d) (\<lambda>xy. Inr (with_amount (fst acc) d (fst xy), with_amount (snd acc) d (snd xy))))
       (amounts_zero, amounts_zero) resource_dimension_all"

lemma for_fold_build:
  assumes "distinct ds"
  shows "for_fold (\<lambda>acc d. and_then (f d) (\<lambda>x. Inr (with_amount acc d x))) acc ds = Inr c \<longleftrightarrow>
    (\<forall>d \<in> set ds. f d = Inr (amounts_get c d)) \<and>
    (\<forall>d. d \<notin> set ds \<longrightarrow> amounts_get c d = amounts_get acc d)"
  using assms
proof (induction ds arbitrary: acc)
  case Nil
  show ?case by (auto intro: amounts_eqI)
next
  case (Cons d ds)
  show ?case
  proof (cases "f d")
    case (Inl e)
    then show ?thesis by simp
  next
    case (Inr x)
    have "for_fold (\<lambda>acc d. and_then (f d) (\<lambda>x. Inr (with_amount acc d x))) acc (d # ds) = Inr c \<longleftrightarrow>
        (\<forall>e \<in> set ds. f e = Inr (amounts_get c e)) \<and>
        (\<forall>e. e \<notin> set ds \<longrightarrow> amounts_get c e = amounts_get (with_amount acc d x) e)"
      using Cons Inr by simp
    then show ?thesis using Cons.prems Inr by (auto split: if_splits)
  qed
qed

lemma build_amounts_Inr_iff: "build_amounts f = Inr c \<longleftrightarrow> (\<forall>d. f d = Inr (amounts_get c d))"
  by (simp add: build_amounts_def for_fold_build)

lemma for_fold_split:
  assumes "distinct ds"
  shows "for_fold (\<lambda>acc d. and_then (f d)
      (\<lambda>xy. Inr (with_amount (fst acc) d (fst xy), with_amount (snd acc) d (snd xy)))) acc ds = Inr (p, q) \<longleftrightarrow>
    (\<forall>d \<in> set ds. f d = Inr (amounts_get p d, amounts_get q d)) \<and>
    (\<forall>d. d \<notin> set ds \<longrightarrow> amounts_get p d = amounts_get (fst acc) d \<and> amounts_get q d = amounts_get (snd acc) d)"
  using assms
proof (induction ds arbitrary: acc)
  case Nil
  show ?case by (cases acc) (auto intro: amounts_eqI)
next
  case (Cons d ds)
  show ?case
  proof (cases "f d")
    case (Inl e)
    then show ?thesis by simp
  next
    case (Inr xy)
    let ?acc = "(with_amount (fst acc) d (fst xy), with_amount (snd acc) d (snd xy))"
    have "for_fold (\<lambda>acc d. and_then (f d)
        (\<lambda>xy. Inr (with_amount (fst acc) d (fst xy), with_amount (snd acc) d (snd xy)))) acc (d # ds) = Inr (p, q) \<longleftrightarrow>
        (\<forall>e \<in> set ds. f e = Inr (amounts_get p e, amounts_get q e)) \<and>
        (\<forall>e. e \<notin> set ds \<longrightarrow> amounts_get p e = amounts_get (fst ?acc) e \<and> amounts_get q e = amounts_get (snd ?acc) e)"
      using Cons Inr by simp
    then show ?thesis using Cons.prems Inr by (cases xy) (auto split: if_splits)
  qed
qed

lemma build_split_Inr_iff:
  "build_split f = Inr (p, q) \<longleftrightarrow> (\<forall>d. f d = Inr (amounts_get p d, amounts_get q d))"
  by (simp add: build_split_def for_fold_split)

lemma build_amounts_Inl: "build_amounts f = Inl e \<Longrightarrow> \<exists>d. f d = Inl e"
  by (auto simp: build_amounts_def and_then_Inl_iff dest!: for_fold_Inl)

lemma build_split_Inl: "build_split f = Inl e \<Longrightarrow> \<exists>d. f d = Inl e"
  by (auto simp: build_split_def and_then_Inl_iff dest!: for_fold_Inl)

lemma build_amounts_total: "(\<And>d. \<exists>x. f d = Inr x) \<Longrightarrow> \<exists>c. build_amounts f = Inr c"
  using build_amounts_Inl [of f] by (cases "build_amounts f") (auto, metis sum.distinct(1))

lemma build_split_total: "(\<And>d. \<exists>x. f d = Inr x) \<Longrightarrow> \<exists>c. build_split f = Inr c"
  using build_split_Inl [of f] by (cases "build_split f") (auto, metis sum.distinct(1))

lemma try_build_amounts_total:
  assumes "\<And>d. \<exists>x. f d = Some x"
  shows "\<exists>c. try_build_amounts f = Some c"
proof -
  have "\<exists>c. build_amounts (\<lambda>d. ok_or (f d) ()) = Inr c"
    using assms by (intro build_amounts_total) simp
  then show ?thesis by (simp add: build_amounts_Inr_iff try_build_amounts_Some_iff)
qed

lemma checked_zip_total:
  assumes "\<And>d. \<exists>x. f (amounts_get a d) (amounts_get b d) = Some x"
  shows "\<exists>c. amounts_try_zip_map a b f = Some c"
proof -
  have "\<exists>c. build_amounts (\<lambda>d. ok_or (f (amounts_get a d) (amounts_get b d)) ()) = Inr c"
    using assms by (intro build_amounts_total) simp
  then show ?thesis by (simp add: build_amounts_Inr_iff amounts_try_zip_map_Some_iff)
qed

section \<open>The interface of an accounting vector\<close>

text \<open>
  Usage vectors of the governor have components \<open>comp v k\<close>. A charge \<open>c\<close> adds
  \<open>charge c k\<close> to each. Posting is exact and fails exactly on overflow; taking a
  charge back is exact and fails exactly when a component would go below zero.
\<close>

locale checked_vector =
  fixes comp :: "'v \<Rightarrow> 'k \<Rightarrow> nat"
    and charge :: "'c \<Rightarrow> 'k \<Rightarrow> nat"
    and add :: "'v \<Rightarrow> 'c \<Rightarrow> 'v option"
    and sub :: "'v \<Rightarrow> 'c \<Rightarrow> 'v option"
  assumes comp_ext: "(\<And>k. comp v k = comp w k) \<Longrightarrow> v = w"
    and add_Some: "add v c = Some w \<Longrightarrow> comp w k = comp v k + charge c k"
    and add_defined: "(\<And>k. comp v k + charge c k \<le> u64_max) \<Longrightarrow> \<exists>w. add v c = Some w"
    and sub_Some: "sub v c = Some w \<Longrightarrow> comp v k = comp w k + charge c k"
    and sub_defined: "(\<And>k. charge c k \<le> comp v k) \<Longrightarrow> \<exists>w. sub v c = Some w"
begin

lemma sub_iff: "sub v c = Some w \<longleftrightarrow> (\<forall>k. comp v k = comp w k + charge c k)"
proof
  assume "sub v c = Some w"
  then show "\<forall>k. comp v k = comp w k + charge c k" by (simp add: sub_Some)
next
  assume eq: "\<forall>k. comp v k = comp w k + charge c k"
  then obtain w' where w': "sub v c = Some w'" using sub_defined [of c v] by auto
  have "w' = w"
  proof (rule comp_ext)
    fix k
    show "comp w' k = comp w k" using sub_Some [OF w', of k] eq by (metis add_right_cancel)
  qed
  with w' show "sub v c = Some w" by simp
qed

lemma add_then_sub: "add v c = Some w \<Longrightarrow> sub w c = Some v"
  by (simp add: sub_iff add_Some)

lemma add_iff:
  assumes "\<And>k. comp v k + charge c k \<le> u64_max"
  shows "add v c = Some w \<longleftrightarrow> (\<forall>k. comp w k = comp v k + charge c k)"
proof
  assume "add v c = Some w"
  then show "\<forall>k. comp w k = comp v k + charge c k" by (simp add: add_Some)
next
  assume eq: "\<forall>k. comp w k = comp v k + charge c k"
  obtain w' where w': "add v c = Some w'" using add_defined [OF assms] by auto
  have "w' = w" by (rule comp_ext) (simp add: add_Some [OF w'] eq)
  with w' show "add v c = Some w" by simp
qed

lemma sub_then_add:
  assumes "sub v c = Some w" and "\<And>k. comp v k \<le> u64_max"
  shows "add w c = Some v"
proof -
  have "comp w k + charge c k \<le> u64_max" for k using sub_Some [OF assms(1), of k] assms(2) [of k] by simp
  then show ?thesis using sub_Some [OF assms(1)] by (simp add: add_iff)
qed

lemma sub_None: "sub v c = None \<Longrightarrow> \<exists>k. comp v k < charge c k"
  using sub_defined [of c v] by (metis not_le_imp_less option.distinct(1))

lemma add_None: "add v c = None \<Longrightarrow> \<exists>k. u64_max < comp v k + charge c k"
  using add_defined [of v c] by (metis not_le_imp_less option.distinct(1))

end

lemma amounts_checked_add_Some: "amounts_checked_add a b = Some c \<Longrightarrow> amounts_get c d = amounts_get a d + amounts_get b d"
  by (simp add: amounts_checked_add_def amounts_try_zip_map_Some_iff)

lemma amounts_checked_add_iff:
  "amounts_checked_add a b = Some c \<longleftrightarrow>
     (\<forall>d. amounts_get c d = amounts_get a d + amounts_get b d \<and> amounts_get c d \<le> u64_max)"
  by (simp add: amounts_checked_add_def amounts_try_zip_map_Some_iff) metis

lemma amounts_checked_sub_iff:
  "amounts_checked_sub a b = Some c \<longleftrightarrow> (\<forall>d. amounts_get a d = amounts_get b d + amounts_get c d)"
  by (simp add: amounts_checked_sub_def amounts_try_zip_map_Some_iff)

interpretation amounts_vec:
  checked_vector amounts_get amounts_get amounts_checked_add amounts_checked_sub
proof unfold_locales
  fix v w :: resource_amounts
  assume "\<And>k. amounts_get v k = amounts_get w k"
  then show "v = w" by (rule amounts_eqI)
next
  fix v c w k
  assume "amounts_checked_add v c = Some w"
  then show "amounts_get w k = amounts_get v k + amounts_get c k" by (simp add: amounts_checked_add_iff)
next
  fix v c
  assume "\<And>k. amounts_get v k + amounts_get c k \<le> u64_max"
  then show "\<exists>w. amounts_checked_add v c = Some w"
    unfolding amounts_checked_add_def by (intro checked_zip_total) (simp add: checked_add_def)
next
  fix v c w k
  assume "amounts_checked_sub v c = Some w"
  then show "amounts_get v k = amounts_get w k + amounts_get c k" by (simp add: amounts_checked_sub_iff)
next
  fix v c
  assume "\<And>k. amounts_get c k \<le> amounts_get v k"
  then show "\<exists>w. amounts_checked_sub v c = Some w"
    unfolding amounts_checked_sub_def by (intro checked_zip_total) (simp add: checked_sub_def)
qed

text \<open>A nonempty claim against exactly one dimension (\<^verbatim>\<open>ResourceAmounts::only\<close>); \<open>None\<close> is the configuration error.\<close>

definition amounts_only :: "resource_dimension \<Rightarrow> u64 \<Rightarrow> resource_amounts option" where
  "amounts_only dimension amount =
     (if amount = 0 then None else Some (set_amount amounts_zero dimension amount))"

end
