(* ===== verification/Work.thy ===== *)
theory Work
  imports Amounts
begin

text \<open>
  \<^verbatim>\<open>resource_governor/claim.rs\<close>, \<^verbatim>\<open>failure.rs\<close> and the enumerations of
  \<^verbatim>\<open>lifecycle.rs\<close>: who asks for capacity, for what kind of work, and the closed
  vocabulary of answers. Identities of \<^verbatim>\<open>positron-domain\<close> are only compared here,
  so they are wrapped 128-bit numbers. The \<^verbatim>\<open>Weak<DropLedger>\<close> of an operation
  token is the number of the governor that minted it.
\<close>

section \<open>Identities and work\<close>

datatype tenant_id = TenantId nat

datatype principal_id = PrincipalId nat

datatype work_class =
    DurabilityRecovery | SecurityLifecycle | Ingest | InteractiveQueryTail | OrdinaryMaintenanceBackup

datatype work_kind =
    Kind_SecurityLifecycle | Kind_Ingest | Kind_InteractiveQueryTail | Kind_OrdinaryMaintenanceBackup

fun work_kind_class :: "work_kind \<Rightarrow> work_class" where
  "work_kind_class Kind_SecurityLifecycle = SecurityLifecycle"
| "work_kind_class Kind_Ingest = Ingest"
| "work_kind_class Kind_InteractiveQueryTail = InteractiveQueryTail"
| "work_kind_class Kind_OrdinaryMaintenanceBackup = OrdinaryMaintenanceBackup"

fun class_index :: "work_class \<Rightarrow> usize" where
  "class_index DurabilityRecovery = 0"
| "class_index SecurityLifecycle = 1"
| "class_index Ingest = 2"
| "class_index InteractiveQueryTail = 3"
| "class_index OrdinaryMaintenanceBackup = 4"

definition WORK_CLASS_COUNT :: u32 where "WORK_CLASS_COUNT = 5"

definition empty_class_counts :: "u32 list" where "empty_class_counts = [0, 0, 0, 0, 0]"

datatype recovery_work_kind =
    DurabilityCompletion | Retention | EmergencyCompaction | Purge | Repair | Fencing | SafeShutdown

datatype recovery_interruption = RetainUntilCompletion | CooperativeAtCheckpoint

definition recovery_kind_all :: "recovery_work_kind list" where
  "recovery_kind_all =
     [DurabilityCompletion, Retention, EmergencyCompaction, Purge, Repair, Fencing, SafeShutdown]"

fun recovery_kind_index :: "recovery_work_kind \<Rightarrow> usize" where
  "recovery_kind_index DurabilityCompletion = 0"
| "recovery_kind_index Retention = 1"
| "recovery_kind_index EmergencyCompaction = 2"
| "recovery_kind_index Purge = 3"
| "recovery_kind_index Repair = 4"
| "recovery_kind_index Fencing = 5"
| "recovery_kind_index SafeShutdown = 6"

definition permits_system_scope :: "recovery_work_kind \<Rightarrow> bool" where
  "permits_system_scope k \<longleftrightarrow> \<not> (k = Retention \<or> k = Purge)"

definition permits_tenant_scope :: "recovery_work_kind \<Rightarrow> bool" where
  "permits_tenant_scope k \<longleftrightarrow> \<not> (k = Fencing \<or> k = SafeShutdown)"

fun interruption :: "recovery_work_kind \<Rightarrow> recovery_interruption" where
  "interruption DurabilityCompletion = RetainUntilCompletion"
| "interruption SafeShutdown = RetainUntilCompletion"
| "interruption Retention = CooperativeAtCheckpoint"
| "interruption EmergencyCompaction = CooperativeAtCheckpoint"
| "interruption Purge = CooperativeAtCheckpoint"
| "interruption Repair = CooperativeAtCheckpoint"
| "interruption Fencing = CooperativeAtCheckpoint"

definition retains_capacity_on_resize_failure :: "recovery_work_kind \<Rightarrow> bool" where
  "retains_capacity_on_resize_failure k \<longleftrightarrow> k = DurabilityCompletion \<or> k = SafeShutdown"

datatype recovery_scope = System | Tenant tenant_id

datatype reservation_identity =
    Ordinary tenant_id "principal_id option" work_kind
  | Recovery recovery_scope recovery_work_kind

fun identity_class :: "reservation_identity \<Rightarrow> work_class" where
  "identity_class (Ordinary _ _ kind) = work_kind_class kind"
| "identity_class (Recovery _ _) = DurabilityRecovery"

lemma in_recovery_kind_all: "k \<in> set recovery_kind_all"
  by (cases k) (simp_all add: recovery_kind_all_def)

lemma set_recovery_kind_all [simp]: "set recovery_kind_all = UNIV"
  by (auto intro: in_recovery_kind_all)

lemma distinct_recovery_kind_all [simp]: "distinct recovery_kind_all"
  by (simp add: recovery_kind_all_def)

lemma class_index_less [simp]: "class_index c < 5"
  by (cases c) simp_all

lemma class_index_inject [simp]: "class_index c = class_index d \<longleftrightarrow> c = d"
  by (cases c; cases d) simp_all

lemma work_kind_class_inject [simp]: "work_kind_class k = work_kind_class l \<longleftrightarrow> k = l"
  by (cases k; cases l) simp_all

lemma work_kind_not_recovery [simp]: "work_kind_class k \<noteq> DurabilityRecovery"
  by (cases k) simp_all

lemma recovery_kind_index_less: "recovery_kind_index k < 7"
  by (cases k) simp_all

lemma recovery_kind_index_inject [simp]: "recovery_kind_index k = recovery_kind_index l \<longleftrightarrow> k = l"
  by (cases k; cases l) simp_all

text \<open>Exactly the uninterruptible kinds keep their capacity when a resize is refused.\<close>

lemma retains_iff_uninterruptible:
  "retains_capacity_on_resize_failure k \<longleftrightarrow> interruption k = RetainUntilCompletion"
  by (cases k) (simp_all add: retains_capacity_on_resize_failure_def)

section \<open>Failures\<close>

datatype disk_pressure_state = Healthy | SoftPressure | HardPressure

datatype governor_failure =
    InvalidConfiguration
  | PolicyCardinalityExceeded
  | GovernorBootstrapInventoryUnavailable resource_amounts
  | InsufficientOutstandingProgress u32 u32
  | TenantProgressUnavailable tenant_id work_class resource_dimension
  | SystemRecoveryProgressUnavailable recovery_work_kind resource_dimension
  | InvalidRecoveryScope
  | GovernorContended disk_pressure_state
  | PrimaryVolumeObservationUnavailable
  | ObservedVolumeMismatch
  | InternalFenced

datatype admission_failure_code =
    Code_CapacityExhausted | Code_TenantQuotaExceeded | Code_PrincipalQuotaExceeded
  | Code_UnregisteredTenant | Code_OutstandingReservationLimit | Code_ProtectedCapacityUnavailable
  | Code_ClassCapacityUnavailable | Code_TenantFairShareExceeded | Code_CapacityOccupiedByRecovery
  | Code_DiskPressureAdmissionRefused | Code_RecoveryReserveExhausted | Code_ShuttingDown
  | Code_InternalFenced | Code_GovernorContended

definition ADMISSION_FAILURE_CODE_COUNT :: usize where "ADMISSION_FAILURE_CODE_COUNT = 14"

fun code_index :: "admission_failure_code \<Rightarrow> usize" where
  "code_index Code_CapacityExhausted = 0"
| "code_index Code_TenantQuotaExceeded = 1"
| "code_index Code_PrincipalQuotaExceeded = 2"
| "code_index Code_UnregisteredTenant = 3"
| "code_index Code_OutstandingReservationLimit = 4"
| "code_index Code_ProtectedCapacityUnavailable = 5"
| "code_index Code_ClassCapacityUnavailable = 6"
| "code_index Code_TenantFairShareExceeded = 7"
| "code_index Code_CapacityOccupiedByRecovery = 8"
| "code_index Code_DiskPressureAdmissionRefused = 9"
| "code_index Code_RecoveryReserveExhausted = 10"
| "code_index Code_ShuttingDown = 11"
| "code_index Code_InternalFenced = 12"
| "code_index Code_GovernorContended = 13"

definition code_from_index :: "usize \<Rightarrow> admission_failure_code option" where
  "code_from_index index =
     (if index = 0 then Some Code_CapacityExhausted
      else if index = 1 then Some Code_TenantQuotaExceeded
      else if index = 2 then Some Code_PrincipalQuotaExceeded
      else if index = 3 then Some Code_UnregisteredTenant
      else if index = 4 then Some Code_OutstandingReservationLimit
      else if index = 5 then Some Code_ProtectedCapacityUnavailable
      else if index = 6 then Some Code_ClassCapacityUnavailable
      else if index = 7 then Some Code_TenantFairShareExceeded
      else if index = 8 then Some Code_CapacityOccupiedByRecovery
      else if index = 9 then Some Code_DiskPressureAdmissionRefused
      else if index = 10 then Some Code_RecoveryReserveExhausted
      else if index = 11 then Some Code_ShuttingDown
      else if index = 12 then Some Code_InternalFenced
      else if index = 13 then Some Code_GovernorContended
      else None)"

definition is_throttle :: "admission_failure_code \<Rightarrow> bool" where
  "is_throttle c \<longleftrightarrow>
     \<not> (c = Code_UnregisteredTenant \<or> c = Code_ShuttingDown \<or> c = Code_InternalFenced)"

datatype admission_retry =
    AfterCapacityRelease | AfterPressureTransition | AfterExternalCorrection | Never

datatype limiting_scope =
    Scope_Global | Scope_Tenant | Scope_Principal | Scope_Operation | Scope_RecoveryReserve
  | Scope_ProtectedReserve | Scope_OutstandingReservations | Scope_ClassHeadroom
  | Scope_TenantFairShare | Scope_RecoveryOccupancy | Scope_Policy | Scope_Internal

datatype admission_completion_state = RejectedBeforeReservation | ExistingReservationRetained

record admission_failure =
  af_code :: admission_failure_code
  af_retry :: admission_retry
  af_scope :: limiting_scope
  af_class :: work_class
  af_pressure :: disk_pressure_state
  af_completion :: admission_completion_state
  af_dimension :: "resource_dimension option"
  af_allowed :: u64
  af_in_use :: u64
  af_requested :: u64

record admission_evidence =
  ev_code :: admission_failure_code
  ev_retry :: admission_retry
  ev_scope :: limiting_scope
  ev_class :: work_class
  ev_pressure :: disk_pressure_state
  ev_dimension :: "resource_dimension option"
  ev_allowed :: u64
  ev_in_use :: u64
  ev_requested :: u64

definition admission_failure_new :: "admission_evidence \<Rightarrow> admission_failure" where
  "admission_failure_new evidence =
     \<lparr> af_code = ev_code evidence, af_retry = ev_retry evidence, af_scope = ev_scope evidence,
       af_class = ev_class evidence, af_pressure = ev_pressure evidence,
       af_completion = RejectedBeforeReservation, af_dimension = ev_dimension evidence,
       af_allowed = ev_allowed evidence, af_in_use = ev_in_use evidence,
       af_requested = ev_requested evidence \<rparr>"

definition at_pressure :: "admission_failure \<Rightarrow> disk_pressure_state \<Rightarrow> admission_failure" where
  "at_pressure self pressure = self\<lparr> af_pressure := pressure \<rparr>"

lemma code_index_less [simp]: "code_index c < ADMISSION_FAILURE_CODE_COUNT"
  by (cases c) (simp_all add: ADMISSION_FAILURE_CODE_COUNT_def)

lemma code_index_inject [simp]: "code_index c = code_index d \<longleftrightarrow> c = d"
  by (cases c; cases d) simp_all

lemma code_from_index_index: "code_from_index (code_index c) = Some c"
  by (cases c) (simp_all add: code_from_index_def)

lemma code_index_from_index: "code_from_index i = Some c \<Longrightarrow> code_index c = i"
  by (auto simp: code_from_index_def split: if_splits)

lemma code_from_index_None_iff: "code_from_index i = None \<longleftrightarrow> ADMISSION_FAILURE_CODE_COUNT \<le> i"
  unfolding code_from_index_def ADMISSION_FAILURE_CODE_COUNT_def by (simp, presburger)

section \<open>Lifecycle and release outcomes\<close>

datatype governor_lifecycle = Open | ShuttingDown | Fenced

datatype release_outcome = Released | AlreadyInactive

section \<open>Claims\<close>

record operation_token =
  token_authority :: nat
  token_root_slot :: u16
  token_generation :: u64
  token_tenant :: tenant_id
  token_principal :: principal_id
  token_kind :: work_kind

record work_claim =
  claim_tenant :: tenant_id
  claim_principal :: "principal_id option"
  claim_kind :: work_kind
  claim_amounts :: resource_amounts
  claim_operation :: "operation_token option"

definition work_claim_tenant ::
  "tenant_id \<Rightarrow> work_kind \<Rightarrow> resource_amounts \<Rightarrow> governor_failure + work_claim" where
  "work_claim_tenant tenant kind amounts =
     (if amounts_is_empty amounts then Inl InvalidConfiguration
      else Inr \<lparr> claim_tenant = tenant, claim_principal = None, claim_kind = kind,
                 claim_amounts = amounts, claim_operation = None \<rparr>)"

definition work_claim_authenticated ::
  "tenant_id \<Rightarrow> principal_id \<Rightarrow> work_kind \<Rightarrow> resource_amounts \<Rightarrow> governor_failure + work_claim" where
  "work_claim_authenticated tenant auth_principal kind amounts =
     (if amounts_is_empty amounts then Inl InvalidConfiguration
      else Inr \<lparr> claim_tenant = tenant, claim_principal = Some auth_principal, claim_kind = kind,
                 claim_amounts = amounts, claim_operation = None \<rparr>)"

definition work_claim_authenticated_child ::
  "operation_token \<Rightarrow> work_kind \<Rightarrow> resource_amounts \<Rightarrow> governor_failure + work_claim" where
  "work_claim_authenticated_child operation kind amounts =
     (if amounts_is_empty amounts \<or> work_kind_class kind \<noteq> work_kind_class (token_kind operation)
      then Inl InvalidConfiguration
      else Inr \<lparr> claim_tenant = token_tenant operation,
                 claim_principal = Some (token_principal operation), claim_kind = kind,
                 claim_amounts = amounts, claim_operation = Some operation \<rparr>)"

definition claim_class :: "work_claim \<Rightarrow> work_class" where
  "claim_class claim = work_kind_class (claim_kind claim)"

record recovery_work_claim =
  recovery_claim_scope :: recovery_scope
  recovery_claim_kind :: recovery_work_kind
  recovery_claim_amounts :: resource_amounts

definition recovery_claim_system ::
  "recovery_work_kind \<Rightarrow> resource_amounts \<Rightarrow> governor_failure + recovery_work_claim" where
  "recovery_claim_system kind amounts =
     (if \<not> permits_system_scope kind then Inl InvalidRecoveryScope
      else if amounts_is_empty amounts then Inl InvalidConfiguration
      else Inr \<lparr> recovery_claim_scope = System, recovery_claim_kind = kind,
                 recovery_claim_amounts = amounts \<rparr>)"

definition recovery_claim_tenant ::
  "tenant_id \<Rightarrow> recovery_work_kind \<Rightarrow> resource_amounts \<Rightarrow> governor_failure + recovery_work_claim" where
  "recovery_claim_tenant tenant kind amounts =
     (if \<not> permits_tenant_scope kind then Inl InvalidRecoveryScope
      else if amounts_is_empty amounts then Inl InvalidConfiguration
      else Inr \<lparr> recovery_claim_scope = Tenant tenant, recovery_claim_kind = kind,
                 recovery_claim_amounts = amounts \<rparr>)"

text \<open>
  A claim that exists came out of a constructor. What every constructor guarantees:
  a nonempty request, and a token only next to the identity it was minted for.
\<close>

definition claim_wf :: "work_claim \<Rightarrow> bool" where
  "claim_wf claim \<longleftrightarrow> \<not> amounts_is_empty (claim_amounts claim) \<and>
     (case claim_operation claim of None \<Rightarrow> True
      | Some token \<Rightarrow> claim_tenant claim = token_tenant token \<and>
          claim_principal claim = Some (token_principal token) \<and>
          claim_class claim = work_kind_class (token_kind token))"

definition recovery_claim_wf :: "recovery_work_claim \<Rightarrow> bool" where
  "recovery_claim_wf claim \<longleftrightarrow> \<not> amounts_is_empty (recovery_claim_amounts claim) \<and>
     (case recovery_claim_scope claim of
        System \<Rightarrow> permits_system_scope (recovery_claim_kind claim)
      | Tenant _ \<Rightarrow> permits_tenant_scope (recovery_claim_kind claim))"

lemma work_claims_wf:
  "work_claim_tenant t k a = Inr c \<Longrightarrow> claim_wf c"
  "work_claim_authenticated t p k a = Inr c \<Longrightarrow> claim_wf c"
  "work_claim_authenticated_child token k a = Inr c \<Longrightarrow> claim_wf c"
  by (auto simp: work_claim_tenant_def work_claim_authenticated_def work_claim_authenticated_child_def
      claim_wf_def claim_class_def split: if_splits)

lemma recovery_claims_wf:
  "recovery_claim_system k a = Inr c \<Longrightarrow> recovery_claim_wf c"
  "recovery_claim_tenant t k a = Inr c \<Longrightarrow> recovery_claim_wf c"
  by (auto simp: recovery_claim_system_def recovery_claim_tenant_def recovery_claim_wf_def split: if_splits)

text \<open>Two kinds serve the whole instance only, two serve one tenant only, and every kind serves something.\<close>

lemma recovery_scope_partition:
  "permits_system_scope k \<or> permits_tenant_scope k"
  by (cases k) (simp_all add: permits_system_scope_def permits_tenant_scope_def)

end
