(* ===== verification/Decision.thy ===== *)
theory Decision
  imports Work
begin

text \<open>
  \<^verbatim>\<open>resource_governor/decision.rs\<close>: construction of refusals and the ceiling checks
  over every dimension. A check is a loop with an early return, so the refusal
  evidence names the first dimension that does not fit.
\<close>

record decision_limit =
  dl_dimension :: "resource_dimension option"
  dl_allowed :: u64
  dl_in_use :: u64
  dl_requested :: u64

definition decision_limit_none :: decision_limit where
  "decision_limit_none = \<lparr> dl_dimension = None, dl_allowed = 0, dl_in_use = 0, dl_requested = 0 \<rparr>"

record ordinary_capacity =
  oc_ordinary_usage :: resource_amounts
  oc_recovery_shared_usage :: resource_amounts
  oc_ordinary_ceiling :: resource_amounts
  oc_total_ceiling :: resource_amounts
  oc_pressure :: disk_pressure_state

definition failure_at_pressure ::
  "admission_failure_code \<Rightarrow> admission_retry \<Rightarrow> limiting_scope \<Rightarrow> work_class \<Rightarrow>
   disk_pressure_state \<Rightarrow> decision_limit \<Rightarrow> admission_failure" where
  "failure_at_pressure code retry scope cls pressure limit =
     admission_failure_new
       \<lparr> ev_code = code, ev_retry = retry, ev_scope = scope, ev_class = cls, ev_pressure = pressure,
         ev_dimension = dl_dimension limit, ev_allowed = dl_allowed limit,
         ev_in_use = dl_in_use limit, ev_requested = dl_requested limit \<rparr>"

definition failure ::
  "admission_failure_code \<Rightarrow> admission_retry \<Rightarrow> limiting_scope \<Rightarrow> work_class \<Rightarrow>
   decision_limit \<Rightarrow> admission_failure" where
  "failure code retry scope cls limit = failure_at_pressure code retry scope cls Healthy limit"

definition internal_failure :: "work_class \<Rightarrow> admission_failure" where
  "internal_failure cls = failure Code_InternalFenced Never Scope_Internal cls decision_limit_none"

definition internal_failure_at_pressure :: "work_class \<Rightarrow> disk_pressure_state \<Rightarrow> admission_failure" where
  "internal_failure_at_pressure cls pressure = at_pressure (internal_failure cls) pressure"

definition contention_failure :: "work_class \<Rightarrow> disk_pressure_state \<Rightarrow> admission_failure" where
  "contention_failure cls pressure =
     failure_at_pressure Code_GovernorContended AfterCapacityRelease Scope_Internal cls pressure
       decision_limit_none"

definition capacity_failure ::
  "admission_failure_code \<Rightarrow> limiting_scope \<Rightarrow> work_class \<Rightarrow> disk_pressure_state \<Rightarrow>
   decision_limit \<Rightarrow> admission_failure" where
  "capacity_failure code scope cls pressure limit =
     failure_at_pressure code AfterCapacityRelease scope cls pressure limit"

text \<open>\<open>candidate.is_none_or(|value| value > allowed)\<close>.\<close>

definition exceeds :: "u64 option \<Rightarrow> u64 \<Rightarrow> bool" where
  "exceeds candidate allowed = (case candidate of None \<Rightarrow> True | Some v \<Rightarrow> allowed < v)"

definition refuse_exceeded ::
  "admission_failure_code \<Rightarrow> limiting_scope \<Rightarrow> work_class \<Rightarrow> resource_amounts \<Rightarrow> resource_amounts \<Rightarrow>
   resource_amounts \<Rightarrow> disk_pressure_state \<Rightarrow> admission_failure + unit" where
  "refuse_exceeded code scope cls in_use requested allowed pressure =
     for_each (\<lambda>d.
         let candidate = checked_add u64_max (amounts_get in_use d) (amounts_get requested d) in
         if exceeds candidate (amounts_get allowed d)
         then Inl (failure_at_pressure code AfterCapacityRelease scope cls pressure
                \<lparr> dl_dimension = Some d, dl_allowed = amounts_get allowed d,
                  dl_in_use = amounts_get in_use d, dl_requested = amounts_get requested d \<rparr>)
         else Inr ())
       resource_dimension_all"

definition refuse_tenant_recovery_shared_fair_share ::
  "work_class \<Rightarrow> resource_amounts \<Rightarrow> resource_amounts \<Rightarrow> resource_amounts \<Rightarrow> resource_amounts \<Rightarrow>
   disk_pressure_state \<Rightarrow> admission_failure + unit" where
  "refuse_tenant_recovery_shared_fair_share cls ordinary_in_use recovery_shared_in_use requested allowed pressure =
     and_then (ok_or (amounts_checked_add ordinary_in_use recovery_shared_in_use)
                 (internal_failure_at_pressure cls pressure))
       (\<lambda>combined_in_use.
          refuse_exceeded Code_TenantFairShareExceeded Scope_TenantFairShare cls combined_in_use
            requested allowed pressure)"

definition refuse_live_disk_growth ::
  "work_class \<Rightarrow> resource_amounts \<Rightarrow> resource_amounts \<Rightarrow> u64 \<Rightarrow> disk_pressure_state \<Rightarrow>
   admission_failure + unit" where
  "refuse_live_disk_growth cls in_use requested usable_bytes pressure =
     (let requested_bytes = amounts_get requested DiskHeadroomBytes;
          in_use_bytes = amounts_get in_use DiskHeadroomBytes
      in if requested_bytes = 0 then Inr ()
         else if exceeds (checked_add u64_max in_use_bytes requested_bytes) usable_bytes
         then Inl (failure_at_pressure Code_CapacityExhausted AfterPressureTransition Scope_Global cls pressure
                \<lparr> dl_dimension = Some DiskHeadroomBytes, dl_allowed = usable_bytes,
                  dl_in_use = in_use_bytes, dl_requested = requested_bytes \<rparr>)
         else Inr ())"

definition refuse_ordinary_capacity ::
  "work_class \<Rightarrow> resource_amounts \<Rightarrow> ordinary_capacity \<Rightarrow> admission_failure + unit" where
  "refuse_ordinary_capacity cls requested capacity =
     for_each (\<lambda>d.
         let ordinary_candidate =
               checked_add u64_max (amounts_get (oc_ordinary_usage capacity) d) (amounts_get requested d)
         in
         if exceeds ordinary_candidate (amounts_get (oc_total_ceiling capacity) d)
         then Inl (capacity_failure Code_CapacityExhausted Scope_Global cls (oc_pressure capacity)
                \<lparr> dl_dimension = Some d, dl_allowed = amounts_get (oc_total_ceiling capacity) d,
                  dl_in_use = amounts_get (oc_ordinary_usage capacity) d,
                  dl_requested = amounts_get requested d \<rparr>)
         else
           let shared_recovery = amounts_get (oc_recovery_shared_usage capacity) d in
           case checked_sub (amounts_get (oc_ordinary_ceiling capacity) d) shared_recovery of
             None \<Rightarrow> Inl (internal_failure_at_pressure cls (oc_pressure capacity))
           | Some ordinary_available \<Rightarrow>
               if exceeds ordinary_candidate ordinary_available
               then let recovery_occupied = (0 < shared_recovery) in
                    Inl (capacity_failure
                      (if recovery_occupied then Code_CapacityOccupiedByRecovery
                       else Code_ProtectedCapacityUnavailable)
                      (if recovery_occupied then Scope_RecoveryOccupancy else Scope_ProtectedReserve)
                      cls (oc_pressure capacity)
                      \<lparr> dl_dimension = Some d, dl_allowed = ordinary_available,
                        dl_in_use = amounts_get (oc_ordinary_usage capacity) d,
                        dl_requested = amounts_get requested d \<rparr>)
               else Inr ())
       resource_dimension_all"

section \<open>What a refusal says\<close>

lemma failure_at_pressure_simps [simp]:
  "af_code (failure_at_pressure c r s k p l) = c"
  "af_retry (failure_at_pressure c r s k p l) = r"
  "af_scope (failure_at_pressure c r s k p l) = s"
  "af_class (failure_at_pressure c r s k p l) = k"
  "af_pressure (failure_at_pressure c r s k p l) = p"
  "af_completion (failure_at_pressure c r s k p l) = RejectedBeforeReservation"
  "af_dimension (failure_at_pressure c r s k p l) = dl_dimension l"
  "af_allowed (failure_at_pressure c r s k p l) = dl_allowed l"
  "af_in_use (failure_at_pressure c r s k p l) = dl_in_use l"
  "af_requested (failure_at_pressure c r s k p l) = dl_requested l"
  by (simp_all add: failure_at_pressure_def admission_failure_new_def)

lemma internal_failure_simps [simp]:
  "af_code (internal_failure_at_pressure cls p) = Code_InternalFenced"
  "af_retry (internal_failure_at_pressure cls p) = Never"
  "af_class (internal_failure_at_pressure cls p) = cls"
  "af_pressure (internal_failure_at_pressure cls p) = p"
  "af_completion (internal_failure_at_pressure cls p) = RejectedBeforeReservation"
  by (simp_all add: internal_failure_at_pressure_def internal_failure_def failure_def at_pressure_def)

lemma contention_failure_code [simp]: "af_code (contention_failure cls p) = Code_GovernorContended"
  by (simp add: contention_failure_def)

lemma exceeds_checked_add:
  "exceeds (checked_add m a b) c \<longleftrightarrow> min m c < a + b"
  by (auto simp: exceeds_def checked_add_def)

lemma refuse_exceeded_Inr_iff:
  "refuse_exceeded code scope cls in_use requested allowed pressure = Inr u \<longleftrightarrow>
     (\<forall>d. amounts_get in_use d + amounts_get requested d \<le> min u64_max (amounts_get allowed d))"
  by (auto simp: refuse_exceeded_def for_each_Inr_iff exceeds_checked_add not_less)

lemma refuse_exceeded_Inl:
  assumes "refuse_exceeded code scope cls in_use requested allowed pressure = Inl e"
  obtains ys d zs where "resource_dimension_all = ys @ d # zs"
    and "\<forall>y \<in> set ys. amounts_get in_use y + amounts_get requested y \<le> min u64_max (amounts_get allowed y)"
    and "min u64_max (amounts_get allowed d) < amounts_get in_use d + amounts_get requested d"
    and "e = failure_at_pressure code AfterCapacityRelease scope cls pressure
           \<lparr> dl_dimension = Some d, dl_allowed = amounts_get allowed d,
             dl_in_use = amounts_get in_use d, dl_requested = amounts_get requested d \<rparr>"
proof -
  from assms obtain ys d zs where split: "resource_dimension_all = ys @ d # zs"
    and ok: "\<forall>y \<in> set ys. (if exceeds (checked_add u64_max (amounts_get in_use y) (amounts_get requested y))
        (amounts_get allowed y) then Inl (failure_at_pressure code AfterCapacityRelease scope cls pressure
           \<lparr> dl_dimension = Some y, dl_allowed = amounts_get allowed y,
             dl_in_use = amounts_get in_use y, dl_requested = amounts_get requested y \<rparr>) else Inr ()) = Inr ()"
    and bad: "(if exceeds (checked_add u64_max (amounts_get in_use d) (amounts_get requested d))
        (amounts_get allowed d) then Inl (failure_at_pressure code AfterCapacityRelease scope cls pressure
           \<lparr> dl_dimension = Some d, dl_allowed = amounts_get allowed d,
             dl_in_use = amounts_get in_use d, dl_requested = amounts_get requested d \<rparr>) else Inr ()) = Inl e"
    unfolding refuse_exceeded_def Let_def by (rule for_each_Inl_first)
  show thesis
  proof (rule that [OF split])
    show "\<forall>y \<in> set ys. amounts_get in_use y + amounts_get requested y \<le> min u64_max (amounts_get allowed y)"
      using ok by (simp add: exceeds_checked_add not_less split: if_splits)
  qed (use bad in \<open>simp_all add: exceeds_checked_add split: if_splits\<close>)
qed

lemma refuse_exceeded_code:
  "refuse_exceeded code scope cls in_use requested allowed pressure = Inl e \<Longrightarrow> af_code e = code"
  by (erule refuse_exceeded_Inl) simp

lemma refuse_live_disk_growth_Inr_iff:
  "refuse_live_disk_growth cls in_use requested usable pressure = Inr u \<longleftrightarrow>
     amounts_get requested DiskHeadroomBytes = 0 \<or>
     amounts_get in_use DiskHeadroomBytes + amounts_get requested DiskHeadroomBytes \<le> min u64_max usable"
  by (auto simp: refuse_live_disk_growth_def exceeds_checked_add not_less Let_def)

lemma refuse_live_disk_growth_code:
  "refuse_live_disk_growth cls in_use requested usable pressure = Inl e \<Longrightarrow> af_code e = Code_CapacityExhausted"
  by (auto simp: refuse_live_disk_growth_def Let_def split: if_splits)

lemma refuse_ordinary_capacity_Inr_iff:
  "refuse_ordinary_capacity cls requested capacity = Inr u \<longleftrightarrow>
     (\<forall>d. amounts_get (oc_ordinary_usage capacity) d + amounts_get requested d
            \<le> min u64_max (amounts_get (oc_total_ceiling capacity) d) \<and>
          amounts_get (oc_ordinary_usage capacity) d + amounts_get requested d
            + amounts_get (oc_recovery_shared_usage capacity) d \<le> amounts_get (oc_ordinary_ceiling capacity) d)"
proof -
  have step: "(let ordinary_candidate =
               checked_add u64_max (amounts_get (oc_ordinary_usage capacity) d) (amounts_get requested d)
         in
         if exceeds ordinary_candidate (amounts_get (oc_total_ceiling capacity) d)
         then Inl e1
         else
           let shared_recovery = amounts_get (oc_recovery_shared_usage capacity) d in
           case checked_sub (amounts_get (oc_ordinary_ceiling capacity) d) shared_recovery of
             None \<Rightarrow> Inl e2
           | Some ordinary_available \<Rightarrow>
               if exceeds ordinary_candidate ordinary_available
               then let recovery_occupied = (0 < shared_recovery) in Inl (e3 recovery_occupied ordinary_available)
               else Inr ()) = Inr () \<longleftrightarrow>
       amounts_get (oc_ordinary_usage capacity) d + amounts_get requested d
            \<le> min u64_max (amounts_get (oc_total_ceiling capacity) d) \<and>
       amounts_get (oc_ordinary_usage capacity) d + amounts_get requested d
            + amounts_get (oc_recovery_shared_usage capacity) d \<le> amounts_get (oc_ordinary_ceiling capacity) d"
    for d e1 e2 e3
    by (auto simp: exceeds_checked_add not_less Let_def checked_sub_def)
  show ?thesis
    unfolding refuse_ordinary_capacity_def for_each_Inr_iff by (simp only: step set_resource_dimension_all) simp
qed

end
