(* ===== verification/Inventory.thy ===== *)
theory Inventory
  imports Decision
begin

text \<open>
  \<^verbatim>\<open>resource_governor/inventory.rs\<close>, \<^verbatim>\<open>bootstrap.rs\<close>, the transition of
  \<^verbatim>\<open>pressure.rs\<close> and the volume binding of \<^verbatim>\<open>capacity_observation.rs\<close>: the finite
  capacities a governor is built from. The sizes of Rust types are a parameter
  (\<open>type_sizes\<close>), as is the answer of the allocator; the newtypes around a vector
  of amounts are the vector itself.
\<close>

section \<open>Capacity sources\<close>

definition MAX_TENANT_QUOTAS :: usize where "MAX_TENANT_QUOTAS = 1024"

definition MAX_OUTSTANDING_RESERVATIONS :: u32 where "MAX_OUTSTANDING_RESERVATIONS = u16_max"

definition require_capacity :: "resource_amounts \<Rightarrow> governor_failure + unit" where
  "require_capacity amounts =
     (if amounts_all_positive amounts \<and> list_all (\<lambda>d. 0 < amounts_get amounts d) resource_dimension_all
      then Inr () else Inl InvalidConfiguration)"

lemma require_capacity_Inr_iff [simp]: "require_capacity a = Inr u \<longleftrightarrow> amounts_all_positive a"
  by (auto simp: require_capacity_def amounts_all_positive_def)

definition operator_limits_new :: "resource_amounts \<Rightarrow> governor_failure + resource_amounts" where
  "operator_limits_new amounts = and_then (require_capacity amounts) (\<lambda>_. Inr amounts)"

definition recovery_reserve_new :: "resource_amounts \<Rightarrow> governor_failure + resource_amounts" where
  "recovery_reserve_new amounts = and_then (require_capacity amounts) (\<lambda>_. Inr amounts)"

record inventory_cardinality_limits =
  max_tenant_quotas :: usize
  max_outstanding_reservations :: u32

definition cardinality_limits_new ::
  "usize \<Rightarrow> u32 \<Rightarrow> governor_failure + inventory_cardinality_limits" where
  "cardinality_limits_new quotas reservations =
     (if quotas = 0 \<or> MAX_TENANT_QUOTAS < quotas \<or> reservations = 0
         \<or> MAX_OUTSTANDING_RESERVATIONS < reservations
      then Inl InvalidConfiguration
      else Inr \<lparr> max_tenant_quotas = quotas, max_outstanding_reservations = reservations \<rparr>)"

record disk_pressure_thresholds =
  hard_enter :: u64
  hard_exit :: u64
  soft_enter :: u64
  soft_exit :: u64

definition disk_thresholds_new ::
  "u64 \<Rightarrow> u64 \<Rightarrow> u64 \<Rightarrow> u64 \<Rightarrow> governor_failure + disk_pressure_thresholds" where
  "disk_thresholds_new henter hexit senter sexit =
     (if hexit \<le> henter \<or> senter < hexit \<or> sexit \<le> senter then Inl InvalidConfiguration
      else Inr \<lparr> hard_enter = henter, hard_exit = hexit, soft_enter = senter, soft_exit = sexit \<rparr>)"

record tenant_quota =
  quota_tenant :: tenant_id
  quota_weight :: u16
  quota_limits :: resource_amounts

definition tenant_quota_new ::
  "tenant_id \<Rightarrow> u16 \<Rightarrow> resource_amounts \<Rightarrow> governor_failure + tenant_quota" where
  "tenant_quota_new tenant weight limits =
     (if weight = 0 then Inl InvalidConfiguration
      else and_then (require_capacity limits)
        (\<lambda>_. Inr \<lparr> quota_tenant = tenant, quota_weight = weight, quota_limits = limits \<rparr>))"

text \<open>The four facts that bind an observation to one mounted volume; they are only compared.\<close>

record observed_volume_binding =
  root_identity :: nat
  mount_identity :: nat
  filesystem :: nat
  qualification :: nat

definition binding_matches :: "observed_volume_binding \<Rightarrow> observed_volume_binding \<Rightarrow> bool" where
  "binding_matches self volume \<longleftrightarrow>
     root_identity self = root_identity volume \<and> mount_identity self = mount_identity volume \<and>
     filesystem self = filesystem volume \<and> qualification self = qualification volume"

record resource_inventory =
  inv_detected :: resource_amounts
  inv_operator :: resource_amounts
  inv_effective :: resource_amounts
  inv_recovery_reserve :: resource_amounts
  inv_cardinality :: inventory_cardinality_limits
  inv_disk_thresholds :: disk_pressure_thresholds
  inv_initial_disk :: u64
  inv_volume_binding :: "observed_volume_binding option"

definition inventory_from_parts ::
  "resource_amounts \<Rightarrow> resource_amounts \<Rightarrow> resource_amounts \<Rightarrow> inventory_cardinality_limits \<Rightarrow>
   disk_pressure_thresholds \<Rightarrow> u64 \<Rightarrow> observed_volume_binding option \<Rightarrow>
   governor_failure + resource_inventory" where
  "inventory_from_parts detected operator recovery_reserve cardinality disk_thresholds initial_disk volume_binding =
     (let effective = amounts_minimum detected operator in
      and_then (require_capacity effective) (\<lambda>_.
      and_then (ok_or (amounts_checked_sub effective recovery_reserve) InvalidConfiguration) (\<lambda>ordinary.
      and_then (require_capacity ordinary) (\<lambda>_.
      let detected_disk = amounts_get detected DiskHeadroomBytes in
      if hard_enter disk_thresholds < amounts_get recovery_reserve DiskHeadroomBytes
         \<or> detected_disk < soft_exit disk_thresholds \<or> detected_disk < initial_disk
      then Inl InvalidConfiguration
      else Inr \<lparr> inv_detected = detected, inv_operator = operator, inv_effective = effective,
                 inv_recovery_reserve = recovery_reserve, inv_cardinality = cardinality,
                 inv_disk_thresholds = disk_thresholds, inv_initial_disk = initial_disk,
                 inv_volume_binding = volume_binding \<rparr>))))"

definition inventory_new_observed ::
  "resource_amounts \<times> u64 \<times> observed_volume_binding \<Rightarrow> resource_amounts \<Rightarrow> resource_amounts \<Rightarrow>
   inventory_cardinality_limits \<Rightarrow> disk_pressure_thresholds \<Rightarrow> governor_failure + resource_inventory" where
  "inventory_new_observed environment operator recovery_reserve cardinality disk_thresholds =
     (case environment of (detected, initial_disk, volume_binding) \<Rightarrow>
        inventory_from_parts detected operator recovery_reserve cardinality disk_thresholds initial_disk
          (Some volume_binding))"

section \<open>Disk pressure\<close>

definition disk_initial :: "disk_pressure_thresholds \<Rightarrow> u64 \<Rightarrow> disk_pressure_state" where
  "disk_initial self usable_bytes =
     (if usable_bytes \<le> hard_enter self then HardPressure
      else if usable_bytes \<le> soft_enter self then SoftPressure
      else Healthy)"

fun disk_transition :: "disk_pressure_thresholds \<Rightarrow> disk_pressure_state \<Rightarrow> u64 \<Rightarrow> disk_pressure_state" where
  "disk_transition self Healthy usable_bytes = disk_initial self usable_bytes"
| "disk_transition self SoftPressure usable_bytes =
     (if usable_bytes \<le> hard_enter self then HardPressure
      else if soft_exit self \<le> usable_bytes then Healthy
      else SoftPressure)"
| "disk_transition self HardPressure usable_bytes =
     (if soft_exit self \<le> usable_bytes then Healthy
      else if hard_exit self \<le> usable_bytes then SoftPressure
      else HardPressure)"

definition thresholds_wf :: "disk_pressure_thresholds \<Rightarrow> bool" where
  "thresholds_wf t \<longleftrightarrow> hard_enter t < hard_exit t \<and> hard_exit t \<le> soft_enter t \<and> soft_enter t < soft_exit t"

lemma disk_thresholds_new_iff:
  "disk_thresholds_new a b c d = Inr t \<longleftrightarrow>
     t = \<lparr> hard_enter = a, hard_exit = b, soft_enter = c, soft_exit = d \<rparr> \<and> thresholds_wf t"
  by (auto simp: disk_thresholds_new_def thresholds_wf_def)

fun pressure_index :: "disk_pressure_state \<Rightarrow> u8" where
  "pressure_index Healthy = 0"
| "pressure_index SoftPressure = 1"
| "pressure_index HardPressure = 2"

definition pressure_from_index :: "u8 \<Rightarrow> disk_pressure_state" where
  "pressure_from_index index =
     (if index = 1 then SoftPressure else if index = 2 then HardPressure else Healthy)"

lemma pressure_from_index_index [simp]: "pressure_from_index (pressure_index p) = p"
  by (cases p) (simp_all add: pressure_from_index_def)

text \<open>Severity is ordered, so "the pressure rises" is a comparison.\<close>

instantiation disk_pressure_state :: linorder
begin

definition less_eq_disk_pressure_state :: "disk_pressure_state \<Rightarrow> disk_pressure_state \<Rightarrow> bool" where
  "less_eq_disk_pressure_state p q \<longleftrightarrow> pressure_index p \<le> pressure_index q"

definition less_disk_pressure_state :: "disk_pressure_state \<Rightarrow> disk_pressure_state \<Rightarrow> bool" where
  "less_disk_pressure_state p q \<longleftrightarrow> pressure_index p < pressure_index q"

instance
proof
  fix p q r :: disk_pressure_state
  show "p < q \<longleftrightarrow> p \<le> q \<and> \<not> q \<le> p"
    by (auto simp: less_eq_disk_pressure_state_def less_disk_pressure_state_def)
  show "p \<le> p" by (simp add: less_eq_disk_pressure_state_def)
  show "p \<le> q \<or> q \<le> p" by (auto simp: less_eq_disk_pressure_state_def)
  show "p \<le> r" if "p \<le> q" "q \<le> r" using that by (simp add: less_eq_disk_pressure_state_def)
  show "p = q" if "p \<le> q" "q \<le> p"
    using that by (cases p; cases q) (simp_all add: less_eq_disk_pressure_state_def)
qed

end

lemmas pressure_less_eq = less_eq_disk_pressure_state_def less_disk_pressure_state_def

text \<open>A transition is monotone in the observation, and observing the same bytes twice changes nothing more.\<close>

lemma disk_transition_antimono:
  assumes "thresholds_wf t" and "b \<le> b'"
  shows "disk_transition t p b' \<le> disk_transition t p b"
  using assms by (cases p) (auto simp: pressure_less_eq disk_initial_def thresholds_wf_def)

lemma disk_transition_idem:
  assumes "thresholds_wf t"
  shows "disk_transition t (disk_transition t p b) b = disk_transition t p b"
  using assms by (cases p) (auto simp: disk_initial_def thresholds_wf_def)

lemma disk_transition_dead_band:
  assumes "thresholds_wf t" and "hard_enter t < b" and "b < hard_exit t"
  shows "disk_transition t p b = (if p = Healthy then SoftPressure else p)"
  using assms by (cases p) (auto simp: disk_initial_def thresholds_wf_def)

lemma disk_transition_soft_band:
  assumes "thresholds_wf t" and "soft_enter t < b" and "b < soft_exit t"
  shows "disk_transition t p b = (if p = Healthy then Healthy else SoftPressure)"
  using assms by (cases p) (auto simp: disk_initial_def thresholds_wf_def)

section \<open>Bootstrap layout\<close>

datatype bootstrap_allocation_stage =
    PolicyTenantQuotas | ActiveSegmentScopes | OrdinaryTenantFairCapacities | RecoveryTenantSharedFair
  | RecoveryTenantPoolFair | TenantLimits | OrdinaryTenantUsage | RecoveryTenantUsage
  | RecoveryTenantPoolUsage | OrdinaryTenantPoolUsage | TenantOutstanding | LedgerSignals
  | LedgerPendingWords | LedgerRecords | LedgerFreeSlots

record type_sizes =
  size_of_authority :: usize
  size_of_active_segment_scopes :: usize
  size_of_tenant_quota :: usize
  size_of_pool_capacities :: usize
  size_of_resource_amounts :: usize
  size_of_recovery_pool_capacities :: usize
  size_of_recovery_pool_usage :: usize
  size_of_u32 :: usize
  size_of_atomic_u8 :: usize
  size_of_atomic_u64 :: usize
  size_of_grant_slot :: usize
  size_of_u16 :: usize

definition usize_max :: nat where "usize_max = u64_max"

record bootstrap_inventory_layout =
  layout_tenant_count :: usize
  layout_outstanding_count :: usize
  layout_pending_word_count :: usize
  layout_memory_bytes :: u64

definition RETAINED_PRIMARY_DATA_VOLUME_FILE_DESCRIPTORS :: u64 where
  "RETAINED_PRIMARY_DATA_VOLUME_FILE_DESCRIPTORS = 2"

definition payload_bytes :: "usize \<Rightarrow> usize \<Rightarrow> governor_failure + usize" where
  "payload_bytes element cnt =
     (if element = 0 then Inl InvalidConfiguration
      else ok_or (checked_mul usize_max cnt element) InvalidConfiguration)"

text \<open>The array of checked products is built left to right, then summed.\<close>

definition payload_sum :: "(governor_failure + usize) list \<Rightarrow> governor_failure + usize" where
  "payload_sum parts =
     and_then (for_fold (\<lambda>acc p. and_then p (\<lambda>x. Inr (acc @ [x]))) [] parts)
       (\<lambda>xs. ok_or (try_fold (checked_add usize_max) 0 xs) InvalidConfiguration)"

definition tenant_payload_bytes :: "type_sizes \<Rightarrow> usize \<Rightarrow> governor_failure + usize" where
  "tenant_payload_bytes sz tenant_count =
     payload_sum
       [payload_bytes (size_of_tenant_quota sz) tenant_count,
        payload_bytes (size_of_pool_capacities sz) tenant_count,
        payload_bytes (size_of_resource_amounts sz) tenant_count,
        payload_bytes (size_of_recovery_pool_capacities sz) tenant_count,
        payload_bytes (size_of_resource_amounts sz) tenant_count,
        payload_bytes (size_of_resource_amounts sz) tenant_count,
        payload_bytes (size_of_resource_amounts sz) tenant_count,
        payload_bytes (size_of_recovery_pool_usage sz) tenant_count,
        payload_bytes (size_of_pool_capacities sz) tenant_count,
        payload_bytes (size_of_u32 sz) tenant_count]"

definition ledger_payload_bytes :: "type_sizes \<Rightarrow> usize \<Rightarrow> usize \<Rightarrow> governor_failure + usize" where
  "ledger_payload_bytes sz outstanding_count pending_word_count =
     payload_sum
       [payload_bytes (size_of_atomic_u8 sz) outstanding_count,
        payload_bytes (size_of_atomic_u64 sz) pending_word_count,
        payload_bytes (size_of_grant_slot sz) outstanding_count,
        payload_bytes (size_of_u16 sz) outstanding_count]"

definition layout_new ::
  "type_sizes \<Rightarrow> usize \<Rightarrow> u32 \<Rightarrow> governor_failure + bootstrap_inventory_layout" where
  "layout_new sz tenant_count maximum_outstanding =
     (if tenant_count = 0 then Inl InvalidConfiguration else
      and_then (ok_or (try_from usize_max maximum_outstanding) InvalidConfiguration) (\<lambda>outstanding_count.
      if outstanding_count = 0 then Inl InvalidConfiguration else
      and_then (ok_or (Option.bind (checked_add usize_max outstanding_count 63) (\<lambda>cnt. checked_div cnt 64))
                  InvalidConfiguration) (\<lambda>pending_word_count.
      and_then (tenant_payload_bytes sz tenant_count) (\<lambda>tenant_payload.
      and_then (ledger_payload_bytes sz outstanding_count pending_word_count) (\<lambda>ledger_payload.
      and_then (ok_or
          (Option.bind (checked_add usize_max (size_of_authority sz) (size_of_active_segment_scopes sz))
            (\<lambda>bytes. Option.bind (checked_add usize_max bytes tenant_payload)
            (\<lambda>bytes. Option.bind (checked_add usize_max bytes ledger_payload)
            (\<lambda>bytes. try_from u64_max bytes)))) InvalidConfiguration) (\<lambda>memory_bytes.
      Inr \<lparr> layout_tenant_count = tenant_count, layout_outstanding_count = outstanding_count,
            layout_pending_word_count = pending_word_count, layout_memory_bytes = memory_bytes \<rparr>))))))"

definition layout_overhead :: "bootstrap_inventory_layout \<Rightarrow> resource_amounts" where
  "layout_overhead self =
     with_amount (with_amount amounts_zero MemoryBytes (layout_memory_bytes self))
       FileDescriptors RETAINED_PRIMARY_DATA_VOLUME_FILE_DESCRIPTORS"

definition governor_bootstrap_overhead ::
  "type_sizes \<Rightarrow> inventory_cardinality_limits \<Rightarrow> usize \<Rightarrow> governor_failure + resource_amounts" where
  "governor_bootstrap_overhead sz self tenant_quota_count =
     (if tenant_quota_count = 0 \<or> max_tenant_quotas self < tenant_quota_count
      then Inl PolicyCardinalityExceeded
      else and_then (layout_new sz tenant_quota_count (max_outstanding_reservations self))
             (\<lambda>layout. Inr (layout_overhead layout)))"

definition governor_bootstrap_memory_bytes ::
  "type_sizes \<Rightarrow> inventory_cardinality_limits \<Rightarrow> usize \<Rightarrow> governor_failure + u64" where
  "governor_bootstrap_memory_bytes sz self tenant_quota_count =
     and_then (governor_bootstrap_overhead sz self tenant_quota_count)
       (\<lambda>overhead. Inr (amounts_get overhead MemoryBytes))"

definition policy_payload_requirement :: "type_sizes \<Rightarrow> usize \<Rightarrow> governor_failure + resource_amounts" where
  "policy_payload_requirement sz tenant_count =
     and_then (payload_bytes (size_of_tenant_quota sz) tenant_count) (\<lambda>bytes.
     and_then (ok_or (try_from u64_max bytes) InvalidConfiguration) (\<lambda>memory.
     Inr (with_amount amounts_zero MemoryBytes memory)))"

text \<open>
  \<open>grants stage cnt\<close> says whether the allocator returns a vector of exactly the
  requested capacity. An allocation yields an empty vector of that capacity; filling
  it to the capacity makes the boxed conversion succeed.
\<close>

type_synonym allocator = "bootstrap_allocation_stage \<Rightarrow> usize \<Rightarrow> bool"

definition allocate_exact ::
  "allocator \<Rightarrow> usize \<Rightarrow> usize \<Rightarrow> resource_amounts \<Rightarrow> bootstrap_allocation_stage \<Rightarrow>
   bootstrap_allocation_stage option \<Rightarrow> governor_failure + 'a list" where
  "allocate_exact grants element cnt required stage fail_at =
     (if element = 0 then Inl InvalidConfiguration
      else if fail_at = Some stage then Inl (GovernorBootstrapInventoryUnavailable required)
      else if \<not> grants stage cnt then Inl (GovernorBootstrapInventoryUnavailable required)
      else Inr [])"

lemma layout_new_fields:
  assumes "layout_new sz n m = Inr layout"
  shows "layout_tenant_count layout = n" "layout_outstanding_count layout = m" "0 < n" "0 < m"
    "layout_pending_word_count layout = (m + 63) div 64"
  using assms
  by (auto simp: layout_new_def try_from_def checked_div_def Option.bind_eq_Some_conv split: if_splits)

lemma pending_words_cover: "i < m \<Longrightarrow> i div 64 < (m + 63) div (64 :: nat)"
  by (simp add: less_eq_Suc_le div_less_iff_less_mult)

lemma layout_overhead_dimensions:
  "amounts_get (layout_overhead layout) d =
     (if d = FileDescriptors then 2 else if d = MemoryBytes then layout_memory_bytes layout else 0)"
  by (simp add: layout_overhead_def RETAINED_PRIMARY_DATA_VOLUME_FILE_DESCRIPTORS_def)

lemma inventory_from_parts_Inr:
  assumes "inventory_from_parts detected operator reserve limits thr disk binding = Inr stock"
  shows "inv_effective stock = amounts_minimum detected operator"
    "\<And>d. amounts_get reserve d < amounts_get (inv_effective stock) d"
    "inv_recovery_reserve stock = reserve" "inv_cardinality stock = limits"
    "inv_disk_thresholds stock = thr" "inv_initial_disk stock = disk" "inv_volume_binding stock = binding"
  using assms
  by (auto simp: inventory_from_parts_def amounts_checked_sub_iff amounts_all_positive_iff Let_def
      split: if_splits)

end
