(* ===== verification/Pools.thy ===== *)
theory Pools
  imports Inventory
begin

text \<open>
  \<^verbatim>\<open>resource_governor/policy.rs\<close> and \<^verbatim>\<open>pool_admission.rs\<close>: ordinary capacity is
  split into one shared pool and four protected class pools, and every tenant gets
  a weighted share of each. A reservation is charged to the shared pool first and
  to the pool of its class for the rest.
\<close>

section \<open>Pools\<close>

datatype ordinary_pool =
    Shared | Pool_SecurityLifecycle | Pool_Ingest | Pool_InteractiveQueryTail
  | Pool_OrdinaryMaintenanceBackup

fun pool_for_class :: "work_class \<Rightarrow> ordinary_pool option" where
  "pool_for_class DurabilityRecovery = None"
| "pool_for_class SecurityLifecycle = Some Pool_SecurityLifecycle"
| "pool_for_class Ingest = Some Pool_Ingest"
| "pool_for_class InteractiveQueryTail = Some Pool_InteractiveQueryTail"
| "pool_for_class OrdinaryMaintenanceBackup = Some Pool_OrdinaryMaintenanceBackup"

record pool_capacities =
  pools_shared :: resource_amounts
  pools_security :: resource_amounts
  pools_ingest :: resource_amounts
  pools_query :: resource_amounts
  pools_maintenance :: resource_amounts

definition pools_zero :: pool_capacities where
  "pools_zero =
     \<lparr> pools_shared = amounts_zero, pools_security = amounts_zero, pools_ingest = amounts_zero,
       pools_query = amounts_zero, pools_maintenance = amounts_zero \<rparr>"

fun pools_get :: "pool_capacities \<Rightarrow> ordinary_pool \<Rightarrow> resource_amounts" where
  "pools_get self Shared = pools_shared self"
| "pools_get self Pool_SecurityLifecycle = pools_security self"
| "pools_get self Pool_Ingest = pools_ingest self"
| "pools_get self Pool_InteractiveQueryTail = pools_query self"
| "pools_get self Pool_OrdinaryMaintenanceBackup = pools_maintenance self"

fun pools_with :: "pool_capacities \<Rightarrow> ordinary_pool \<Rightarrow> resource_amounts \<Rightarrow> pool_capacities" where
  "pools_with self Shared amounts = self\<lparr> pools_shared := amounts \<rparr>"
| "pools_with self Pool_SecurityLifecycle amounts = self\<lparr> pools_security := amounts \<rparr>"
| "pools_with self Pool_Ingest amounts = self\<lparr> pools_ingest := amounts \<rparr>"
| "pools_with self Pool_InteractiveQueryTail amounts = self\<lparr> pools_query := amounts \<rparr>"
| "pools_with self Pool_OrdinaryMaintenanceBackup amounts = self\<lparr> pools_maintenance := amounts \<rparr>"

definition ORDINARY_POOLS :: "ordinary_pool list" where
  "ORDINARY_POOLS =
     [Shared, Pool_SecurityLifecycle, Pool_Ingest, Pool_InteractiveQueryTail, Pool_OrdinaryMaintenanceBackup]"

definition pools_checked_add :: "pool_capacities \<Rightarrow> pool_capacities \<Rightarrow> pool_capacities option" where
  "pools_checked_add self other =
     try_fold (\<lambda>candidate pool.
         map_option (pools_with candidate pool) (amounts_checked_add (pools_get self pool) (pools_get other pool)))
       pools_zero ORDINARY_POOLS"

definition pools_checked_sub :: "pool_capacities \<Rightarrow> pool_capacities \<Rightarrow> pool_capacities option" where
  "pools_checked_sub self other =
     try_fold (\<lambda>candidate pool.
         map_option (pools_with candidate pool) (amounts_checked_sub (pools_get self pool) (pools_get other pool)))
       pools_zero ORDINARY_POOLS"

definition weighted_floor :: "u64 \<Rightarrow> u16 \<Rightarrow> u64 \<Rightarrow> u64 option" where
  "weighted_floor capacity weight total_weight =
     Option.bind (checked_mul u128_max capacity weight) (\<lambda>numerator.
     Option.bind (checked_div numerator total_weight) (\<lambda>result.
     try_from u64_max result))"

definition pools_fair_share :: "pool_capacities \<Rightarrow> u16 \<Rightarrow> u64 \<Rightarrow> pool_capacities option" where
  "pools_fair_share self weight total_weight =
     (if weight = 0 \<or> total_weight = 0 \<or> total_weight < weight then None
      else try_fold (\<lambda>shares pool.
             let capacity = pools_get self pool in
             map_option (pools_with shares pool)
               (try_build_amounts (\<lambda>d. weighted_floor (amounts_get capacity d) weight total_weight)))
           pools_zero ORDINARY_POOLS)"

section \<open>Policies\<close>

record ordinary_pool_policy =
  policy_security :: resource_amounts
  policy_ingest :: resource_amounts
  policy_query :: resource_amounts
  policy_maintenance :: resource_amounts

definition pool_policy_new ::
  "resource_amounts \<Rightarrow> resource_amounts \<Rightarrow> resource_amounts \<Rightarrow> resource_amounts \<Rightarrow>
   governor_failure + ordinary_pool_policy" where
  "pool_policy_new security ingest query maintenance =
     (if \<not> amounts_all_positive security \<or> \<not> amounts_all_positive ingest
         \<or> \<not> amounts_all_positive query \<or> \<not> amounts_all_positive maintenance
      then Inl InvalidConfiguration
      else and_then
        (for_fold (\<lambda>ingest_strict d.
            if amounts_get security d < amounts_get ingest d \<or> amounts_get ingest d < amounts_get query d
            then Inl InvalidConfiguration
            else Inr (ingest_strict \<or> amounts_get query d < amounts_get ingest d))
          False resource_dimension_all)
        (\<lambda>ingest_strict.
          if \<not> ingest_strict then Inl InvalidConfiguration
          else Inr \<lparr> policy_security = security, policy_ingest = ingest, policy_query = query,
                     policy_maintenance = maintenance \<rparr>))"

definition pool_policy_derive ::
  "ordinary_pool_policy \<Rightarrow> resource_amounts \<Rightarrow> governor_failure + pool_capacities" where
  "pool_policy_derive self ordinary =
     and_then (ok_or
         (Option.bind (amounts_checked_add (policy_security self) (policy_ingest self)) (\<lambda>amounts.
          Option.bind (amounts_checked_add amounts (policy_query self)) (\<lambda>amounts.
          amounts_checked_add amounts (policy_maintenance self)))) InvalidConfiguration) (\<lambda>protected.
     and_then (ok_or (amounts_checked_sub ordinary protected) InvalidConfiguration) (\<lambda>shared.
     if \<not> amounts_all_positive shared then Inl InvalidConfiguration
     else Inr \<lparr> pools_shared = shared, pools_security = policy_security self,
                pools_ingest = policy_ingest self, pools_query = policy_query self,
                pools_maintenance = policy_maintenance self \<rparr>))"

record principal_quota =
  maximum_operations :: u32
  per_operation_limits :: resource_amounts
  aggregate_limits :: resource_amounts

definition principal_quota_new ::
  "u32 \<Rightarrow> resource_amounts \<Rightarrow> resource_amounts \<Rightarrow> governor_failure + principal_quota" where
  "principal_quota_new operations per_operation aggregate =
     (if operations = 0 \<or> amounts_is_empty per_operation \<or> amounts_is_empty aggregate
         \<or> \<not> amounts_is_at_most per_operation aggregate
      then Inl InvalidConfiguration
      else Inr \<lparr> maximum_operations = operations, per_operation_limits = per_operation,
                 aggregate_limits = aggregate \<rparr>)"

record governor_policy =
  policy_tenant_quotas :: "tenant_quota list"
  policy_pools :: ordinary_pool_policy
  policy_principal_quota :: "principal_quota option"

definition governor_policy_new_with_failure ::
  "type_sizes \<Rightarrow> allocator \<Rightarrow> tenant_quota list \<Rightarrow> ordinary_pool_policy \<Rightarrow>
   bootstrap_allocation_stage option \<Rightarrow> governor_failure + governor_policy" where
  "governor_policy_new_with_failure sz grants quotas pools fail_at =
     (let n = length quotas in
      if n = 0 \<or> MAX_TENANT_QUOTAS < n then Inl PolicyCardinalityExceeded else
      and_then (for_each (\<lambda>(index, quota).
          and_then (ok_or (checked_add usize_max index 1) InvalidConfiguration) (\<lambda>remaining.
          if list_ex (\<lambda>candidate. quota_tenant candidate = quota_tenant quota) (drop remaining quotas)
          then Inl InvalidConfiguration else Inr ()))
        (enumerate 0 quotas)) (\<lambda>_.
      and_then (policy_payload_requirement sz n) (\<lambda>required.
      and_then (allocate_exact grants (size_of_tenant_quota sz) n required PolicyTenantQuotas fail_at)
        (\<lambda>tenant_quotas.
      Inr \<lparr> policy_tenant_quotas = tenant_quotas @ quotas, policy_pools = pools,
            policy_principal_quota = None \<rparr>))))"

definition with_principal_quota :: "governor_policy \<Rightarrow> principal_quota \<Rightarrow> governor_policy" where
  "with_principal_quota self quota = self\<lparr> policy_principal_quota := Some quota \<rparr>"

section \<open>Charges\<close>

record pool_charge =
  charge_class_pool :: ordinary_pool
  charge_shared :: resource_amounts
  charge_protected :: resource_amounts

definition pool_charge_new ::
  "ordinary_pool \<Rightarrow> resource_amounts \<Rightarrow> resource_amounts \<Rightarrow> pool_charge" where
  "pool_charge_new class_pool shared protected =
     \<lparr> charge_class_pool = class_pool, charge_shared = shared, charge_protected = protected \<rparr>"

definition pool_charge_capacities :: "pool_charge \<Rightarrow> pool_capacities" where
  "pool_charge_capacities self =
     pools_with (pools_with pools_zero Shared (charge_shared self)) (charge_class_pool self)
       (charge_protected self)"

definition pool_charge_shrink_to :: "pool_charge \<Rightarrow> resource_amounts \<Rightarrow> pool_charge option" where
  "pool_charge_shrink_to self new =
     (case build_split (\<lambda>d.
         let kept_shared = min (amounts_get (charge_shared self) d) (amounts_get new d) in
         and_then (ok_or (checked_sub (amounts_get new d) kept_shared) ()) (\<lambda>kept_protected.
         if amounts_get (charge_protected self) d < kept_protected then Inl ()
         else Inr (kept_shared, kept_protected))) of
        Inl _ \<Rightarrow> None
      | Inr (shared, protected) \<Rightarrow> Some (pool_charge_new (charge_class_pool self) shared protected))"

section \<open>Ordinary pool admission\<close>

record pool_admission =
  pa_global_capacity :: pool_capacities
  pa_global_usage :: pool_capacities
  pa_tenant_capacity :: pool_capacities
  pa_tenant_usage :: pool_capacities

record pool_limit =
  pl_capacity :: pool_capacities
  pl_usage :: pool_capacities
  pl_class_pool :: ordinary_pool

definition available ::
  "pool_capacities \<Rightarrow> pool_capacities \<Rightarrow> ordinary_pool \<Rightarrow> resource_dimension \<Rightarrow> u64 option" where
  "available capacity usage pool d =
     checked_sub (amounts_get (pools_get capacity pool) d) (amounts_get (pools_get usage pool) d)"

definition pool_failure ::
  "admission_failure_code \<Rightarrow> limiting_scope \<Rightarrow> work_class \<Rightarrow> resource_dimension \<Rightarrow> pool_limit \<Rightarrow> u64 \<Rightarrow>
   disk_pressure_state \<Rightarrow> admission_failure" where
  "pool_failure code scope cls d limit requested pressure =
     (let allowed = checked_add u64_max (amounts_get (pools_get (pl_capacity limit) Shared) d)
            (amounts_get (pools_get (pl_capacity limit) (pl_class_pool limit)) d);
          in_use = checked_add u64_max (amounts_get (pools_get (pl_usage limit) Shared) d)
            (amounts_get (pools_get (pl_usage limit) (pl_class_pool limit)) d)
      in case (allowed, in_use) of
           (Some allowed, Some in_use) \<Rightarrow>
             failure_at_pressure code AfterCapacityRelease scope cls pressure
               \<lparr> dl_dimension = Some d, dl_allowed = allowed, dl_in_use = in_use, dl_requested = requested \<rparr>
         | _ \<Rightarrow> internal_failure_at_pressure cls pressure)"

definition pressure_failure ::
  "disk_pressure_state \<Rightarrow> work_class \<Rightarrow> resource_amounts \<Rightarrow> admission_failure" where
  "pressure_failure pressure cls requested =
     failure_at_pressure Code_DiskPressureAdmissionRefused AfterPressureTransition Scope_Policy cls pressure
       \<lparr> dl_dimension = Some DiskHeadroomBytes, dl_allowed = 0, dl_in_use = 0,
         dl_requested = amounts_get requested DiskHeadroomBytes \<rparr>"

definition shutdown_failure :: "work_class \<Rightarrow> disk_pressure_state \<Rightarrow> admission_failure" where
  "shutdown_failure cls pressure =
     failure_at_pressure Code_ShuttingDown Never Scope_Policy cls pressure decision_limit_none"

fun pressure_eligibility ::
  "disk_pressure_state \<Rightarrow> work_class \<Rightarrow> resource_amounts \<Rightarrow> admission_failure + bool" where
  "pressure_eligibility Healthy cls amounts = Inr True"
| "pressure_eligibility SoftPressure cls amounts =
     (case cls of
        SecurityLifecycle \<Rightarrow> Inr True
      | Ingest \<Rightarrow> Inr True
      | InteractiveQueryTail \<Rightarrow> Inr False
      | OrdinaryMaintenanceBackup \<Rightarrow>
          (if amounts_get amounts DiskHeadroomBytes = 0 then Inr False
           else Inl (pressure_failure SoftPressure cls amounts))
      | DurabilityRecovery \<Rightarrow> Inl (pressure_failure SoftPressure cls amounts))"
| "pressure_eligibility HardPressure cls amounts =
     (if cls = Ingest \<or> 0 < amounts_get amounts DiskHeadroomBytes
      then Inl (pressure_failure HardPressure cls amounts)
      else case cls of
        SecurityLifecycle \<Rightarrow> Inr True
      | InteractiveQueryTail \<Rightarrow> Inr False
      | OrdinaryMaintenanceBackup \<Rightarrow> Inr False
      | Ingest \<Rightarrow> Inl (pressure_failure HardPressure cls amounts)
      | DurabilityRecovery \<Rightarrow> Inl (pressure_failure HardPressure cls amounts))"

text \<open>One iteration of the loop over dimensions in \<^verbatim>\<open>plan_pool_charge\<close>.\<close>

definition plan_pool_dimension ::
  "work_class \<Rightarrow> ordinary_pool \<Rightarrow> resource_amounts \<Rightarrow> pool_admission \<Rightarrow> disk_pressure_state \<Rightarrow> bool \<Rightarrow>
   resource_dimension \<Rightarrow> admission_failure + u64 \<times> u64" where
  "plan_pool_dimension cls class_pool requested admission pressure shared_eligible d =
     and_then (ok_or (available (pa_global_capacity admission) (pa_global_usage admission) Shared d)
         (internal_failure_at_pressure cls pressure)) (\<lambda>global_shared.
     and_then (ok_or (available (pa_tenant_capacity admission) (pa_tenant_usage admission) Shared d)
         (internal_failure_at_pressure cls pressure)) (\<lambda>tenant_shared.
     let shared = (if shared_eligible then min (min (amounts_get requested d) global_shared) tenant_shared else 0);
         remainder = amounts_get requested d - shared
     in
     and_then (ok_or (available (pa_global_capacity admission) (pa_global_usage admission) class_pool d)
         (internal_failure_at_pressure cls pressure)) (\<lambda>global_class.
     if global_class < remainder then
       (if \<not> shared_eligible then Inl (pressure_failure pressure cls requested)
        else Inl (pool_failure Code_ClassCapacityUnavailable Scope_ClassHeadroom cls d
               \<lparr> pl_capacity = pa_global_capacity admission, pl_usage = pa_global_usage admission,
                 pl_class_pool = class_pool \<rparr> (amounts_get requested d) pressure))
     else
     and_then (ok_or (available (pa_tenant_capacity admission) (pa_tenant_usage admission) class_pool d)
         (internal_failure_at_pressure cls pressure)) (\<lambda>tenant_class.
     if tenant_class < remainder then
       (if \<not> shared_eligible then Inl (pressure_failure pressure cls requested)
        else Inl (pool_failure Code_TenantFairShareExceeded Scope_TenantFairShare cls d
               \<lparr> pl_capacity = pa_tenant_capacity admission, pl_usage = pa_tenant_usage admission,
                 pl_class_pool = class_pool \<rparr> (amounts_get requested d) pressure))
     else Inr (shared, remainder)))))"

definition plan_pool_charge ::
  "work_class \<Rightarrow> resource_amounts \<Rightarrow> pool_admission \<Rightarrow> disk_pressure_state \<Rightarrow> bool \<Rightarrow>
   admission_failure + pool_charge" where
  "plan_pool_charge cls requested admission pressure shared_eligible =
     (case pool_for_class cls of
        None \<Rightarrow> Inl (internal_failure_at_pressure cls pressure)
      | Some class_pool \<Rightarrow>
          and_then (build_split (plan_pool_dimension cls class_pool requested admission pressure shared_eligible))
            (\<lambda>(shared_charge, class_charge). Inr (pool_charge_new class_pool shared_charge class_charge)))"

section \<open>The pointwise view of a pool vector\<close>

lemma all_pools_iff:
  "(\<forall>pool. P pool) \<longleftrightarrow> P Shared \<and> P Pool_SecurityLifecycle \<and> P Pool_Ingest
     \<and> P Pool_InteractiveQueryTail \<and> P Pool_OrdinaryMaintenanceBackup"
  using ordinary_pool.exhaust by metis

lemma pools_get_with [simp]:
  "pools_get (pools_with c pool a) pool' = (if pool' = pool then a else pools_get c pool')"
  by (cases pool; cases pool') simp_all

lemma pools_get_zero [simp]: "pools_get pools_zero pool = amounts_zero"
  by (cases pool) (simp_all add: pools_zero_def)

lemma pools_eqI:
  assumes "\<And>pool. pools_get c pool = pools_get c' pool"
  shows "c = c'"
  using assms [of Shared] assms [of Pool_SecurityLifecycle] assms [of Pool_Ingest]
    assms [of Pool_InteractiveQueryTail] assms [of Pool_OrdinaryMaintenanceBackup]
  by (cases c; cases c') simp

lemma try_fold_pools_Some_iff:
  "try_fold (\<lambda>acc pool. map_option (pools_with acc pool) (f pool)) pools_zero ORDINARY_POOLS = Some c \<longleftrightarrow>
     (\<forall>pool. f pool = Some (pools_get c pool))"
  by (cases c) (auto simp: ORDINARY_POOLS_def all_pools_iff pools_zero_def split: option.splits)

lemma try_fold_pools_total:
  assumes "\<And>pool. \<exists>a. f pool = Some a"
  shows "\<exists>c. try_fold (\<lambda>acc pool. map_option (pools_with acc pool) (f pool)) pools_zero ORDINARY_POOLS = Some c"
  using assms [of Shared] assms [of Pool_SecurityLifecycle] assms [of Pool_Ingest]
    assms [of Pool_InteractiveQueryTail] assms [of Pool_OrdinaryMaintenanceBackup]
  by (auto simp: ORDINARY_POOLS_def)

fun pool_amount :: "pool_capacities \<Rightarrow> ordinary_pool \<times> resource_dimension \<Rightarrow> u64" where
  "pool_amount c (pool, d) = amounts_get (pools_get c pool) d"

lemma pool_amount_ext:
  assumes "\<And>k. pool_amount c k = pool_amount c' k"
  shows "c = c'"
proof (intro pools_eqI amounts_eqI)
  fix pool d
  show "amounts_get (pools_get c pool) d = amounts_get (pools_get c' pool) d" using assms [of "(pool, d)"] by simp
qed

lemma pools_checked_add_Some_iff:
  "pools_checked_add c a = Some c' \<longleftrightarrow>
     (\<forall>pool. amounts_checked_add (pools_get c pool) (pools_get a pool) = Some (pools_get c' pool))"
  by (simp add: pools_checked_add_def try_fold_pools_Some_iff)

lemma pools_checked_sub_Some_iff:
  "pools_checked_sub c a = Some c' \<longleftrightarrow>
     (\<forall>pool. amounts_checked_sub (pools_get c pool) (pools_get a pool) = Some (pools_get c' pool))"
  by (simp add: pools_checked_sub_def try_fold_pools_Some_iff)

interpretation pools_vec: checked_vector pool_amount pool_amount pools_checked_add pools_checked_sub
proof unfold_locales
  fix v w :: pool_capacities
  assume "\<And>k. pool_amount v k = pool_amount w k"
  then show "v = w" by (rule pool_amount_ext)
next
  fix v c w k
  assume "pools_checked_add v c = Some w"
  then show "pool_amount w k = pool_amount v k + pool_amount c k"
    by (cases k) (simp add: pools_checked_add_Some_iff amounts_checked_add_iff)
next
  fix v c
  assume fits: "\<And>k. pool_amount v k + pool_amount c k \<le> u64_max"
  have "\<exists>w. amounts_checked_add (pools_get v pool) (pools_get c pool) = Some w" for pool
    by (rule amounts_vec.add_defined) (use fits [of "(pool, _)"] in simp)
  then show "\<exists>w. pools_checked_add v c = Some w"
    unfolding pools_checked_add_def by (rule try_fold_pools_total)
next
  fix v c w k
  assume "pools_checked_sub v c = Some w"
  then show "pool_amount v k = pool_amount w k + pool_amount c k"
    by (cases k) (simp add: pools_checked_sub_Some_iff amounts_checked_sub_iff)
next
  fix v c
  assume covers: "\<And>k. pool_amount c k \<le> pool_amount v k"
  have "\<exists>w. amounts_checked_sub (pools_get v pool) (pools_get c pool) = Some w" for pool
    by (rule amounts_vec.sub_defined) (use covers [of "(pool, _)"] in simp)
  then show "\<exists>w. pools_checked_sub v c = Some w"
    unfolding pools_checked_sub_def by (rule try_fold_pools_total)
qed

declare pool_amount.simps [simp del]

section \<open>Weighted shares\<close>

text \<open>The share is the exact floor, never above the capacity, and always fits its width.\<close>

lemma weighted_floor_Some_iff:
  assumes "capacity \<le> u64_max" and "weight \<le> u16_max"
  shows "weighted_floor capacity weight tw = Some x \<longleftrightarrow>
    0 < tw \<and> x = capacity * weight div tw \<and> x \<le> u64_max"
proof -
  have "capacity * weight \<le> u64_max * u16_max" by (rule mult_mono) (use assms in simp_all)
  also have "\<dots> \<le> u128_max" by (simp add: u64_max_def u16_max_def u128_max_def)
  finally show ?thesis
    by (auto simp: weighted_floor_def checked_mul_def checked_div_def try_from_def)
qed

lemma weighted_share_le:
  assumes "weight \<le> tw"
  shows "capacity * weight div tw \<le> (capacity :: nat)"
proof (cases "tw = 0")
  case False
  have "capacity * weight div tw \<le> capacity * tw div tw"
    using assms by (intro div_le_mono mult_le_mono2)
  then show ?thesis using False by simp
qed simp

lemma weighted_floor_total:
  assumes "capacity \<le> u64_max" and "weight \<le> u16_max" and "0 < tw" and "weight \<le> tw"
  shows "weighted_floor capacity weight tw = Some (capacity * weight div tw)"
  using assms weighted_share_le [OF assms(4), of capacity] by (simp add: weighted_floor_Some_iff)

text \<open>Floors of shares with a common denominator never add up to more than the whole.\<close>

lemma sum_shares_le:
  assumes "0 < tw" and "sum_list ws \<le> (tw :: nat)"
  shows "sum_list (map (\<lambda>w. capacity * w div tw) ws) \<le> capacity"
proof -
  have "sum_list (map (\<lambda>w. capacity * w div tw) ws) \<le> capacity * sum_list ws div tw"
  proof (induction ws)
    case (Cons w ws)
    have "capacity * w div tw + capacity * sum_list ws div tw
        \<le> (capacity * w + capacity * sum_list ws) div tw"
      using div_add1_eq [of "capacity * w" "capacity * sum_list ws" tw] by linarith
    then show ?case using Cons.IH by (simp add: distrib_left)
  qed simp
  also have "\<dots> \<le> capacity" using assms(2) by (rule weighted_share_le)
  finally show ?thesis .
qed

lemma pools_fair_share_Some:
  assumes "pools_fair_share c weight tw = Some shares"
  shows "0 < weight" "0 < tw" "weight \<le> tw"
    "\<And>pool d. weighted_floor (amounts_get (pools_get c pool) d) weight tw
       = Some (amounts_get (pools_get shares pool) d)"
  using assms
  by (auto simp: pools_fair_share_def Let_def try_build_amounts_Some_iff
      try_fold_pools_Some_iff [where f = "\<lambda>pool. try_build_amounts
        (\<lambda>d. weighted_floor (amounts_get (pools_get c pool) d) weight tw)"] split: if_splits)

lemma pools_fair_share_total:
  assumes "0 < weight" "weight \<le> u16_max" "weight \<le> tw" "\<And>k. pool_amount c k \<le> u64_max"
  shows "\<exists>shares. pools_fair_share c weight tw = Some shares"
proof -
  have "\<exists>a. try_build_amounts (\<lambda>d. weighted_floor (amounts_get (pools_get c pool) d) weight tw) = Some a" for pool
  proof (rule try_build_amounts_total)
    fix d
    show "\<exists>x. weighted_floor (amounts_get (pools_get c pool) d) weight tw = Some x"
      using assms(1-3) assms(4) [of "(pool, d)"] by (simp add: weighted_floor_total pool_amount.simps)
  qed
  then show ?thesis
    using assms by (auto simp: pools_fair_share_def Let_def intro!: try_fold_pools_total)
qed

section \<open>Policies partition the ordinary ceiling\<close>

lemma pool_policy_derive_Inr:
  assumes "pool_policy_derive policy ordinary = Inr pools"
  shows "amounts_get ordinary d =
      amounts_get (pools_get pools Shared) d + amounts_get (pools_get pools Pool_SecurityLifecycle) d
      + amounts_get (pools_get pools Pool_Ingest) d + amounts_get (pools_get pools Pool_InteractiveQueryTail) d
      + amounts_get (pools_get pools Pool_OrdinaryMaintenanceBackup) d"
    and "0 < amounts_get (pools_get pools Shared) d"
  using assms
  by (auto simp: pool_policy_derive_def Option.bind_eq_Some_conv amounts_checked_add_iff
      amounts_checked_sub_iff dest!: amounts_all_positive_iff [THEN iffD1] split: if_splits)

lemma pool_policy_derive_pool_le:
  assumes "pool_policy_derive policy ordinary = Inr pools"
  shows "pool_amount pools (pool, d) \<le> amounts_get ordinary d"
  using pool_policy_derive_Inr(1) [OF assms, of d] by (cases pool) (simp_all add: pool_amount.simps)

lemma ingest_strict_fold:
  "for_fold (\<lambda>strict d. if P d then Inl e else Inr (strict \<or> Q d)) b ds = Inr c \<longleftrightarrow>
     (\<forall>d \<in> set ds. \<not> P d) \<and> (c \<longleftrightarrow> b \<or> (\<exists>d \<in> set ds. Q d))"
  by (induction ds arbitrary: b) auto

text \<open>The class order of a policy: security dominates ingest, ingest dominates query, strictly somewhere.\<close>

lemma pool_policy_new_Inr_iff:
  "pool_policy_new security ingest query maintenance = Inr policy \<longleftrightarrow>
     policy = \<lparr> policy_security = security, policy_ingest = ingest, policy_query = query,
                policy_maintenance = maintenance \<rparr> \<and>
     amounts_all_positive query \<and> amounts_all_positive maintenance \<and>
     amounts_is_at_most ingest security \<and> amounts_is_at_most query ingest \<and>
     (\<exists>d. amounts_get query d < amounts_get ingest d)"
proof -
  have "amounts_all_positive ingest \<and> amounts_all_positive security"
    if "amounts_all_positive query" "amounts_is_at_most ingest security" "amounts_is_at_most query ingest"
    using that by (meson amounts_all_positive_iff amounts_is_at_most_iff less_le_trans)
  then show ?thesis
    by (auto simp: pool_policy_new_def ingest_strict_fold amounts_is_at_most_iff not_less split: if_splits)
      (meson not_le)
qed

lemma principal_quota_new_Inr:
  assumes "principal_quota_new n per_op agg = Inr quota"
  shows "0 < maximum_operations quota" "\<And>d. amounts_get (per_operation_limits quota) d \<le> amounts_get (aggregate_limits quota) d"
  using assms by (auto simp: principal_quota_new_def amounts_is_at_most_iff split: if_splits)

lemma governor_policy_new_distinct:
  assumes "governor_policy_new_with_failure sz grants quotas pools fail_at = Inr policy"
  shows "policy_tenant_quotas policy = quotas" "distinct (map quota_tenant quotas)"
    "quotas \<noteq> []" "length quotas \<le> MAX_TENANT_QUOTAS"
proof -
  have fresh: "\<forall>(i, q) \<in> set (enumerate 0 quotas).
      \<not> list_ex (\<lambda>c. quota_tenant c = quota_tenant q) (drop (Suc i) quotas)"
    using assms
    by (auto simp: governor_policy_new_with_failure_def Let_def for_each_Inr_iff split: if_splits prod.splits)
  show "distinct (map quota_tenant quotas)"
    unfolding distinct_conv_nth
  proof (intro allI impI)
    fix i j
    assume ij: "i < length (map quota_tenant quotas)" "j < length (map quota_tenant quotas)" "i \<noteq> j"
    have apart: "quota_tenant (quotas ! k) \<noteq> quota_tenant (quotas ! l)" if "k < l" "l < length quotas" for k l
    proof -
      have "(k, quotas ! k) \<in> set (enumerate 0 quotas)" using that by (simp add: in_set_enumerate_eq)
      then have "\<not> list_ex (\<lambda>c. quota_tenant c = quota_tenant (quotas ! k)) (drop (Suc k) quotas)"
        using fresh by auto
      moreover have "quotas ! l \<in> set (drop (Suc k) quotas)"
        using that nth_mem [of "l - Suc k" "drop (Suc k) quotas"] by simp
      ultimately show ?thesis by (auto simp: list_ex_iff)
    qed
    show "map quota_tenant quotas ! i \<noteq> map quota_tenant quotas ! j"
      using ij apart [of i j] apart [of j i] by (cases "i < j") auto
  qed
qed (use assms in \<open>auto simp: governor_policy_new_with_failure_def Let_def allocate_exact_def split: if_splits\<close>)

section \<open>Charges split a request exactly\<close>

lemma pool_for_class_kind [simp]: "pool_for_class (work_kind_class kind) \<noteq> None"
  by (cases kind) simp_all

lemma pool_for_class_not_shared: "pool_for_class cls = Some pool \<Longrightarrow> pool \<noteq> Shared"
  by (cases cls) auto

lemma pool_for_class_inject: "pool_for_class c = Some p \<Longrightarrow> pool_for_class d = Some p \<Longrightarrow> c = d"
  by (cases c; cases d) auto

lemma pool_amount_charge:
  assumes "charge_class_pool c \<noteq> Shared"
  shows "pool_amount (pool_charge_capacities c) (pool, d) =
    (if pool = Shared then amounts_get (charge_shared c) d
     else if pool = charge_class_pool c then amounts_get (charge_protected c) d else 0)"
  using assms by (auto simp: pool_charge_capacities_def pool_amount.simps simp del: pools_with.simps pools_get.simps)

lemma pool_charge_new_simps [simp]:
  "charge_class_pool (pool_charge_new p s r) = p"
  "charge_shared (pool_charge_new p s r) = s"
  "charge_protected (pool_charge_new p s r) = r"
  by (simp_all add: pool_charge_new_def)

text \<open>A shrink keeps what it can in the shared pool and never grows either half.\<close>

lemma pool_charge_shrink_to_Some_iff:
  "pool_charge_shrink_to c new = Some c' \<longleftrightarrow>
     charge_class_pool c' = charge_class_pool c \<and>
     (\<forall>d. amounts_get (charge_shared c') d = min (amounts_get (charge_shared c) d) (amounts_get new d) \<and>
          amounts_get (charge_shared c') d + amounts_get (charge_protected c') d = amounts_get new d \<and>
          amounts_get (charge_protected c') d \<le> amounts_get (charge_protected c) d)"
proof -
  let ?body = "\<lambda>d. let kept_shared = min (amounts_get (charge_shared c) d) (amounts_get new d) in
         and_then (ok_or (checked_sub (amounts_get new d) kept_shared) ()) (\<lambda>kept_protected.
         if amounts_get (charge_protected c) d < kept_protected then Inl ()
         else Inr (kept_shared, kept_protected))"
  have body: "?body d = Inr (s, p) \<longleftrightarrow> s = min (amounts_get (charge_shared c) d) (amounts_get new d) \<and>
      s + p = amounts_get new d \<and> p \<le> amounts_get (charge_protected c) d" for d s p
    by (auto simp: Let_def checked_sub_def)
  have "pool_charge_shrink_to c new = Some c' \<longleftrightarrow>
      build_split ?body = Inr (charge_shared c', charge_protected c') \<and> charge_class_pool c' = charge_class_pool c"
    by (cases c') (auto simp: pool_charge_shrink_to_def pool_charge_new_def split: sum.splits prod.splits)
  also have "\<dots> \<longleftrightarrow> (\<forall>d. ?body d = Inr (amounts_get (charge_shared c') d, amounts_get (charge_protected c') d))
      \<and> charge_class_pool c' = charge_class_pool c"
    by (simp only: build_split_Inr_iff)
  finally show ?thesis by (simp only: body) blast
qed

lemma pool_charge_shrink_to_total:
  assumes "\<And>d. amounts_get new d \<le> amounts_get (charge_shared c) d + amounts_get (charge_protected c) d"
  shows "\<exists>c'. pool_charge_shrink_to c new = Some c'"
proof -
  let ?s = "amounts_minimum (charge_shared c) new"
  have "pool_charge_shrink_to c new = Some (pool_charge_new (charge_class_pool c) ?s (amounts_excess_over new ?s))"
    unfolding pool_charge_shrink_to_Some_iff
  proof (intro conjI allI)
    fix d
    show "amounts_get (charge_protected (pool_charge_new (charge_class_pool c) ?s (amounts_excess_over new ?s))) d
        \<le> amounts_get (charge_protected c) d"
      using assms [of d] by simp
  qed simp_all
  then show ?thesis by blast
qed

section \<open>Planning a charge\<close>

text \<open>
  The plan proceeds exactly when every usage is within its capacity and what the
  shared pools cannot take fits the class pools, globally and for the tenant.
\<close>

definition pool_shared_part :: "bool \<Rightarrow> resource_amounts \<Rightarrow> pool_admission \<Rightarrow> resource_dimension \<Rightarrow> u64" where
  "pool_shared_part shared_eligible requested admission d =
     (if shared_eligible
      then min (min (amounts_get requested d)
             (pool_amount (pa_global_capacity admission) (Shared, d) - pool_amount (pa_global_usage admission) (Shared, d)))
             (pool_amount (pa_tenant_capacity admission) (Shared, d) - pool_amount (pa_tenant_usage admission) (Shared, d))
      else 0)"

definition pool_usage_within :: "pool_admission \<Rightarrow> ordinary_pool \<Rightarrow> resource_dimension \<Rightarrow> bool" where
  "pool_usage_within admission pool d \<longleftrightarrow>
     pool_amount (pa_global_usage admission) (pool, d) \<le> pool_amount (pa_global_capacity admission) (pool, d) \<and>
     pool_amount (pa_tenant_usage admission) (pool, d) \<le> pool_amount (pa_tenant_capacity admission) (pool, d)"

lemma pool_shared_part_le: "pool_shared_part el requested admission d \<le> amounts_get requested d"
  by (auto simp: pool_shared_part_def)

lemma pool_shared_part_fits:
  assumes "pool_usage_within admission Shared d"
  shows "pool_amount (pa_global_usage admission) (Shared, d) + pool_shared_part el requested admission d
      \<le> pool_amount (pa_global_capacity admission) (Shared, d)"
    "pool_amount (pa_tenant_usage admission) (Shared, d) + pool_shared_part el requested admission d
      \<le> pool_amount (pa_tenant_capacity admission) (Shared, d)"
  using assms unfolding pool_usage_within_def pool_shared_part_def by (cases el; simp; linarith)+

lemma available_eq:
  "available capacity usage pool d =
     (if pool_amount usage (pool, d) \<le> pool_amount capacity (pool, d)
      then Some (pool_amount capacity (pool, d) - pool_amount usage (pool, d)) else None)"
  by (simp add: available_def checked_sub_def pool_amount.simps)

lemma plan_pool_dimension_eq:
  "plan_pool_dimension cls class_pool requested admission pressure el d =
     (let global_fits = pool_amount (pa_global_usage admission) (class_pool, d) \<le> pool_amount (pa_global_capacity admission) (class_pool, d);
          tenant_fits = pool_amount (pa_tenant_usage admission) (class_pool, d) \<le> pool_amount (pa_tenant_capacity admission) (class_pool, d);
          shared = pool_shared_part el requested admission d;
          remainder = amounts_get requested d - shared
      in if \<not> pool_usage_within admission Shared d \<or> \<not> global_fits
         then Inl (internal_failure_at_pressure cls pressure)
         else if pool_amount (pa_global_capacity admission) (class_pool, d) - pool_amount (pa_global_usage admission) (class_pool, d) < remainder
         then Inl (if \<not> el then pressure_failure pressure cls requested
                else pool_failure Code_ClassCapacityUnavailable Scope_ClassHeadroom cls d
               \<lparr> pl_capacity = pa_global_capacity admission, pl_usage = pa_global_usage admission,
                 pl_class_pool = class_pool \<rparr> (amounts_get requested d) pressure)
         else if \<not> tenant_fits then Inl (internal_failure_at_pressure cls pressure)
         else if pool_amount (pa_tenant_capacity admission) (class_pool, d) - pool_amount (pa_tenant_usage admission) (class_pool, d) < remainder
         then Inl (if \<not> el then pressure_failure pressure cls requested
                else pool_failure Code_TenantFairShareExceeded Scope_TenantFairShare cls d
               \<lparr> pl_capacity = pa_tenant_capacity admission, pl_usage = pa_tenant_usage admission,
                 pl_class_pool = class_pool \<rparr> (amounts_get requested d) pressure)
         else Inr (shared, remainder))"
  by (cases "pool_amount (pa_global_usage admission) (Shared, d) \<le> pool_amount (pa_global_capacity admission) (Shared, d)";
      cases "pool_amount (pa_tenant_usage admission) (Shared, d) \<le> pool_amount (pa_tenant_capacity admission) (Shared, d)";
      cases "pool_amount (pa_global_usage admission) (class_pool, d) \<le> pool_amount (pa_global_capacity admission) (class_pool, d)";
      cases "pool_amount (pa_tenant_usage admission) (class_pool, d) \<le> pool_amount (pa_tenant_capacity admission) (class_pool, d)";
      cases el;
      simp only: plan_pool_dimension_def available_eq pool_usage_within_def pool_shared_part_def Let_def
        if_True if_False ok_or_simps and_then_simps simp_thms)

lemma plan_pool_dimension_Inr_iff:
  "plan_pool_dimension cls class_pool requested admission pressure el d = Inr (s, r) \<longleftrightarrow>
     pool_usage_within admission Shared d \<and> pool_usage_within admission class_pool d \<and>
     s = pool_shared_part el requested admission d \<and> s + r = amounts_get requested d \<and>
     pool_amount (pa_global_usage admission) (class_pool, d) + r \<le> pool_amount (pa_global_capacity admission) (class_pool, d) \<and>
     pool_amount (pa_tenant_usage admission) (class_pool, d) + r \<le> pool_amount (pa_tenant_capacity admission) (class_pool, d)"
  using pool_shared_part_le [of el requested admission d]
  by (auto simp: plan_pool_dimension_eq Let_def pool_usage_within_def)

lemma plan_pool_charge_Inr_iff:
  "plan_pool_charge cls requested admission pressure el = Inr charge \<longleftrightarrow>
     pool_for_class cls = Some (charge_class_pool charge) \<and>
     (\<forall>d. plan_pool_dimension cls (charge_class_pool charge) requested admission pressure el d
            = Inr (amounts_get (charge_shared charge) d, amounts_get (charge_protected charge) d))"
proof -
  have "plan_pool_charge cls requested admission pressure el = Inr charge \<longleftrightarrow>
      pool_for_class cls = Some (charge_class_pool charge) \<and>
      build_split (plan_pool_dimension cls (charge_class_pool charge) requested admission pressure el)
        = Inr (charge_shared charge, charge_protected charge)"
    by (cases charge) (auto simp: plan_pool_charge_def pool_charge_new_def split: option.splits)
  then show ?thesis by (simp add: build_split_Inr_iff)
qed

lemma plan_pool_charge_exact:
  assumes "plan_pool_charge cls requested admission pressure el = Inr charge"
  shows "pool_for_class cls = Some (charge_class_pool charge)" "charge_class_pool charge \<noteq> Shared"
    "amounts_get (charge_shared charge) d + amounts_get (charge_protected charge) d = amounts_get requested d"
    "amounts_get (charge_shared charge) d = pool_shared_part el requested admission d"
    "pool_amount (pa_global_usage admission) (pool, d) + pool_amount (pool_charge_capacities charge) (pool, d)
       \<le> max (pool_amount (pa_global_capacity admission) (pool, d)) (pool_amount (pa_global_usage admission) (pool, d))"
    "pool_amount (pa_tenant_usage admission) (pool, d) + pool_amount (pool_charge_capacities charge) (pool, d)
       \<le> max (pool_amount (pa_tenant_capacity admission) (pool, d)) (pool_amount (pa_tenant_usage admission) (pool, d))"
proof -
  note facts = assms [unfolded plan_pool_charge_Inr_iff plan_pool_dimension_Inr_iff]
  show cp: "pool_for_class cls = Some (charge_class_pool charge)" using facts by simp
  then show ns: "charge_class_pool charge \<noteq> Shared" by (rule pool_for_class_not_shared)
  show "amounts_get (charge_shared charge) d + amounts_get (charge_protected charge) d = amounts_get requested d"
    "amounts_get (charge_shared charge) d = pool_shared_part el requested admission d"
    using facts by blast+
  show "pool_amount (pa_global_usage admission) (pool, d) + pool_amount (pool_charge_capacities charge) (pool, d)
      \<le> max (pool_amount (pa_global_capacity admission) (pool, d)) (pool_amount (pa_global_usage admission) (pool, d))"
    and "pool_amount (pa_tenant_usage admission) (pool, d) + pool_amount (pool_charge_capacities charge) (pool, d)
      \<le> max (pool_amount (pa_tenant_capacity admission) (pool, d)) (pool_amount (pa_tenant_usage admission) (pool, d))"
    using facts [THEN conjunct2, THEN spec, of d] pool_shared_part_fits [of admission d el requested]
    by (auto simp: pool_amount_charge [OF ns])
qed

text \<open>An internal failure of the plan means that some usage is above its capacity, or that a sum overflowed.\<close>

lemma plan_pool_charge_Inl_cases:
  assumes "plan_pool_charge cls requested admission pressure el = Inl e" and "pool_for_class cls = Some class_pool"
  obtains d where "\<not> pool_usage_within admission Shared d \<or> \<not> pool_usage_within admission class_pool d"
      "e = internal_failure_at_pressure cls pressure"
  | "\<not> el" "e = pressure_failure pressure cls requested"
  | d where "el" "e = pool_failure Code_ClassCapacityUnavailable Scope_ClassHeadroom cls d
               \<lparr> pl_capacity = pa_global_capacity admission, pl_usage = pa_global_usage admission,
                 pl_class_pool = class_pool \<rparr> (amounts_get requested d) pressure"
  | d where "el" "e = pool_failure Code_TenantFairShareExceeded Scope_TenantFairShare cls d
               \<lparr> pl_capacity = pa_tenant_capacity admission, pl_usage = pa_tenant_usage admission,
                 pl_class_pool = class_pool \<rparr> (amounts_get requested d) pressure"
proof -
  obtain d where d: "plan_pool_dimension cls class_pool requested admission pressure el d = Inl e"
    using assms by (auto simp: plan_pool_charge_def and_then_Inl_iff dest!: build_split_Inl)
  then show thesis
    using that unfolding plan_pool_dimension_eq Let_def
    by (auto simp: pool_usage_within_def split: if_splits)
qed

lemma pressure_failure_code [simp]: "af_code (pressure_failure p cls r) = Code_DiskPressureAdmissionRefused"
  by (simp add: pressure_failure_def)

lemma shutdown_failure_code [simp]: "af_code (shutdown_failure cls p) = Code_ShuttingDown"
  by (simp add: shutdown_failure_def)

lemma pressure_eligibility_Inl: "pressure_eligibility p cls a = Inl e \<Longrightarrow> e = pressure_failure p cls a"
  by (cases p; cases cls) (auto split: if_splits)

text \<open>Ordinary work that would grow the disk is refused under hard pressure; ingest is refused altogether.\<close>

lemma pressure_eligibility_hard:
  "pressure_eligibility HardPressure cls a = Inr el \<Longrightarrow> cls \<noteq> Ingest \<and> amounts_get a DiskHeadroomBytes = 0"
  by (cases cls) (auto split: if_splits)

end
