(* ===== verification/RecoveryPools.thy ===== *)
theory RecoveryPools
  imports Pools
begin

text \<open>
  \<^verbatim>\<open>resource_governor/recovery_policy.rs\<close>: one protected pool per recovery kind and
  a shared recovery pool. The array \<^verbatim>\<open>[ResourceAmounts; 7]\<close> indexed by
  \<^verbatim>\<open>RecoveryWorkKind::index\<close> is the record of the seven capacities: the index of a
  kind is always in range (\<open>recovery_kind_index_less\<close>) and distinct kinds have
  distinct indices, so \<^verbatim>\<open>from_raw\<close> is the identity on it.
\<close>

section \<open>Capacities and usage\<close>

record recovery_pool_capacities =
  rp_durability :: resource_amounts
  rp_retention :: resource_amounts
  rp_compaction :: resource_amounts
  rp_purge :: resource_amounts
  rp_repair :: resource_amounts
  rp_fencing :: resource_amounts
  rp_shutdown :: resource_amounts

fun recovery_get :: "recovery_pool_capacities \<Rightarrow> recovery_work_kind \<Rightarrow> resource_amounts" where
  "recovery_get self DurabilityCompletion = rp_durability self"
| "recovery_get self Retention = rp_retention self"
| "recovery_get self EmergencyCompaction = rp_compaction self"
| "recovery_get self Purge = rp_purge self"
| "recovery_get self Repair = rp_repair self"
| "recovery_get self Fencing = rp_fencing self"
| "recovery_get self SafeShutdown = rp_shutdown self"

fun recovery_set ::
  "recovery_pool_capacities \<Rightarrow> recovery_work_kind \<Rightarrow> resource_amounts \<Rightarrow> recovery_pool_capacities" where
  "recovery_set self DurabilityCompletion a = self\<lparr> rp_durability := a \<rparr>"
| "recovery_set self Retention a = self\<lparr> rp_retention := a \<rparr>"
| "recovery_set self EmergencyCompaction a = self\<lparr> rp_compaction := a \<rparr>"
| "recovery_set self Purge a = self\<lparr> rp_purge := a \<rparr>"
| "recovery_set self Repair a = self\<lparr> rp_repair := a \<rparr>"
| "recovery_set self Fencing a = self\<lparr> rp_fencing := a \<rparr>"
| "recovery_set self SafeShutdown a = self\<lparr> rp_shutdown := a \<rparr>"

definition recovery_zero :: recovery_pool_capacities where
  "recovery_zero =
     \<lparr> rp_durability = amounts_zero, rp_retention = amounts_zero, rp_compaction = amounts_zero,
       rp_purge = amounts_zero, rp_repair = amounts_zero, rp_fencing = amounts_zero,
       rp_shutdown = amounts_zero \<rparr>"

definition protected_sum :: "recovery_pool_capacities \<Rightarrow> resource_amounts option" where
  "protected_sum self =
     try_fold (\<lambda>acc kind. amounts_checked_add acc (recovery_get self kind)) amounts_zero recovery_kind_all"

definition recovery_pool_capacities_new ::
  "resource_amounts \<Rightarrow> resource_amounts \<Rightarrow> resource_amounts \<Rightarrow> resource_amounts \<Rightarrow> resource_amounts \<Rightarrow>
   resource_amounts \<Rightarrow> resource_amounts \<Rightarrow> governor_failure + recovery_pool_capacities" where
  "recovery_pool_capacities_new durability retention compaction purge repair fencing shutdown =
     (let candidate =
        \<lparr> rp_durability = durability, rp_retention = retention, rp_compaction = compaction,
          rp_purge = purge, rp_repair = repair, rp_fencing = fencing, rp_shutdown = shutdown \<rparr>
      in if list_ex (\<lambda>kind. \<not> amounts_all_positive (recovery_get candidate kind)) recovery_kind_all
         then Inl InvalidConfiguration
         else and_then (ok_or (protected_sum candidate) InvalidConfiguration) (\<lambda>_. Inr candidate))"

record recovery_pool_usage =
  rpu_shared :: resource_amounts
  rpu_protected :: recovery_pool_capacities

definition recovery_usage_zero :: recovery_pool_usage where
  "recovery_usage_zero = \<lparr> rpu_shared = amounts_zero, rpu_protected = recovery_zero \<rparr>"

definition usage_protected :: "recovery_pool_usage \<Rightarrow> recovery_work_kind \<Rightarrow> resource_amounts" where
  "usage_protected self kind = recovery_get (rpu_protected self) kind"

record recovery_pool_charge =
  rc_kind :: recovery_work_kind
  rc_shared :: resource_amounts
  rc_protected :: resource_amounts

definition recovery_usage_checked_add ::
  "recovery_pool_usage \<Rightarrow> recovery_pool_charge \<Rightarrow> recovery_pool_usage option" where
  "recovery_usage_checked_add self charge =
     Option.bind (amounts_checked_add (rpu_shared self) (rc_shared charge)) (\<lambda>shared.
     Option.bind (amounts_checked_add (recovery_get (rpu_protected self) (rc_kind charge)) (rc_protected charge)) (\<lambda>slot.
     Some (self\<lparr> rpu_shared := shared, rpu_protected := recovery_set (rpu_protected self) (rc_kind charge) slot \<rparr>)))"

definition recovery_usage_checked_sub ::
  "recovery_pool_usage \<Rightarrow> recovery_pool_charge \<Rightarrow> recovery_pool_usage option" where
  "recovery_usage_checked_sub self charge =
     Option.bind (amounts_checked_sub (rpu_shared self) (rc_shared charge)) (\<lambda>shared.
     Option.bind (amounts_checked_sub (recovery_get (rpu_protected self) (rc_kind charge)) (rc_protected charge)) (\<lambda>slot.
     Some (self\<lparr> rpu_shared := shared, rpu_protected := recovery_set (rpu_protected self) (rc_kind charge) slot \<rparr>)))"

section \<open>Planning a recovery charge\<close>

datatype recovery_pool_limit = Limit_Global resource_dimension | Limit_Scope resource_dimension | Limit_Internal

record recovery_pool_view =
  view_shared_capacity :: resource_amounts
  view_protected_capacity :: resource_amounts
  view_usage :: recovery_pool_usage
  view_shared_occupied_by_ordinary :: resource_amounts

text \<open>One iteration of the loop over dimensions in \<^verbatim>\<open>plan_recovery_charge\<close>.\<close>

definition plan_recovery_dimension ::
  "recovery_work_kind \<Rightarrow> resource_amounts \<Rightarrow> recovery_pool_view \<Rightarrow> recovery_pool_view \<Rightarrow>
   resource_dimension \<Rightarrow> recovery_pool_limit + u64 \<times> u64" where
  "plan_recovery_dimension kind requested global scope d =
     and_then (ok_or (Option.bind
         (checked_sub (amounts_get (view_shared_capacity global) d) (amounts_get (rpu_shared (view_usage global)) d))
         (\<lambda>available. checked_sub available (amounts_get (view_shared_occupied_by_ordinary global) d)))
       Limit_Internal) (\<lambda>shared_available.
     and_then (ok_or (Option.bind
         (checked_sub (amounts_get (view_shared_capacity scope) d) (amounts_get (rpu_shared (view_usage scope)) d))
         (\<lambda>available. checked_sub available (amounts_get (view_shared_occupied_by_ordinary scope) d)))
       Limit_Internal) (\<lambda>scope_shared_available.
     and_then (ok_or (checked_sub (amounts_get (view_protected_capacity global) d)
         (amounts_get (usage_protected (view_usage global) kind) d)) Limit_Internal) (\<lambda>protected_available.
     and_then (ok_or (checked_sub (amounts_get (view_protected_capacity scope) d)
         (amounts_get (usage_protected (view_usage scope) kind) d)) Limit_Internal) (\<lambda>scope_protected_available.
     and_then (ok_or (checked_add u64_max shared_available protected_available) Limit_Internal) (\<lambda>global_available.
     and_then (ok_or (checked_add u64_max scope_shared_available scope_protected_available) Limit_Internal) (\<lambda>scope_available.
     if global_available < amounts_get requested d then Inl (Limit_Global d)
     else if scope_available < amounts_get requested d then Inl (Limit_Scope d)
     else
     let requested_amount = amounts_get requested d in
     and_then (if protected_available < requested_amount
               then ok_or (checked_sub requested_amount protected_available) Limit_Internal
               else Inr 0) (\<lambda>global_required_shared.
     and_then (if scope_protected_available < requested_amount
               then ok_or (checked_sub requested_amount scope_protected_available) Limit_Internal
               else Inr 0) (\<lambda>scope_required_shared.
     let lower_shared = max global_required_shared scope_required_shared;
         upper_shared = min (min requested_amount shared_available) scope_shared_available
     in if upper_shared < lower_shared
        then (if upper_shared < global_required_shared then Inl (Limit_Global d) else Inl (Limit_Scope d))
        else and_then (ok_or (checked_sub requested_amount upper_shared) Limit_Internal) (\<lambda>remainder.
             Inr (upper_shared, remainder))))))))))"

definition plan_recovery_charge ::
  "recovery_work_kind \<Rightarrow> resource_amounts \<Rightarrow> recovery_pool_view \<Rightarrow> recovery_pool_view \<Rightarrow>
   recovery_pool_limit + recovery_pool_charge" where
  "plan_recovery_charge kind requested global scope =
     and_then (build_split (plan_recovery_dimension kind requested global scope))
       (\<lambda>(shared, protected). Inr \<lparr> rc_kind = kind, rc_shared = shared, rc_protected = protected \<rparr>)"

section \<open>The pointwise view\<close>

lemma recovery_get_set [simp]:
  "recovery_get (recovery_set c k a) k' = (if k' = k then a else recovery_get c k')"
  by (cases k; cases k') simp_all

lemma recovery_get_zero [simp]: "recovery_get recovery_zero k = amounts_zero"
  by (cases k) (simp_all add: recovery_zero_def)

lemma recovery_eqI:
  assumes "\<And>k. recovery_get c k = recovery_get c' k"
  shows "c = c'"
  using assms [of DurabilityCompletion] assms [of Retention] assms [of EmergencyCompaction]
    assms [of Purge] assms [of Repair] assms [of Fencing] assms [of SafeShutdown]
  by (cases c; cases c') simp

text \<open>The total protected capacity is the exact sum over the kinds.\<close>

definition protected_total :: "recovery_pool_capacities \<Rightarrow> resource_dimension \<Rightarrow> nat" where
  "protected_total c d = sum_list (map (\<lambda>k. amounts_get (recovery_get c k) d) recovery_kind_all)"

lemma try_fold_amounts_sum:
  "try_fold (\<lambda>acc k. amounts_checked_add acc (f k)) a ks = Some c \<Longrightarrow>
     amounts_get c d = amounts_get a d + sum_list (map (\<lambda>k. amounts_get (f k) d) ks)"
  by (induction ks arbitrary: a) (auto simp: amounts_checked_add_iff split: option.splits)

lemma protected_sum_Some: "protected_sum c = Some s \<Longrightarrow> amounts_get s d = protected_total c d"
  by (auto simp: protected_sum_def protected_total_def dest: try_fold_amounts_sum)

lemma protected_total_ge: "amounts_get (recovery_get c k) d \<le> protected_total c d"
  unfolding protected_total_def by (rule member_le_sum_list) auto

text \<open>The accounts of a recovery pool vector: the shared pool, and one protected pool per kind.\<close>

datatype recovery_pool = RShared | RProtected recovery_work_kind

fun recovery_amount :: "recovery_pool_usage \<Rightarrow> recovery_pool \<times> resource_dimension \<Rightarrow> u64" where
  "recovery_amount u (RShared, d) = amounts_get (rpu_shared u) d"
| "recovery_amount u (RProtected k, d) = amounts_get (recovery_get (rpu_protected u) k) d"

fun recovery_charge_amount :: "recovery_pool_charge \<Rightarrow> recovery_pool \<times> resource_dimension \<Rightarrow> u64" where
  "recovery_charge_amount c (RShared, d) = amounts_get (rc_shared c) d"
| "recovery_charge_amount c (RProtected k, d) = (if k = rc_kind c then amounts_get (rc_protected c) d else 0)"

lemma recovery_amount_ext:
  assumes "\<And>k. recovery_amount u k = recovery_amount u' k"
  shows "u = u'"
proof -
  have "rpu_shared u = rpu_shared u'"
    by (rule amounts_eqI) (use assms [of "(RShared, _)"] in simp)
  moreover have "rpu_protected u = rpu_protected u'"
  proof (intro recovery_eqI amounts_eqI)
    fix k d
    show "amounts_get (recovery_get (rpu_protected u) k) d = amounts_get (recovery_get (rpu_protected u') k) d"
      using assms [of "(RProtected k, d)"] by simp
  qed
  ultimately show ?thesis by (cases u; cases u') simp
qed

lemma recovery_usage_zero_amount [simp]: "recovery_amount recovery_usage_zero k = 0"
  by (cases k; cases "fst k") (auto simp: recovery_usage_zero_def)

interpretation recovery_vec:
  checked_vector recovery_amount recovery_charge_amount recovery_usage_checked_add recovery_usage_checked_sub
proof unfold_locales
  fix v w :: recovery_pool_usage
  assume "\<And>k. recovery_amount v k = recovery_amount w k"
  then show "v = w" by (rule recovery_amount_ext)
next
  fix v c w k
  assume "recovery_usage_checked_add v c = Some w"
  then show "recovery_amount w k = recovery_amount v k + recovery_charge_amount c k"
    by (cases k; cases "fst k")
      (auto simp: recovery_usage_checked_add_def Option.bind_eq_Some_conv amounts_checked_add_iff)
next
  fix v c
  assume fits: "\<And>k. recovery_amount v k + recovery_charge_amount c k \<le> u64_max"
  obtain s where "amounts_checked_add (rpu_shared v) (rc_shared c) = Some s"
    using amounts_vec.add_defined [of "rpu_shared v" "rc_shared c"] fits [of "(RShared, _)"] by auto
  moreover obtain p where
    "amounts_checked_add (recovery_get (rpu_protected v) (rc_kind c)) (rc_protected c) = Some p"
    using amounts_vec.add_defined [of "recovery_get (rpu_protected v) (rc_kind c)" "rc_protected c"]
      fits [of "(RProtected (rc_kind c), _)"] by auto
  ultimately show "\<exists>w. recovery_usage_checked_add v c = Some w"
    by (simp add: recovery_usage_checked_add_def)
next
  fix v c w k
  assume "recovery_usage_checked_sub v c = Some w"
  then show "recovery_amount v k = recovery_amount w k + recovery_charge_amount c k"
    by (cases k; cases "fst k")
      (auto simp: recovery_usage_checked_sub_def Option.bind_eq_Some_conv amounts_checked_sub_iff)
next
  fix v c
  assume covers: "\<And>k. recovery_charge_amount c k \<le> recovery_amount v k"
  obtain s where "amounts_checked_sub (rpu_shared v) (rc_shared c) = Some s"
    using amounts_vec.sub_defined [of "rc_shared c" "rpu_shared v"] covers [of "(RShared, _)"] by auto
  moreover obtain p where
    "amounts_checked_sub (recovery_get (rpu_protected v) (rc_kind c)) (rc_protected c) = Some p"
    using amounts_vec.sub_defined [of "rc_protected c" "recovery_get (rpu_protected v) (rc_kind c)"]
      covers [of "(RProtected (rc_kind c), _)"] by auto
  ultimately show "\<exists>w. recovery_usage_checked_sub v c = Some w"
    by (simp add: recovery_usage_checked_sub_def)
qed

section \<open>What the recovery plan guarantees\<close>

definition shared_room :: "recovery_pool_view \<Rightarrow> resource_dimension \<Rightarrow> nat" where
  "shared_room v d =
     amounts_get (view_shared_capacity v) d - amounts_get (rpu_shared (view_usage v)) d
       - amounts_get (view_shared_occupied_by_ordinary v) d"

definition protected_room :: "recovery_work_kind \<Rightarrow> recovery_pool_view \<Rightarrow> resource_dimension \<Rightarrow> nat" where
  "protected_room kind v d =
     amounts_get (view_protected_capacity v) d - amounts_get (usage_protected (view_usage v) kind) d"

definition view_within :: "recovery_work_kind \<Rightarrow> recovery_pool_view \<Rightarrow> resource_dimension \<Rightarrow> bool" where
  "view_within kind v d \<longleftrightarrow>
     amounts_get (rpu_shared (view_usage v)) d + amounts_get (view_shared_occupied_by_ordinary v) d
       \<le> amounts_get (view_shared_capacity v) d \<and>
     amounts_get (usage_protected (view_usage v) kind) d \<le> amounts_get (view_protected_capacity v) d \<and>
     shared_room v d + protected_room kind v d \<le> u64_max"

text \<open>A split \<open>(s, p)\<close> of a request that both views can hold.\<close>

definition fits_views ::
  "recovery_work_kind \<Rightarrow> recovery_pool_view \<Rightarrow> recovery_pool_view \<Rightarrow> resource_dimension \<Rightarrow> u64 \<Rightarrow> u64 \<Rightarrow> bool" where
  "fits_views kind global scope d s p \<longleftrightarrow>
     s \<le> shared_room global d \<and> s \<le> shared_room scope d \<and>
     p \<le> protected_room kind global d \<and> p \<le> protected_room kind scope d"

lemma view_shared_eq:
  "Option.bind (checked_sub (amounts_get (view_shared_capacity v) d) (amounts_get (rpu_shared (view_usage v)) d))
      (\<lambda>a. checked_sub a (amounts_get (view_shared_occupied_by_ordinary v) d)) =
    (if amounts_get (rpu_shared (view_usage v)) d + amounts_get (view_shared_occupied_by_ordinary v) d
        \<le> amounts_get (view_shared_capacity v) d then Some (shared_room v d) else None)"
  by (auto simp: checked_sub_def shared_room_def)

lemma view_protected_eq:
  "checked_sub (amounts_get (view_protected_capacity v) d) (amounts_get (usage_protected (view_usage v) kind) d) =
    (if amounts_get (usage_protected (view_usage v) kind) d \<le> amounts_get (view_protected_capacity v) d
     then Some (protected_room kind v d) else None)"
  by (simp add: checked_sub_def protected_room_def)

text \<open>The arithmetic of one dimension, once the four rooms are known.\<close>

definition split_rooms :: "resource_dimension \<Rightarrow> u64 \<Rightarrow> u64 \<Rightarrow> u64 \<Rightarrow> u64 \<Rightarrow> u64 \<Rightarrow> recovery_pool_limit + u64 \<times> u64" where
  "split_rooms d req gs ss gp sp =
     (if gs + gp < req then Inl (Limit_Global d)
      else if ss + sp < req then Inl (Limit_Scope d)
      else let upper = min (min req gs) ss in
        if upper < max (req - gp) (req - sp)
        then (if upper < req - gp then Inl (Limit_Global d) else Inl (Limit_Scope d))
        else Inr (upper, req - upper))"

lemma split_rooms_Inr_iff:
  "split_rooms d req gs ss gp sp = Inr (s, p) \<longleftrightarrow>
     s = min (min req gs) ss \<and> s + p = req \<and> p \<le> gp \<and> p \<le> sp"
proof -
  define u where "u = min (min req gs) ss"
  have "u \<le> req" "u \<le> gs" "u \<le> ss" by (simp_all add: u_def)
  then show ?thesis
    unfolding split_rooms_def Let_def u_def [symmetric] less_max_iff_disj by auto
qed

lemma split_rooms_Inl: "split_rooms d req gs ss gp sp = Inl e \<Longrightarrow> e \<noteq> Limit_Internal"
  unfolding split_rooms_def Let_def by (simp only: sum.inject split: if_splits) blast+

lemma required_shared_eq:
  "(if b < a then ok_or (checked_sub a b) e else Inr 0) = Inr (a - b)" for a b :: nat
  by (auto simp: checked_sub_def)

lemma plan_recovery_dimension_eq:
  "plan_recovery_dimension kind requested global scope d =
     (if view_within kind global d \<and> view_within kind scope d
      then split_rooms d (amounts_get requested d) (shared_room global d) (shared_room scope d)
             (protected_room kind global d) (protected_room kind scope d)
      else Inl Limit_Internal)"
proof (cases "view_within kind global d \<and> view_within kind scope d")
  case True
  have sub: "checked_sub a (min (min a b) c) = Some (a - min (min a b) c)" for a b c :: nat
    by (simp add: checked_sub_def)
  show ?thesis
    using True
    by (simp only: plan_recovery_dimension_def view_shared_eq view_protected_eq view_within_def checked_add_def
        split_rooms_def required_shared_eq sub Let_def if_True if_False ok_or_simps and_then_simps simp_thms)
next
  case False
  then show ?thesis
    unfolding plan_recovery_dimension_def view_shared_eq view_protected_eq view_within_def
    by (auto simp: checked_add_def)
qed

lemma plan_recovery_dimension_Inr_iff:
  "plan_recovery_dimension kind requested global scope d = Inr (s, p) \<longleftrightarrow>
     view_within kind global d \<and> view_within kind scope d \<and>
     s = min (min (amounts_get requested d) (shared_room global d)) (shared_room scope d) \<and>
     s + p = amounts_get requested d \<and> fits_views kind global scope d s p"
  by (auto simp: plan_recovery_dimension_eq split_rooms_Inr_iff fits_views_def)

lemma plan_recovery_charge_Inr_iff:
  "plan_recovery_charge kind requested global scope = Inr charge \<longleftrightarrow>
     rc_kind charge = kind \<and>
     (\<forall>d. plan_recovery_dimension kind requested global scope d
            = Inr (amounts_get (rc_shared charge) d, amounts_get (rc_protected charge) d))"
proof -
  have "plan_recovery_charge kind requested global scope = Inr charge \<longleftrightarrow> rc_kind charge = kind \<and>
      build_split (plan_recovery_dimension kind requested global scope) = Inr (rc_shared charge, rc_protected charge)"
    by (cases charge) (auto simp: plan_recovery_charge_def)
  then show ?thesis by (simp add: build_split_Inr_iff)
qed

text \<open>Whenever any split fits both views, the plan finds one, and it takes as much from the shared pools as any.\<close>

lemma plan_recovery_dimension_complete:
  assumes "view_within kind global d" "view_within kind scope d"
    and "s + p = amounts_get requested d" "fits_views kind global scope d s p"
  shows "\<exists>s' p'. plan_recovery_dimension kind requested global scope d = Inr (s', p') \<and> s \<le> s'"
proof -
  let ?s = "min (min (amounts_get requested d) (shared_room global d)) (shared_room scope d)"
  have "s \<le> ?s" using assms(3,4) by (simp add: fits_views_def)
  then have "plan_recovery_dimension kind requested global scope d = Inr (?s, amounts_get requested d - ?s)"
    using assms by (auto simp: plan_recovery_dimension_Inr_iff fits_views_def)
  with \<open>s \<le> ?s\<close> show ?thesis by blast
qed

lemma plan_recovery_charge_Internal_iff:
  "plan_recovery_charge kind requested global scope = Inl Limit_Internal \<Longrightarrow>
     \<exists>d. \<not> view_within kind global d \<or> \<not> view_within kind scope d"
  by (auto simp: plan_recovery_charge_def and_then_Inl_iff plan_recovery_dimension_eq
      dest!: build_split_Inl split_rooms_Inl split: if_splits)

lemma room_fits:
  assumes "view_within kind v d"
  shows "s \<le> shared_room v d \<Longrightarrow> amounts_get (rpu_shared (view_usage v)) d
      + amounts_get (view_shared_occupied_by_ordinary v) d + s \<le> amounts_get (view_shared_capacity v) d"
    and "p \<le> protected_room kind v d \<Longrightarrow>
      amounts_get (usage_protected (view_usage v) kind) d + p \<le> amounts_get (view_protected_capacity v) d"
  using assms unfolding view_within_def shared_room_def protected_room_def by linarith+

lemma plan_recovery_charge_exact:
  assumes "plan_recovery_charge kind requested global scope = Inr charge"
  shows "rc_kind charge = kind"
    "amounts_get (rc_shared charge) d + amounts_get (rc_protected charge) d = amounts_get requested d"
    "amounts_get (rpu_shared (view_usage global)) d + amounts_get (view_shared_occupied_by_ordinary global) d
       + amounts_get (rc_shared charge) d \<le> amounts_get (view_shared_capacity global) d"
    "amounts_get (usage_protected (view_usage global) kind) d + amounts_get (rc_protected charge) d
       \<le> amounts_get (view_protected_capacity global) d"
    "amounts_get (rpu_shared (view_usage scope)) d + amounts_get (view_shared_occupied_by_ordinary scope) d
       + amounts_get (rc_shared charge) d \<le> amounts_get (view_shared_capacity scope) d"
    "amounts_get (usage_protected (view_usage scope) kind) d + amounts_get (rc_protected charge) d
       \<le> amounts_get (view_protected_capacity scope) d"
proof -
  have dims: "view_within kind global d \<and> view_within kind scope d \<and>
      amounts_get (rc_shared charge) d + amounts_get (rc_protected charge) d = amounts_get requested d \<and>
      fits_views kind global scope d (amounts_get (rc_shared charge) d) (amounts_get (rc_protected charge) d)"
    using assms unfolding plan_recovery_charge_Inr_iff plan_recovery_dimension_Inr_iff by blast
  show "rc_kind charge = kind" using assms by (simp add: plan_recovery_charge_Inr_iff)
  show "amounts_get (rc_shared charge) d + amounts_get (rc_protected charge) d = amounts_get requested d"
    using dims by blast
  show "amounts_get (rpu_shared (view_usage global)) d + amounts_get (view_shared_occupied_by_ordinary global) d
      + amounts_get (rc_shared charge) d \<le> amounts_get (view_shared_capacity global) d"
    "amounts_get (usage_protected (view_usage global) kind) d + amounts_get (rc_protected charge) d
      \<le> amounts_get (view_protected_capacity global) d"
    "amounts_get (rpu_shared (view_usage scope)) d + amounts_get (view_shared_occupied_by_ordinary scope) d
      + amounts_get (rc_shared charge) d \<le> amounts_get (view_shared_capacity scope) d"
    "amounts_get (usage_protected (view_usage scope) kind) d + amounts_get (rc_protected charge) d
      \<le> amounts_get (view_protected_capacity scope) d"
    using dims room_fits [of kind global d] room_fits [of kind scope d] unfolding fits_views_def by blast+
qed

end
