(* ===== verification/Fairness.thy ===== *)
theory Fairness
  imports RecoveryPools
begin

text \<open>
  \<^verbatim>\<open>resource_governor/fairness.rs\<close>: the capacity partition derived from the tenant
  weights. Each tenant gets the floor of its weighted share of every pool; what the
  tenants do not get of a recovery pool is the system's part.
\<close>

section \<open>Derivation\<close>

definition total_weight :: "tenant_quota list \<Rightarrow> governor_failure + u64" where
  "total_weight quotas =
     ok_or (Option.bind (try_fold (\<lambda>sum quota. checked_add u64_max sum (quota_weight quota)) 0 quotas)
         (\<lambda>weight. if 0 < weight then Some weight else None))
       InvalidConfiguration"

definition ordinary_capacities ::
  "tenant_quota list \<Rightarrow> pool_capacities \<Rightarrow> u64 \<Rightarrow> pool_capacities list \<Rightarrow> governor_failure + pool_capacities list" where
  "ordinary_capacities quotas pools weight_sum capacities =
     for_fold (\<lambda>capacities quota.
         and_then (ok_or (pools_fair_share pools (quota_weight quota) weight_sum) InvalidConfiguration)
           (\<lambda>share. Inr (capacities @ [share])))
       capacities quotas"

definition weighted_amounts :: "resource_amounts \<Rightarrow> u16 \<Rightarrow> u64 \<Rightarrow> resource_amounts option" where
  "weighted_amounts amounts weight weight_sum =
     try_build_amounts (\<lambda>d. weighted_floor (amounts_get amounts d) weight weight_sum)"

definition amount_capacities ::
  "tenant_quota list \<Rightarrow> resource_amounts \<Rightarrow> u64 \<Rightarrow> resource_amounts list \<Rightarrow> governor_failure + resource_amounts list" where
  "amount_capacities quotas amounts weight_sum capacities =
     for_fold (\<lambda>capacities quota.
         and_then (ok_or (weighted_amounts amounts (quota_weight quota) weight_sum) InvalidConfiguration)
           (\<lambda>share. Inr (capacities @ [share])))
       capacities quotas"

text \<open>A loop over the recovery kinds that fills the array of seven vectors.\<close>

definition build_recovery ::
  "(recovery_work_kind \<Rightarrow> 'e + resource_amounts) \<Rightarrow> 'e + recovery_pool_capacities" where
  "build_recovery f =
     for_fold (\<lambda>values kind. and_then (f kind) (\<lambda>slot. Inr (recovery_set values kind slot)))
       recovery_zero recovery_kind_all"

definition recovery_kind_share ::
  "recovery_pool_capacities \<Rightarrow> u64 \<Rightarrow> tenant_quota \<Rightarrow> recovery_work_kind \<Rightarrow> governor_failure + resource_amounts" where
  "recovery_kind_share pools weight_sum quota kind =
     and_then
       (if permits_tenant_scope kind \<and> permits_system_scope kind
        then ok_or (amounts_checked_sub (recovery_get pools kind) (amounts_uniform 1))
               (SystemRecoveryProgressUnavailable kind MemoryBytes)
        else if permits_tenant_scope kind then Inr (recovery_get pools kind)
        else Inr amounts_zero) (\<lambda>tenant_capacity.
     and_then (ok_or (weighted_amounts tenant_capacity (quota_weight quota) weight_sum) InvalidConfiguration) (\<lambda>share.
     and_then
       (if permits_tenant_scope kind
        then for_each (\<lambda>d.
            if amounts_get share d = 0
            then Inl (TenantProgressUnavailable (quota_tenant quota) DurabilityRecovery d)
            else Inr ()) resource_dimension_all
        else Inr ()) (\<lambda>_.
     Inr share)))"

definition recovery_fair_capacities ::
  "tenant_quota list \<Rightarrow> recovery_pool_capacities \<Rightarrow> u64 \<Rightarrow> recovery_pool_capacities list \<Rightarrow>
   governor_failure + recovery_pool_capacities list" where
  "recovery_fair_capacities quotas pools weight_sum capacities =
     for_fold (\<lambda>capacities quota.
         and_then (build_recovery (recovery_kind_share pools weight_sum quota))
           (\<lambda>values. Inr (capacities @ [values])))
       capacities quotas"

definition validate_system_recovery_progress ::
  "tenant_quota list \<Rightarrow> recovery_pool_capacities \<Rightarrow> governor_failure + unit" where
  "validate_system_recovery_progress quotas pools =
     and_then (ok_or (try_from u64_max (length quotas)) InvalidConfiguration) (\<lambda>tenant_count.
     for_each (\<lambda>kind.
         if \<not> permits_system_scope kind then Inr () else
         and_then (if permits_tenant_scope kind
                   then ok_or (checked_add u64_max tenant_count 1) InvalidConfiguration
                   else Inr 1) (\<lambda>required.
         for_each (\<lambda>d.
             if amounts_get (recovery_get pools kind) d < required
             then Inl (SystemRecoveryProgressUnavailable kind d) else Inr ())
           resource_dimension_all))
       recovery_kind_all)"

definition system_kind_capacity ::
  "recovery_pool_capacities \<Rightarrow> recovery_pool_capacities list \<Rightarrow> recovery_work_kind \<Rightarrow>
   governor_failure + resource_amounts" where
  "system_kind_capacity pools tenant_floors kind =
     and_then
       (if permits_system_scope kind \<and> permits_tenant_scope kind
        then for_fold (\<lambda>reserved floors.
               ok_or (amounts_checked_add reserved (recovery_get floors kind)) InvalidConfiguration)
             amounts_zero tenant_floors
        else Inr amounts_zero) (\<lambda>reserved.
     and_then (ok_or (amounts_checked_sub (recovery_get pools kind) reserved) InvalidConfiguration) (\<lambda>slot.
     and_then
       (if permits_system_scope kind
        then for_each (\<lambda>d.
            if amounts_get slot d = 0 then Inl (SystemRecoveryProgressUnavailable kind d) else Inr ())
          resource_dimension_all
        else Inr ()) (\<lambda>_.
     Inr slot)))"

definition system_recovery_capacities ::
  "recovery_pool_capacities \<Rightarrow> recovery_pool_capacities list \<Rightarrow> governor_failure + recovery_pool_capacities" where
  "system_recovery_capacities pools tenant_floors = build_recovery (system_kind_capacity pools tenant_floors)"

definition progress_classes :: "work_class list" where
  "progress_classes = [SecurityLifecycle, Ingest, InteractiveQueryTail, OrdinaryMaintenanceBackup]"

definition validate_progress ::
  "tenant_quota list \<Rightarrow> pool_capacities list \<Rightarrow> u32 \<Rightarrow> governor_failure + unit" where
  "validate_progress quotas fair maximum_outstanding =
     and_then (ok_or (try_from u32_max (length quotas)) InvalidConfiguration) (\<lambda>tenant_count.
     and_then (ok_or (checked_add u32_max tenant_count WORK_CLASS_COUNT) InvalidConfiguration) (\<lambda>required.
     if maximum_outstanding < required
     then Inl (InsufficientOutstandingProgress maximum_outstanding required)
     else for_each (\<lambda>(index, quota).
         and_then (ok_or (slice_get fair index) InvalidConfiguration) (\<lambda>pool_share.
         for_each (\<lambda>cls.
             and_then (ok_or (pool_for_class cls) InvalidConfiguration) (\<lambda>class_pool.
             for_each (\<lambda>d.
                 and_then (ok_or (checked_add u64_max (amounts_get (pools_get pool_share Shared) d)
                     (amounts_get (pools_get pool_share class_pool) d)) InvalidConfiguration) (\<lambda>accessible.
                 if accessible = 0 then Inl (TenantProgressUnavailable (quota_tenant quota) cls d)
                 else Inr ()))
               resource_dimension_all))
           progress_classes))
       (enumerate 0 quotas)))"

section \<open>Shares never exceed the whole\<close>

lemma total_weight_Inr:
  assumes "total_weight quotas = Inr tw"
  shows "tw = sum_list (map quota_weight quotas)" "0 < tw" "tw \<le> u64_max"
proof -
  have "try_fold (\<lambda>s q. checked_add u64_max s (quota_weight q)) 0 quotas = Some tw" and pos: "0 < tw"
    using assms by (auto simp: total_weight_def Option.bind_eq_Some_conv split: if_splits)
  then show "tw = sum_list (map quota_weight quotas)" "0 < tw" "tw \<le> u64_max"
    by (auto simp: try_fold_checked_sum)
qed

lemma weight_le_sum: "q \<in> set quotas \<Longrightarrow> quota_weight q \<le> sum_list (map quota_weight quotas)"
  by (rule member_le_sum_list) auto

lemma weighted_floor_Some: "weighted_floor c w t = Some x \<Longrightarrow> x = c * w div t \<and> 0 < t"
  by (auto simp: weighted_floor_def checked_mul_def checked_div_def try_from_def
      Option.bind_eq_Some_conv split: if_splits)

lemma sum_list_floors:
  assumes "list_all2 (\<lambda>q x. g x = capacity * quota_weight q div tw) quotas xs"
  shows "sum_list (map g xs) = sum_list (map (\<lambda>w. capacity * w div tw) (map quota_weight quotas))"
  using assms by (induction rule: list_all2_induct) simp_all

lemma floors_le:
  assumes "total_weight quotas = Inr tw"
    and "list_all2 (\<lambda>q x. g x = capacity * quota_weight q div tw) quotas xs"
  shows "sum_list (map g xs) \<le> capacity"
  unfolding sum_list_floors [OF assms(2)]
  by (rule sum_shares_le) (use total_weight_Inr [OF assms(1)] in simp_all)

lemma ordinary_capacities_Inr:
  assumes "ordinary_capacities quotas pools tw [] = Inr caps"
  shows "length caps = length quotas"
    "list_all2 (\<lambda>q c. pool_amount c (pool, d) = pool_amount pools (pool, d) * quota_weight q div tw) quotas caps"
proof -
  have all: "list_all2 (\<lambda>q c. pools_fair_share pools (quota_weight q) tw = Some c) quotas caps"
    using assms by (simp add: ordinary_capacities_def for_push_Inr_iff)
  then show "length caps = length quotas" by (simp add: list_all2_lengthD)
  from all show "list_all2 (\<lambda>q c. pool_amount c (pool, d) = pool_amount pools (pool, d) * quota_weight q div tw) quotas caps"
    by (rule list_all2_mono) (auto simp: pool_amount.simps dest!: pools_fair_share_Some(4) weighted_floor_Some)
qed

text \<open>The ordinary fair shares of all tenants fit together into every pool.\<close>

lemma ordinary_capacities_sum_le:
  assumes "total_weight quotas = Inr tw" and "ordinary_capacities quotas pools tw [] = Inr caps"
  shows "sum_list (map (\<lambda>c. pool_amount c (pool, d)) caps) \<le> pool_amount pools (pool, d)"
  by (rule floors_le [OF assms(1) ordinary_capacities_Inr(2) [OF assms(2)]])

lemma weighted_amounts_Some:
  "weighted_amounts a w tw = Some share \<Longrightarrow> amounts_get share d = amounts_get a d * w div tw"
  by (auto simp: weighted_amounts_def try_build_amounts_Some_iff dest!: weighted_floor_Some)

lemma amount_capacities_Inr:
  assumes "amount_capacities quotas a tw [] = Inr caps"
  shows "length caps = length quotas"
    "list_all2 (\<lambda>q c. amounts_get c d = amounts_get a d * quota_weight q div tw) quotas caps"
proof -
  have all: "list_all2 (\<lambda>q c. weighted_amounts a (quota_weight q) tw = Some c) quotas caps"
    using assms by (simp add: amount_capacities_def for_push_Inr_iff)
  then show "length caps = length quotas" by (simp add: list_all2_lengthD)
  from all show "list_all2 (\<lambda>q c. amounts_get c d = amounts_get a d * quota_weight q div tw) quotas caps"
    by (rule list_all2_mono) (simp add: weighted_amounts_Some)
qed

lemma amount_capacities_sum_le:
  assumes "total_weight quotas = Inr tw" and "amount_capacities quotas a tw [] = Inr caps"
  shows "sum_list (map (\<lambda>c. amounts_get c d) caps) \<le> amounts_get a d"
  by (rule floors_le [OF assms(1) amount_capacities_Inr(2) [OF assms(2)]])

section \<open>Recovery shares\<close>

lemma all_kinds_iff:
  "(\<forall>k. P k) \<longleftrightarrow> P DurabilityCompletion \<and> P Retention \<and> P EmergencyCompaction \<and> P Purge
     \<and> P Repair \<and> P Fencing \<and> P SafeShutdown"
  using recovery_work_kind.exhaust by metis

lemma build_recovery_Inr_iff: "build_recovery f = Inr c \<longleftrightarrow> (\<forall>k. f k = Inr (recovery_get c k))"
proof -
  have "build_recovery f = Inr c \<longleftrightarrow> (\<exists>a1 a2 a3 a4 a5 a6 a7.
      f DurabilityCompletion = Inr a1 \<and> f Retention = Inr a2 \<and> f EmergencyCompaction = Inr a3 \<and>
      f Purge = Inr a4 \<and> f Repair = Inr a5 \<and> f Fencing = Inr a6 \<and> f SafeShutdown = Inr a7 \<and>
      c = \<lparr> rp_durability = a1, rp_retention = a2, rp_compaction = a3, rp_purge = a4, rp_repair = a5,
            rp_fencing = a6, rp_shutdown = a7 \<rparr>)"
    by (auto simp: build_recovery_def recovery_kind_all_def recovery_zero_def)
  then show ?thesis by (cases c) (auto simp: all_kinds_iff)
qed

lemma build_recovery_total:
  assumes "\<And>k. \<exists>a. f k = Inr a"
  shows "\<exists>c. build_recovery f = Inr c"
  using assms [of DurabilityCompletion] assms [of Retention] assms [of EmergencyCompaction]
    assms [of Purge] assms [of Repair] assms [of Fencing] assms [of SafeShutdown]
  by (auto simp: build_recovery_def recovery_kind_all_def)

text \<open>Kinds with both scopes keep one unit of every dimension back for the system.\<close>

definition tenant_part :: "recovery_pool_capacities \<Rightarrow> recovery_work_kind \<Rightarrow> resource_dimension \<Rightarrow> nat" where
  "tenant_part pools k d =
     (if permits_tenant_scope k \<and> permits_system_scope k then amounts_get (recovery_get pools k) d - 1
      else if permits_tenant_scope k then amounts_get (recovery_get pools k) d else 0)"

lemma recovery_kind_share_Inr:
  assumes "recovery_kind_share pools tw quota k = Inr share"
  shows "amounts_get share d = tenant_part pools k d * quota_weight quota div tw"
    and "permits_tenant_scope k \<Longrightarrow> 0 < amounts_get share d"
    and "permits_tenant_scope k \<Longrightarrow> permits_system_scope k \<Longrightarrow> 0 < amounts_get (recovery_get pools k) d"
proof -
  obtain cap where cap: "(if permits_tenant_scope k \<and> permits_system_scope k
        then ok_or (amounts_checked_sub (recovery_get pools k) (amounts_uniform 1))
               (SystemRecoveryProgressUnavailable k MemoryBytes)
        else if permits_tenant_scope k then Inr (recovery_get pools k) else Inr amounts_zero) = Inr cap"
    and share: "weighted_amounts cap (quota_weight quota) tw = Some share"
    and pos: "permits_tenant_scope k \<longrightarrow> (\<forall>d. amounts_get share d \<noteq> 0)"
    using assms unfolding recovery_kind_share_def
    by (auto simp: for_each_Inr_iff split: if_splits)
  have "amounts_get cap d = tenant_part pools k d"
    and "permits_tenant_scope k \<Longrightarrow> permits_system_scope k \<Longrightarrow> 0 < amounts_get (recovery_get pools k) d"
    using cap by (auto simp: tenant_part_def amounts_checked_sub_iff split: if_splits)
  then show "amounts_get share d = tenant_part pools k d * quota_weight quota div tw"
    "permits_tenant_scope k \<Longrightarrow> 0 < amounts_get share d"
    "permits_tenant_scope k \<Longrightarrow> permits_system_scope k \<Longrightarrow> 0 < amounts_get (recovery_get pools k) d"
    using weighted_amounts_Some [OF share, of d] pos by (simp, metis gr0I, blast)
qed

lemma recovery_fair_capacities_Inr:
  assumes "recovery_fair_capacities quotas pools tw [] = Inr caps"
  shows "length caps = length quotas"
    "list_all2 (\<lambda>q c. amounts_get (recovery_get c k) d = tenant_part pools k d * quota_weight q div tw) quotas caps"
    "\<And>c. c \<in> set caps \<Longrightarrow> permits_tenant_scope k \<Longrightarrow> 0 < amounts_get (recovery_get c k) d"
proof -
  have all: "list_all2 (\<lambda>q c. \<forall>k. recovery_kind_share pools tw q k = Inr (recovery_get c k)) quotas caps"
    using assms by (simp add: recovery_fair_capacities_def for_push_Inr_iff build_recovery_Inr_iff)
  then show "length caps = length quotas" by (simp add: list_all2_lengthD)
  from all show "list_all2 (\<lambda>q c. amounts_get (recovery_get c k) d = tenant_part pools k d * quota_weight q div tw) quotas caps"
    by (rule list_all2_mono) (blast dest: recovery_kind_share_Inr(1))
  fix c
  assume "c \<in> set caps" "permits_tenant_scope k"
  then obtain i where "i < length caps" "c = caps ! i" by (auto simp: in_set_conv_nth)
  with all have "recovery_kind_share pools tw (quotas ! i) k = Inr (recovery_get c k)"
    by (simp add: list_all2_conv_all_nth)
  then show "0 < amounts_get (recovery_get c k) d" using \<open>permits_tenant_scope k\<close> by (rule recovery_kind_share_Inr(2))
qed

lemma recovery_floors_le:
  assumes "total_weight quotas = Inr tw" and "recovery_fair_capacities quotas pools tw [] = Inr caps"
  shows "sum_list (map (\<lambda>c. amounts_get (recovery_get c k) d) caps) \<le> tenant_part pools k d"
  by (rule floors_le [OF assms(1) recovery_fair_capacities_Inr(2) [OF assms(2)]])

lemma for_fold_reserved_Inr:
  "for_fold (\<lambda>reserved floors. ok_or (amounts_checked_add reserved (f floors)) e) a caps = Inr c \<Longrightarrow>
     amounts_get c d = amounts_get a d + sum_list (map (\<lambda>x. amounts_get (f x) d) caps)"
  by (induction caps arbitrary: a) (auto simp: amounts_checked_add_iff)

lemma for_fold_reserved_total:
  assumes "\<And>d. amounts_get a d + sum_list (map (\<lambda>x. amounts_get (f x) d) caps) \<le> u64_max"
  shows "\<exists>c. for_fold (\<lambda>reserved floors. ok_or (amounts_checked_add reserved (f floors)) e) a caps = Inr c"
  using assms
proof (induction caps arbitrary: a)
  case Nil
  show ?case by simp
next
  case (Cons x caps)
  have "amounts_get a d + amounts_get (f x) d \<le> u64_max" for d using Cons.prems [of d] by simp
  then obtain b where b: "amounts_checked_add a (f x) = Some b" using amounts_vec.add_defined by blast
  have "amounts_get b d + sum_list (map (\<lambda>x. amounts_get (f x) d) caps) \<le> u64_max" for d
    using Cons.prems [of d] amounts_vec.add_Some [OF b, of d] by simp
  then show ?case using Cons.IH [of b] b by simp
qed

definition both_scopes :: "recovery_work_kind \<Rightarrow> bool" where
  "both_scopes k \<longleftrightarrow> permits_system_scope k \<and> permits_tenant_scope k"

lemma system_kind_capacity_Inr_iff:
  "system_kind_capacity pools floors k = Inr slot \<Longrightarrow>
     amounts_get (recovery_get pools k) d = amounts_get slot d +
       (if both_scopes k then sum_list (map (\<lambda>c. amounts_get (recovery_get c k) d) floors) else 0) \<and>
     (permits_system_scope k \<longrightarrow> 0 < amounts_get slot d)"
  by (auto simp: system_kind_capacity_def both_scopes_def amounts_checked_sub_iff for_each_Inr_iff
      dest: for_fold_reserved_Inr [where d = d] split: if_splits)

lemma system_recovery_capacities_Inr:
  assumes "system_recovery_capacities pools floors = Inr sys"
  shows "amounts_get (recovery_get pools k) d = amounts_get (recovery_get sys k) d +
       (if both_scopes k then sum_list (map (\<lambda>c. amounts_get (recovery_get c k) d) floors) else 0)"
    "permits_system_scope k \<Longrightarrow> 0 < amounts_get (recovery_get sys k) d"
  using assms system_kind_capacity_Inr_iff [of pools floors k "recovery_get sys k" d]
  by (auto simp: system_recovery_capacities_def build_recovery_Inr_iff)

text \<open>
  The system's part can always be derived from admissible tenant floors: the unit
  kept back is what makes it positive.
\<close>

lemma system_recovery_capacities_total:
  assumes tw: "total_weight quotas = Inr tw" and fair: "recovery_fair_capacities quotas pools tw [] = Inr caps"
    and pos: "\<And>k. amounts_all_positive (recovery_get pools k)"
    and fits: "\<And>k d. amounts_get (recovery_get pools k) d \<le> u64_max"
  shows "\<exists>sys. system_recovery_capacities pools caps = Inr sys"
  unfolding system_recovery_capacities_def
proof (rule build_recovery_total)
  fix k
  have ppos: "0 < amounts_get (recovery_get pools k) d" for d
    using pos [of k] by (simp add: amounts_all_positive_iff)
  show "\<exists>a. system_kind_capacity pools caps k = Inr a"
  proof (cases "both_scopes k")
    case True
    have sum: "sum_list (map (\<lambda>c. amounts_get (recovery_get c k) d) caps) < amounts_get (recovery_get pools k) d" for d
      using recovery_floors_le [OF tw fair, of k d] True ppos [of d]
      by (simp add: tenant_part_def both_scopes_def)
    have "amounts_get amounts_zero d + sum_list (map (\<lambda>c. amounts_get (recovery_get c k) d) caps) \<le> u64_max" for d
      using sum [of d] fits [of k d] by simp
    then obtain r where r: "for_fold (\<lambda>reserved floors.
        ok_or (amounts_checked_add reserved (recovery_get floors k)) InvalidConfiguration) amounts_zero caps = Inr r"
      using for_fold_reserved_total [of amounts_zero "\<lambda>c. recovery_get c k" caps InvalidConfiguration] by auto
    have less: "amounts_get r d < amounts_get (recovery_get pools k) d" for d
      using for_fold_reserved_Inr [OF r, of d] sum [of d] by simp
    obtain slot where slot: "amounts_checked_sub (recovery_get pools k) r = Some slot"
      using amounts_vec.sub_defined [of r "recovery_get pools k"] less by (meson less_imp_le)
    have "amounts_get slot d \<noteq> 0" for d
      using amounts_vec.sub_Some [OF slot, of d] less [of d] by simp
    then have "for_each (\<lambda>d. if amounts_get slot d = 0 then Inl (SystemRecoveryProgressUnavailable k d) else Inr ())
        resource_dimension_all = Inr ()"
      by (simp add: for_each_Inr_iff)
    then show ?thesis using True r slot by (simp add: system_kind_capacity_def both_scopes_def)
  next
    case False
    have "amounts_checked_sub (recovery_get pools k) amounts_zero = Some (recovery_get pools k)"
      by (simp add: amounts_checked_sub_iff)
    moreover have "for_each (\<lambda>d. if amounts_get (recovery_get pools k) d = 0
        then Inl (SystemRecoveryProgressUnavailable k d) else Inr ()) resource_dimension_all = Inr ()"
      using ppos by (simp add: for_each_Inr_iff)
    ultimately show ?thesis using False by (auto simp: system_kind_capacity_def both_scopes_def)
  qed
qed

section \<open>Progress\<close>

text \<open>Every class of every tenant can reach at least one unit of every dimension.\<close>

lemma validate_progress_Inr:
  assumes "validate_progress quotas fair maximum = Inr u"
  shows "length quotas + 5 \<le> maximum"
    "i < length quotas \<Longrightarrow> i < length fair \<and>
       (\<forall>cls pool d. pool_for_class cls = Some pool \<longrightarrow>
          0 < pool_amount (fair ! i) (Shared, d) + pool_amount (fair ! i) (pool, d))"
proof -
  show "length quotas + 5 \<le> maximum"
    using assms by (auto simp: validate_progress_def WORK_CLASS_COUNT_def try_from_def split: if_splits)
  assume i: "i < length quotas"
  then have "(i, quotas ! i) \<in> set (enumerate 0 quotas)" by (simp add: in_set_enumerate_eq)
  then have reach: "i < length fair \<and> (\<forall>cls \<in> set progress_classes. \<forall>pool d. pool_for_class cls = Some pool \<longrightarrow>
      0 < pool_amount (fair ! i) (Shared, d) + pool_amount (fair ! i) (pool, d))"
    using assms unfolding validate_progress_def
    by (fastforce simp: for_each_Inr_iff pool_amount.simps split: if_splits prod.splits)
  have "cls \<in> set progress_classes" if "pool_for_class cls = Some pool" for cls pool
    using that by (cases cls) (simp_all add: progress_classes_def)
  with reach show "i < length fair \<and> (\<forall>cls pool d. pool_for_class cls = Some pool \<longrightarrow>
      0 < pool_amount (fair ! i) (Shared, d) + pool_amount (fair ! i) (pool, d))" by metis
qed

end
