(* ===== verification/Ledger.thy ===== *)
theory Ledger
  imports Fairness "HOL-Library.Word"
begin

text \<open>
  \<^verbatim>\<open>resource_governor/ledger.rs\<close>, \<^verbatim>\<open>ledger/drop_ledger.rs\<close> and the state of
  \<^verbatim>\<open>accounting.rs\<close>: the preallocated grant ledger. The mutex-protected
  \<^verbatim>\<open>AccountingState\<close> is a record with the fields of the struct; the \<open>governor\<close>
  extends it with the atomics beside the mutex (the drop ledger, the published
  pressure and the contention counter), so that one value is the whole mutable
  state of a \<^verbatim>\<open>GovernorInner\<close>. The immutable fields are \<open>governor_config\<close>.
\<close>

unbundle bit_operations_syntax

section \<open>Charges and grant records\<close>

datatype charge_attribution = Charge_Ordinary usize | Charge_Recovery "usize option"

record charge_owner =
  owner_attribution :: charge_attribution
  owner_pools :: "pool_charge option"
  owner_recovery_pools :: "recovery_pool_charge option"

definition SLOT_FREE :: u8 where "SLOT_FREE = 0"
definition SLOT_ACTIVE :: u8 where "SLOT_ACTIVE = 1"
definition SLOT_RELEASE_PENDING :: u8 where "SLOT_RELEASE_PENDING = 2"
definition SYSTEM_TENANT_INDEX :: u16 where "SYSTEM_TENANT_INDEX = u16_max"

lemma slot_signals_distinct [simp]:
  "SLOT_FREE \<noteq> SLOT_ACTIVE" "SLOT_ACTIVE \<noteq> SLOT_FREE" "SLOT_FREE \<noteq> SLOT_RELEASE_PENDING"
  "SLOT_RELEASE_PENDING \<noteq> SLOT_FREE" "SLOT_ACTIVE \<noteq> SLOT_RELEASE_PENDING"
  "SLOT_RELEASE_PENDING \<noteq> SLOT_ACTIVE"
  by (simp_all add: SLOT_FREE_def SLOT_ACTIVE_def SLOT_RELEASE_PENDING_def)

datatype grant_kind =
    Grant_SecurityLifecycle | Grant_Ingest | Grant_InteractiveQueryTail | Grant_OrdinaryMaintenanceBackup
  | Grant_DurabilityCompletion | Grant_Retention | Grant_EmergencyCompaction | Grant_Purge
  | Grant_Repair | Grant_Fencing | Grant_SafeShutdown

fun grant_from_ordinary :: "work_kind \<Rightarrow> grant_kind" where
  "grant_from_ordinary Kind_SecurityLifecycle = Grant_SecurityLifecycle"
| "grant_from_ordinary Kind_Ingest = Grant_Ingest"
| "grant_from_ordinary Kind_InteractiveQueryTail = Grant_InteractiveQueryTail"
| "grant_from_ordinary Kind_OrdinaryMaintenanceBackup = Grant_OrdinaryMaintenanceBackup"

fun grant_from_recovery :: "recovery_work_kind \<Rightarrow> grant_kind" where
  "grant_from_recovery DurabilityCompletion = Grant_DurabilityCompletion"
| "grant_from_recovery Retention = Grant_Retention"
| "grant_from_recovery EmergencyCompaction = Grant_EmergencyCompaction"
| "grant_from_recovery Purge = Grant_Purge"
| "grant_from_recovery Repair = Grant_Repair"
| "grant_from_recovery Fencing = Grant_Fencing"
| "grant_from_recovery SafeShutdown = Grant_SafeShutdown"

fun grant_ordinary_kind :: "grant_kind \<Rightarrow> work_kind option" where
  "grant_ordinary_kind Grant_SecurityLifecycle = Some Kind_SecurityLifecycle"
| "grant_ordinary_kind Grant_Ingest = Some Kind_Ingest"
| "grant_ordinary_kind Grant_InteractiveQueryTail = Some Kind_InteractiveQueryTail"
| "grant_ordinary_kind Grant_OrdinaryMaintenanceBackup = Some Kind_OrdinaryMaintenanceBackup"
| "grant_ordinary_kind _ = None"

fun grant_recovery_kind :: "grant_kind \<Rightarrow> recovery_work_kind option" where
  "grant_recovery_kind Grant_DurabilityCompletion = Some DurabilityCompletion"
| "grant_recovery_kind Grant_Retention = Some Retention"
| "grant_recovery_kind Grant_EmergencyCompaction = Some EmergencyCompaction"
| "grant_recovery_kind Grant_Purge = Some Purge"
| "grant_recovery_kind Grant_Repair = Some Repair"
| "grant_recovery_kind Grant_Fencing = Some Fencing"
| "grant_recovery_kind Grant_SafeShutdown = Some SafeShutdown"
| "grant_recovery_kind _ = None"

datatype operation_record = Root u64 bool u16 | Child u16 u64

record grant_record =
  gr_amounts :: resource_amounts
  gr_shared :: resource_amounts
  gr_tenant_index :: u16
  gr_tenant :: "tenant_id option"
  gr_principal :: "principal_id option"
  gr_kind :: grant_kind
  gr_operation :: "operation_record option"

definition grant_record_new ::
  "charge_owner \<Rightarrow> reservation_identity \<Rightarrow> resource_amounts \<Rightarrow> operation_record option \<Rightarrow> grant_record option" where
  "grant_record_new owner identity amounts operation =
     map_option (\<lambda>(tenant_index, tenant, prin, kind, shared).
         \<lparr> gr_amounts = amounts, gr_shared = shared, gr_tenant_index = tenant_index, gr_tenant = tenant,
           gr_principal = prin, gr_kind = kind, gr_operation = operation \<rparr>)
       (case (owner_attribution owner, identity) of
          (Charge_Ordinary tenant_index, Ordinary tenant prin kind) \<Rightarrow>
            Option.bind (try_from u16_max tenant_index) (\<lambda>index.
            Option.bind (owner_pools owner) (\<lambda>pools.
            Some (index, Some tenant, prin, grant_from_ordinary kind, charge_shared pools)))
        | (Charge_Recovery tenant_index, Recovery scope kind) \<Rightarrow>
            Option.bind (case tenant_index of None \<Rightarrow> Some SYSTEM_TENANT_INDEX
                         | Some i \<Rightarrow> try_from u16_max i) (\<lambda>index.
            Option.bind (owner_recovery_pools owner) (\<lambda>pools.
            Some (index, None, None, grant_from_recovery kind, rc_shared pools)))
        | _ \<Rightarrow> None)"

definition record_tenant_index :: "grant_record \<Rightarrow> usize option" where
  "record_tenant_index self =
     (if gr_tenant_index self = SYSTEM_TENANT_INDEX then None else Some (gr_tenant_index self))"

definition is_operation_root :: "grant_record \<Rightarrow> bool" where
  "is_operation_root self = (case gr_operation self of Some (Root _ _ _) \<Rightarrow> True | _ \<Rightarrow> False)"

definition root_token :: "grant_record \<Rightarrow> nat \<Rightarrow> u16 \<Rightarrow> operation_token option" where
  "root_token self authority slot =
     (case gr_operation self of
        Some (Root generation _ _) \<Rightarrow>
          Option.bind (gr_tenant self) (\<lambda>tenant.
          Option.bind (gr_principal self) (\<lambda>prin.
          Option.bind (grant_ordinary_kind (gr_kind self)) (\<lambda>kind.
          Some \<lparr> token_authority = authority, token_root_slot = slot, token_generation = generation,
                 token_tenant = tenant, token_principal = prin, token_kind = kind \<rparr>)))
      | _ \<Rightarrow> None)"

definition released_root :: "grant_record \<Rightarrow> grant_record option" where
  "released_root self =
     (case gr_operation self of
        Some (Root generation _ child_count) \<Rightarrow>
          Some (self\<lparr> gr_amounts := amounts_zero, gr_shared := amounts_zero,
                      gr_operation := Some (Root generation False child_count) \<rparr>)
      | _ \<Rightarrow> None)"

definition increment_root_child :: "grant_record \<Rightarrow> grant_record option" where
  "increment_root_child self =
     (case gr_operation self of
        Some (Root generation True child_count) \<Rightarrow>
          map_option (\<lambda>n. self\<lparr> gr_operation := Some (Root generation True n) \<rparr>)
            (checked_add u16_max child_count 1)
      | _ \<Rightarrow> None)"

definition decrement_root_child :: "grant_record \<Rightarrow> (grant_record \<times> bool) option" where
  "decrement_root_child self =
     (case gr_operation self of
        Some (Root generation accepting_children child_count) \<Rightarrow>
          map_option (\<lambda>remaining.
              (self\<lparr> gr_operation := Some (Root generation accepting_children remaining) \<rparr>,
               \<not> accepting_children \<and> remaining = 0))
            (checked_sub child_count 1)
      | _ \<Rightarrow> None)"

definition record_is_ordinary :: "grant_record \<Rightarrow> bool" where
  "record_is_ordinary self = (grant_ordinary_kind (gr_kind self) \<noteq> None)"

definition record_class :: "grant_record \<Rightarrow> work_class" where
  "record_class self =
     (case grant_ordinary_kind (gr_kind self) of Some kind \<Rightarrow> work_kind_class kind | None \<Rightarrow> DurabilityRecovery)"

definition record_recovery_kind :: "grant_record \<Rightarrow> recovery_work_kind option" where
  "record_recovery_kind self = grant_recovery_kind (gr_kind self)"

definition record_owner :: "grant_record \<Rightarrow> charge_owner option" where
  "record_owner self =
     Option.bind (amounts_checked_sub (gr_amounts self) (gr_shared self)) (\<lambda>protected.
     case grant_ordinary_kind (gr_kind self) of
       Some kind \<Rightarrow>
         Option.bind (pool_for_class (work_kind_class kind)) (\<lambda>class_pool.
         Option.bind (record_tenant_index self) (\<lambda>index.
         Some \<lparr> owner_attribution = Charge_Ordinary index,
                owner_pools = Some (pool_charge_new class_pool (gr_shared self) protected),
                owner_recovery_pools = None \<rparr>))
     | None \<Rightarrow>
         Option.bind (grant_recovery_kind (gr_kind self)) (\<lambda>kind.
         Some \<lparr> owner_attribution = Charge_Recovery (record_tenant_index self),
                owner_pools = None,
                owner_recovery_pools = Some \<lparr> rc_kind = kind, rc_shared = gr_shared self, rc_protected = protected \<rparr> \<rparr>))"

definition record_replaced ::
  "grant_record \<Rightarrow> charge_owner \<Rightarrow> reservation_identity \<Rightarrow> resource_amounts \<Rightarrow> grant_record option" where
  "record_replaced self owner identity amounts =
     Option.bind (grant_record_new owner identity amounts (gr_operation self)) (\<lambda>replacement.
     if gr_kind replacement = gr_kind self \<and> gr_tenant_index replacement = gr_tenant_index self
        \<and> gr_tenant replacement = gr_tenant self \<and> gr_principal replacement = gr_principal self
     then Some replacement else None)"

section \<open>Governor state\<close>

record governor_config =
  g_authority :: nat
  g_raw_effective :: resource_amounts
  g_bootstrap_overhead :: resource_amounts
  g_total_ceiling :: resource_amounts
  g_ordinary_ceiling :: resource_amounts
  g_principal_quota :: "principal_quota option"
  g_recovery_reserve :: resource_amounts
  g_maximum_outstanding :: u32
  g_pool_capacities :: pool_capacities
  g_recovery_pool_capacities :: recovery_pool_capacities
  g_recovery_shared_capacity :: resource_amounts
  g_disk_thresholds :: disk_pressure_thresholds

record accounting_state =
  pending_tenant :: "tenant_id option"
  tenant_quotas :: "tenant_quota list"
  tenant_fair_capacities :: "pool_capacities list"
  recovery_tenant_shared_fair :: "resource_amounts list"
  recovery_tenant_pool_fair :: "recovery_pool_capacities list"
  recovery_system_pool_capacities :: recovery_pool_capacities
  rejection_counts :: "u64 list"
  grant_records :: "grant_record option list"
  free_slots :: "u16 list"
  next_operation_generation :: u64
  total_usage :: resource_amounts
  recovery_usage :: resource_amounts
  tenant_limits :: "resource_amounts list"
  ordinary_tenant_usage :: "resource_amounts list"
  recovery_tenant_usage :: "resource_amounts list"
  recovery_pool_usage :: recovery_pool_usage
  recovery_system_pool_usage :: recovery_pool_usage
  recovery_tenant_pool_usage :: "recovery_pool_usage list"
  pool_usage :: pool_capacities
  ordinary_tenant_pool_usage :: "pool_capacities list"
  tenant_outstanding :: "u32 list"
  outstanding :: u32
  disk_pressure :: disk_pressure_state
  usable_disk_bytes :: u64
  pressure_transition_count :: u64
  lifecycle :: governor_lifecycle
  outstanding_ordinary :: u32
  outstanding_recovery :: u32
  outstanding_uninterruptible :: u32
  class_counts :: "u32 list"

record governor = accounting_state +
  slot_signals :: "u8 list"
  pending_words :: "64 word list"
  has_pending_releases :: bool
  pending_fence :: bool
  last_pressure :: u8
  contention_count :: u64

section \<open>The drop ledger\<close>

text \<open>Dropping a handle: no lock, a compare-exchange on the slot signal, then the pending bit and the hint.\<close>

definition mark_drop_pending :: "u16 \<Rightarrow> governor \<Rightarrow> governor" where
  "mark_drop_pending slot g =
     (case slice_get (slot_signals g) slot of
        None \<Rightarrow> g\<lparr> pending_fence := True \<rparr>
      | Some signal \<Rightarrow>
          if signal \<noteq> SLOT_ACTIVE then g\<lparr> pending_fence := True \<rparr>
          else let g1 = g\<lparr> slot_signals := (slot_signals g)[slot := SLOT_RELEASE_PENDING] \<rparr> in
            case slice_get (pending_words g1) (slot div 64) of
              None \<Rightarrow> g1\<lparr> pending_fence := True \<rparr>
            | Some w \<Rightarrow>
                g1\<lparr> pending_words := (pending_words g1)[slot div 64 := w OR push_bit (slot mod 64) 1],
                    has_pending_releases := True \<rparr>)"

definition mark_foreign_release :: "governor \<Rightarrow> governor" where
  "mark_foreign_release g = g\<lparr> pending_fence := True \<rparr>"

text \<open>\<open>while bits != 0 { bit_index = bits.trailing_zeros(); bits &= bits - 1; ... }\<close>: the indices visited.\<close>

definition trailing_zeros :: "64 word \<Rightarrow> nat" where
  "trailing_zeros w = length (takeWhile (\<lambda>i. \<not> bit w i) [0..<64])"

function drain_bits :: "64 word \<Rightarrow> nat list" where
  "drain_bits bits = (if bits = 0 then [] else trailing_zeros bits # drain_bits (bits AND (bits - 1)))"
  by auto

lemma and_minus_one_less:
  assumes "bits \<noteq> 0"
  shows "unat (bits AND (bits - 1)) < unat (bits :: 64 word)"
proof -
  have "unat (bits AND (bits - 1)) \<le> unat (bits - 1)"
    using word_and_le1 [of bits "bits - 1"] by (simp add: word_le_nat_alt)
  also have "\<dots> = unat bits - 1" using assms by (rule unat_minus_one)
  also have "\<dots> < unat bits" using assms by (simp add: unat_gt_0)
  finally show ?thesis .
qed

termination drain_bits
  by (relation "measure unat") (simp_all add: and_minus_one_less)

declare drain_bits.simps [simp del]

section \<open>Slots\<close>

definition activate_slot :: "grant_record \<Rightarrow> governor \<Rightarrow> u16 option \<times> governor" where
  "activate_slot rec g =
     (if free_slots g = [] then (None, g)
      else
        let slot = last (free_slots g);
            g1 = g\<lparr> free_slots := butlast (free_slots g) \<rparr>
        in case (slice_get (grant_records g1) slot, slice_get (slot_signals g1) slot) of
             (Some record_slot, Some signal) \<Rightarrow>
               if record_slot \<noteq> None \<or> signal \<noteq> SLOT_FREE then (None, g1)
               else (Some slot,
                     g1\<lparr> grant_records := (grant_records g1)[slot := Some rec],
                         slot_signals := (slot_signals g1)[slot := SLOT_ACTIVE] \<rparr>)
           | _ \<Rightarrow> (None, g1))"

definition slot_is_active :: "governor \<Rightarrow> u16 \<Rightarrow> bool" where
  "slot_is_active g slot =
     (case slice_get (slot_signals g) slot of None \<Rightarrow> False | Some signal \<Rightarrow> signal = SLOT_ACTIVE)"

definition finish_slot :: "u16 \<Rightarrow> governor \<Rightarrow> bool \<times> governor" where
  "finish_slot slot g =
     (case (slice_get (grant_records g) slot, slice_get (slot_signals g) slot) of
        (Some rec, Some signal_state) \<Rightarrow>
          if signal_state \<noteq> SLOT_ACTIVE \<and> signal_state \<noteq> SLOT_RELEASE_PENDING then (False, g)
          else
            let g1 = g\<lparr> grant_records := (grant_records g)[slot := None] \<rparr> in
            if rec = None then (False, g1)
            else if length (free_slots g1) = length (grant_records g1) then (False, g1)
            else (True,
                  g1\<lparr> slot_signals := (slot_signals g1)[slot := SLOT_FREE],
                      free_slots := free_slots g1 @ [slot] \<rparr>)
      | _ \<Rightarrow> (False, g))"

definition replace_slot_record ::
  "u16 \<Rightarrow> charge_owner \<Rightarrow> reservation_identity \<Rightarrow> resource_amounts \<Rightarrow> governor \<Rightarrow> bool \<times> governor" where
  "replace_slot_record slot owner identity amounts g =
     (if \<not> slot_is_active g slot then (False, g)
      else case slot_get (grant_records g) slot of
        None \<Rightarrow> (False, g)
      | Some current \<Rightarrow>
          (case record_replaced current owner identity amounts of
             None \<Rightarrow> (False, g)
           | Some replacement \<Rightarrow>
               (True, g\<lparr> grant_records := (grant_records g)[slot := Some replacement] \<rparr>)))"

section \<open>Bits\<close>

text \<open>The loop over a pending word visits exactly its set bits, in increasing order.\<close>

lemma bit_and_pred:
  "0 < m \<Longrightarrow> bit (m AND (m - 1)) i \<longleftrightarrow> bit m i \<and> (\<exists>j<i. bit (m :: nat) j)"
proof (induction i arbitrary: m)
  case 0
  then show ?case by (cases m) (auto simp: bit_0 even_and_iff)
next
  case (Suc i)
  show ?case
  proof (cases "odd m")
    case True
    then have "bit (m AND (m - 1)) (Suc i) \<longleftrightarrow> bit m (Suc i)"
      by (auto simp: bit_and_iff odd_bit_iff_bit_pred)
    moreover have "bit m 0" using True by (simp add: bit_0)
    ultimately show ?thesis by blast
  next
    case False
    with Suc.prems have pos: "0 < m div 2" by auto
    have half: "(m - 1) div 2 = m div 2 - 1" using False Suc.prems by auto
    have "bit (m AND (m - 1)) (Suc i) \<longleftrightarrow> bit (m div 2 AND (m div 2 - 1)) i"
      unfolding bit_and_iff by (simp only: bit_Suc half)
    also have "\<dots> \<longleftrightarrow> bit (m div 2) i \<and> (\<exists>j<i. bit (m div 2) j)" by (rule Suc.IH [OF pos])
    also have "\<dots> \<longleftrightarrow> bit m (Suc i) \<and> (\<exists>j<Suc i. bit m j)"
      using False by (auto simp: bit_Suc Ex_less_Suc2 bit_0)
    finally show ?thesis .
  qed
qed

lemma bit_and_minus_one:
  assumes "w \<noteq> 0"
  shows "bit (w AND (w - 1)) i \<longleftrightarrow> bit (w :: 64 word) i \<and> (\<exists>j<i. bit w j)"
proof -
  have "bit (w AND (w - 1)) i \<longleftrightarrow> bit (unat (w AND (w - 1))) i" by (simp add: bit_unsigned_iff)
  also have "\<dots> \<longleftrightarrow> bit (unat w AND (unat w - 1)) i" using assms by (simp add: unsigned_and_eq unat_minus_one)
  also have "\<dots> \<longleftrightarrow> bit (unat w) i \<and> (\<exists>j<i. bit (unat w) j)"
    using assms by (intro bit_and_pred) (simp add: unat_gt_0)
  finally show ?thesis by (simp add: bit_unsigned_iff)
qed

lemma filter_first_split:
  assumes "\<exists>i<n. P i"
  shows "filter P [0..<n] = length (takeWhile (\<lambda>i. \<not> P i) [0..<n]) # filter (\<lambda>i. P i \<and> (\<exists>j<i. P j)) [0..<n]"
proof -
  obtain f where P: "P f" "\<And>j. j < f \<Longrightarrow> \<not> P j"
    using assms exists_least_iff [of P] by blast
  obtain i where "i < n" "P i" using assms by blast
  then have "f < n" using P(2) [of i] by (meson le_less_trans not_le)
  then have split: "[0..<n] = [0..<f] @ f # [Suc f..<n]"
    using upt_add_eq_append [of 0 f "n - f"] by (simp add: upt_conv_Cons)
  have "length (takeWhile (\<lambda>i. \<not> P i) [0..<n]) = f"
    unfolding split using P by (subst takeWhile_append2) auto
  moreover have "filter P [0..<f] = []" "filter (\<lambda>i. P i \<and> (\<exists>j<i. P j)) [0..<f] = []"
    using P by (auto simp: filter_empty_conv)
  moreover have "filter (\<lambda>i. P i \<and> (\<exists>j<i. P j)) [Suc f..<n] = filter P [Suc f..<n]"
    using P(1) by (intro filter_cong) (auto simp: Suc_le_eq)
  moreover have "\<not> (\<exists>j<f. P j)" using P(2) by blast
  ultimately show ?thesis unfolding split using P(1) by simp
qed

lemma drain_bits_eq_filter: "drain_bits w = filter (bit w) [0..<64]"
proof (induction w rule: drain_bits.induct)
  case (1 w)
  show ?case
  proof (cases "w = 0")
    case True
    then have "drain_bits w = []" by (simp add: drain_bits.simps)
    moreover have "filter (bit w) xs = []" for xs using True by simp
    ultimately show ?thesis by (simp only:)
  next
    case False
    then obtain i where i: "bit w i" by (auto simp: bit_eq_iff)
    then have "i < 64" using bit_imp_le_length [of w i] by simp
    with i have ex: "\<exists>i<64. bit w i" by blast
    have rest: "filter (bit (w AND (w - 1))) xs = filter (\<lambda>i. bit w i \<and> (\<exists>j<i. bit w j)) xs" for xs
      by (rule filter_cong) (simp_all add: bit_and_minus_one [OF False])
    have "drain_bits w = trailing_zeros w # drain_bits (w AND (w - 1))"
      using False by (subst drain_bits.simps) (simp only: if_False)
    then show ?thesis
      by (simp only: 1 [OF False] rest filter_first_split [OF ex] trailing_zeros_def)
  qed
qed

section \<open>Grant records encode their owner\<close>

lemma grant_kind_round_trips [simp]:
  "grant_ordinary_kind (grant_from_ordinary k) = Some k"
  "grant_recovery_kind (grant_from_ordinary k) = None"
  "grant_ordinary_kind (grant_from_recovery r) = None"
  "grant_recovery_kind (grant_from_recovery r) = Some r"
  by (cases k; simp)+ (cases r; simp)+

lemma grant_kind_cases:
  obtains k where "kind = grant_from_ordinary k" | r where "kind = grant_from_recovery r"
  by (cases kind) (metis grant_from_ordinary.simps grant_from_recovery.simps)+

lemma grant_from_inject [simp]:
  "grant_from_ordinary k = grant_from_ordinary l \<longleftrightarrow> k = l"
  "grant_from_recovery r = grant_from_recovery q \<longleftrightarrow> r = q"
  by (metis grant_kind_round_trips(1) option.inject) (metis grant_kind_round_trips(4) option.inject)

text \<open>The two halves of a charge that matches an identity and a request.\<close>

fun owner_matches :: "charge_owner \<Rightarrow> reservation_identity \<Rightarrow> resource_amounts \<Rightarrow> bool" where
  "owner_matches owner (Ordinary tenant prin kind) amounts \<longleftrightarrow>
     (\<exists>i c. owner = \<lparr> owner_attribution = Charge_Ordinary i, owner_pools = Some c, owner_recovery_pools = None \<rparr> \<and>
        i < u16_max \<and> pool_for_class (work_kind_class kind) = Some (charge_class_pool c) \<and>
        (\<forall>d. amounts_get (charge_shared c) d + amounts_get (charge_protected c) d = amounts_get amounts d))"
| "owner_matches owner (Recovery scope kind) amounts \<longleftrightarrow>
     (\<exists>ti c. owner = \<lparr> owner_attribution = Charge_Recovery ti, owner_pools = None, owner_recovery_pools = Some c \<rparr> \<and>
        (\<forall>i. ti = Some i \<longrightarrow> i < u16_max) \<and> rc_kind c = kind \<and>
        (\<forall>d. amounts_get (rc_shared c) d + amounts_get (rc_protected c) d = amounts_get amounts d))"

lemma record_owner_of_new:
  assumes "grant_record_new owner identity amounts operation = Some r" and "owner_matches owner identity amounts"
  shows "record_owner r = Some owner"
proof (cases identity)
  case (Ordinary tenant prin kind)
  with assms(2) obtain i c where o: "owner = \<lparr> owner_attribution = Charge_Ordinary i, owner_pools = Some c,
      owner_recovery_pools = None \<rparr>" and "i < u16_max"
    and cp: "pool_for_class (work_kind_class kind) = Some (charge_class_pool c)"
    and split: "\<forall>d. amounts_get (charge_shared c) d + amounts_get (charge_protected c) d = amounts_get amounts d" by auto
  moreover have "amounts_checked_sub amounts (charge_shared c) = Some (charge_protected c)"
    using split by (simp add: amounts_checked_sub_iff)
  ultimately show ?thesis
    using assms(1) Ordinary
    by (auto simp: grant_record_new_def record_owner_def record_tenant_index_def SYSTEM_TENANT_INDEX_def
        try_from_def pool_charge_new_def)
next
  case (Recovery scope kind)
  with assms(2) obtain ti c where o: "owner = \<lparr> owner_attribution = Charge_Recovery ti, owner_pools = None,
      owner_recovery_pools = Some c \<rparr>" and "\<forall>i. ti = Some i \<longrightarrow> i < u16_max" "rc_kind c = kind"
    and split: "\<forall>d. amounts_get (rc_shared c) d + amounts_get (rc_protected c) d = amounts_get amounts d" by auto
  moreover have "amounts_checked_sub amounts (rc_shared c) = Some (rc_protected c)"
    using split by (simp add: amounts_checked_sub_iff)
  ultimately show ?thesis
    using assms(1) Recovery
    by (cases ti) (auto simp: grant_record_new_def record_owner_def record_tenant_index_def SYSTEM_TENANT_INDEX_def
        try_from_def)
qed

lemma grant_record_new_fields:
  assumes "grant_record_new owner identity amounts operation = Some r"
  shows "gr_amounts r = amounts" "gr_operation r = operation" "record_class r = identity_class identity"
    "record_is_ordinary r \<longleftrightarrow> (\<exists>t p k. identity = Ordinary t p k)"
    "record_recovery_kind r = (case identity of Recovery _ k \<Rightarrow> Some k | _ \<Rightarrow> None)"
    "gr_tenant r = (case identity of Ordinary t _ _ \<Rightarrow> Some t | _ \<Rightarrow> None)"
    "gr_principal r = (case identity of Ordinary _ p _ \<Rightarrow> p | _ \<Rightarrow> None)"
  using assms
  by (auto simp: grant_record_new_def record_class_def record_is_ordinary_def record_recovery_kind_def
      Option.bind_eq_Some_conv split: charge_attribution.splits reservation_identity.splits)

lemma grant_record_new_total:
  assumes "owner_matches owner identity amounts"
  shows "\<exists>r. grant_record_new owner identity amounts operation = Some r"
  using assms
  by (cases identity)
    (auto simp: grant_record_new_def try_from_def split: option.splits)

section \<open>Well-formed slots\<close>

text \<open>
  A slot is free exactly when it holds no record, when its signal says so, and when
  it is on the free list, where it stands once.
\<close>

definition slots_wf :: "governor \<Rightarrow> bool" where
  "slots_wf g \<longleftrightarrow>
     length (slot_signals g) = length (grant_records g) \<and>
     length (grant_records g) \<le> u16_max \<and>
     distinct (free_slots g) \<and>
     set (free_slots g) = {i. i < length (grant_records g) \<and> grant_records g ! i = None} \<and>
     (\<forall>i < length (grant_records g).
        (slot_signals g ! i = SLOT_FREE \<longleftrightarrow> grant_records g ! i = None) \<and>
        slot_signals g ! i \<in> {SLOT_FREE, SLOT_ACTIVE, SLOT_RELEASE_PENDING})"

lemma free_slots_count:
  assumes "slots_wf g" and "i < length (grant_records g)" and "grant_records g ! i \<noteq> None"
  shows "length (free_slots g) < length (grant_records g)"
proof -
  have "distinct (free_slots g)" and free: "set (free_slots g) = {i. i < length (grant_records g) \<and> grant_records g ! i = None}"
    using assms(1) unfolding slots_wf_def by blast+
  then have "length (free_slots g) = card (set (free_slots g))" using distinct_card [of "free_slots g"] by argo
  moreover have "set (free_slots g) \<subseteq> {..<length (grant_records g)} - {i}"
    unfolding free using assms(3) by blast
  then have "card (set (free_slots g)) \<le> card ({..<length (grant_records g)} - {i})"
    by (intro card_mono) simp_all
  ultimately show ?thesis using assms(2) by simp
qed

lemma activate_slot_wf:
  assumes wf: "slots_wf g" and "free_slots g \<noteq> []"
  shows "activate_slot r g = (Some (last (free_slots g)),
      g\<lparr> free_slots := butlast (free_slots g),
         grant_records := (grant_records g)[last (free_slots g) := Some r],
         slot_signals := (slot_signals g)[last (free_slots g) := SLOT_ACTIVE] \<rparr>)"
    "last (free_slots g) < length (grant_records g)" "grant_records g ! last (free_slots g) = None"
proof -
  have "last (free_slots g) \<in> set (free_slots g)" using assms(2) by simp
  then show l: "last (free_slots g) < length (grant_records g)" "grant_records g ! last (free_slots g) = None"
    using wf by (auto simp: slots_wf_def)
  then show "activate_slot r g = (Some (last (free_slots g)),
      g\<lparr> free_slots := butlast (free_slots g),
         grant_records := (grant_records g)[last (free_slots g) := Some r],
         slot_signals := (slot_signals g)[last (free_slots g) := SLOT_ACTIVE] \<rparr>)"
    using wf assms(2) by (simp add: activate_slot_def slice_get_def slots_wf_def Let_def)
qed

lemma distinct_butlast_set: "distinct xs \<Longrightarrow> xs \<noteq> [] \<Longrightarrow> set (butlast xs) = set xs - {last xs}"
  by (induction xs rule: rev_induct) auto

lemma slots_wf_activate:
  assumes "slots_wf g" and "free_slots g \<noteq> []"
  shows "slots_wf (g\<lparr> free_slots := butlast (free_slots g),
         grant_records := (grant_records g)[last (free_slots g) := Some r],
         slot_signals := (slot_signals g)[last (free_slots g) := SLOT_ACTIVE] \<rparr>)"
  using assms activate_slot_wf(2,3) [OF assms]
  by (auto simp: slots_wf_def distinct_butlast_set distinct_butlast nth_list_update split: if_splits)

lemma finish_slot_wf:
  assumes wf: "slots_wf g" and i: "i < length (grant_records g)" "grant_records g ! i \<noteq> None"
  shows "finish_slot i g = (True,
      g\<lparr> grant_records := (grant_records g)[i := None],
         slot_signals := (slot_signals g)[i := SLOT_FREE],
         free_slots := free_slots g @ [i] \<rparr>)"
  using assms free_slots_count [OF assms]
  by (auto simp: finish_slot_def slice_get_def slots_wf_def Let_def)

lemma slots_wf_finish:
  assumes "slots_wf g" and "i < length (grant_records g)" and "grant_records g ! i \<noteq> None"
  shows "slots_wf (g\<lparr> grant_records := (grant_records g)[i := None],
         slot_signals := (slot_signals g)[i := SLOT_FREE],
         free_slots := free_slots g @ [i] \<rparr>)"
  using assms by (auto simp: slots_wf_def nth_list_update split: if_splits)

lemma slots_wf_replace:
  assumes "slots_wf g" and "i < length (grant_records g)" and "grant_records g ! i \<noteq> None"
  shows "slots_wf (g\<lparr> grant_records := (grant_records g)[i := Some r] \<rparr>)"
  using assms by (auto simp: slots_wf_def nth_list_update split: if_splits)

end
