(* ===== verification/Release.thy ===== *)
theory Release
  imports Ledger
begin

text \<open>
  \<^verbatim>\<open>resource_governor/release.rs\<close>, \<^verbatim>\<open>option_ext.rs\<close> and \<^verbatim>\<open>drain_pending\<close> of
  \<^verbatim>\<open>ledger.rs\<close>: giving capacity back. Every early return of the source that fences
  the governor is \<open>fence_release\<close> on the state reached so far, so a partial update
  before a fence is visible in the model.
\<close>

section \<open>Releasing the components of a charge\<close>

record release_status =
  applied :: bool
  status_result :: "governor_failure + release_outcome"

definition fence_release :: "governor \<Rightarrow> release_status \<times> governor" where
  "fence_release g =
     (\<lparr> applied = False, status_result = Inl InternalFenced \<rparr>, g\<lparr> lifecycle := Fenced \<rparr>)"

text \<open>\<open>let Some(x) = ... else { return fence(state) }\<close>.\<close>

definition or_fence ::
  "governor \<Rightarrow> 'a option \<Rightarrow> ('a \<Rightarrow> release_status \<times> governor) \<Rightarrow> release_status \<times> governor" where
  "or_fence g x k = (case x of None \<Rightarrow> fence_release g | Some a \<Rightarrow> k a)"

fun transpose_option :: "'a option option \<Rightarrow> 'a option option" where
  "transpose_option None = Some None"
| "transpose_option (Some (Some v)) = Some (Some v)"
| "transpose_option (Some None) = None"

fun attribution_tenant :: "charge_attribution \<Rightarrow> usize option" where
  "attribution_tenant (Charge_Ordinary i) = Some i"
| "attribution_tenant (Charge_Recovery ti) = ti"

text \<open>The branch of an ordinary charge: tenant usage, tenant pools, global pools.\<close>

definition release_ordinary_part ::
  "charge_owner \<Rightarrow> usize \<Rightarrow> resource_amounts \<Rightarrow> governor \<Rightarrow> (governor \<Rightarrow> release_status \<times> governor) \<Rightarrow>
   release_status \<times> governor" where
  "release_ordinary_part owner tenant_index amounts g k =
     or_fence g (map_option pool_charge_capacities (owner_pools owner)) (\<lambda>pools.
     or_fence g (Option.bind (slice_get (ordinary_tenant_usage g) tenant_index)
         (\<lambda>usage. amounts_checked_sub usage amounts)) (\<lambda>tenant_candidate.
     or_fence g (Option.bind (slice_get (ordinary_tenant_pool_usage g) tenant_index)
         (\<lambda>usage. pools_checked_sub usage pools)) (\<lambda>tenant_pool_candidate.
     or_fence g (pools_checked_sub (pool_usage g) pools) (\<lambda>pool_candidate.
     or_fence g (slice_set (ordinary_tenant_usage g) tenant_index tenant_candidate) (\<lambda>tenant_usage.
     let g1 = g\<lparr> ordinary_tenant_usage := tenant_usage \<rparr> in
     or_fence g1 (slice_set (ordinary_tenant_pool_usage g1) tenant_index tenant_pool_candidate) (\<lambda>tenant_pools.
     k (g1\<lparr> ordinary_tenant_pool_usage := tenant_pools, pool_usage := pool_candidate \<rparr>)))))))"

text \<open>The branch of a recovery charge: tenant or system attribution, then the global recovery usage.\<close>

definition release_recovery_part ::
  "charge_owner \<Rightarrow> usize option \<Rightarrow> resource_amounts \<Rightarrow> governor \<Rightarrow> (governor \<Rightarrow> release_status \<times> governor) \<Rightarrow>
   release_status \<times> governor" where
  "release_recovery_part owner tenant_index amounts g k =
     or_fence g (owner_recovery_pools owner) (\<lambda>pool_charge.
     or_fence g (amounts_checked_sub (recovery_usage g) amounts) (\<lambda>accounting_candidate.
     or_fence g (recovery_usage_checked_sub (recovery_pool_usage g) pool_charge) (\<lambda>pool_candidate.
     or_fence g (transpose_option (map_option (\<lambda>i.
         Option.bind (slice_get (recovery_tenant_usage g) i) (\<lambda>usage. amounts_checked_sub usage amounts))
         tenant_index)) (\<lambda>tenant_candidate.
     let finish = (\<lambda>g'. k (g'\<lparr> recovery_usage := accounting_candidate, recovery_pool_usage := pool_candidate \<rparr>)) in
     case (tenant_index, tenant_candidate) of
       (Some index, Some candidate) \<Rightarrow>
         or_fence g (slice_set (recovery_tenant_usage g) index candidate) (\<lambda>tenant_usage.
         let g1 = g\<lparr> recovery_tenant_usage := tenant_usage \<rparr> in
         or_fence g1 (slice_get (recovery_tenant_pool_usage g1) index) (\<lambda>pool_slot.
         or_fence g1 (recovery_usage_checked_sub pool_slot pool_charge) (\<lambda>tenant_pool_candidate.
         finish (g1\<lparr> recovery_tenant_pool_usage := (recovery_tenant_pool_usage g1)[index := tenant_pool_candidate] \<rparr>))))
     | _ \<Rightarrow>
         or_fence g (recovery_usage_checked_sub (recovery_system_pool_usage g) pool_charge) (\<lambda>system_candidate.
         finish (g\<lparr> recovery_system_pool_usage := system_candidate \<rparr>))))))"

text \<open>The counters of the charge, computed before anything is written.\<close>

record release_candidates =
  cand_total :: resource_amounts
  cand_outstanding :: u32
  cand_class :: u32
  cand_ordinary :: "u32 option"
  cand_recovery :: "u32 option"
  cand_uninterruptible :: "u32 option"
  cand_tenant :: "u32 option"

definition release_finish ::
  "bool \<Rightarrow> work_class \<Rightarrow> usize option \<Rightarrow> release_candidates \<Rightarrow> governor \<Rightarrow> release_status \<times> governor" where
  "release_finish poisoned cls tenant_index c g =
     (let index = class_index cls;
          g1 = g\<lparr> total_usage := cand_total c, outstanding := cand_outstanding c \<rparr> in
      or_fence g1 (slice_set (class_counts g1) index (cand_class c)) (\<lambda>counts.
      let g2 = g1\<lparr> class_counts := counts,
             outstanding_ordinary := (case cand_ordinary c of Some n \<Rightarrow> n | None \<Rightarrow> outstanding_ordinary g1),
             outstanding_recovery := (case cand_recovery c of Some n \<Rightarrow> n | None \<Rightarrow> outstanding_recovery g1),
             outstanding_uninterruptible :=
               (case cand_uninterruptible c of Some n \<Rightarrow> n | None \<Rightarrow> outstanding_uninterruptible g1) \<rparr>;
          done_status = (\<lambda>g3.
            (\<lparr> applied = True,
               status_result = (if poisoned \<or> lifecycle g3 = Fenced then Inl InternalFenced else Inr Released) \<rparr>, g3))
      in
      case (tenant_index, cand_tenant c) of
        (Some i, Some n) \<Rightarrow>
          or_fence g2 (slice_set (tenant_outstanding g2) i n) (\<lambda>counts.
          done_status (g2\<lparr> tenant_outstanding := counts \<rparr>))
      | _ \<Rightarrow> done_status g2))"

definition release_components ::
  "bool \<Rightarrow> charge_owner \<Rightarrow> work_class \<Rightarrow> bool \<Rightarrow> recovery_work_kind option \<Rightarrow> resource_amounts \<Rightarrow>
   governor \<Rightarrow> release_status \<times> governor" where
  "release_components poisoned owner cls ordinary recovery_kind amounts g =
     or_fence g (amounts_checked_sub (total_usage g) amounts) (\<lambda>total_candidate.
     or_fence g (checked_sub (outstanding g) 1) (\<lambda>outstanding_candidate.
     or_fence g (Option.bind (slice_get (class_counts g) (class_index cls)) (\<lambda>n. checked_sub n 1))
       (\<lambda>class_candidate.
     let ordinary_candidate = (if ordinary then checked_sub (outstanding_ordinary g) 1 else None);
         recovery_candidate = (if \<not> ordinary then checked_sub (outstanding_recovery g) 1 else None);
         uninterruptible = (case recovery_kind of None \<Rightarrow> False | Some kind \<Rightarrow> retains_capacity_on_resize_failure kind);
         uninterruptible_candidate =
           (if uninterruptible then checked_sub (outstanding_uninterruptible g) 1 else None)
     in
     if (ordinary \<and> ordinary_candidate = None) \<or> (\<not> ordinary \<and> recovery_candidate = None)
        \<or> (uninterruptible \<and> uninterruptible_candidate = None)
     then fence_release g
     else
     let tenant_index = attribution_tenant (owner_attribution owner) in
     or_fence g (transpose_option (map_option (\<lambda>i.
         Option.bind (slice_get (tenant_outstanding g) i) (\<lambda>n. checked_sub n 1)) tenant_index))
       (\<lambda>tenant_count_candidate.
     let finish = release_finish poisoned cls tenant_index
           \<lparr> cand_total = total_candidate, cand_outstanding = outstanding_candidate, cand_class = class_candidate,
             cand_ordinary = ordinary_candidate, cand_recovery = recovery_candidate,
             cand_uninterruptible = uninterruptible_candidate, cand_tenant = tenant_count_candidate \<rparr>
     in case owner_attribution owner of
          Charge_Ordinary i \<Rightarrow> release_ordinary_part owner i amounts g finish
        | Charge_Recovery ti \<Rightarrow> release_recovery_part owner ti amounts g finish))))"

section \<open>Releasing a slot\<close>

definition release_record_locked :: "grant_record \<Rightarrow> governor \<Rightarrow> release_status \<times> governor" where
  "release_record_locked rec g =
     or_fence g (record_owner rec) (\<lambda>owner.
     release_components False owner (record_class rec) (record_is_ordinary rec) (record_recovery_kind rec)
       (gr_amounts rec) g)"

text \<open>
  What happens to the slot after the charge is gone: roots with children stay as
  metadata, the last child of a released root takes the root with it. Release and a
  resize that cancels run the same steps; they differ in how a fence is reported.
\<close>

definition retire_slot_with ::
  "(governor \<Rightarrow> 'r \<times> governor) \<Rightarrow> 'r \<Rightarrow> grant_record \<Rightarrow> u16 \<Rightarrow> governor \<Rightarrow> 'r \<times> governor" where
  "retire_slot_with fence ok rec slot g =
     (case gr_operation rec of
        None \<Rightarrow>
          (case finish_slot slot g of (finished, g1) \<Rightarrow> if \<not> finished then fence g1 else (ok, g1))
      | Some (Root generation accepting child_count) \<Rightarrow>
          if child_count = 0 then
            (case finish_slot slot g of (finished, g1) \<Rightarrow> if \<not> finished then fence g1 else (ok, g1))
          else
            (case released_root rec of
               None \<Rightarrow> fence g
             | Some released \<Rightarrow>
                 (case slice_set (grant_records g) slot (Some released) of
                    None \<Rightarrow> fence g
                  | Some records \<Rightarrow> (ok, g\<lparr> grant_records := records \<rparr>)))
      | Some (Child root_slot generation) \<Rightarrow>
          (case slot_get (grant_records g) root_slot of
             None \<Rightarrow> fence g
           | Some root_record \<Rightarrow>
               let root_matches = (case gr_operation root_record of
                     Some (Root root_generation _ _) \<Rightarrow> root_generation = generation | _ \<Rightarrow> False)
               in if \<not> root_matches then fence g
                  else
                  (case decrement_root_child root_record of
                     None \<Rightarrow> fence g
                   | Some (updated_root, remove_root) \<Rightarrow>
                       (case finish_slot slot g of (finished, g1) \<Rightarrow>
                          if \<not> finished then fence g1
                          else if remove_root then
                            (case finish_slot root_slot g1 of (root_finished, g2) \<Rightarrow>
                               if \<not> root_finished then fence g2 else (ok, g2))
                          else
                            (case slice_set (grant_records g1) root_slot (Some updated_root) of
                               None \<Rightarrow> fence g1
                             | Some records \<Rightarrow> (ok, g1\<lparr> grant_records := records \<rparr>))))))"

definition retire_slot :: "grant_record \<Rightarrow> u16 \<Rightarrow> release_status \<Rightarrow> governor \<Rightarrow> release_status \<times> governor" where
  "retire_slot rec slot status g = retire_slot_with fence_release status rec slot g"

definition release_slot_locked :: "bool \<Rightarrow> u16 \<Rightarrow> governor \<Rightarrow> release_status \<times> governor" where
  "release_slot_locked poisoned slot g =
     or_fence g (slot_get (grant_records g) slot) (\<lambda>rec.
     case (if poisoned
           then or_fence g (record_owner rec) (\<lambda>owner.
                release_components True owner (record_class rec) (record_is_ordinary rec)
                  (record_recovery_kind rec) (gr_amounts rec) g)
           else release_record_locked rec g) of
       (status, g1) \<Rightarrow>
         if \<not> applied status then (status, g1) else retire_slot rec slot status g1)"

section \<open>Draining dropped handles\<close>

definition drain_index :: "nat \<Rightarrow> nat \<Rightarrow> governor \<Rightarrow> governor" where
  "drain_index word_index bit_index g =
     (let fence = g\<lparr> lifecycle := Fenced \<rparr> in
      case Option.bind (checked_mul usize_max word_index 64) (\<lambda>base. checked_add usize_max base bit_index) of
        None \<Rightarrow> fence
      | Some index \<Rightarrow>
          (case slice_get (slot_signals g) index of
             None \<Rightarrow> fence
           | Some signal \<Rightarrow>
               if signal \<noteq> SLOT_RELEASE_PENDING then fence
               else (case try_from u16_max index of
                       None \<Rightarrow> fence
                     | Some slot \<Rightarrow>
                         (case release_slot_locked False slot g of (released, g1) \<Rightarrow>
                            if \<not> applied released then g1\<lparr> lifecycle := Fenced \<rparr> else g1))))"

definition drain_word :: "nat \<Rightarrow> governor \<Rightarrow> governor" where
  "drain_word word_index g =
     (let bits = pending_words g ! word_index in
      fold (drain_index word_index) (drain_bits bits)
        (g\<lparr> pending_words := (pending_words g)[word_index := 0] \<rparr>))"

definition drain_pending :: "governor \<Rightarrow> governor" where
  "drain_pending g =
     (let must_scan = has_pending_releases g \<or> pending_fence g;
          g1 = g\<lparr> has_pending_releases := False \<rparr>
      in if \<not> must_scan then g1
         else fold drain_word [0..<length (pending_words g1)] g1)"

end
