(* ===== verification/Books.thy ===== *)
theory Books
  imports Release
begin

text \<open>
  The accounts of the governor. Every usage vector, pool and counter of the accounting
  state is read as a family of natural-number accounts, and a grant as a charge on them.
  Releasing a grant subtracts its charge from every account, and succeeds exactly when
  every account covers it; nothing else of the state changes.
\<close>

section \<open>Accounts and charges\<close>

datatype account =
    A_total resource_dimension
  | A_recovery resource_dimension
  | A_tenant usize resource_dimension
  | A_tenant_recovery usize resource_dimension
  | A_pool "ordinary_pool \<times> resource_dimension"
  | A_tenant_pool usize "ordinary_pool \<times> resource_dimension"
  | A_recovery_pool "recovery_pool \<times> resource_dimension"
  | A_system_pool "recovery_pool \<times> resource_dimension"
  | A_tenant_recovery_pool usize "recovery_pool \<times> resource_dimension"
  | A_outstanding
  | A_ordinary
  | A_recovery_count
  | A_uninterruptible
  | A_class usize
  | A_tenant_count usize

text \<open>A row of a table, zero outside it.\<close>

definition row :: "('a \<Rightarrow> nat) \<Rightarrow> 'a list \<Rightarrow> usize \<Rightarrow> nat" where
  "row f xs i = (if i < length xs then f (xs ! i) else 0)"

fun account_value :: "account \<Rightarrow> governor \<Rightarrow> nat" where
  "account_value (A_total d) g = amounts_get (total_usage g) d"
| "account_value (A_recovery d) g = amounts_get (recovery_usage g) d"
| "account_value (A_tenant i d) g = row (\<lambda>a. amounts_get a d) (ordinary_tenant_usage g) i"
| "account_value (A_tenant_recovery i d) g = row (\<lambda>a. amounts_get a d) (recovery_tenant_usage g) i"
| "account_value (A_pool k) g = pool_amount (pool_usage g) k"
| "account_value (A_tenant_pool i k) g = row (\<lambda>p. pool_amount p k) (ordinary_tenant_pool_usage g) i"
| "account_value (A_recovery_pool k) g = recovery_amount (recovery_pool_usage g) k"
| "account_value (A_system_pool k) g = recovery_amount (recovery_system_pool_usage g) k"
| "account_value (A_tenant_recovery_pool i k) g = row (\<lambda>p. recovery_amount p k) (recovery_tenant_pool_usage g) i"
| "account_value A_outstanding g = outstanding g"
| "account_value A_ordinary g = outstanding_ordinary g"
| "account_value A_recovery_count g = outstanding_recovery g"
| "account_value A_uninterruptible g = outstanding_uninterruptible g"
| "account_value (A_class i) g = row (\<lambda>n. n) (class_counts g) i"
| "account_value (A_tenant_count i) g = row (\<lambda>n. n) (tenant_outstanding g) i"

definition kind_uninterruptible :: "recovery_work_kind option \<Rightarrow> bool" where
  "kind_uninterruptible kind = (case kind of None \<Rightarrow> False | Some k \<Rightarrow> retains_capacity_on_resize_failure k)"

definition owner_pool_amount :: "charge_owner \<Rightarrow> ordinary_pool \<times> resource_dimension \<Rightarrow> nat" where
  "owner_pool_amount owner k =
     (case owner_pools owner of None \<Rightarrow> 0 | Some p \<Rightarrow> pool_amount (pool_charge_capacities p) k)"

definition owner_recovery_amount :: "charge_owner \<Rightarrow> recovery_pool \<times> resource_dimension \<Rightarrow> nat" where
  "owner_recovery_amount owner k =
     (case owner_recovery_pools owner of None \<Rightarrow> 0 | Some c \<Rightarrow> recovery_charge_amount c k)"

fun grant_charge ::
  "charge_owner \<Rightarrow> work_class \<Rightarrow> bool \<Rightarrow> recovery_work_kind option \<Rightarrow> resource_amounts \<Rightarrow> account \<Rightarrow> nat" where
  "grant_charge owner cls ordinary kind amounts (A_total d) = amounts_get amounts d"
| "grant_charge owner cls ordinary kind amounts (A_recovery d) =
     (case owner_attribution owner of Charge_Ordinary _ \<Rightarrow> 0 | Charge_Recovery _ \<Rightarrow> amounts_get amounts d)"
| "grant_charge owner cls ordinary kind amounts (A_tenant i d) =
     (if owner_attribution owner = Charge_Ordinary i then amounts_get amounts d else 0)"
| "grant_charge owner cls ordinary kind amounts (A_tenant_recovery i d) =
     (if owner_attribution owner = Charge_Recovery (Some i) then amounts_get amounts d else 0)"
| "grant_charge owner cls ordinary kind amounts (A_pool k) =
     (case owner_attribution owner of Charge_Ordinary _ \<Rightarrow> owner_pool_amount owner k | Charge_Recovery _ \<Rightarrow> 0)"
| "grant_charge owner cls ordinary kind amounts (A_tenant_pool i k) =
     (if owner_attribution owner = Charge_Ordinary i then owner_pool_amount owner k else 0)"
| "grant_charge owner cls ordinary kind amounts (A_recovery_pool k) =
     (case owner_attribution owner of Charge_Ordinary _ \<Rightarrow> 0 | Charge_Recovery _ \<Rightarrow> owner_recovery_amount owner k)"
| "grant_charge owner cls ordinary kind amounts (A_system_pool k) =
     (if owner_attribution owner = Charge_Recovery None then owner_recovery_amount owner k else 0)"
| "grant_charge owner cls ordinary kind amounts (A_tenant_recovery_pool i k) =
     (if owner_attribution owner = Charge_Recovery (Some i) then owner_recovery_amount owner k else 0)"
| "grant_charge owner cls ordinary kind amounts A_outstanding = 1"
| "grant_charge owner cls ordinary kind amounts A_ordinary = (if ordinary then 1 else 0)"
| "grant_charge owner cls ordinary kind amounts A_recovery_count = (if ordinary then 0 else 1)"
| "grant_charge owner cls ordinary kind amounts A_uninterruptible = (if kind_uninterruptible kind then 1 else 0)"
| "grant_charge owner cls ordinary kind amounts (A_class i) = (if i = class_index cls then 1 else 0)"
| "grant_charge owner cls ordinary kind amounts (A_tenant_count i) =
     (if attribution_tenant (owner_attribution owner) = Some i then 1 else 0)"

text \<open>Moving a charge off the books.\<close>

definition debited :: "(account \<Rightarrow> nat) \<Rightarrow> governor \<Rightarrow> governor \<Rightarrow> bool" where
  "debited charge g g' \<longleftrightarrow> (\<forall>acc. account_value acc g = account_value acc g' + charge acc)"

section \<open>What the books do not contain\<close>

definition books_erased :: "governor \<Rightarrow> governor" where
  "books_erased g =
     g\<lparr> total_usage := amounts_zero, recovery_usage := amounts_zero, ordinary_tenant_usage := [],
        recovery_tenant_usage := [], recovery_pool_usage := recovery_usage_zero,
        recovery_system_pool_usage := recovery_usage_zero, recovery_tenant_pool_usage := [],
        pool_usage := pools_zero, ordinary_tenant_pool_usage := [], tenant_outstanding := [], outstanding := 0,
        outstanding_ordinary := 0, outstanding_recovery := 0, outstanding_uninterruptible := 0,
        class_counts := [] \<rparr>"

definition books_shape :: "governor \<Rightarrow> nat list" where
  "books_shape g =
     [length (ordinary_tenant_usage g), length (recovery_tenant_usage g), length (recovery_tenant_pool_usage g),
      length (ordinary_tenant_pool_usage g), length (tenant_outstanding g), length (class_counts g)]"

definition same_frame :: "governor \<Rightarrow> governor \<Rightarrow> bool" where
  "same_frame g g' \<longleftrightarrow> books_erased g' = books_erased g \<and> books_shape g' = books_shape g"

lemma same_frame_fields:
  assumes "same_frame g g'"
  shows "grant_records g' = grant_records g" "free_slots g' = free_slots g" "slot_signals g' = slot_signals g"
    "pending_words g' = pending_words g" "has_pending_releases g' = has_pending_releases g"
    "pending_fence g' = pending_fence g" "lifecycle g' = lifecycle g" "tenant_quotas g' = tenant_quotas g"
    "tenant_limits g' = tenant_limits g" "tenant_fair_capacities g' = tenant_fair_capacities g"
    "recovery_tenant_shared_fair g' = recovery_tenant_shared_fair g"
    "recovery_tenant_pool_fair g' = recovery_tenant_pool_fair g"
    "recovery_system_pool_capacities g' = recovery_system_pool_capacities g"
    "rejection_counts g' = rejection_counts g" "disk_pressure g' = disk_pressure g"
    "next_operation_generation g' = next_operation_generation g" "pending_tenant g' = pending_tenant g"
    "usable_disk_bytes g' = usable_disk_bytes g" "pressure_transition_count g' = pressure_transition_count g"
    "last_pressure g' = last_pressure g" "contention_count g' = contention_count g"
proof -
  have e: "books_erased g' = books_erased g" using assms by (simp add: same_frame_def)
  show "grant_records g' = grant_records g" using arg_cong [OF e, of grant_records] by (simp add: books_erased_def)
  show "free_slots g' = free_slots g" using arg_cong [OF e, of free_slots] by (simp add: books_erased_def)
  show "slot_signals g' = slot_signals g" using arg_cong [OF e, of slot_signals] by (simp add: books_erased_def)
  show "pending_words g' = pending_words g" using arg_cong [OF e, of pending_words] by (simp add: books_erased_def)
  show "has_pending_releases g' = has_pending_releases g"
    using arg_cong [OF e, of has_pending_releases] by (simp add: books_erased_def)
  show "pending_fence g' = pending_fence g" using arg_cong [OF e, of pending_fence] by (simp add: books_erased_def)
  show "lifecycle g' = lifecycle g" using arg_cong [OF e, of lifecycle] by (simp add: books_erased_def)
  show "tenant_quotas g' = tenant_quotas g" using arg_cong [OF e, of tenant_quotas] by (simp add: books_erased_def)
  show "tenant_limits g' = tenant_limits g" using arg_cong [OF e, of tenant_limits] by (simp add: books_erased_def)
  show "tenant_fair_capacities g' = tenant_fair_capacities g"
    using arg_cong [OF e, of tenant_fair_capacities] by (simp add: books_erased_def)
  show "recovery_tenant_shared_fair g' = recovery_tenant_shared_fair g"
    using arg_cong [OF e, of recovery_tenant_shared_fair] by (simp add: books_erased_def)
  show "recovery_tenant_pool_fair g' = recovery_tenant_pool_fair g"
    using arg_cong [OF e, of recovery_tenant_pool_fair] by (simp add: books_erased_def)
  show "recovery_system_pool_capacities g' = recovery_system_pool_capacities g"
    using arg_cong [OF e, of recovery_system_pool_capacities] by (simp add: books_erased_def)
  show "rejection_counts g' = rejection_counts g"
    using arg_cong [OF e, of rejection_counts] by (simp add: books_erased_def)
  show "disk_pressure g' = disk_pressure g" using arg_cong [OF e, of disk_pressure] by (simp add: books_erased_def)
  show "next_operation_generation g' = next_operation_generation g"
    using arg_cong [OF e, of next_operation_generation] by (simp add: books_erased_def)
  show "pending_tenant g' = pending_tenant g" using arg_cong [OF e, of pending_tenant] by (simp add: books_erased_def)
  show "usable_disk_bytes g' = usable_disk_bytes g"
    using arg_cong [OF e, of usable_disk_bytes] by (simp add: books_erased_def)
  show "pressure_transition_count g' = pressure_transition_count g"
    using arg_cong [OF e, of pressure_transition_count] by (simp add: books_erased_def)
  show "last_pressure g' = last_pressure g" using arg_cong [OF e, of last_pressure] by (simp add: books_erased_def)
  show "contention_count g' = contention_count g"
    using arg_cong [OF e, of contention_count] by (simp add: books_erased_def)
qed

lemma same_frame_refl [simp]: "same_frame g g"
  by (simp add: same_frame_def)

lemma same_frame_trans: "same_frame a b \<Longrightarrow> same_frame b c \<Longrightarrow> same_frame a c"
  by (simp add: same_frame_def)

section \<open>Releasing a charge\<close>

lemma or_fence_appliedE:
  assumes "or_fence g x k = (st, g')" and "applied st"
  obtains a where "x = Some a" "k a = (st, g')"
  using assms by (auto simp: or_fence_def fence_release_def split: option.splits)

lemma row_update: "i < length xs \<Longrightarrow> row f (xs[i := x]) j = (if j = i then f x else row f xs j)"
  by (auto simp: row_def)

lemma row_in: "i < length xs \<Longrightarrow> row f xs i = f (xs ! i)"
  by (simp add: row_def)

lemma if_fence_appliedE:
  assumes "(if b then fence_release g else r) = (st, g')" and "applied st"
  obtains "\<not> b" "r = (st, g')"
  using assms by (auto simp: fence_release_def split: if_splits)

text \<open>
  A release has two halves: the branch of the attribution, and the counters. Each half
  moves its own accounts.
\<close>

fun is_counter :: "account \<Rightarrow> bool" where
  "is_counter (A_total _) = True"
| "is_counter A_outstanding = True"
| "is_counter A_ordinary = True"
| "is_counter A_recovery_count = True"
| "is_counter A_uninterruptible = True"
| "is_counter (A_class _) = True"
| "is_counter (A_tenant_count _) = True"
| "is_counter _ = False"

definition counter_charge :: "(account \<Rightarrow> nat) \<Rightarrow> account \<Rightarrow> nat" where
  "counter_charge charge acc = (if is_counter acc then charge acc else 0)"

definition branch_charge :: "(account \<Rightarrow> nat) \<Rightarrow> account \<Rightarrow> nat" where
  "branch_charge charge acc = (if is_counter acc then 0 else charge acc)"

lemma debited_halves:
  assumes "debited (branch_charge charge) g g1" and "debited (counter_charge charge) g1 g'"
  shows "debited charge g g'"
  unfolding debited_def
proof
  fix acc
  show "account_value acc g = account_value acc g' + charge acc"
    using assms [unfolded debited_def, rule_format, of acc]
    by (simp add: branch_charge_def counter_charge_def split: if_splits)
qed

lemma same_frame_intro:
  assumes "books_erased g' = books_erased g" and "books_shape g' = books_shape g"
  shows "same_frame g g'"
  using assms by (simp add: same_frame_def)

lemma release_ordinary_part_applied:
  assumes "release_ordinary_part owner i amounts g k = (st, g')" and "applied st"
    and attr: "owner_attribution owner = Charge_Ordinary i"
  obtains g1 where "k g1 = (st, g')" "same_frame g g1"
    "debited (branch_charge (grant_charge owner cls ordinary kind amounts)) g g1"
    "\<forall>acc. is_counter acc \<longrightarrow> account_value acc g1 = account_value acc g"
    "class_counts g1 = class_counts g" "tenant_outstanding g1 = tenant_outstanding g"
    "total_usage g1 = total_usage g"
proof -
  from assms(1,2) obtain p t tp gp where k: "k (g\<lparr> ordinary_tenant_usage := (ordinary_tenant_usage g)[i := t],
      ordinary_tenant_pool_usage := (ordinary_tenant_pool_usage g)[i := tp], pool_usage := gp \<rparr>) = (st, g')"
    and p: "owner_pools owner = Some p"
    and t: "i < length (ordinary_tenant_usage g)" "amounts_checked_sub (ordinary_tenant_usage g ! i) amounts = Some t"
    and tp: "i < length (ordinary_tenant_pool_usage g)"
      "pools_checked_sub (ordinary_tenant_pool_usage g ! i) (pool_charge_capacities p) = Some tp"
    and gp: "pools_checked_sub (pool_usage g) (pool_charge_capacities p) = Some gp"
    unfolding release_ordinary_part_def Let_def
    by (elim or_fence_appliedE) (auto simp: Option.bind_eq_Some_conv)
  let ?g1 = "g\<lparr> ordinary_tenant_usage := (ordinary_tenant_usage g)[i := t],
      ordinary_tenant_pool_usage := (ordinary_tenant_pool_usage g)[i := tp], pool_usage := gp \<rparr>"
  show thesis
  proof (rule that [OF k])
    show "same_frame g ?g1" by (rule same_frame_intro) (simp_all add: books_erased_def books_shape_def)
    show "\<forall>acc. is_counter acc \<longrightarrow> account_value acc ?g1 = account_value acc g"
    proof (intro allI impI)
      fix acc
      assume "is_counter acc"
      then show "account_value acc ?g1 = account_value acc g" by (cases acc) simp_all
    qed
    show "debited (branch_charge (grant_charge owner cls ordinary kind amounts)) g ?g1"
      unfolding debited_def
    proof
      fix acc
      show "account_value acc g = account_value acc ?g1
          + branch_charge (grant_charge owner cls ordinary kind amounts) acc"
        using amounts_vec.sub_Some [OF t(2)] pools_vec.sub_Some [OF tp(2)] pools_vec.sub_Some [OF gp] t(1) tp(1)
        by (cases acc) (auto simp: branch_charge_def attr p owner_pool_amount_def row_update row_in)
    qed
  qed simp_all
qed

lemma release_recovery_part_applied:
  assumes "release_recovery_part owner ti amounts g k = (st, g')" and "applied st"
    and attr: "owner_attribution owner = Charge_Recovery ti"
  obtains g1 where "k g1 = (st, g')" "same_frame g g1"
    "debited (branch_charge (grant_charge owner cls ordinary kind amounts)) g g1"
    "\<forall>acc. is_counter acc \<longrightarrow> account_value acc g1 = account_value acc g"
    "class_counts g1 = class_counts g" "tenant_outstanding g1 = tenant_outstanding g"
    "total_usage g1 = total_usage g"
proof (cases ti)
  case None
  from assms(1,2) obtain c r rp sp where
    k: "k (g\<lparr> recovery_system_pool_usage := sp, recovery_usage := r, recovery_pool_usage := rp \<rparr>) = (st, g')"
    and c: "owner_recovery_pools owner = Some c"
    and r: "amounts_checked_sub (recovery_usage g) amounts = Some r"
    and rp: "recovery_usage_checked_sub (recovery_pool_usage g) c = Some rp"
    and sp: "recovery_usage_checked_sub (recovery_system_pool_usage g) c = Some sp"
    unfolding release_recovery_part_def Let_def None option.map transpose_option.simps
    by (elim or_fence_appliedE) (auto elim!: or_fence_appliedE)
  let ?g1 = "g\<lparr> recovery_system_pool_usage := sp, recovery_usage := r, recovery_pool_usage := rp \<rparr>"
  show thesis
  proof (rule that [OF k])
    show "same_frame g ?g1" by (rule same_frame_intro) (simp_all add: books_erased_def books_shape_def)
    show "\<forall>acc. is_counter acc \<longrightarrow> account_value acc ?g1 = account_value acc g"
    proof (intro allI impI)
      fix acc
      assume "is_counter acc"
      then show "account_value acc ?g1 = account_value acc g" by (cases acc) simp_all
    qed
    show "debited (branch_charge (grant_charge owner cls ordinary kind amounts)) g ?g1"
      unfolding debited_def
    proof
      fix acc
      show "account_value acc g = account_value acc ?g1
          + branch_charge (grant_charge owner cls ordinary kind amounts) acc"
        using amounts_vec.sub_Some [OF r] recovery_vec.sub_Some [OF rp] recovery_vec.sub_Some [OF sp]
        by (cases acc) (auto simp: branch_charge_def attr None c owner_recovery_amount_def)
    qed
  qed simp_all
next
  case (Some i)
  from assms(1,2) obtain c r rp t tp where
    k: "k (g\<lparr> recovery_tenant_usage := (recovery_tenant_usage g)[i := t],
            recovery_tenant_pool_usage := (recovery_tenant_pool_usage g)[i := tp],
            recovery_usage := r, recovery_pool_usage := rp \<rparr>) = (st, g')"
    and c: "owner_recovery_pools owner = Some c"
    and r: "amounts_checked_sub (recovery_usage g) amounts = Some r"
    and rp: "recovery_usage_checked_sub (recovery_pool_usage g) c = Some rp"
    and t: "i < length (recovery_tenant_usage g)" "amounts_checked_sub (recovery_tenant_usage g ! i) amounts = Some t"
    and tp: "i < length (recovery_tenant_pool_usage g)"
      "recovery_usage_checked_sub (recovery_tenant_pool_usage g ! i) c = Some tp"
    unfolding release_recovery_part_def Let_def Some option.map
    by (elim or_fence_appliedE)
      (auto simp: Option.bind_eq_Some_conv elim!: or_fence_appliedE transpose_option.elims split: option.splits)
  let ?g1 = "g\<lparr> recovery_tenant_usage := (recovery_tenant_usage g)[i := t],
            recovery_tenant_pool_usage := (recovery_tenant_pool_usage g)[i := tp],
            recovery_usage := r, recovery_pool_usage := rp \<rparr>"
  show thesis
  proof (rule that [OF k])
    show "same_frame g ?g1" by (rule same_frame_intro) (simp_all add: books_erased_def books_shape_def)
    show "\<forall>acc. is_counter acc \<longrightarrow> account_value acc ?g1 = account_value acc g"
    proof (intro allI impI)
      fix acc
      assume "is_counter acc"
      then show "account_value acc ?g1 = account_value acc g" by (cases acc) simp_all
    qed
    show "debited (branch_charge (grant_charge owner cls ordinary kind amounts)) g ?g1"
      unfolding debited_def
    proof
      fix acc
      show "account_value acc g = account_value acc ?g1
          + branch_charge (grant_charge owner cls ordinary kind amounts) acc"
        using amounts_vec.sub_Some [OF r] recovery_vec.sub_Some [OF rp] amounts_vec.sub_Some [OF t(2)]
          recovery_vec.sub_Some [OF tp(2)] t(1) tp(1)
        by (cases acc) (auto simp: branch_charge_def attr Some c owner_recovery_amount_def row_update row_in)
    qed
  qed simp_all
qed

text \<open>The counters: \<open>covers\<close> says the candidates were computed from the accounts.\<close>

definition candidates_of ::
  "work_class \<Rightarrow> usize option \<Rightarrow> (account \<Rightarrow> nat) \<Rightarrow> governor \<Rightarrow> release_candidates \<Rightarrow> bool" where
  "candidates_of cls ti charge g c \<longleftrightarrow>
     (\<forall>d. amounts_get (total_usage g) d = amounts_get (cand_total c) d + charge (A_total d)) \<and>
     outstanding g = cand_outstanding c + charge A_outstanding \<and>
     class_index cls < length (class_counts g) \<and>
     class_counts g ! class_index cls = cand_class c + charge (A_class (class_index cls)) \<and>
     outstanding_ordinary g = (case cand_ordinary c of Some n \<Rightarrow> n | None \<Rightarrow> outstanding_ordinary g) + charge A_ordinary \<and>
     outstanding_recovery g =
       (case cand_recovery c of Some n \<Rightarrow> n | None \<Rightarrow> outstanding_recovery g) + charge A_recovery_count \<and>
     outstanding_uninterruptible g =
       (case cand_uninterruptible c of Some n \<Rightarrow> n | None \<Rightarrow> outstanding_uninterruptible g) + charge A_uninterruptible \<and>
     (case ti of None \<Rightarrow> cand_tenant c = None
      | Some i \<Rightarrow> \<exists>n. cand_tenant c = Some n \<and> i < length (tenant_outstanding g) \<and>
          tenant_outstanding g ! i = n + charge (A_tenant_count i))"

lemma release_finish_applied:
  assumes "release_finish poisoned cls ti c g = (st, g')"
    and c: "candidates_of cls ti charge g c"
    and cls: "\<And>i. i \<noteq> class_index cls \<Longrightarrow> charge (A_class i) = 0"
    and tenant: "\<And>i. ti \<noteq> Some i \<Longrightarrow> charge (A_tenant_count i) = 0"
  shows "applied st" "debited (counter_charge charge) g g'" "same_frame g g'"
    "status_result st = (if poisoned \<or> lifecycle g = Fenced then Inl InternalFenced else Inr Released)"
proof -
  let ?g2 = "g\<lparr> total_usage := cand_total c, outstanding := cand_outstanding c,
     class_counts := (class_counts g)[class_index cls := cand_class c],
     outstanding_ordinary := (case cand_ordinary c of Some n \<Rightarrow> n | None \<Rightarrow> outstanding_ordinary g),
     outstanding_recovery := (case cand_recovery c of Some n \<Rightarrow> n | None \<Rightarrow> outstanding_recovery g),
     outstanding_uninterruptible :=
       (case cand_uninterruptible c of Some n \<Rightarrow> n | None \<Rightarrow> outstanding_uninterruptible g) \<rparr>"
  let ?g3 = "case ti of None \<Rightarrow> ?g2
     | Some i \<Rightarrow> ?g2\<lparr> tenant_outstanding := (tenant_outstanding g)[i := the (cand_tenant c)] \<rparr>"
  have g': "g' = ?g3" and st: "applied st"
    "status_result st = (if poisoned \<or> lifecycle g = Fenced then Inl InternalFenced else Inr Released)"
    using assms(1) c
    by (auto simp: release_finish_def or_fence_def slice_set_def candidates_of_def Let_def split: option.splits)
  show "applied st" by (fact st)
  show "status_result st = (if poisoned \<or> lifecycle g = Fenced then Inl InternalFenced else Inr Released)" by (fact st)
  show "same_frame g g'"
    unfolding g' by (cases ti; rule same_frame_intro) (simp_all add: books_erased_def books_shape_def)
  show "debited (counter_charge charge) g g'"
    unfolding debited_def
  proof
    fix acc
    show "account_value acc g = account_value acc g' + counter_charge charge acc"
      using c cls tenant unfolding g'
      by (cases acc; cases ti)
        (auto simp: candidates_of_def counter_charge_def row_update row_in split: if_splits)
  qed
qed

lemma candidates_of_cong:
  assumes "candidates_of cls ti charge g c" and "\<forall>acc. is_counter acc \<longrightarrow> account_value acc g1 = account_value acc g"
    and "class_counts g1 = class_counts g" and "tenant_outstanding g1 = tenant_outstanding g"
    and "total_usage g1 = total_usage g"
  shows "candidates_of cls ti charge g1 c"
proof -
  have e: "outstanding g1 = outstanding g" "outstanding_ordinary g1 = outstanding_ordinary g"
    "outstanding_recovery g1 = outstanding_recovery g" "outstanding_uninterruptible g1 = outstanding_uninterruptible g"
    using assms(2) [rule_format, of A_outstanding] assms(2) [rule_format, of A_ordinary]
      assms(2) [rule_format, of A_recovery_count] assms(2) [rule_format, of A_uninterruptible] by simp_all
  show ?thesis using assms(1) unfolding candidates_of_def e assms(3-5) .
qed

lemma transpose_option_Some_iff:
  "transpose_option x = Some y \<longleftrightarrow> (x = None \<and> y = None) \<or> (\<exists>v. x = Some (Some v) \<and> y = Some v)"
  by (cases x rule: transpose_option.cases) auto

definition release_branch ::
  "charge_owner \<Rightarrow> resource_amounts \<Rightarrow> governor \<Rightarrow> (governor \<Rightarrow> release_status \<times> governor) \<Rightarrow>
   release_status \<times> governor" where
  "release_branch owner amounts g k =
     (case owner_attribution owner of
        Charge_Ordinary i \<Rightarrow> release_ordinary_part owner i amounts g k
      | Charge_Recovery ti \<Rightarrow> release_recovery_part owner ti amounts g k)"

lemma release_components_cases:
  assumes "release_components poisoned owner cls ordinary kind amounts g = (st, g')" and "applied st"
  obtains c where "candidates_of cls (attribution_tenant (owner_attribution owner))
      (grant_charge owner cls ordinary kind amounts) g c"
    "release_branch owner amounts g
       (release_finish poisoned cls (attribution_tenant (owner_attribution owner)) c) = (st, g')"
proof -
  let ?ti = "attribution_tenant (owner_attribution owner)"
  let ?ord = "if ordinary then checked_sub (outstanding_ordinary g) 1 else None"
  let ?rec = "if \<not> ordinary then checked_sub (outstanding_recovery g) 1 else None"
  let ?un = "if kind_uninterruptible kind then checked_sub (outstanding_uninterruptible g) 1 else None"
  from assms obtain total out cnt tc where
    total: "amounts_checked_sub (total_usage g) amounts = Some total"
    and out: "checked_sub (outstanding g) 1 = Some out"
    and cnt: "Option.bind (slice_get (class_counts g) (class_index cls)) (\<lambda>n. checked_sub n 1) = Some cnt"
    and ok: "\<not> (ordinary \<and> ?ord = None \<or> \<not> ordinary \<and> ?rec = None \<or> kind_uninterruptible kind \<and> ?un = None)"
    and tc: "transpose_option (map_option (\<lambda>i. Option.bind (slice_get (tenant_outstanding g) i)
        (\<lambda>n. checked_sub n 1)) ?ti) = Some tc"
    and branch: "release_branch owner amounts g (release_finish poisoned cls ?ti
      \<lparr> cand_total = total, cand_outstanding = out, cand_class = cnt, cand_ordinary = ?ord,
        cand_recovery = ?rec, cand_uninterruptible = ?un, cand_tenant = tc \<rparr>) = (st, g')"
    unfolding release_components_def Let_def release_branch_def [symmetric] kind_uninterruptible_def [symmetric]
    by (elim or_fence_appliedE if_fence_appliedE) (assumption | rule that)+
  show thesis
  proof (rule that [OF _ branch])
    show "candidates_of cls ?ti (grant_charge owner cls ordinary kind amounts) g
      \<lparr> cand_total = total, cand_outstanding = out, cand_class = cnt, cand_ordinary = ?ord,
        cand_recovery = ?rec, cand_uninterruptible = ?un, cand_tenant = tc \<rparr>"
      using amounts_vec.sub_Some [OF total] out cnt ok tc
      by (auto simp: candidates_of_def Option.bind_eq_Some_conv transpose_option_Some_iff checked_sub_def
          split: option.splits if_splits)
  qed
qed

lemma release_branch_applied:
  assumes "release_branch owner amounts g k = (st, g')" and "applied st"
  obtains g1 where "k g1 = (st, g')" "same_frame g g1"
    "debited (branch_charge (grant_charge owner cls ordinary kind amounts)) g g1"
    "\<forall>acc. is_counter acc \<longrightarrow> account_value acc g1 = account_value acc g"
    "class_counts g1 = class_counts g" "tenant_outstanding g1 = tenant_outstanding g"
    "total_usage g1 = total_usage g"
proof (cases "owner_attribution owner")
  case (Charge_Ordinary i)
  then show thesis
    using assms that
    by (auto simp: release_branch_def elim!: release_ordinary_part_applied [OF _ assms(2) Charge_Ordinary])
next
  case (Charge_Recovery ti)
  then show thesis
    using assms that
    by (auto simp: release_branch_def elim!: release_recovery_part_applied [OF _ assms(2) Charge_Recovery])
qed

text \<open>
  A release that is applied moves exactly the charge of the grant off every account, and
  touches nothing else.
\<close>

theorem release_components_applied:
  assumes "release_components poisoned owner cls ordinary kind amounts g = (st, g')" and "applied st"
  shows "debited (grant_charge owner cls ordinary kind amounts) g g'" "same_frame g g'"
    "status_result st = (if poisoned \<or> lifecycle g = Fenced then Inl InternalFenced else Inr Released)"
proof -
  let ?charge = "grant_charge owner cls ordinary kind amounts"
  let ?ti = "attribution_tenant (owner_attribution owner)"
  obtain c where c: "candidates_of cls ?ti ?charge g c"
    and branch: "release_branch owner amounts g (release_finish poisoned cls ?ti c) = (st, g')"
    using assms by (rule release_components_cases)
  obtain g1 where fin: "release_finish poisoned cls ?ti c g1 = (st, g')" and fr: "same_frame g g1"
    and deb: "debited (branch_charge ?charge) g g1"
    and same: "\<forall>acc. is_counter acc \<longrightarrow> account_value acc g1 = account_value acc g"
      "class_counts g1 = class_counts g" "tenant_outstanding g1 = tenant_outstanding g"
      "total_usage g1 = total_usage g"
    by (rule release_branch_applied [OF branch assms(2), where cls = cls and ordinary = ordinary and kind = kind])
  have c1: "candidates_of cls ?ti ?charge g1 c" using c same by (rule candidates_of_cong)
  have "debited (counter_charge ?charge) g1 g'" and fr1: "same_frame g1 g'"
    and st: "status_result st = (if poisoned \<or> lifecycle g1 = Fenced then Inl InternalFenced else Inr Released)"
    using release_finish_applied [OF fin c1] by simp_all
  then show "debited ?charge g g'" by (intro debited_halves [OF deb])
  show "same_frame g g'" using fr fr1 by (rule same_frame_trans)
  show "status_result st = (if poisoned \<or> lifecycle g = Fenced then Inl InternalFenced else Inr Released)"
    using st same_frame_fields(7) [OF fr] by simp
qed

section \<open>When a release is applied\<close>

definition covers :: "governor \<Rightarrow> (account \<Rightarrow> nat) \<Rightarrow> bool" where
  "covers g charge \<longleftrightarrow> (\<forall>acc. charge acc \<le> account_value acc g)"

definition tables_wf :: "nat \<Rightarrow> governor \<Rightarrow> bool" where
  "tables_wf n g \<longleftrightarrow> length (ordinary_tenant_usage g) = n \<and> length (recovery_tenant_usage g) = n \<and>
     length (recovery_tenant_pool_usage g) = n \<and> length (ordinary_tenant_pool_usage g) = n \<and>
     length (tenant_outstanding g) = n \<and> length (class_counts g) = 5"

definition owner_wf :: "charge_owner \<Rightarrow> bool" where
  "owner_wf owner \<longleftrightarrow>
     (case owner_attribution owner of
        Charge_Ordinary _ \<Rightarrow> owner_pools owner \<noteq> None | Charge_Recovery _ \<Rightarrow> owner_recovery_pools owner \<noteq> None)"

lemma or_fence_Some [simp]: "or_fence g (Some a) k = k a"
  by (simp add: or_fence_def)

lemma covers_table:
  assumes "covers g charge" and "charge (A_tenant_count i) = 1"
  shows "i < length (tenant_outstanding g)" "1 \<le> tenant_outstanding g ! i"
  using assms(1) [unfolded covers_def, rule_format, of "A_tenant_count i"] assms(2)
  by (auto simp: row_def split: if_splits)

lemma release_branch_total:
  assumes cov: "covers g (grant_charge owner cls ordinary kind amounts)" and tab: "tables_wf n g" and own: "owner_wf owner"
  shows "\<exists>g1. \<forall>k :: governor \<Rightarrow> release_status \<times> governor. release_branch owner amounts g k = k g1"
proof (cases "owner_attribution owner")
  case (Charge_Ordinary i)
  note cov' = cov [unfolded covers_def, rule_format]
  have i: "i < n"
    using covers_table(1) [OF cov, of i] tab by (simp add: Charge_Ordinary tables_wf_def)
  obtain p where p: "owner_pools owner = Some p" using own by (auto simp: owner_wf_def Charge_Ordinary)
  obtain t where t: "amounts_checked_sub (ordinary_tenant_usage g ! i) amounts = Some t"
    using amounts_vec.sub_defined [of amounts "ordinary_tenant_usage g ! i"] cov' [of "A_tenant i _"] i tab
    by (auto simp: Charge_Ordinary row_in tables_wf_def)
  obtain tp where tp: "pools_checked_sub (ordinary_tenant_pool_usage g ! i) (pool_charge_capacities p) = Some tp"
    using pools_vec.sub_defined [of "pool_charge_capacities p" "ordinary_tenant_pool_usage g ! i"]
      cov' [of "A_tenant_pool i _"] i tab
    by (auto simp: Charge_Ordinary row_in tables_wf_def owner_pool_amount_def p)
  obtain gp where gp: "pools_checked_sub (pool_usage g) (pool_charge_capacities p) = Some gp"
    using pools_vec.sub_defined [of "pool_charge_capacities p" "pool_usage g"] cov' [of "A_pool _"]
    by (auto simp: Charge_Ordinary owner_pool_amount_def p)
  show ?thesis
    using i tab
    by (auto simp: release_branch_def Charge_Ordinary release_ordinary_part_def p t tp gp slice_get_def slice_set_def
        tables_wf_def Let_def)
next
  case (Charge_Recovery ti)
  note cov' = cov [unfolded covers_def, rule_format]
  obtain c where c: "owner_recovery_pools owner = Some c" using own by (auto simp: owner_wf_def Charge_Recovery)
  obtain r where r: "amounts_checked_sub (recovery_usage g) amounts = Some r"
    using amounts_vec.sub_defined [of amounts "recovery_usage g"] cov' [of "A_recovery _"] by (auto simp: Charge_Recovery)
  obtain rp where rp: "recovery_usage_checked_sub (recovery_pool_usage g) c = Some rp"
    using recovery_vec.sub_defined [of c "recovery_pool_usage g"] cov' [of "A_recovery_pool _"]
    by (auto simp: Charge_Recovery owner_recovery_amount_def c)
  show ?thesis
  proof (cases ti)
    case None
    obtain sp where "recovery_usage_checked_sub (recovery_system_pool_usage g) c = Some sp"
      using recovery_vec.sub_defined [of c "recovery_system_pool_usage g"] cov' [of "A_system_pool _"]
      by (auto simp: Charge_Recovery owner_recovery_amount_def c None)
    then show ?thesis
      by (auto simp: release_branch_def Charge_Recovery None release_recovery_part_def c r rp Let_def)
  next
    case (Some i)
    have i: "i < n"
      using covers_table(1) [OF cov, of i] tab by (simp add: Charge_Recovery Some tables_wf_def)
    obtain t where t: "amounts_checked_sub (recovery_tenant_usage g ! i) amounts = Some t"
      using amounts_vec.sub_defined [of amounts "recovery_tenant_usage g ! i"] cov' [of "A_tenant_recovery i _"] i tab
      by (auto simp: Charge_Recovery Some row_in tables_wf_def)
    obtain tp where tp: "recovery_usage_checked_sub (recovery_tenant_pool_usage g ! i) c = Some tp"
      using recovery_vec.sub_defined [of c "recovery_tenant_pool_usage g ! i"]
        cov' [of "A_tenant_recovery_pool i _"] i tab
      by (auto simp: Charge_Recovery Some row_in tables_wf_def owner_recovery_amount_def c)
    show ?thesis
      using i tab
      by (auto simp: release_branch_def Charge_Recovery Some release_recovery_part_def c r rp t tp
          slice_get_def slice_set_def tables_wf_def Let_def)
  qed
qed

lemma covers_candidates:
  assumes cov: "covers g (grant_charge owner cls ordinary kind amounts)" and tab: "tables_wf n g"
  obtains total out cnt tc where
    "amounts_checked_sub (total_usage g) amounts = Some total" "checked_sub (outstanding g) 1 = Some out"
    "Option.bind (slice_get (class_counts g) (class_index cls)) (\<lambda>n. checked_sub n 1) = Some cnt"
    "ordinary \<longrightarrow> checked_sub (outstanding_ordinary g) 1 \<noteq> None"
    "\<not> ordinary \<longrightarrow> checked_sub (outstanding_recovery g) 1 \<noteq> None"
    "kind_uninterruptible kind \<longrightarrow> checked_sub (outstanding_uninterruptible g) 1 \<noteq> None"
    "transpose_option (map_option (\<lambda>i. Option.bind (slice_get (tenant_outstanding g) i)
        (\<lambda>n. checked_sub n 1)) (attribution_tenant (owner_attribution owner))) = Some tc"
proof -
  note cov' = cov [unfolded covers_def, rule_format]
  have c: "class_index cls < length (class_counts g)" "1 \<le> class_counts g ! class_index cls"
    using cov' [of "A_class (class_index cls)"] by (auto simp: row_def split: if_splits)
  obtain total where "amounts_checked_sub (total_usage g) amounts = Some total"
    using amounts_vec.sub_defined [of amounts "total_usage g"] cov' [of "A_total _"] by auto
  moreover have "\<exists>tc. transpose_option (map_option (\<lambda>i. Option.bind (slice_get (tenant_outstanding g) i)
        (\<lambda>n. checked_sub n 1)) (attribution_tenant (owner_attribution owner))) = Some tc"
  proof (cases "attribution_tenant (owner_attribution owner)")
    case (Some i)
    then show ?thesis
      using covers_table [OF cov, of i] by (simp add: slice_get_def checked_sub_def)
  qed simp
  moreover have "checked_sub (outstanding g) 1 = Some (outstanding g - 1)"
    using cov' [of A_outstanding] by (simp add: checked_sub_def)
  moreover have "Option.bind (slice_get (class_counts g) (class_index cls)) (\<lambda>n. checked_sub n 1)
      = Some (class_counts g ! class_index cls - 1)"
    using c by (simp add: slice_get_def checked_sub_def)
  moreover have "ordinary \<longrightarrow> checked_sub (outstanding_ordinary g) 1 \<noteq> None"
    "\<not> ordinary \<longrightarrow> checked_sub (outstanding_recovery g) 1 \<noteq> None"
    "kind_uninterruptible kind \<longrightarrow> checked_sub (outstanding_uninterruptible g) 1 \<noteq> None"
    using cov' [of A_ordinary] cov' [of A_recovery_count] cov' [of A_uninterruptible] by auto
  ultimately show thesis using that by blast
qed

theorem release_components_total:
  assumes cov: "covers g (grant_charge owner cls ordinary kind amounts)" and tab: "tables_wf n g" and own: "owner_wf owner"
  shows "applied (fst (release_components poisoned owner cls ordinary kind amounts g))"
proof -
  let ?ti = "attribution_tenant (owner_attribution owner)"
  let ?ord = "if ordinary then checked_sub (outstanding_ordinary g) 1 else None"
  let ?rec = "if \<not> ordinary then checked_sub (outstanding_recovery g) 1 else None"
  let ?un = "if kind_uninterruptible kind then checked_sub (outstanding_uninterruptible g) 1 else None"
  obtain total out cnt tc where cand:
    "amounts_checked_sub (total_usage g) amounts = Some total" "checked_sub (outstanding g) 1 = Some out"
    "Option.bind (slice_get (class_counts g) (class_index cls)) (\<lambda>n. checked_sub n 1) = Some cnt"
    "ordinary \<longrightarrow> checked_sub (outstanding_ordinary g) 1 \<noteq> None"
    "\<not> ordinary \<longrightarrow> checked_sub (outstanding_recovery g) 1 \<noteq> None"
    "kind_uninterruptible kind \<longrightarrow> checked_sub (outstanding_uninterruptible g) 1 \<noteq> None"
    "transpose_option (map_option (\<lambda>i. Option.bind (slice_get (tenant_outstanding g) i)
        (\<lambda>n. checked_sub n 1)) ?ti) = Some tc"
    using cov tab by (rule covers_candidates)
  have healthy: "\<not> (ordinary \<and> ?ord = None \<or> \<not> ordinary \<and> ?rec = None \<or> kind_uninterruptible kind \<and> ?un = None)"
    using cand(4-6) by (simp add: gr0_conv_Suc)
  let ?c = "\<lparr> cand_total = total, cand_outstanding = out, cand_class = cnt, cand_ordinary = ?ord,
        cand_recovery = ?rec, cand_uninterruptible = ?un, cand_tenant = tc \<rparr>"
  obtain g1 where g1: "\<And>k :: governor \<Rightarrow> release_status \<times> governor. release_branch owner amounts g k = k g1"
    using release_branch_total [OF assms] by blast
  have "release_branch owner amounts g (\<lambda>h. (\<lparr> applied = True, status_result = Inr Released \<rparr>, h))
      = (\<lparr> applied = True, status_result = Inr Released \<rparr>, g1)"
    by (rule g1)
  then have same: "class_counts g1 = class_counts g" "tenant_outstanding g1 = tenant_outstanding g"
    by (auto elim!: release_branch_applied)
  have "release_components poisoned owner cls ordinary kind amounts g = release_finish poisoned cls ?ti ?c g1"
    unfolding release_components_def Let_def kind_uninterruptible_def [symmetric] release_branch_def [symmetric]
      cand(1-3,7) or_fence_Some if_not_P [OF healthy] g1 ..
  moreover have "applied (fst (release_finish poisoned cls ?ti ?c g1))"
    using cand(3,7) same
    by (auto simp: release_finish_def Let_def slice_set_def Option.bind_eq_Some_conv transpose_option_Some_iff
        split: option.splits)
  ultimately show ?thesis by simp
qed

end
