(* ===== verification/Operations.thy ===== *)
theory Operations
  imports Books
begin

text \<open>
  The grant records as a forest of logical operations: a root slot and the child slots
  that name it. Releasing a slot rewrites the records; this theory states what that does
  to the forest and to the sum of the charges, apart from the slot signals.
\<close>

section \<open>Charges of records\<close>

text \<open>A released root stays in its slot as metadata and owes nothing.\<close>

definition retired :: "grant_record \<Rightarrow> bool" where
  "retired r \<longleftrightarrow> (case gr_operation r of Some (Root _ accepting _) \<Rightarrow> \<not> accepting | _ \<Rightarrow> False)"

definition record_grant :: "charge_owner \<Rightarrow> grant_record \<Rightarrow> account \<Rightarrow> nat" where
  "record_grant owner r = grant_charge owner (record_class r) (record_is_ordinary r) (record_recovery_kind r) (gr_amounts r)"

definition record_charge :: "account \<Rightarrow> grant_record \<Rightarrow> nat" where
  "record_charge acc r =
     (if retired r then 0 else case record_owner r of None \<Rightarrow> 0 | Some owner \<Rightarrow> record_grant owner r acc)"

definition conserved :: "governor \<Rightarrow> bool" where
  "conserved g \<longleftrightarrow> (\<forall>acc. account_value acc g = slot_sum (record_charge acc) (grant_records g))"

definition record_ok :: "nat \<Rightarrow> grant_record \<Rightarrow> bool" where
  "record_ok n r \<longleftrightarrow>
     (case record_owner r of
        None \<Rightarrow> False
      | Some owner \<Rightarrow> (case attribution_tenant (owner_attribution owner) of Some i \<Rightarrow> i < n | None \<Rightarrow> True)) \<and>
     (gr_operation r \<noteq> None \<longrightarrow> record_is_ordinary r)"

section \<open>The forest of operations\<close>

definition is_child_of :: "u16 \<Rightarrow> u64 \<Rightarrow> grant_record \<Rightarrow> bool" where
  "is_child_of root gen r \<longleftrightarrow> gr_operation r = Some (Child root gen)"

definition children :: "grant_record option list \<Rightarrow> u16 \<Rightarrow> u64 \<Rightarrow> nat" where
  "children rs root gen = slot_sum (\<lambda>r. if is_child_of root gen r then 1 else 0) rs"

definition same_subject :: "grant_record \<Rightarrow> grant_record \<Rightarrow> bool" where
  "same_subject r root \<longleftrightarrow> gr_tenant r = gr_tenant root \<and> gr_principal r = gr_principal root \<and>
     gr_tenant_index r = gr_tenant_index root \<and> record_class r = record_class root"

definition slot_ok :: "grant_record option list \<Rightarrow> nat \<Rightarrow> grant_record \<Rightarrow> bool" where
  "slot_ok rs i r \<longleftrightarrow>
     (case gr_operation r of
        None \<Rightarrow> True
      | Some (Root gen accepting cnt) \<Rightarrow> cnt = children rs i gen \<and> (accepting \<or> 0 < cnt)
      | Some (Child root gen) \<Rightarrow>
          root < length rs \<and>
          (\<exists>r' accepting cnt. rs ! root = Some r' \<and> gr_operation r' = Some (Root gen accepting cnt) \<and> same_subject r r'))"

definition forest_ok :: "grant_record option list \<Rightarrow> bool" where
  "forest_ok rs \<longleftrightarrow> (\<forall>i < length rs. \<forall>r. rs ! i = Some r \<longrightarrow> slot_ok rs i r)"

text \<open>The records after slot \<open>i\<close> was given back.\<close>

definition retire_records :: "grant_record option list \<Rightarrow> nat \<Rightarrow> grant_record \<Rightarrow> grant_record option list" where
  "retire_records rs i r =
     (case gr_operation r of
        None \<Rightarrow> rs[i := None]
      | Some (Root gen accepting cnt) \<Rightarrow>
          if cnt = 0 then rs[i := None] else rs[i := released_root r]
      | Some (Child root gen) \<Rightarrow>
          (case slot_get rs root of
             None \<Rightarrow> rs
           | Some r' \<Rightarrow>
               (case decrement_root_child r' of
                  None \<Rightarrow> rs
                | Some (updated, remove) \<Rightarrow> rs[i := None, root := (if remove then None else Some updated)])))"

lemma children_update:
  assumes "i < length rs"
  shows "children (rs[i := x]) root gen + (case rs ! i of None \<Rightarrow> 0 | Some r \<Rightarrow> if is_child_of root gen r then 1 else 0)
    = children rs root gen + (case x of None \<Rightarrow> 0 | Some r \<Rightarrow> if is_child_of root gen r then 1 else 0)"
  unfolding children_def by (rule slot_sum_update [OF assms])

lemma children_pos:
  assumes "i < length rs" and "rs ! i = Some r" and "is_child_of root gen r"
  shows "0 < children rs root gen"
proof -
  have "(if is_child_of root gen r then 1 else 0) \<le> children rs root gen"
    unfolding children_def by (rule slot_sum_ge [OF assms(1,2), of "\<lambda>r. if is_child_of root gen r then 1 else 0"])
  then show ?thesis using assms(3) by simp
qed

lemma children_zeroD:
  assumes "children rs root gen = 0" and "i < length rs" and "rs ! i = Some r"
  shows "\<not> is_child_of root gen r"
  using children_pos [OF assms(2,3), of root gen] assms(1) by auto

section \<open>Giving a slot back\<close>

lemma slot_okD:
  assumes "forest_ok rs" and "i < length rs" and "rs ! i = Some r"
  shows "slot_ok rs i r"
  using assms by (simp add: forest_ok_def)

lemma childless:
  assumes ok: "forest_ok rs" and i: "i < length rs" "rs ! i = Some r"
    and leaf: "\<And>gen accepting cnt. gr_operation r = Some (Root gen accepting cnt) \<Longrightarrow> cnt = 0"
    and j: "j < length rs" "rs ! j = Some r'"
  shows "\<not> is_child_of i gen r'"
proof
  assume child: "is_child_of i gen r'"
  then obtain accepting cnt where root: "gr_operation r = Some (Root gen accepting cnt)"
    using slot_okD [OF ok j] i by (auto simp: slot_ok_def is_child_of_def)
  then have "cnt = children rs i gen" using slot_okD [OF ok i] by (simp add: slot_ok_def)
  with leaf [OF root] show False using children_zeroD [OF _ j, of i gen] child by simp
qed

text \<open>The things that can happen to the records, with what is known about them.\<close>

lemma retire_records_cases:
  assumes ok: "forest_ok rs" and i: "i < length rs" "rs ! i = Some r" and live: "\<not> retired r"
  obtains (leaf) "retire_records rs i r = rs[i := None]" "\<forall>root gen. \<not> is_child_of root gen r"
      "\<forall>gen accepting cnt. gr_operation r = Some (Root gen accepting cnt) \<longrightarrow> cnt = 0"
  | (keep) gen c where "gr_operation r = Some (Root gen True (Suc c))"
      "retire_records rs i r = rs[i := Some (r\<lparr> gr_amounts := amounts_zero, gr_shared := amounts_zero,
         gr_operation := Some (Root gen False (Suc c)) \<rparr>)]"
  | (child) root gen r' accepting c where "gr_operation r = Some (Child root gen)" "root < length rs" "root \<noteq> i"
      "rs ! root = Some r'" "gr_operation r' = Some (Root gen accepting (Suc c))" "same_subject r r'"
      "children rs root gen = Suc c"
      "retire_records rs i r = rs[i := None,
         root := (if \<not> accepting \<and> c = 0 then None else Some (r'\<lparr> gr_operation := Some (Root gen accepting c) \<rparr>))]"
proof (cases "gr_operation r")
  case None
  then show thesis by (intro leaf) (simp_all add: retire_records_def is_child_of_def)
next
  case (Some op)
  show thesis
  proof (cases op)
    case (Root gen accepting cnt)
    then have "accepting" using live Some by (simp add: retired_def)
    then show thesis
      using Some Root
      by (cases cnt) (auto simp: retire_records_def is_child_of_def released_root_def intro: leaf keep)
  next
    case (Child root gen)
    with Some slot_okD [OF ok i] obtain r' accepting cnt where root: "root < length rs" "rs ! root = Some r'"
      "gr_operation r' = Some (Root gen accepting cnt)" "same_subject r r'"
      by (auto simp: slot_ok_def)
    have cnt: "cnt = children rs root gen" using slot_okD [OF ok root(1,2)] root(3) by (simp add: slot_ok_def)
    have "0 < cnt" unfolding cnt using children_pos [OF i] Some Child by (simp add: is_child_of_def)
    then obtain c where c: "cnt = Suc c" by (cases cnt) simp_all
    have "root \<noteq> i" using root(2,3) i(2) Some Child by auto
    with Some Child root c cnt show thesis
      by (intro child [of root gen r' accepting c])
        (simp_all add: retire_records_def slot_get_def decrement_root_child_def checked_sub_def)
  qed
qed

text \<open>The charge of the slot, and only that, leaves the sum.\<close>

lemma record_tenant_index_operation [simp]:
  "record_tenant_index (r\<lparr> gr_operation := op \<rparr>) = record_tenant_index r"
  by (simp add: record_tenant_index_def)

lemma record_charge_operation:
  "retired (r\<lparr> gr_operation := Some (Root gen accepting c) \<rparr>) \<longleftrightarrow> \<not> accepting"
  "record_owner (r\<lparr> gr_operation := op \<rparr>) = record_owner r"
  "record_class (r\<lparr> gr_operation := op \<rparr>) = record_class r"
  "record_is_ordinary (r\<lparr> gr_operation := op \<rparr>) = record_is_ordinary r"
  "record_recovery_kind (r\<lparr> gr_operation := op \<rparr>) = record_recovery_kind r"
  by (simp_all add: retired_def record_owner_def record_class_def record_is_ordinary_def record_recovery_kind_def
      cong: option.case_cong)

lemma record_grant_operation: "record_grant owner (r\<lparr> gr_operation := op \<rparr>) = record_grant owner r"
  by (simp add: record_grant_def record_charge_operation)

lemma record_charge_retired: "retired r \<Longrightarrow> record_charge acc r = 0"
  by (simp add: record_charge_def)

lemma record_charge_recount:
  assumes "gr_operation r = Some (Root gen accepting c)"
  shows "record_charge acc (r\<lparr> gr_operation := Some (Root gen accepting c') \<rparr>) = record_charge acc r"
  using assms
  by (simp add: record_charge_def record_charge_operation record_grant_operation cong: option.case_cong)
    (simp add: retired_def)

lemma retire_records_sum:
  assumes "forest_ok rs" and i: "i < length rs" "rs ! i = Some r" and "\<not> retired r"
  shows "slot_sum (record_charge acc) rs = slot_sum (record_charge acc) (retire_records rs i r) + record_charge acc r"
  using assms
proof (cases rule: retire_records_cases)
  case leaf
  then show ?thesis using slot_sum_clear [OF i, of "record_charge acc"] by simp
next
  case (keep gen c)
  then show ?thesis
    using slot_sum_replace [OF i, of "record_charge acc"]
    by (simp add: record_charge_retired retired_def)
next
  case (child root gen r' accepting c)
  have clear: "slot_sum (record_charge acc) rs = slot_sum (record_charge acc) (rs[i := None]) + record_charge acc r"
    by (rule slot_sum_clear [OF i])
  have root: "root < length (rs[i := None])" "rs[i := None] ! root = Some r'" using child by simp_all
  show ?thesis
  proof (cases "\<not> accepting \<and> c = 0")
    case True
    then have "record_charge acc r' = 0" using child by (intro record_charge_retired) (simp add: retired_def)
    then show ?thesis using clear slot_sum_clear [OF root, of "record_charge acc"] True child by simp
  next
    case False
    then have "retire_records rs i r = rs[i := None, root := Some (r'\<lparr> gr_operation := Some (Root gen accepting c) \<rparr>)]"
      using child(8) by (simp only: if_False)
    then show ?thesis
      using clear slot_sum_replace_same [OF root, of "record_charge acc"] record_charge_recount [OF child(5)]
      by simp
  qed
qed

lemma retire_records_length [simp]: "length (retire_records rs i r) = length rs"
  by (auto simp: retire_records_def split: option.splits operation_record.splits prod.splits)

text \<open>Every other slot keeps its grant; only a child count may change.\<close>

definition same_grant :: "grant_record \<Rightarrow> grant_record \<Rightarrow> bool" where
  "same_grant r r' \<longleftrightarrow>
     r' = r \<or> (\<exists>gen accepting c c'. gr_operation r = Some (Root gen accepting c) \<and>
               r' = r\<lparr> gr_operation := Some (Root gen accepting c') \<rparr>)"

lemma same_grant_refl [simp]: "same_grant r r"
  by (simp add: same_grant_def)

lemma same_grant_facts:
  assumes "same_grant r r'"
  shows "retired r' = retired r" "record_owner r' = record_owner r" "record_class r' = record_class r"
    "gr_amounts r' = gr_amounts r" "gr_tenant r' = gr_tenant r" "gr_principal r' = gr_principal r"
    "gr_tenant_index r' = gr_tenant_index r" "is_child_of root gen r' = is_child_of root gen r"
    "record_charge acc r' = record_charge acc r" "record_ok n r' = record_ok n r"
    "gr_operation r' = None \<longleftrightarrow> gr_operation r = None"
  using assms
  by (auto simp: same_grant_def record_charge_operation record_charge_recount record_ok_def is_child_of_def)
    (auto simp: retired_def)

lemma retire_records_other:
  assumes "forest_ok rs" and i: "i < length rs" "rs ! i = Some r" and "\<not> retired r" and j: "j < length rs" "j \<noteq> i"
  shows "case retire_records rs i r ! j of
      None \<Rightarrow> rs ! j = None \<or> (\<exists>r'. rs ! j = Some r' \<and> retired r')
    | Some r'' \<Rightarrow> \<exists>r'. rs ! j = Some r' \<and> same_grant r' r''"
  using assms(1-4)
proof (cases rule: retire_records_cases)
  case (child root gen r' accepting c)
  then show ?thesis
    using j by (cases "j = root") (auto simp: same_grant_def retired_def split: option.splits)
qed (use j in \<open>auto split: option.splits\<close>)

lemma retire_records_self:
  assumes "forest_ok rs" and i: "i < length rs" "rs ! i = Some r" and "\<not> retired r"
  shows "case retire_records rs i r ! i of None \<Rightarrow> True | Some r' \<Rightarrow> retired r' \<and>
      gr_tenant r' = gr_tenant r \<and> gr_kind r' = gr_kind r \<and> gr_tenant_index r' = gr_tenant_index r"
  using assms
proof (cases rule: retire_records_cases)
  case (keep gen c)
  then show ?thesis using i by (simp add: retired_def)
qed (use i in \<open>auto split: option.splits\<close>)

lemma children_retire:
  assumes "forest_ok rs" and i: "i < length rs" "rs ! i = Some r" and "\<not> retired r"
  shows "children (retire_records rs i r) root gen + (if is_child_of root gen r then 1 else 0) = children rs root gen"
  using assms
proof (cases rule: retire_records_cases)
  case leaf
  then show ?thesis using children_update [OF i(1), of None root gen] i by simp
next
  case (keep g c)
  then show ?thesis
    using children_update [OF i(1), of "Some (r\<lparr> gr_amounts := amounts_zero, gr_shared := amounts_zero,
         gr_operation := Some (Root g False (Suc c)) \<rparr>)" root gen] i
    by (simp add: is_child_of_def)
next
  case (child rt g r' accepting c)
  let ?x = "if \<not> accepting \<and> c = 0 then None else Some (r'\<lparr> gr_operation := Some (Root g accepting c) \<rparr>)"
  have "children (rs[i := None, rt := ?x]) root gen = children (rs[i := None]) root gen"
    using children_update [of rt "rs[i := None]" ?x root gen] child by (simp add: is_child_of_def split: if_splits)
  then show ?thesis using children_update [OF i(1), of None root gen] i child(8) by simp
qed

lemma same_grant_subject:
  "same_grant r r' \<Longrightarrow> same_subject x r' \<longleftrightarrow> same_subject x r"
  "same_grant r r' \<Longrightarrow> same_subject r' x \<longleftrightarrow> same_subject r x"
  by (auto simp: same_subject_def same_grant_facts)

text \<open>A child never loses its root: the root goes only with its last child.\<close>

lemma retire_keeps_root:
  assumes ok: "forest_ok rs" and i: "i < length rs" "rs ! i = Some r" and live: "\<not> retired r"
    and j: "j < length rs" "j \<noteq> i" "rs ! j = Some x" "gr_operation x = Some (Child root gen)"
  shows "\<exists>y accepting cnt. retire_records rs i r ! root = Some y \<and> gr_operation y = Some (Root gen accepting cnt) \<and>
    same_subject x y"
proof -
  obtain y accepting cnt where y: "root < length rs" "rs ! root = Some y"
    "gr_operation y = Some (Root gen accepting cnt)" "same_subject x y"
    using slot_okD [OF ok j(1,3)] j(4) by (auto simp: slot_ok_def)
  have xc: "is_child_of root gen x" using j(4) by (simp add: is_child_of_def)
  show ?thesis
    using ok i live
  proof (cases rule: retire_records_cases)
    case leaf
    then have "root \<noteq> i" using childless [OF ok i _ j(1,3), of gen] xc by blast
    then show ?thesis using leaf y by auto
  next
    case (keep g c)
    show ?thesis
    proof (cases "root = i")
      case True
      then have "y = r" "gen = g" using y i keep by simp_all
      then show ?thesis using True keep i y(4) by (auto simp: same_subject_def record_class_def)
    next
      case False
      then show ?thesis using keep y by auto
    qed
  next
    case (child rt g r' acc c)
    then have ri: "root \<noteq> i" using y(2,3) i(2) by auto
    show ?thesis
    proof (cases "root = rt")
      case True
      then have eq: "y = r'" "gen = g" using child y by simp_all
      have "0 < children (rs[i := None]) root gen"
        using children_pos [of j "rs[i := None]" x root gen] j xc by simp
      moreover have "children (rs[i := None]) root gen = c"
        using children_update [OF i(1), of None root gen] i(2) child True eq by (simp add: is_child_of_def)
      ultimately have "0 < c" by simp
      then show ?thesis using child True eq y(4) ri by (auto simp: same_subject_def record_charge_operation)
    next
      case False
      then show ?thesis using child y ri by auto
    qed
  qed
qed

lemma retire_forest:
  assumes ok: "forest_ok rs" and i: "i < length rs" "rs ! i = Some r" and live: "\<not> retired r"
  shows "forest_ok (retire_records rs i r)"
  unfolding forest_ok_def
proof (intro allI impI)
  fix j x
  assume j: "j < length (retire_records rs i r)" and x: "retire_records rs i r ! j = Some x"
  note kids = children_retire [OF ok i live]
  show "slot_ok (retire_records rs i r) j x"
  proof (cases "j = i")
    case True
    show ?thesis
      using ok i live
    proof (cases rule: retire_records_cases)
      case (keep gen c)
      then have "Suc c = children rs i gen" using slot_okD [OF ok i] by (simp add: slot_ok_def)
      then show ?thesis
        using x True keep i kids [of i gen] by (auto simp: slot_ok_def is_child_of_def)
    qed (use x True i in \<open>auto\<close>)
  next
    case False
    obtain x0 where x0: "rs ! j = Some x0" "same_grant x0 x"
      using retire_records_other [OF ok i live] j False x by fastforce
    have ok0: "slot_ok rs j x0" using slot_okD [OF ok] j x0 by simp
    show ?thesis
    proof (cases "gr_operation x0")
      case None
      then show ?thesis using same_grant_facts(11) [OF x0(2)] by (simp add: slot_ok_def)
    next
      case (Some op)
      show ?thesis
      proof (cases op)
        case (Child root gen)
        then have "x = x0" using x0(2) Some by (auto simp: same_grant_def)
        then show ?thesis
          using retire_keeps_root [OF ok i live _ False x0(1)] j Some Child ok0
          by (auto simp: slot_ok_def)
      next
        case (Root gen accepting cnt)
        have cnt: "cnt = children rs j gen" "accepting \<or> 0 < cnt" using ok0 Some Root by (auto simp: slot_ok_def)
        show ?thesis
          using ok i live
        proof (cases rule: retire_records_cases)
          case leaf
          then have "x = x0" using x x0 False by simp
          then show ?thesis using kids [of j gen] leaf(2) cnt Some Root by (simp add: slot_ok_def)
        next
          case (keep g c)
          then have "x = x0" using x x0 False by simp
          then show ?thesis using kids [of j gen] keep(1) cnt Some Root by (simp add: slot_ok_def is_child_of_def)
        next
          case (child rt g r' acc c)
          show ?thesis
          proof (cases "j = rt")
            case True
            then have eq: "x0 = r'" "gen = g" "accepting = acc" "cnt = Suc c" using child(4,5) x0 Some Root by simp_all
            have "x = r'\<lparr> gr_operation := Some (Root g acc c) \<rparr>" and "acc \<or> 0 < c"
              using x child(8) True j by (simp_all split: if_splits)
            moreover have "children (retire_records rs i r) j gen = c"
              using kids [of j gen] child(1,7) True eq by (simp add: is_child_of_def)
            ultimately show ?thesis using eq by (simp add: slot_ok_def)
          next
            case False': False
            then have "x = x0" using x x0 False child(8) by simp
            moreover have "\<not> is_child_of j gen r" using child(1) False' by (simp add: is_child_of_def)
            ultimately show ?thesis using kids [of j gen] cnt Some Root by (simp add: slot_ok_def)
          qed
        qed
      qed
    qed
  qed
qed

end
