(* ===== verification/Conservation.thy ===== *)
theory Conservation
  imports Operations
begin

text \<open>
  The ledger invariant: slots, tables, records and operations fit together, and every
  account equals the sum of the charges of the live records. Releasing a slot under the
  invariant is always applied, keeps the invariant, and moves exactly the charge of the
  slot; draining dropped handles is a sequence of such releases and never fences.
\<close>

section \<open>The invariant\<close>

definition ledger_inv :: "nat \<Rightarrow> governor \<Rightarrow> bool" where
  "ledger_inv n g \<longleftrightarrow> slots_wf g \<and> tables_wf n g \<and> forest_ok (grant_records g) \<and> conserved g \<and>
     (\<forall>i < length (grant_records g). \<forall>r. grant_records g ! i = Some r \<longrightarrow> record_ok n r)"

lemma ledger_invD:
  assumes "ledger_inv n g"
  shows "slots_wf g" "tables_wf n g" "forest_ok (grant_records g)" "conserved g"
    "i < length (grant_records g) \<Longrightarrow> grant_records g ! i = Some r \<Longrightarrow> record_ok n r"
  using assms by (simp_all add: ledger_inv_def)

text \<open>The part of the state that releasing, admitting and resizing rewrite besides the books.\<close>

definition relist :: "governor \<Rightarrow> grant_record option list \<Rightarrow> u8 list \<Rightarrow> u16 list \<Rightarrow> governor" where
  "relist g records signals free = g\<lparr> grant_records := records, slot_signals := signals, free_slots := free \<rparr>"

lemma relist_simps [simp]:
  "grant_records (relist g rs sig free) = rs" "slot_signals (relist g rs sig free) = sig"
  "free_slots (relist g rs sig free) = free" "account_value acc (relist g rs sig free) = account_value acc g"
  "lifecycle (relist g rs sig free) = lifecycle g" "pending_words (relist g rs sig free) = pending_words g"
  "has_pending_releases (relist g rs sig free) = has_pending_releases g"
  "pending_fence (relist g rs sig free) = pending_fence g" "disk_pressure (relist g rs sig free) = disk_pressure g"
  "tables_wf n (relist g rs sig free) = tables_wf n g" "tenant_quotas (relist g rs sig free) = tenant_quotas g"
  "next_operation_generation (relist g rs sig free) = next_operation_generation g"
  by (cases acc; simp add: relist_def tables_wf_def)+

section \<open>Retiring a slot\<close>

lemma finish_slot_relist:
  assumes "slots_wf g" and "i < length (grant_records g)" and "grant_records g ! i \<noteq> None"
  shows "finish_slot i g = (True, relist g ((grant_records g)[i := None]) ((slot_signals g)[i := SLOT_FREE])
      (free_slots g @ [i]))"
    "slots_wf (relist g ((grant_records g)[i := None]) ((slot_signals g)[i := SLOT_FREE]) (free_slots g @ [i]))"
  using finish_slot_wf [OF assms] slots_wf_finish [OF assms] by (simp_all add: relist_def)

lemma relist_relist [simp]: "relist (relist g rs sig free) rs' sig' free' = relist g rs' sig' free'"
  by (simp add: relist_def)

lemma slots_wf_relist_replace:
  assumes "slots_wf (relist g rs sig free)" and "i < length rs" and "rs ! i \<noteq> None"
  shows "slots_wf (relist g (rs[i := Some r]) sig free)"
  using assms by (auto simp: slots_wf_def nth_list_update split: if_splits)

lemma relist_self: "g\<lparr> grant_records := rs \<rparr> = relist g rs (slot_signals g) (free_slots g)"
  by (simp add: relist_def)

lemma retire_slot_with_relist:
  assumes wf: "slots_wf g" and ok: "forest_ok (grant_records g)"
    and i: "i < length (grant_records g)" "grant_records g ! i = Some r" and live: "\<not> retired r"
  obtains sig free where
    "retire_slot_with fence res r i g = (res, relist g (retire_records (grant_records g) i r) sig free)"
    "slots_wf (relist g (retire_records (grant_records g) i r) sig free)" "length sig = length (slot_signals g)"
    "\<forall>j < length sig. retire_records (grant_records g) i r ! j \<noteq> None \<longrightarrow> sig ! j = slot_signals g ! j"
proof -
  have len: "length (slot_signals g) = length (grant_records g)" using wf by (simp add: slots_wf_def)
  show thesis
    using ok i live
  proof (cases rule: retire_records_cases)
    case leaf
    note fin = finish_slot_relist [OF wf i(1)]
    show thesis
    proof (rule that)
      show "retire_slot_with fence res r i g = (res, relist g (retire_records (grant_records g) i r)
          ((slot_signals g)[i := SLOT_FREE]) (free_slots g @ [i]))"
        using fin(1) leaf i
        by (auto simp: retire_slot_with_def is_child_of_def split: option.splits operation_record.splits)
    qed (use fin(2) leaf i len in \<open>auto simp: nth_list_update split: if_splits\<close>)
  next
    case (keep gen c)
    have "slots_wf (relist g (grant_records g) (slot_signals g) (free_slots g))" using wf by (simp add: relist_def)
    from slots_wf_relist_replace [OF this i(1)] i(2) show thesis
      by (intro that [of "slot_signals g" "free_slots g"])
        (use i keep in \<open>auto simp: retire_slot_with_def released_root_def slice_set_def relist_self\<close>)
  next
    case (child root gen r' accepting c)
    note fin = finish_slot_relist [OF wf i(1)]
    let ?g1 = "relist g ((grant_records g)[i := None]) ((slot_signals g)[i := SLOT_FREE]) (free_slots g @ [i])"
    have root: "root < length (grant_records ?g1)" "grant_records ?g1 ! root \<noteq> None" using child by simp_all
    have "slots_wf ?g1" using fin(2) i by simp
    note fin2 = finish_slot_relist [OF this root] and rep = slots_wf_relist_replace [OF \<open>slots_wf ?g1\<close>, of root]
    show thesis
    proof (cases "\<not> accepting \<and> c = 0")
      case True
      show thesis
      proof (rule that)
        show "retire_slot_with fence res r i g = (res, relist g (retire_records (grant_records g) i r)
            ((slot_signals g)[i := SLOT_FREE, root := SLOT_FREE]) (free_slots g @ [i, root]))"
          using True child fin(1) fin2(1) i
          by (simp add: retire_slot_with_def slot_get_def decrement_root_child_def checked_sub_def)
      qed (use fin2(2) child True i len in \<open>auto simp: nth_list_update split: if_splits\<close>)
    next
      case False
      then have retire: "retire_records (grant_records g) i r =
          (grant_records g)[i := None, root := Some (r'\<lparr> gr_operation := Some (Root gen accepting c) \<rparr>)]"
        using child(8) by (simp only: if_False)
      show thesis
      proof (rule that)
        show "retire_slot_with fence res r i g = (res, relist g (retire_records (grant_records g) i r)
            ((slot_signals g)[i := SLOT_FREE]) (free_slots g @ [i]))"
          using False child(1-5) fin(1) i unfolding retire
          by (auto simp: retire_slot_with_def slot_get_def decrement_root_child_def checked_sub_def slice_set_def relist_def)
      qed (use rep child False i len in \<open>auto simp: retire nth_list_update split: if_splits\<close>)
    qed
  qed
qed

section \<open>Releasing a slot\<close>

text \<open>Everything but the books, the records and the slots.\<close>

definition world :: "governor \<Rightarrow> governor" where
  "world g = relist (books_erased g) [] [] []"

lemma world_fields:
  assumes "world g' = world g"
  shows "pending_words g' = pending_words g" "has_pending_releases g' = has_pending_releases g"
    "pending_fence g' = pending_fence g" "lifecycle g' = lifecycle g" "tenant_quotas g' = tenant_quotas g"
    "disk_pressure g' = disk_pressure g" "next_operation_generation g' = next_operation_generation g"
    "pending_tenant g' = pending_tenant g" "rejection_counts g' = rejection_counts g"
    "tenant_limits g' = tenant_limits g" "tenant_fair_capacities g' = tenant_fair_capacities g"
    "recovery_tenant_shared_fair g' = recovery_tenant_shared_fair g"
    "recovery_tenant_pool_fair g' = recovery_tenant_pool_fair g"
  using arg_cong [OF assms, of pending_words] arg_cong [OF assms, of has_pending_releases]
    arg_cong [OF assms, of pending_fence] arg_cong [OF assms, of lifecycle] arg_cong [OF assms, of tenant_quotas]
    arg_cong [OF assms, of disk_pressure] arg_cong [OF assms, of next_operation_generation]
    arg_cong [OF assms, of pending_tenant] arg_cong [OF assms, of rejection_counts]
    arg_cong [OF assms, of tenant_limits] arg_cong [OF assms, of tenant_fair_capacities]
    arg_cong [OF assms, of recovery_tenant_shared_fair] arg_cong [OF assms, of recovery_tenant_pool_fair]
  by (simp_all add: world_def relist_def books_erased_def)

lemma world_same_frame: "same_frame g g' \<Longrightarrow> world g' = world g"
  by (simp add: world_def same_frame_def)

lemma world_relist [simp]: "world (relist g rs sig free) = world g"
  by (simp add: world_def relist_def books_erased_def)

lemma tables_wf_shape: "books_shape g' = books_shape g \<Longrightarrow> tables_wf n g' = tables_wf n g"
  by (auto simp: tables_wf_def books_shape_def)

lemma record_owner_wf: "record_owner r = Some owner \<Longrightarrow> owner_wf owner"
  by (auto simp: record_owner_def owner_wf_def Option.bind_eq_Some_conv split: option.splits)

lemma ledger_inv_covers:
  assumes inv: "ledger_inv n g" and i: "i < length (grant_records g)" "grant_records g ! i = Some r"
    and live: "\<not> retired r" and owner: "record_owner r = Some owner"
  shows "covers g (record_grant owner r)"
  unfolding covers_def
proof
  fix acc
  have "record_charge acc r \<le> slot_sum (record_charge acc) (grant_records g)" by (rule slot_sum_ge [OF i])
  then show "record_grant owner r acc \<le> account_value acc g"
    using ledger_invD(4) [OF inv] live owner by (simp add: conserved_def record_charge_def)
qed

lemma slots_wf_cong:
  assumes "slots_wf g" and "grant_records g' = grant_records g" "slot_signals g' = slot_signals g"
    "free_slots g' = free_slots g"
  shows "slots_wf g'"
  using assms(1) unfolding slots_wf_def assms(2-4) .

lemma record_ok_released:
  assumes "record_ok n r" and "gr_operation r \<noteq> None"
  shows "record_ok n (r\<lparr> gr_amounts := amounts_zero, gr_shared := amounts_zero, gr_operation := Some op \<rparr>)"
proof -
  have "amounts_checked_sub amounts_zero amounts_zero = Some amounts_zero" by (simp add: amounts_vec.sub_iff)
  then show ?thesis
    using assms
    by (auto simp: record_ok_def record_owner_def record_is_ordinary_def record_tenant_index_def
        Option.bind_eq_Some_conv split: option.splits if_splits)
qed

lemma ledger_inv_retire:
  assumes inv: "ledger_inv n g" and i: "i < length (grant_records g)" "grant_records g ! i = Some r" and live: "\<not> retired r"
    and records: "grant_records g' = retire_records (grant_records g) i r" and wf: "slots_wf g'"
    and tab: "tables_wf n g'" and deb: "debited (\<lambda>acc. record_charge acc r) g g'"
  shows "ledger_inv n g'"
  unfolding ledger_inv_def
proof (intro conjI allI impI)
  note ok = ledger_invD(3) [OF inv]
  show "forest_ok (grant_records g')" unfolding records by (rule retire_forest [OF ok i live])
  show "conserved g'"
    unfolding conserved_def records
  proof
    fix acc
    show "account_value acc g' = slot_sum (record_charge acc) (retire_records (grant_records g) i r)"
      using deb [unfolded debited_def, rule_format, of acc] ledger_invD(4) [OF inv]
        retire_records_sum [OF ok i live, of acc] by (simp add: conserved_def)
  qed
  fix j x
  assume j: "j < length (grant_records g')" and x: "grant_records g' ! j = Some x"
  show "record_ok n x"
  proof (cases "j = i")
    case True
    have old: "record_ok n r" using ledger_invD(5) [OF inv i] .
    show ?thesis
      using ok i live
    proof (cases rule: retire_records_cases)
      case (keep gen c)
      then show ?thesis using x True i record_ok_released [OF old] unfolding records by auto
    qed (use x True i in \<open>auto simp: records\<close>)
  next
    case False
    then obtain y where "grant_records g ! j = Some y" "same_grant y x"
      using retire_records_other [OF ok i live] j x unfolding records by fastforce
    then show ?thesis using ledger_invD(5) [OF inv, of j y] j same_grant_facts(10) unfolding records by simp
  qed
qed (fact wf tab)+

theorem release_slot_inv:
  assumes inv: "ledger_inv n g" and i: "i < length (grant_records g)" "grant_records g ! i = Some r" and live: "\<not> retired r"
  obtains st g' where "release_slot_locked poisoned i g = (st, g')" "applied st" "ledger_inv n g'"
    "debited (\<lambda>acc. record_charge acc r) g g'" "grant_records g' = retire_records (grant_records g) i r"
    "world g' = world g" "length (slot_signals g') = length (slot_signals g)"
    "\<forall>j < length (slot_signals g'). grant_records g' ! j \<noteq> None \<longrightarrow> slot_signals g' ! j = slot_signals g ! j"
    "status_result st = (if poisoned \<or> lifecycle g = Fenced then Inl InternalFenced else Inr Released)"
proof -
  obtain owner where owner: "record_owner r = Some owner"
    using ledger_invD(5) [OF inv i] by (auto simp: record_ok_def split: option.splits)
  have charge: "record_grant owner r = (\<lambda>acc. record_charge acc r)"
    using owner live by (simp add: record_charge_def fun_eq_iff)
  let ?rel = "release_components poisoned owner (record_class r) (record_is_ordinary r) (record_recovery_kind r) (gr_amounts r) g"
  obtain st g1 where rel: "?rel = (st, g1)" by (cases ?rel)
  have "applied (fst ?rel)"
    by (rule release_components_total [OF _ ledger_invD(2) [OF inv] record_owner_wf [OF owner]])
      (use ledger_inv_covers [OF inv i live owner] in \<open>simp add: record_grant_def\<close>)
  then have ap: "applied st" using rel by simp
  note eff = release_components_applied [OF rel ap]
  have deb: "debited (\<lambda>acc. record_charge acc r) g g1" using eff(1) charge by (simp add: record_grant_def)
  note fields = same_frame_fields [OF eff(2)]
  have wf1: "slots_wf g1" by (rule slots_wf_cong [OF ledger_invD(1) [OF inv] fields(1,3,2)])
  have rs: "grant_records g1 = grant_records g" by (fact fields)
  have f1: "forest_ok (grant_records g1)" "i < length (grant_records g1)" "grant_records g1 ! i = Some r"
    using ledger_invD(3) [OF inv] i rs by simp_all
  obtain sig free where retire: "retire_slot_with fence_release st r i g1
      = (st, relist g1 (retire_records (grant_records g) i r) sig free)"
    and wf: "slots_wf (relist g1 (retire_records (grant_records g) i r) sig free)"
    and len: "length sig = length (slot_signals g)"
    and sig: "\<forall>j < length sig. retire_records (grant_records g) i r ! j \<noteq> None \<longrightarrow> sig ! j = slot_signals g ! j"
    by (rule retire_slot_with_relist [OF wf1 f1 live, unfolded rs fields(3)])
  let ?g' = "relist g1 (retire_records (grant_records g) i r) sig free"
  have deb': "debited (\<lambda>acc. record_charge acc r) g ?g'" using deb by (simp add: debited_def)
  have tab: "tables_wf n ?g'"
    using ledger_invD(2) [OF inv] eff(2) by (simp add: tables_wf_shape [of g1 g] same_frame_def)
  show thesis
  proof (rule that)
    show "release_slot_locked poisoned i g = (st, ?g')"
      using rel ap retire i owner
      by (cases poisoned) (simp_all add: release_slot_locked_def release_record_locked_def slot_get_def retire_slot_def)
    show "ledger_inv n ?g'" by (rule ledger_inv_retire [OF inv i live _ wf tab deb']) simp
  qed (use ap deb' eff(3) len sig world_same_frame [OF eff(2)] in simp_all)
qed

section \<open>Draining dropped handles\<close>

text \<open>
  The slots whose handle was dropped and whose charge is still on the books, and the
  slots whose pending bit is set. Between two locked sections they are the same.
\<close>

definition pending_slots :: "governor \<Rightarrow> nat set" where
  "pending_slots g = {i. i < length (grant_records g) \<and> slot_signals g ! i = SLOT_RELEASE_PENDING \<and>
     (\<exists>r. grant_records g ! i = Some r \<and> \<not> retired r)}"

definition marked :: "governor \<Rightarrow> nat set" where
  "marked g = {i. i div 64 < length (pending_words g) \<and> bit (pending_words g ! (i div 64)) (i mod 64)}"

text \<open>A live slot is one whose handle is still held; its grant survives what happens to other slots.\<close>

definition live_slot :: "governor \<Rightarrow> nat \<Rightarrow> grant_record \<Rightarrow> bool" where
  "live_slot g i r \<longleftrightarrow> i < length (grant_records g) \<and> grant_records g ! i = Some r \<and> \<not> retired r \<and>
     slot_signals g ! i = SLOT_ACTIVE"

definition live_slots :: "governor \<Rightarrow> nat set" where
  "live_slots g = {i. \<exists>r. live_slot g i r}"

text \<open>The books are eased when they lost the charges of some records and nothing else.\<close>

definition eased :: "governor \<Rightarrow> governor \<Rightarrow> bool" where
  "eased g g' \<longleftrightarrow> (\<exists>rs. \<forall>acc. account_value acc g = account_value acc g' + sum_list (map (record_charge acc) rs))"

lemma eased_same: "(\<And>acc. account_value acc g' = account_value acc g) \<Longrightarrow> eased g g'"
  unfolding eased_def by (intro exI [of _ "[]"]) simp

lemma eased_debited: "debited (\<lambda>acc. record_charge acc r) g g' \<Longrightarrow> eased g g'"
  unfolding eased_def debited_def by (intro exI [of _ "[r]"]) simp

lemma eased_trans:
  assumes "eased a b" and "eased b c"
  shows "eased a c"
proof -
  obtain xs ys where "\<And>acc. account_value acc a = account_value acc b + sum_list (map (record_charge acc) xs)"
    "\<And>acc. account_value acc b = account_value acc c + sum_list (map (record_charge acc) ys)"
    using assms unfolding eased_def by blast
  then show ?thesis unfolding eased_def by (intro exI [of _ "ys @ xs"]) simp
qed

definition survives :: "governor \<Rightarrow> governor \<Rightarrow> bool" where
  "survives g g' \<longleftrightarrow> length (grant_records g') = length (grant_records g) \<and> live_slots g' = live_slots g \<and> eased g g' \<and>
     (\<forall>i r. live_slot g i r \<longrightarrow> (\<exists>r'. live_slot g' i r' \<and> same_grant r r'))"

lemma same_grant_trans: "same_grant a b \<Longrightarrow> same_grant b c \<Longrightarrow> same_grant a c"
  by (auto simp: same_grant_def)

lemma survives_refl [simp]: "survives g g"
  by (auto simp: survives_def intro: eased_same)

lemma survives_trans: "survives a b \<Longrightarrow> survives b c \<Longrightarrow> survives a c"
  unfolding survives_def by (metis same_grant_trans eased_trans)

lemma release_slot_survives:
  assumes inv: "ledger_inv n g" and i: "i < length (grant_records g)" "grant_records g ! i = Some r" and live: "\<not> retired r"
    and records: "grant_records g' = retire_records (grant_records g) i r"
    and sig: "\<forall>j < length (slot_signals g'). grant_records g' ! j \<noteq> None \<longrightarrow> slot_signals g' ! j = slot_signals g ! j"
    and len: "length (slot_signals g') = length (slot_signals g)"
  shows "pending_slots g' = pending_slots g - {i}"
    and "\<And>j x. live_slot g j x \<Longrightarrow> j \<noteq> i \<Longrightarrow> \<exists>x'. live_slot g' j x' \<and> same_grant x x'"
    and "live_slots g' = live_slots g - {i}"
proof -
  note ok = ledger_invD(3) [OF inv]
  have slen: "length (slot_signals g) = length (grant_records g)"
    using ledger_invD(1) [OF inv] by (simp add: slots_wf_def)
  have other: "(\<exists>x'. grant_records g' ! j = Some x' \<and> same_grant x x') \<and> slot_signals g' ! j = slot_signals g ! j"
    if h: "j < length (grant_records g)" "grant_records g ! j = Some x" "\<not> retired x" "j \<noteq> i" for j x
  proof -
    obtain x' where x': "grant_records g' ! j = Some x'" "same_grant x x'"
      using retire_records_other [OF ok i live h(1,4)] h(2,3) unfolding records by (auto split: option.splits)
    then show ?thesis using sig len slen h(1) by auto
  qed
  have conv: "\<exists>x. grant_records g ! j = Some x \<and> \<not> retired x \<and> j \<noteq> i \<and> slot_signals g' ! j = slot_signals g ! j"
    if h: "j < length (grant_records g)" "grant_records g' ! j = Some x'" "\<not> retired x'" for j x'
  proof -
    have "j \<noteq> i" using retire_records_self [OF ok i live] h(2,3) unfolding records by auto
    moreover from this obtain x where "grant_records g ! j = Some x" "same_grant x x'"
      using retire_records_other [OF ok i live h(1)] h(2) unfolding records by auto
    ultimately show ?thesis using same_grant_facts(1) [of x x'] h sig len slen by auto
  qed
  have same_len: "length (grant_records g') = length (grant_records g)" unfolding records by simp
  show "pending_slots g' = pending_slots g - {i}"
  proof (rule set_eqI)
    fix j
    show "j \<in> pending_slots g' \<longleftrightarrow> j \<in> pending_slots g - {i}"
      using other [of j] conv [of j] same_grant_facts(1) unfolding pending_slots_def same_len by fastforce
  qed
  show fwd: "\<exists>x'. live_slot g' j x' \<and> same_grant x x'" if "live_slot g j x" "j \<noteq> i" for j x
    using other [of j x] that same_grant_facts(1) unfolding live_slot_def same_len by fastforce
  have "j \<noteq> i \<and> (\<exists>x. live_slot g j x)" if "live_slot g' j x'" for j x'
    using conv [of j x'] that unfolding live_slot_def same_len by fastforce
  with fwd show "live_slots g' = live_slots g - {i}" unfolding live_slots_def by blast
qed

lemma drain_index_step:
  assumes inv: "ledger_inv n g" and p: "64 * w + b \<in> pending_slots g"
  obtains "ledger_inv n (drain_index w b g)" "world (drain_index w b g) = world g"
    "pending_slots (drain_index w b g) = pending_slots g - {64 * w + b}" "survives g (drain_index w b g)"
proof -
  let ?i = "64 * w + b"
  obtain r where i: "?i < length (grant_records g)" "grant_records g ! ?i = Some r" and live: "\<not> retired r"
    and pend: "slot_signals g ! ?i = SLOT_RELEASE_PENDING"
    using p by (auto simp: pending_slots_def)
  have wf: "length (slot_signals g) = length (grant_records g)" "length (grant_records g) \<le> u16_max"
    using ledger_invD(1) [OF inv] by (simp_all add: slots_wf_def)
  obtain st g' where rel: "release_slot_locked False ?i g = (st, g')" "applied st" "ledger_inv n g'"
    and deb: "debited (\<lambda>acc. record_charge acc r) g g'" and rel2:
    "grant_records g' = retire_records (grant_records g) ?i r" "world g' = world g"
    "length (slot_signals g') = length (slot_signals g)"
    "\<forall>j < length (slot_signals g'). grant_records g' ! j \<noteq> None \<longrightarrow> slot_signals g' ! j = slot_signals g ! j"
    by (rule release_slot_inv [OF inv i live])
  note rel = rel rel2
  have small: "?i \<le> u16_max" using i wf by simp
  then have "?i \<le> usize_max" "w * 64 \<le> usize_max" by (simp_all add: usize_max_def u16_max_def u64_max_def)
  then have drain: "drain_index w b g = g'"
    using rel(1,2) i(1) wf(1) pend small
    by (simp add: drain_index_def checked_mul_def checked_add_def slice_get_def try_from_def mult.commute Let_def)
  note surv = release_slot_survives [OF inv i live rel(4,7,6)]
  have "\<not> live_slot g ?i x" for x using pend by (simp add: live_slot_def SLOT_ACTIVE_def SLOT_RELEASE_PENDING_def)
  then have same: "live_slots g' = live_slots g" using surv(3) by (auto simp: live_slots_def)
  have "survives g g'"
    unfolding survives_def
  proof (intro conjI allI impI)
    show "length (grant_records g') = length (grant_records g)" using rel(4) by simp
    show "live_slots g' = live_slots g" by (fact same)
    show "eased g g'" by (rule eased_debited [OF deb])
    fix j x
    assume l: "live_slot g j x"
    then have "j \<noteq> ?i" using pend by (auto simp: live_slot_def SLOT_ACTIVE_def SLOT_RELEASE_PENDING_def)
    with l show "\<exists>x'. live_slot g' j x' \<and> same_grant x x'" by (rule surv(2))
  qed
  then show thesis using that rel(3,5) surv(1) unfolding drain by blast
qed

lemma drain_indices:
  assumes "ledger_inv n g" and "distinct bs" and "\<forall>b \<in> set bs. 64 * w + b \<in> pending_slots g"
  shows "ledger_inv n (fold (drain_index w) bs g) \<and> world (fold (drain_index w) bs g) = world g \<and>
    pending_slots (fold (drain_index w) bs g) = pending_slots g - (\<lambda>b. 64 * w + b) ` set bs \<and>
    survives g (fold (drain_index w) bs g)"
  using assms
proof (induction bs arbitrary: g)
  case (Cons b bs)
  obtain step: "ledger_inv n (drain_index w b g)" "world (drain_index w b g) = world g"
    "pending_slots (drain_index w b g) = pending_slots g - {64 * w + b}" "survives g (drain_index w b g)"
    using Cons.prems by (elim drain_index_step [of n g w b]) auto
  have "\<forall>c \<in> set bs. 64 * w + c \<in> pending_slots (drain_index w b g)"
    using Cons.prems step(3) by auto
  from Cons.IH [OF step(1) _ this] Cons.prems(2) step show ?case
    by (auto intro: survives_trans)
qed simp

text \<open>The ledger proper. Whatever leaves it alone leaves the invariant alone.\<close>

definition core where
  "core g = (grant_records g, slot_signals g, free_slots g, total_usage g, recovery_usage g, ordinary_tenant_usage g,
     recovery_tenant_usage g, recovery_pool_usage g, recovery_system_pool_usage g, recovery_tenant_pool_usage g,
     pool_usage g, ordinary_tenant_pool_usage g, tenant_outstanding g, outstanding g, outstanding_ordinary g,
     outstanding_recovery g, outstanding_uninterruptible g, class_counts g)"

lemma core_account: "core g' = core g \<Longrightarrow> account_value acc g' = account_value acc g"
  by (cases acc) (simp_all add: core_def)

lemma core_slots:
  assumes "core g' = core g"
  shows "grant_records g' = grant_records g" "slot_signals g' = slot_signals g" "free_slots g' = free_slots g"
  using assms by (simp_all add: core_def)

lemma core_ledger_inv:
  assumes "core g' = core g"
  shows "ledger_inv n g' = ledger_inv n g"
proof -
  have "slots_wf g' = slots_wf g" unfolding slots_wf_def core_slots [OF assms] ..
  moreover have "tables_wf n g' = tables_wf n g" using assms by (simp add: core_def tables_wf_def)
  moreover have "conserved g' = conserved g" unfolding conserved_def core_slots [OF assms] core_account [OF assms] ..
  ultimately show ?thesis unfolding ledger_inv_def core_slots [OF assms] by simp
qed

lemma core_pending_slots:
  assumes "core g' = core g"
  shows "pending_slots g' = pending_slots g"
  unfolding pending_slots_def core_slots [OF assms] ..

lemma core_live_slot:
  assumes "core g' = core g"
  shows "live_slot g' i r = live_slot g i r"
  unfolding live_slot_def core_slots [OF assms] ..

lemma core_survives:
  assumes "core g' = core g"
  shows "survives g g'"
  unfolding survives_def live_slots_def core_slots [OF assms] core_live_slot [OF assms]
  using same_grant_refl eased_same [of g' g, OF core_account [OF assms]] by blast

lemma core_updates [simp]:
  "core (g\<lparr> pending_words := ws \<rparr>) = core g" "core (g\<lparr> has_pending_releases := b \<rparr>) = core g"
  "core (g\<lparr> pending_fence := b \<rparr>) = core g" "core (g\<lparr> lifecycle := l \<rparr>) = core g"
  by (simp_all add: core_def)

lemmas core_update_facts [simp] =
  core_updates [THEN core_ledger_inv] core_updates [THEN core_pending_slots]
  core_updates [THEN core_live_slot] core_updates [THEN core_account]

text \<open>The pending bits are exactly the pending slots, and a set bit is announced.\<close>

definition pending_inv :: "governor \<Rightarrow> bool" where
  "pending_inv g \<longleftrightarrow> marked g = pending_slots g \<and> length (pending_words g) = (length (grant_records g) + 63) div 64 \<and>
     (marked g \<noteq> {} \<longrightarrow> has_pending_releases g)"

lemma drain_bits_set: "set (drain_bits w) = {b. b < 64 \<and> bit w b}" and drain_bits_distinct: "distinct (drain_bits w)"
  unfolding drain_bits_eq_filter by auto

lemma drain_word_step:
  assumes inv: "ledger_inv n g" and eq: "marked g = pending_slots g" and w: "w < length (pending_words g)"
  shows "ledger_inv n (drain_word w g) \<and> marked (drain_word w g) = pending_slots (drain_word w g) \<and>
    marked (drain_word w g) = {i \<in> marked g. i div 64 \<noteq> w} \<and> survives g (drain_word w g) \<and>
    world (drain_word w g) = world (g\<lparr> pending_words := (pending_words g)[w := 0] \<rparr>)"
proof -
  let ?g0 = "g\<lparr> pending_words := (pending_words g)[w := 0] \<rparr>"
  let ?bs = "drain_bits (pending_words g ! w)"
  have mem: "64 * w + b \<in> marked g" if "b \<in> set ?bs" for b
    using that w by (simp add: drain_bits_set marked_def)
  have img: "(\<lambda>b. 64 * w + b) ` set ?bs = {i \<in> marked g. i div 64 = w}"
  proof (intro equalityI subsetI)
    fix i
    assume "i \<in> {i \<in> marked g. i div 64 = w}"
    then have "i = 64 * w + i mod 64" "i mod 64 \<in> set ?bs" by (auto simp: drain_bits_set marked_def)
    then show "i \<in> (\<lambda>b. 64 * w + b) ` set ?bs" by blast
  qed (use mem in \<open>auto simp: drain_bits_set\<close>)
  have step: "ledger_inv n (drain_word w g) \<and> world (drain_word w g) = world ?g0 \<and>
    pending_slots (drain_word w g) = pending_slots ?g0 - (\<lambda>b. 64 * w + b) ` set ?bs \<and> survives ?g0 (drain_word w g)"
    unfolding drain_word_def Let_def
    by (rule drain_indices) (use inv mem eq in \<open>simp_all add: drain_bits_distinct\<close>)
  have words: "pending_words (drain_word w g) = (pending_words g)[w := 0]"
    using world_fields(1) [of "drain_word w g" ?g0] step by simp
  have "marked (drain_word w g) = {i \<in> marked g. i div 64 \<noteq> w}"
    using w by (auto simp: marked_def words nth_list_update split: if_splits)
  moreover have "pending_slots (drain_word w g) = {i \<in> marked g. i div 64 \<noteq> w}"
    using step img eq by auto
  moreover have "survives g (drain_word w g)"
    using step survives_trans [OF core_survives [OF core_updates(1)]] by blast
  ultimately show ?thesis using step by simp
qed

text \<open>The state without its drop ledger, which a drain empties.\<close>

definition outside :: "governor \<Rightarrow> governor" where
  "outside g = world (g\<lparr> pending_words := [], has_pending_releases := False \<rparr>)"

lemma outside_words: "world g' = world (g\<lparr> pending_words := ws \<rparr>) \<Longrightarrow> outside g' = outside g"
proof -
  assume w: "world g' = world (g\<lparr> pending_words := ws \<rparr>)"
  have eq: "outside h = (world h)\<lparr> pending_words := [], has_pending_releases := False \<rparr>" for h
    by (simp add: outside_def world_def relist_def books_erased_def)
  have "outside g' = outside (g\<lparr> pending_words := ws \<rparr>)" unfolding eq w ..
  then show ?thesis by (simp add: outside_def)
qed

lemma outside_world: "world g' = world g \<Longrightarrow> outside g' = outside g"
  using outside_words [where ws = "pending_words g" and g = g and g' = g'] by simp

lemma outside_fields:
  assumes "outside g' = outside g"
  shows "pending_fence g' = pending_fence g" "lifecycle g' = lifecycle g" "tenant_quotas g' = tenant_quotas g"
    "disk_pressure g' = disk_pressure g" "next_operation_generation g' = next_operation_generation g"
    "pending_tenant g' = pending_tenant g" "tenant_limits g' = tenant_limits g"
    "tenant_fair_capacities g' = tenant_fair_capacities g"
    "recovery_tenant_shared_fair g' = recovery_tenant_shared_fair g"
    "recovery_tenant_pool_fair g' = recovery_tenant_pool_fair g" "rejection_counts g' = rejection_counts g"
  using world_fields(3-13) [OF assms [unfolded outside_def]] by simp_all

lemma drain_words:
  assumes "ledger_inv n g" and "marked g = pending_slots g" and "k \<le> length (pending_words g)"
  shows "let g' = fold drain_word [0..<k] g in
    ledger_inv n g' \<and> marked g' = pending_slots g' \<and> marked g' = {i \<in> marked g. k \<le> i div 64} \<and> survives g g' \<and>
    outside g' = outside g \<and> length (pending_words g') = length (pending_words g) \<and>
    has_pending_releases g' = has_pending_releases g"
  using assms(3)
proof (induction k)
  case 0
  then show ?case using assms by auto
next
  case (Suc k)
  let ?g = "fold drain_word [0..<k] g"
  have IH: "ledger_inv n ?g" "marked ?g = pending_slots ?g" "marked ?g = {i \<in> marked g. k \<le> i div 64}" "survives g ?g"
    "outside ?g = outside g" "length (pending_words ?g) = length (pending_words g)"
    "has_pending_releases ?g = has_pending_releases g"
    using Suc.IH [OF Suc_leD [OF Suc.prems]] unfolding Let_def by blast+
  have fold: "fold drain_word [0..<Suc k] g = drain_word k ?g" by simp
  note step = drain_word_step [OF IH(1,2), of k]
  have k: "k < length (pending_words ?g)" using Suc.prems IH(6) by simp
  then have w: "world (drain_word k ?g) = world (?g\<lparr> pending_words := (pending_words ?g)[k := 0] \<rparr>)"
    using step by blast
  have m: "marked (drain_word k ?g) = {i \<in> marked ?g. i div 64 \<noteq> k}" using step [OF k] by blast
  have "marked (drain_word k ?g) = {i \<in> marked g. Suc k \<le> i div 64}" unfolding m IH(3) by auto
  moreover have "survives g (drain_word k ?g)" using step [OF k] IH(4) survives_trans by blast
  moreover have "outside (drain_word k ?g) = outside g" using outside_words [OF w] IH(5) by simp
  moreover have "length (pending_words (drain_word k ?g)) = length (pending_words g)"
    "has_pending_releases (drain_word k ?g) = has_pending_releases g"
    using world_fields(1,2) [OF w] IH(6,7) by simp_all
  ultimately show ?case unfolding fold Let_def using step [OF k] by simp
qed

definition governor_inv :: "nat \<Rightarrow> governor \<Rightarrow> bool" where
  "governor_inv n g \<longleftrightarrow> ledger_inv n g \<and> pending_inv g"

lemma marked_hint [simp]: "marked (g\<lparr> has_pending_releases := b \<rparr>) = marked g"
  by (simp add: marked_def)

lemma marked_words: "i \<in> marked g \<Longrightarrow> i div 64 < length (pending_words g)"
  by (simp add: marked_def)

theorem drain_pending_inv:
  assumes "governor_inv n g"
  shows "governor_inv n (drain_pending g)" "pending_slots (drain_pending g) = {}" "survives g (drain_pending g)"
    "outside (drain_pending g) = outside g"
proof -
  have inv: "ledger_inv n g" and eq: "marked g = pending_slots g"
    and len: "length (pending_words g) = (length (grant_records g) + 63) div 64"
    and hint: "marked g \<noteq> {} \<Longrightarrow> has_pending_releases g"
    using assms by (auto simp: governor_inv_def pending_inv_def)
  let ?g = "g\<lparr> has_pending_releases := False \<rparr>"
  have "governor_inv n (drain_pending g) \<and> pending_slots (drain_pending g) = {} \<and> survives g (drain_pending g) \<and>
    outside (drain_pending g) = outside g"
  proof (cases "has_pending_releases g \<or> pending_fence g")
    case True
    then have d: "drain_pending g = fold drain_word [0..<length (pending_words ?g)] ?g"
      by (simp add: drain_pending_def Let_def)
    have all: "let g' = drain_pending g in ledger_inv n g' \<and> marked g' = pending_slots g' \<and>
      marked g' = {i \<in> marked ?g. length (pending_words ?g) \<le> i div 64} \<and> survives ?g g' \<and> outside g' = outside ?g \<and>
      length (pending_words g') = length (pending_words ?g) \<and> has_pending_releases g' = has_pending_releases ?g"
      unfolding d by (rule drain_words) (use inv eq in simp_all)
    have empty: "marked (drain_pending g) = {}" "pending_slots (drain_pending g) = {}"
      using all marked_words [of _ ?g] unfolding Let_def by fastforce+
    have surv: "survives g (drain_pending g)"
      using all survives_trans [OF core_survives [of ?g g]] unfolding Let_def by simp
    then have "length (grant_records (drain_pending g)) = length (grant_records g)" by (simp add: survives_def)
    moreover have "outside ?g = outside g" by (simp add: outside_def)
    ultimately show ?thesis
      using all len empty surv by (simp add: governor_inv_def pending_inv_def Let_def)
  next
    case False
    then have d: "drain_pending g = ?g" and e: "marked g = {}"
      using hint by (auto simp: drain_pending_def Let_def)
    show ?thesis
      unfolding d using inv eq len e core_survives [of ?g g]
      by (simp add: governor_inv_def pending_inv_def outside_def)
  qed
  then show "governor_inv n (drain_pending g)" "pending_slots (drain_pending g) = {}" "survives g (drain_pending g)"
    "outside (drain_pending g) = outside g"
    by blast+
qed

end
