(* ===== verification/Admitting.thy ===== *)
theory Admitting
  imports Conservation
begin

text \<open>
  Filling a slot. A new record enters a free slot; a child also registers with its root.
  This theory states what that does to the forest of operations and to the sum of the
  charges, and that it keeps the ledger invariant when the books move by the same charge.
\<close>

section \<open>The records after an admission\<close>

definition admit_records :: "grant_record option list \<Rightarrow> nat \<Rightarrow> grant_record \<Rightarrow> grant_record option list" where
  "admit_records rs i r =
     (case gr_operation r of
        Some (Child root gen) \<Rightarrow>
          (case Option.bind (slot_get rs root) increment_root_child of
             None \<Rightarrow> rs
           | Some updated \<Rightarrow> rs[i := Some r, root := Some updated])
      | _ \<Rightarrow> rs[i := Some r])"

text \<open>What admission has checked of a new record: a root starts without children, a child has an accepting root.\<close>

definition admissible :: "grant_record option list \<Rightarrow> nat \<Rightarrow> grant_record \<Rightarrow> bool" where
  "admissible rs i r \<longleftrightarrow> i < length rs \<and> rs ! i = None \<and> length rs \<le> u16_max \<and>
     (case gr_operation r of
        None \<Rightarrow> True
      | Some (Root gen accepting cnt) \<Rightarrow> accepting \<and> cnt = 0
      | Some (Child root gen) \<Rightarrow>
          root < length rs \<and>
          (\<exists>r' cnt. rs ! root = Some r' \<and> gr_operation r' = Some (Root gen True cnt) \<and> same_subject r r'))"

lemma admissible_live: "admissible rs i r \<Longrightarrow> \<not> retired r"
  by (auto simp: admissible_def retired_def split: option.splits operation_record.splits)

lemma children_le: "children rs root gen \<le> length rs"
  unfolding children_def by (rule slot_sum_const_le) simp

lemma admit_records_cases:
  assumes ok: "forest_ok rs" and adm: "admissible rs i r"
  obtains (plain) "admit_records rs i r = rs[i := Some r]" "\<forall>root gen. \<not> is_child_of root gen r"
      "\<forall>gen accepting cnt. gr_operation r = Some (Root gen accepting cnt) \<longrightarrow> accepting \<and> cnt = 0"
  | (child) root gen r' c where "gr_operation r = Some (Child root gen)" "root < length rs" "root \<noteq> i"
      "rs ! root = Some r'" "gr_operation r' = Some (Root gen True c)" "same_subject r r'" "children rs root gen = c"
      "admit_records rs i r = rs[i := Some r, root := Some (r'\<lparr> gr_operation := Some (Root gen True (Suc c)) \<rparr>)]"
proof (cases "\<exists>root gen. gr_operation r = Some (Child root gen)")
  case False
  then show thesis
    using adm
    by (intro plain) (auto simp: admit_records_def is_child_of_def admissible_def split: option.splits operation_record.splits)
next
  case True
  then obtain root gen where op: "gr_operation r = Some (Child root gen)" by blast
  with adm obtain r' c where root: "root < length rs" "rs ! root = Some r'" "gr_operation r' = Some (Root gen True c)"
    "same_subject r r'" and i: "i < length rs" "rs ! i = None" and len: "length rs \<le> u16_max"
    by (auto simp: admissible_def)
  have kids: "children rs root gen = c" using slot_okD [OF ok root(1,2)] root(3) by (simp add: slot_ok_def)
  have "Suc c = children (rs[i := Some r]) root gen"
    using children_update [OF i(1), of "Some r" root gen] i(2) op kids by (simp add: is_child_of_def)
  also have "\<dots> \<le> u16_max" using children_le [of "rs[i := Some r]" root gen] len by simp
  finally have "Suc c \<le> u16_max" .
  then show thesis
    using op root i kids
    by (intro child [of root gen r' c])
      (auto simp: admit_records_def slot_get_def increment_root_child_def checked_add_def)
qed

lemma admissibleD:
  assumes "admissible rs i r"
  shows "i < length rs" "rs ! i = None"
  using assms by (simp_all add: admissible_def)

lemma admit_records_length [simp]: "length (admit_records rs i r) = length rs"
  by (auto simp: admit_records_def split: option.splits operation_record.splits)

lemma admit_records_sum:
  assumes "forest_ok rs" and adm: "admissible rs i r"
  shows "slot_sum (record_charge acc) (admit_records rs i r) = slot_sum (record_charge acc) rs + record_charge acc r"
  using assms
proof (cases rule: admit_records_cases)
  case plain
  then show ?thesis using slot_sum_fill [OF admissibleD [OF adm], of "record_charge acc" r] by simp
next
  case (child root gen r' c)
  have root: "root < length (rs[i := Some r])" "rs[i := Some r] ! root = Some r'" using child by simp_all
  show ?thesis
    using slot_sum_fill [OF admissibleD [OF adm], of "record_charge acc" r]
      slot_sum_replace_same [OF root, of "record_charge acc"] record_charge_recount [OF child(5)] child(8)
    by simp
qed

lemma admit_records_self: "forest_ok rs \<Longrightarrow> admissible rs i r \<Longrightarrow> admit_records rs i r ! i = Some r"
  by (erule (1) admit_records_cases) (simp_all add: admissible_def)

lemma admit_records_other:
  assumes "forest_ok rs" and "admissible rs i r" and j: "j < length rs" "j \<noteq> i"
  shows "case rs ! j of
      None \<Rightarrow> admit_records rs i r ! j = None
    | Some x \<Rightarrow> \<exists>x'. admit_records rs i r ! j = Some x' \<and> same_grant x x'"
  using assms(1,2)
proof (cases rule: admit_records_cases)
  case plain
  then show ?thesis using j by (simp split: option.splits)
next
  case (child root gen r' c)
  then show ?thesis using j by (cases "j = root") (auto simp: same_grant_def split: option.splits)
qed

lemma children_admit:
  assumes "forest_ok rs" and adm: "admissible rs i r"
  shows "children (admit_records rs i r) root gen = children rs root gen + (if is_child_of root gen r then 1 else 0)"
  using assms
proof (cases rule: admit_records_cases)
  case plain
  then show ?thesis
    using children_update [of i rs "Some r" root gen] admissibleD [OF adm] by simp
next
  case (child rt g r' c)
  have "children (admit_records rs i r) root gen = children (rs[i := Some r]) root gen"
    using children_update [of rt "rs[i := Some r]" _ root gen] child by (simp add: is_child_of_def)
  then show ?thesis using children_update [of i rs "Some r" root gen] admissibleD [OF adm] by simp
qed

text \<open>Nothing names a free slot as its root.\<close>

lemma free_slot_childless:
  assumes "forest_ok rs" and "rs ! i = None"
  shows "children rs i gen = 0"
  unfolding children_def slot_sum_eq_0_iff
proof (intro allI impI)
  fix x
  assume "Some x \<in> set rs"
  then obtain j where "j < length rs" "rs ! j = Some x" by (auto simp: in_set_conv_nth)
  from slot_okD [OF assms(1) this] have "\<not> is_child_of i gen x"
    using assms(2) by (auto simp: slot_ok_def is_child_of_def)
  then show "(if is_child_of i gen x then 1 else 0) = (0 :: nat)" by simp
qed

lemma admit_keeps_root:
  assumes ok: "forest_ok rs" and adm: "admissible rs i r"
    and y: "root < length rs" "rs ! root = Some y" "gr_operation y = Some (Root gen accepting cnt)" "same_subject x y"
  shows "\<exists>y' accepting cnt. admit_records rs i r ! root = Some y' \<and> gr_operation y' = Some (Root gen accepting cnt) \<and>
    same_subject x y'"
proof -
  have "root \<noteq> i" using y(2) admissibleD [OF adm] by auto
  then obtain y' where y': "admit_records rs i r ! root = Some y'" "same_grant y y'"
    using admit_records_other [OF ok adm y(1)] y(2) by auto
  then obtain accepting' cnt' where "gr_operation y' = Some (Root gen accepting' cnt')"
    using y(3) by (auto simp: same_grant_def)
  then show ?thesis using y' y(4) same_grant_subject(1) by blast
qed

lemma admit_forest:
  assumes ok: "forest_ok rs" and adm: "admissible rs i r"
  shows "forest_ok (admit_records rs i r)"
  unfolding forest_ok_def
proof (intro allI impI)
  fix j x
  assume j: "j < length (admit_records rs i r)" and x: "admit_records rs i r ! j = Some x"
  note kids = children_admit [OF ok adm] and self = admit_records_self [OF ok adm]
  note root = admit_keeps_root [OF ok adm]
  show "slot_ok (admit_records rs i r) j x"
  proof (cases "j = i")
    case True
    then have [simp]: "x = r" using x self by simp
    have zero: "children rs i gen = 0" for gen by (rule free_slot_childless [OF ok admissibleD(2) [OF adm]])
    show ?thesis
    proof (cases "gr_operation r")
      case (Some op)
      then show ?thesis
      proof (cases op)
        case (Root gen accepting cnt)
        then show ?thesis using adm Some True kids [of i gen] zero
          by (simp add: slot_ok_def admissible_def is_child_of_def)
      next
        case (Child rt gen)
        then show ?thesis using adm Some root [where x = r and root = rt and gen = gen]
          by (auto simp: slot_ok_def admissible_def)
      qed
    qed (simp add: slot_ok_def)
  next
    case False
    obtain x0 where x0: "rs ! j = Some x0" "same_grant x0 x"
      using admit_records_other [OF ok adm _ False] j x by (cases "rs ! j") auto
    have ok0: "slot_ok rs j x0" using slot_okD [OF ok] j x0 by simp
    show ?thesis
    proof (cases "gr_operation x0")
      case None
      then show ?thesis using same_grant_facts(11) [OF x0(2)] by (simp add: slot_ok_def)
    next
      case (Some op)
      show ?thesis
      proof (cases op)
        case (Child rt gen)
        then have "x = x0" using x0(2) Some by (auto simp: same_grant_def)
        then show ?thesis using ok0 root [where x = x0 and root = rt and gen = gen] Some Child
          by (auto simp: slot_ok_def)
      next
        case (Root gen accepting cnt)
        have cnt: "cnt = children rs j gen" "accepting \<or> 0 < cnt" using ok0 Some Root by (auto simp: slot_ok_def)
        show ?thesis
          using ok adm
        proof (cases rule: admit_records_cases)
          case plain
          then have "x = x0" using x x0 False by simp
          then show ?thesis using kids [of j gen] plain(2) cnt Some Root by (simp add: slot_ok_def)
        next
          case (child rt g r' c)
          then show ?thesis
            using kids [of j gen] cnt Some Root x x0 False j
            by (cases "j = rt") (auto simp: slot_ok_def is_child_of_def)
        qed
      qed
    qed
  qed
qed

section \<open>Admission keeps the ledger\<close>

lemma ledger_inv_admit:
  assumes inv: "ledger_inv n g" and adm: "admissible (grant_records g) i r" and r: "record_ok n r"
    and records: "grant_records g' = admit_records (grant_records g) i r" and wf: "slots_wf g'"
    and tab: "tables_wf n g'" and deb: "debited (\<lambda>acc. record_charge acc r) g' g"
  shows "ledger_inv n g'"
  unfolding ledger_inv_def
proof (intro conjI allI impI)
  note ok = ledger_invD(3) [OF inv]
  show "forest_ok (grant_records g')" unfolding records by (rule admit_forest [OF ok adm])
  show "conserved g'"
    using deb ledger_invD(4) [OF inv] admit_records_sum [OF ok adm]
    by (simp add: conserved_def records debited_def)
  fix j x
  assume j: "j < length (grant_records g')" and x: "grant_records g' ! j = Some x"
  show "record_ok n x"
  proof (cases "j = i")
    case True
    then show ?thesis using x r admit_records_self [OF ok adm] unfolding records by simp
  next
    case False
    then obtain y where "grant_records g ! j = Some y" "same_grant y x"
      using admit_records_other [OF ok adm _ False] j x unfolding records by (cases "grant_records g ! j") auto
    then show ?thesis using ledger_invD(5) [OF inv, of j y] j same_grant_facts(10) unfolding records by simp
  qed
qed (fact wf tab)+

text \<open>One more live slot; the grants of the others are as before.\<close>

definition extends :: "governor \<Rightarrow> nat \<Rightarrow> governor \<Rightarrow> bool" where
  "extends g i g' \<longleftrightarrow> length (grant_records g') = length (grant_records g) \<and> live_slots g' = insert i (live_slots g) \<and>
     i \<notin> live_slots g \<and> (\<forall>j r. live_slot g j r \<longrightarrow> (\<exists>r'. live_slot g' j r' \<and> same_grant r r'))"

lemma admit_survives:
  assumes inv: "ledger_inv n g" and adm: "admissible (grant_records g) i r"
    and records: "grant_records g' = admit_records (grant_records g) i r"
    and sig: "slot_signals g' = (slot_signals g)[i := SLOT_ACTIVE]"
  shows "extends g i g'" "pending_slots g' = pending_slots g" "live_slot g' i r"
proof -
  note ok = ledger_invD(3) [OF inv]
  have slen: "length (slot_signals g) = length (grant_records g)"
    using ledger_invD(1) [OF inv] by (simp add: slots_wf_def)
  have same_len: "length (grant_records g') = length (grant_records g)" unfolding records by simp
  note i = admissibleD [OF adm]
  have other: "slot_signals g' ! j = slot_signals g ! j \<and> (case grant_records g ! j of
      None \<Rightarrow> grant_records g' ! j = None
    | Some x \<Rightarrow> \<exists>x'. grant_records g' ! j = Some x' \<and> same_grant x x')" if "j < length (grant_records g)" "j \<noteq> i" for j
    using admit_records_other [OF ok adm that] that(2) unfolding records sig by simp
  have self: "grant_records g' ! i = Some r" "slot_signals g' ! i = SLOT_ACTIVE"
    using admit_records_self [OF ok adm] i(1) slen unfolding records sig by simp_all
  show new: "live_slot g' i r"
    using self i(1) same_len admissible_live [OF adm] by (simp add: live_slot_def)
  have none: "\<not> live_slot g i x" for x using i(2) by (simp add: live_slot_def)
  have fwd: "\<exists>x'. live_slot g' j x' \<and> same_grant x x'" if "live_slot g j x" for j x
  proof -
    have "j \<noteq> i" using that none by blast
    then show ?thesis
      using that other [of j] same_grant_facts(1) by (fastforce simp: live_slot_def same_len)
  qed
  have "\<exists>x. live_slot g j x" if "live_slot g' j x'" "j \<noteq> i" for j x'
    using that other [of j] same_grant_facts(1) by (cases "grant_records g ! j") (fastforce simp: live_slot_def same_len)+
  with fwd new none same_len show "extends g i g'"
    unfolding extends_def live_slots_def by blast
  show "pending_slots g' = pending_slots g"
  proof (rule set_eqI)
    fix j
    show "j \<in> pending_slots g' \<longleftrightarrow> j \<in> pending_slots g"
    proof (cases "j = i")
      case True
      then show ?thesis using i self by (simp add: pending_slots_def SLOT_ACTIVE_def SLOT_RELEASE_PENDING_def)
    next
      case False
      then show ?thesis
        using other [of j] same_grant_facts(1) unfolding pending_slots_def same_len by (fastforce split: option.splits)
    qed
  qed
qed

end
