(* ===== verification/Accounting.thy ===== *)
theory Accounting
  imports Release
begin

text \<open>
  \<^verbatim>\<open>resource_governor/accounting.rs\<close>, \<^verbatim>\<open>pressure.rs\<close>, \<^verbatim>\<open>lifecycle.rs\<close> and
  \<^verbatim>\<open>accounting/snapshot.rs\<close>: what happens under the accounting lock besides
  admission. The outcome of \<^verbatim>\<open>Mutex::try_lock\<close> is an argument; taking the lock
  always drains dropped handles and collects a pending fence first.
\<close>

section \<open>Taking the lock\<close>

datatype lock_outcome = LockOk | LockWouldBlock | LockPoisoned

definition settle :: "governor \<Rightarrow> governor" where
  "settle g =
     (let g1 = drain_pending g in
      if pending_fence g1 then g1\<lparr> pending_fence := False, lifecycle := Fenced \<rparr> else g1)"

definition governor_last_pressure :: "governor \<Rightarrow> disk_pressure_state" where
  "governor_last_pressure g = pressure_from_index (last_pressure g)"

definition publish_pressure :: "disk_pressure_state \<Rightarrow> governor \<Rightarrow> governor" where
  "publish_pressure pressure g = g\<lparr> last_pressure := pressure_index pressure \<rparr>"

definition increment_checked :: "u64 \<Rightarrow> u64 option" where
  "increment_checked counter = checked_add u64_max counter 1"

definition lock_for_admission ::
  "lock_outcome \<Rightarrow> work_class \<Rightarrow> governor \<Rightarrow> (admission_failure + unit) \<times> governor" where
  "lock_for_admission lock cls g =
     (case lock of
        LockOk \<Rightarrow> (Inr (), settle g)
      | LockWouldBlock \<Rightarrow>
          (Inl (contention_failure cls (governor_last_pressure g)),
           (case increment_checked (contention_count g) of
              None \<Rightarrow> g\<lparr> pending_fence := True \<rparr>
            | Some n \<Rightarrow> g\<lparr> contention_count := n \<rparr>))
      | LockPoisoned \<Rightarrow>
          (Inl (internal_failure_at_pressure cls (disk_pressure g)), g\<lparr> lifecycle := Fenced \<rparr>))"

definition try_lock_for_control :: "lock_outcome \<Rightarrow> governor \<Rightarrow> (governor_failure + unit) \<times> governor" where
  "try_lock_for_control lock g =
     (case lock of
        LockOk \<Rightarrow> (Inr (), settle g)
      | LockWouldBlock \<Rightarrow> (Inl (GovernorContended (governor_last_pressure g)), g)
      | LockPoisoned \<Rightarrow> (Inl InternalFenced, g\<lparr> lifecycle := Fenced \<rparr>))"

text \<open>A section under the control lock: an error leaves, success runs the body on the settled state.\<close>

definition with_control ::
  "lock_outcome \<Rightarrow> governor \<Rightarrow> (governor \<Rightarrow> (governor_failure + 'a) \<times> governor) \<Rightarrow>
   (governor_failure + 'a) \<times> governor" where
  "with_control lock g body =
     (case try_lock_for_control lock g of
        (Inl e, g1) \<Rightarrow> (Inl e, g1)
      | (Inr _, g1) \<Rightarrow> body g1)"

section \<open>Shared checks of admission\<close>

fun position :: "('a \<Rightarrow> bool) \<Rightarrow> 'a list \<Rightarrow> nat option" where
  "position P [] = None"
| "position P (x # xs) = (if P x then Some 0 else map_option Suc (position P xs))"

definition tenant_index ::
  "'a accounting_state_scheme \<Rightarrow> tenant_id \<Rightarrow> work_class \<Rightarrow> admission_failure + usize" where
  "tenant_index state tenant cls =
     ok_or (position (\<lambda>quota. quota_tenant quota = tenant \<and> pending_tenant state \<noteq> Some tenant) (tenant_quotas state))
       (failure Code_UnregisteredTenant AfterExternalCorrection Scope_Tenant cls decision_limit_none)"

definition record_refusal_locked :: "admission_failure \<Rightarrow> governor \<Rightarrow> governor" where
  "record_refusal_locked fail g =
     (if af_code fail = Code_GovernorContended then g
      else
        let index = code_index (af_code fail);
            total_count = try_fold (checked_add u64_max) 0 (rejection_counts g);
            candidate = Option.bind (slice_get (rejection_counts g) index) (\<lambda>n. checked_add u64_max n 1)
        in if Option.bind total_count (\<lambda>n. checked_add u64_max n 1) = None \<or> candidate = None
           then g\<lparr> lifecycle := Fenced \<rparr>
           else case Option.bind candidate (slice_set (rejection_counts g) index) of
                  Some counts \<Rightarrow> g\<lparr> rejection_counts := counts \<rparr>
                | None \<Rightarrow> g\<lparr> lifecycle := Fenced \<rparr>)"

text \<open>The number of empty rows of a count table outside one exempt row.\<close>

definition missing_rows :: "u32 list \<Rightarrow> usize option \<Rightarrow> nat" where
  "missing_rows counts exempt =
     length (filter (\<lambda>(i, n). Some i \<noteq> exempt \<and> n = 0) (enumerate 0 counts))"

definition require_healthy_and_slot ::
  "governor_config \<Rightarrow> 'a accounting_state_scheme \<Rightarrow> work_class \<Rightarrow> usize option \<Rightarrow> admission_failure + u32" where
  "require_healthy_and_slot cfg state cls tenant_idx =
     (let internal = internal_failure_at_pressure cls (disk_pressure state) in
      if lifecycle state = Fenced then Inl internal else
      and_then (ok_or (checked_add u32_max (outstanding state) 1) internal) (\<lambda>candidate.
      let missing_classes = missing_rows (class_counts state) (Some (class_index cls));
          missing_tenants = missing_rows (tenant_outstanding state) tenant_idx
      in
      and_then (ok_or (Option.bind (try_from u32_max missing_classes) (\<lambda>classes.
          Option.bind (try_from u32_max missing_tenants) (\<lambda>tenants. checked_add u32_max classes tenants))) internal)
        (\<lambda>reserved_progress.
      if exceeds (checked_add u32_max candidate reserved_progress) (g_maximum_outstanding cfg)
      then Inl (failure_at_pressure Code_OutstandingReservationLimit AfterCapacityRelease
              Scope_OutstandingReservations cls (disk_pressure state)
              \<lparr> dl_dimension = None, dl_allowed = g_maximum_outstanding cfg,
                dl_in_use = outstanding state, dl_requested = 1 \<rparr>)
      else Inr candidate)))"

definition next_class_count :: "'a accounting_state_scheme \<Rightarrow> work_class \<Rightarrow> (usize \<times> u32) option" where
  "next_class_count state cls =
     (let index = class_index cls in
      Option.bind (slice_get (class_counts state) index) (\<lambda>n.
      map_option (\<lambda>candidate. (index, candidate)) (checked_add u32_max n 1)))"

section \<open>Tenant topology\<close>

text \<open>
  The reservations of temporary vectors may fail; \<open>reserve k\<close> is the answer of the
  allocator to the \<open>k\<close>-th of them.
\<close>

definition validate_tenant_quota :: "governor_config \<Rightarrow> u16 \<Rightarrow> resource_amounts \<Rightarrow> governor_failure + unit" where
  "validate_tenant_quota cfg weight limits =
     (if weight = 0 \<or> \<not> amounts_all_positive limits \<or> \<not> amounts_is_at_most limits (g_ordinary_ceiling cfg)
      then Inl InvalidConfiguration else Inr ())"

definition try_reserve :: "governor_config \<Rightarrow> (nat \<Rightarrow> bool) \<Rightarrow> nat \<Rightarrow> governor_failure + unit" where
  "try_reserve cfg reserve k =
     (if reserve k then Inr () else Inl (GovernorBootstrapInventoryUnavailable (g_bootstrap_overhead cfg)))"

definition derive_tenant_fairness ::
  "governor_config \<Rightarrow> (nat \<Rightarrow> bool) \<Rightarrow> tenant_quota list \<Rightarrow>
   governor_failure + (pool_capacities list \<times> resource_amounts list \<times> recovery_pool_capacities list)" where
  "derive_tenant_fairness cfg reserve quotas =
     and_then (total_weight quotas) (\<lambda>weight_sum.
     and_then (try_reserve cfg reserve 1) (\<lambda>_.
     and_then (ordinary_capacities quotas (g_pool_capacities cfg) weight_sum []) (\<lambda>tenant_fair.
     and_then (validate_system_recovery_progress quotas (g_recovery_pool_capacities cfg)) (\<lambda>_.
     and_then (try_reserve cfg reserve 2) (\<lambda>_.
     and_then (amount_capacities quotas (g_recovery_shared_capacity cfg) weight_sum []) (\<lambda>recovery_shared.
     and_then (try_reserve cfg reserve 3) (\<lambda>_.
     and_then (recovery_fair_capacities quotas (g_recovery_pool_capacities cfg) weight_sum []) (\<lambda>recovery_fair.
     and_then (system_recovery_capacities (g_recovery_pool_capacities cfg) recovery_fair) (\<lambda>_.
     and_then (validate_progress quotas tenant_fair (g_maximum_outstanding cfg)) (\<lambda>_.
     Inr (tenant_fair, recovery_shared, recovery_fair)))))))))))"

record tenant_quota_successor =
  succ_tenant_quotas :: "tenant_quota list"
  succ_tenant_fair_capacities :: "pool_capacities list"
  succ_recovery_tenant_shared_fair :: "resource_amounts list"
  succ_recovery_tenant_pool_fair :: "recovery_pool_capacities list"
  succ_recovery_system_pool_capacities :: recovery_pool_capacities
  succ_tenant_limits :: "resource_amounts list"

definition stage_tenant_quota_update ::
  "governor_config \<Rightarrow> (nat \<Rightarrow> bool) \<Rightarrow> lock_outcome \<Rightarrow> tenant_id \<Rightarrow> u16 \<Rightarrow> resource_amounts \<Rightarrow> governor \<Rightarrow>
   (governor_failure + tenant_quota_successor) \<times> governor" where
  "stage_tenant_quota_update cfg reserve lock tenant weight limits g =
     (case validate_tenant_quota cfg weight limits of
        Inl e \<Rightarrow> (Inl e, g)
      | Inr _ \<Rightarrow> with_control lock g (\<lambda>g1.
          (and_then (ok_or (position (\<lambda>quota. quota_tenant quota = tenant) (tenant_quotas g1)) InvalidConfiguration)
             (\<lambda>index.
           and_then (tenant_quota_new tenant weight limits) (\<lambda>quota.
           and_then (ok_or (slice_set (tenant_quotas g1) index quota) InternalFenced) (\<lambda>successor.
           and_then (derive_tenant_fairness cfg reserve successor) (\<lambda>(ordinary, shared, pools).
           and_then (system_recovery_capacities (g_recovery_pool_capacities cfg) pools) (\<lambda>recovery_system.
           and_then (ok_or (slice_set (tenant_limits g1) index limits) InternalFenced) (\<lambda>limits_table.
           Inr \<lparr> succ_tenant_quotas = successor, succ_tenant_fair_capacities = ordinary,
                 succ_recovery_tenant_shared_fair = shared, succ_recovery_tenant_pool_fair = pools,
                 succ_recovery_system_pool_capacities = recovery_system,
                 succ_tenant_limits = limits_table \<rparr>)))))), g1)))"

text \<open>Publication waits for the lock; a poisoned lock is entered and fences.\<close>

definition publish_quota_update :: "bool \<Rightarrow> tenant_quota_successor \<Rightarrow> governor \<Rightarrow> governor" where
  "publish_quota_update poisoned successor g =
     (let g0 = (if poisoned then g\<lparr> lifecycle := Fenced \<rparr> else g);
          g1 = settle g0
      in g1\<lparr> tenant_quotas := succ_tenant_quotas successor,
             tenant_fair_capacities := succ_tenant_fair_capacities successor,
             recovery_tenant_shared_fair := succ_recovery_tenant_shared_fair successor,
             recovery_tenant_pool_fair := succ_recovery_tenant_pool_fair successor,
             recovery_system_pool_capacities := succ_recovery_system_pool_capacities successor,
             tenant_limits := succ_tenant_limits successor \<rparr>)"

definition update_tenant_quota ::
  "governor_config \<Rightarrow> (nat \<Rightarrow> bool) \<Rightarrow> lock_outcome \<Rightarrow> bool \<Rightarrow> tenant_id \<Rightarrow> u16 \<Rightarrow> resource_amounts \<Rightarrow> governor \<Rightarrow>
   (governor_failure + unit) \<times> governor" where
  "update_tenant_quota cfg reserve lock poisoned tenant weight limits g =
     (case stage_tenant_quota_update cfg reserve lock tenant weight limits g of
        (Inl e, g1) \<Rightarrow> (Inl e, g1)
      | (Inr successor, g1) \<Rightarrow> (Inr (), publish_quota_update poisoned successor g1))"

definition enroll_tenant_quota ::
  "governor_config \<Rightarrow> (nat \<Rightarrow> bool) \<Rightarrow> lock_outcome \<Rightarrow> tenant_id \<Rightarrow> u16 \<Rightarrow> resource_amounts \<Rightarrow> bool \<Rightarrow> governor \<Rightarrow>
   (governor_failure + unit) \<times> governor" where
  "enroll_tenant_quota cfg reserve lock tenant weight limits pending g =
     (case validate_tenant_quota cfg weight limits of
        Inl e \<Rightarrow> (Inl e, g)
      | Inr _ \<Rightarrow> with_control lock g (\<lambda>g1.
          if pending \<and> pending_tenant g1 \<noteq> None then (Inl (GovernorContended (disk_pressure g1)), g1)
          else if list_ex (\<lambda>quota. quota_tenant quota = tenant) (tenant_quotas g1) then (Inl InvalidConfiguration, g1)
          else
          let slot = length (tenant_quotas g1) in
          if length (tenant_limits g1) \<le> slot then (Inl InvalidConfiguration, g1)
          else
          case and_then (tenant_quota_new tenant weight limits) (\<lambda>quota.
               and_then (try_reserve cfg reserve 0) (\<lambda>_.
               let successor = tenant_quotas g1 @ [quota] in
               and_then (derive_tenant_fairness cfg reserve successor) (\<lambda>(tenant_fair, recovery_shared, recovery_fair).
               and_then (system_recovery_capacities (g_recovery_pool_capacities cfg) recovery_fair) (\<lambda>recovery_system.
               and_then (validate_progress successor tenant_fair (g_maximum_outstanding cfg)) (\<lambda>_.
               and_then (ok_or (slice_set (tenant_limits g1) slot limits) InternalFenced) (\<lambda>limits_table.
               Inr \<lparr> succ_tenant_quotas = successor, succ_tenant_fair_capacities = tenant_fair,
                     succ_recovery_tenant_shared_fair = recovery_shared,
                     succ_recovery_tenant_pool_fair = recovery_fair,
                     succ_recovery_system_pool_capacities = recovery_system,
                     succ_tenant_limits = limits_table \<rparr>)))))) of
            Inl e \<Rightarrow> (Inl e, g1)
          | Inr next \<Rightarrow>
              (Inr (),
               g1\<lparr> tenant_limits := succ_tenant_limits next,
                   tenant_quotas := succ_tenant_quotas next,
                   tenant_fair_capacities := succ_tenant_fair_capacities next,
                   recovery_tenant_shared_fair := succ_recovery_tenant_shared_fair next,
                   recovery_tenant_pool_fair := succ_recovery_tenant_pool_fair next,
                   recovery_system_pool_capacities := succ_recovery_system_pool_capacities next,
                   pending_tenant := (if pending then Some tenant else pending_tenant g1) \<rparr>)))"

definition register_tenant_quota ::
  "governor_config \<Rightarrow> (nat \<Rightarrow> bool) \<Rightarrow> lock_outcome \<Rightarrow> tenant_id \<Rightarrow> u16 \<Rightarrow> resource_amounts \<Rightarrow> governor \<Rightarrow>
   (governor_failure + unit) \<times> governor" where
  "register_tenant_quota cfg reserve lock tenant weight limits g =
     enroll_tenant_quota cfg reserve lock tenant weight limits False g"

definition prepare_tenant_quota ::
  "governor_config \<Rightarrow> (nat \<Rightarrow> bool) \<Rightarrow> lock_outcome \<Rightarrow> tenant_id \<Rightarrow> u16 \<Rightarrow> resource_amounts \<Rightarrow> governor \<Rightarrow>
   (governor_failure + unit) \<times> governor" where
  "prepare_tenant_quota cfg reserve lock tenant weight limits g =
     enroll_tenant_quota cfg reserve lock tenant weight limits True g"

definition activate_tenant_quota :: "tenant_id \<Rightarrow> governor \<Rightarrow> governor" where
  "activate_tenant_quota tenant g =
     (if pending_tenant g = Some tenant then g\<lparr> pending_tenant := None \<rparr> else g)"

text \<open>\<open>Vec::pop\<close> on an empty vector does nothing, as \<open>butlast\<close>.\<close>

definition rollback_tenant_quota :: "lock_outcome \<Rightarrow> tenant_id \<Rightarrow> governor \<Rightarrow> governor" where
  "rollback_tenant_quota lock tenant g =
     (case try_lock_for_control lock g of
        (Inl e, g1) \<Rightarrow> g1
      | (Inr _, g1) \<Rightarrow>
          if pending_tenant g1 \<noteq> Some tenant \<or> tenant_quotas g1 = []
             \<or> quota_tenant (last (tenant_quotas g1)) \<noteq> tenant then g1
          else
            let g2 = g1\<lparr> tenant_quotas := butlast (tenant_quotas g1),
                         tenant_fair_capacities := butlast (tenant_fair_capacities g1),
                         recovery_tenant_shared_fair := butlast (recovery_tenant_shared_fair g1),
                         recovery_tenant_pool_fair := butlast (recovery_tenant_pool_fair g1),
                         pending_tenant := None \<rparr>;
                index = length (tenant_quotas g2)
            in case slice_set (tenant_limits g2) index amounts_zero of
                 Some limits_table \<Rightarrow> g2\<lparr> tenant_limits := limits_table \<rparr>
               | None \<Rightarrow> g2)"

section \<open>Disk pressure and shutdown\<close>

definition apply_disk_observation ::
  "governor_config \<Rightarrow> lock_outcome \<Rightarrow> u64 \<Rightarrow> governor \<Rightarrow> (governor_failure + disk_pressure_state) \<times> governor" where
  "apply_disk_observation cfg lock usable_bytes g =
     with_control lock g (\<lambda>g1.
       if lifecycle g1 = Fenced then (Inl InternalFenced, g1)
       else
         let pressure = disk_transition (g_disk_thresholds cfg) (disk_pressure g1) usable_bytes;
             g2 = g1\<lparr> usable_disk_bytes := usable_bytes \<rparr>
         in if pressure = disk_pressure g2 then (Inr pressure, g2)
            else case checked_add u64_max (pressure_transition_count g2) 1 of
              None \<Rightarrow> (Inl InternalFenced, g2\<lparr> lifecycle := Fenced \<rparr>)
            | Some n \<Rightarrow>
                (Inr pressure,
                 publish_pressure pressure (g2\<lparr> pressure_transition_count := n, disk_pressure := pressure \<rparr>)))"

record accounting_snapshot =
  snap_outstanding :: u32
  snap_maximum_outstanding :: u32
  snap_reserve_consumption :: resource_amounts
  snap_pool_capacities :: pool_capacities
  snap_pool_usage :: pool_capacities
  snap_disk_pressure :: disk_pressure_state
  snap_pressure_transition_count :: u64
  snap_lifecycle :: governor_lifecycle
  snap_total_usage :: resource_amounts
  snap_outstanding_ordinary :: u32
  snap_outstanding_recovery :: u32
  snap_outstanding_uninterruptible :: u32
  snap_class_counts :: "u32 list"
  snap_rejection_count :: u64
  snap_rejection_counts :: "u64 list"
  snap_throttle_counts :: "u64 list"
  snap_effective_capacity :: resource_amounts
  snap_bootstrap_overhead :: resource_amounts
  snap_ordinary_capacity :: resource_amounts
  snap_recovery_reserve :: resource_amounts
  snap_recovery_shared_capacity :: resource_amounts
  snap_recovery_shared_usage :: resource_amounts
  snap_recovery_pool_capacities :: recovery_pool_capacities
  snap_recovery_pool_usage :: recovery_pool_usage
  snap_usable_disk_bytes :: u64

definition throttle_counts :: "u64 list \<Rightarrow> u64 list" where
  "throttle_counts counts =
     map (\<lambda>index. case Option.bind (code_from_index index)
                    (\<lambda>code. if is_throttle code then slice_get counts index else None) of
                    None \<Rightarrow> 0 | Some n \<Rightarrow> n)
       [0..<ADMISSION_FAILURE_CODE_COUNT]"

definition snapshot_from :: "governor_config \<Rightarrow> governor \<Rightarrow> (governor_failure + accounting_snapshot) \<times> governor" where
  "snapshot_from cfg g =
     (case slice_set (rejection_counts g) (code_index Code_GovernorContended) (contention_count g) of
        None \<Rightarrow> (Inl InternalFenced, g\<lparr> pending_fence := True \<rparr>)
      | Some counts \<Rightarrow>
          (case try_fold (checked_add u64_max) 0 counts of
             None \<Rightarrow> (Inl InternalFenced, g\<lparr> pending_fence := True \<rparr>)
           | Some rejection_count \<Rightarrow>
               (Inr \<lparr> snap_outstanding = outstanding g,
                      snap_maximum_outstanding = g_maximum_outstanding cfg,
                      snap_reserve_consumption = amounts_excess_over (total_usage g) (g_ordinary_ceiling cfg),
                      snap_pool_capacities = g_pool_capacities cfg,
                      snap_pool_usage = pool_usage g,
                      snap_disk_pressure = disk_pressure g,
                      snap_pressure_transition_count = pressure_transition_count g,
                      snap_lifecycle = lifecycle g,
                      snap_total_usage = total_usage g,
                      snap_outstanding_ordinary = outstanding_ordinary g,
                      snap_outstanding_recovery = outstanding_recovery g,
                      snap_outstanding_uninterruptible = outstanding_uninterruptible g,
                      snap_class_counts = class_counts g,
                      snap_rejection_count = rejection_count,
                      snap_rejection_counts = counts,
                      snap_throttle_counts = throttle_counts counts,
                      snap_effective_capacity = g_raw_effective cfg,
                      snap_bootstrap_overhead = g_bootstrap_overhead cfg,
                      snap_ordinary_capacity = g_ordinary_ceiling cfg,
                      snap_recovery_reserve = g_recovery_reserve cfg,
                      snap_recovery_shared_capacity = g_recovery_shared_capacity cfg,
                      snap_recovery_shared_usage = rpu_shared (recovery_pool_usage g),
                      snap_recovery_pool_capacities = g_recovery_pool_capacities cfg,
                      snap_recovery_pool_usage = recovery_pool_usage g,
                      snap_usable_disk_bytes = usable_disk_bytes g \<rparr>, g)))"

definition governor_snapshot ::
  "governor_config \<Rightarrow> lock_outcome \<Rightarrow> governor \<Rightarrow> (governor_failure + accounting_snapshot) \<times> governor" where
  "governor_snapshot cfg lock g =
     (case lock of
        LockOk \<Rightarrow> snapshot_from cfg (settle g)
      | LockWouldBlock \<Rightarrow> (Inl (GovernorContended (governor_last_pressure g)), g)
      | LockPoisoned \<Rightarrow> snapshot_from cfg ((drain_pending g)\<lparr> lifecycle := Fenced \<rparr>))"

definition begin_shutdown ::
  "governor_config \<Rightarrow> lock_outcome \<Rightarrow> governor \<Rightarrow> (governor_failure + accounting_snapshot) \<times> governor" where
  "begin_shutdown cfg lock g =
     with_control lock g (\<lambda>g1.
       case lifecycle g1 of
         Open \<Rightarrow> snapshot_from cfg (g1\<lparr> lifecycle := ShuttingDown \<rparr>)
       | ShuttingDown \<Rightarrow> snapshot_from cfg g1
       | Fenced \<Rightarrow> (Inl InternalFenced, g1))"

section \<open>Release through a handle\<close>

definition try_release ::
  "lock_outcome \<Rightarrow> lock_outcome \<Rightarrow> u16 \<Rightarrow> charge_owner \<Rightarrow> reservation_identity \<Rightarrow> resource_amounts \<Rightarrow>
   governor \<Rightarrow> release_status \<times> governor" where
  "try_release lock relock slot owner identity amounts g =
     (let locked = (\<lambda>poisoned g1.
            case slot_get (grant_records g1) slot of
              None \<Rightarrow>
                (case release_components poisoned owner (identity_class identity)
                        (case identity of Ordinary _ _ _ \<Rightarrow> True | Recovery _ _ \<Rightarrow> False)
                        (case identity of Ordinary _ _ _ \<Rightarrow> None | Recovery _ kind \<Rightarrow> Some kind) amounts g1 of
                   (status, g2) \<Rightarrow>
                     (\<lparr> applied = applied status, status_result = Inl InternalFenced \<rparr>,
                      g2\<lparr> lifecycle := Fenced \<rparr>))
            | Some rec \<Rightarrow>
                let handle_valid = (gr_amounts rec = amounts \<and>
                      (case identity of Ordinary _ _ _ \<Rightarrow> owner_pools owner \<noteq> None
                       | Recovery _ _ \<Rightarrow> owner_recovery_pools owner \<noteq> None))
                in if \<not> handle_valid then fence_release g1 else release_slot_locked poisoned slot g1)
      in case try_lock_for_control lock g of
           (Inr _, g1) \<Rightarrow> locked False g1
         | (Inl (GovernorContended _), g1) \<Rightarrow>
             (\<lparr> applied = False, status_result = Inl (GovernorContended (governor_last_pressure g1)) \<rparr>, g1)
         | (Inl InternalFenced, g1) \<Rightarrow>
             (case relock of
                LockOk \<Rightarrow> locked True g1
              | _ \<Rightarrow> (\<lparr> applied = False, status_result = Inl InternalFenced \<rparr>, g1))
         | (Inl other, g1) \<Rightarrow> (\<lparr> applied = False, status_result = Inl other \<rparr>, g1))"

end
