(* ===== verification/Admission.thy ===== *)
theory Admission
  imports Accounting
begin

text \<open>
  \<^verbatim>\<open>resource_governor/admission.rs\<close> and \<^verbatim>\<open>recovery_admission.rs\<close>: admitting a claim.
  Each locked section is a plan, which reads the state and either refuses, fences or
  yields every candidate value, followed by a commit, which writes them. The order of
  the checks is the order of the source; a fence inside the commit acts on the state
  written so far.
\<close>

section \<open>Reservation handles\<close>

record reservation =
  res_owner :: charge_owner
  res_identity :: reservation_identity
  res_amounts :: resource_amounts
  res_slot :: u16
  res_operation :: "operation_token option"
  res_active :: bool

definition reservation_new ::
  "charge_owner \<Rightarrow> reservation_identity \<Rightarrow> resource_amounts \<Rightarrow> u16 \<Rightarrow> operation_token option \<Rightarrow> reservation" where
  "reservation_new owner identity amounts slot operation =
     \<lparr> res_owner = owner, res_identity = identity, res_amounts = amounts, res_slot = slot,
       res_operation = operation, res_active = True \<rparr>"

text \<open>\<open>let Some(x) = ... else { state.lifecycle = Fenced; return Err(e) }\<close> inside a commit.\<close>

definition some_or_fenced ::
  "governor \<Rightarrow> 'e \<Rightarrow> 'a option \<Rightarrow> ('a \<Rightarrow> ('e + 'b) \<times> governor) \<Rightarrow> ('e + 'b) \<times> governor" where
  "some_or_fenced g e x k = (case x of None \<Rightarrow> (Inl e, g\<lparr> lifecycle := Fenced \<rparr>) | Some a \<Rightarrow> k a)"

text \<open>A plan followed by its commit.\<close>

definition run_plan ::
  "('e, 'a) plan \<Rightarrow> governor \<Rightarrow> ('a \<Rightarrow> ('e + 'b) \<times> governor) \<Rightarrow> ('e + 'b) \<times> governor" where
  "run_plan p g k =
     (case p of
        Refuse e \<Rightarrow> (Inl e, g)
      | Fence e \<Rightarrow> (Inl e, g\<lparr> lifecycle := Fenced \<rparr>)
      | Proceed a \<Rightarrow> k a)"

section \<open>Principal quotas\<close>

definition principal_usage_excluding ::
  "'a accounting_state_scheme \<Rightarrow> usize \<Rightarrow> principal_id \<Rightarrow> u16 option \<Rightarrow> work_class \<Rightarrow>
   admission_failure + (u64 \<times> resource_amounts)" where
  "principal_usage_excluding state tenant_idx prin excluded_slot cls =
     (let internal = internal_failure_at_pressure cls (disk_pressure state) in
      for_fold (\<lambda>(cnt, usage) (slot_index, entry).
          and_then (ok_or (try_from u16_max slot_index) internal) (\<lambda>slot.
          if Some slot = excluded_slot then Inr (cnt, usage)
          else case entry of
            None \<Rightarrow> Inr (cnt, usage)
          | Some rec \<Rightarrow>
              if record_tenant_index rec \<noteq> Some tenant_idx \<or> gr_principal rec \<noteq> Some prin then Inr (cnt, usage)
              else
                and_then (if is_operation_root rec then ok_or (checked_add u64_max cnt 1) internal else Inr cnt)
                  (\<lambda>cnt.
                and_then (ok_or (amounts_checked_add usage (gr_amounts rec)) internal) (\<lambda>usage.
                Inr (cnt, usage)))))
        (0, amounts_zero) (enumerate 0 (grant_records state)))"

definition principal_usage ::
  "'a accounting_state_scheme \<Rightarrow> usize \<Rightarrow> principal_id \<Rightarrow> work_class \<Rightarrow>
   admission_failure + (u64 \<times> resource_amounts)" where
  "principal_usage state tenant_idx prin cls = principal_usage_excluding state tenant_idx prin None cls"

definition operation_belongs :: "operation_token \<Rightarrow> u16 \<Rightarrow> grant_record \<Rightarrow> bool" where
  "operation_belongs token slot rec =
     (case gr_operation rec of
        Some (Root generation _ _) \<Rightarrow> slot = token_root_slot token \<and> generation = token_generation token
      | Some (Child root_slot generation) \<Rightarrow>
          root_slot = token_root_slot token \<and> generation = token_generation token
      | None \<Rightarrow> False)"

definition operation_usage ::
  "'a accounting_state_scheme \<Rightarrow> operation_token \<Rightarrow> u16 option \<Rightarrow> work_class \<Rightarrow>
   admission_failure + resource_amounts" where
  "operation_usage state token excluded_slot cls =
     (let internal = internal_failure_at_pressure cls (disk_pressure state) in
      for_fold (\<lambda>usage (slot_index, entry).
          and_then (ok_or (try_from u16_max slot_index) internal) (\<lambda>slot.
          if Some slot = excluded_slot then Inr usage
          else case entry of
            None \<Rightarrow> Inr usage
          | Some rec \<Rightarrow>
              if operation_belongs token slot rec
              then ok_or (amounts_checked_add usage (gr_amounts rec)) internal
              else Inr usage))
        amounts_zero (enumerate 0 (grant_records state)))"

definition refuse_principal_limit ::
  "governor_config \<Rightarrow> 'a accounting_state_scheme \<Rightarrow> usize \<Rightarrow> principal_id option \<Rightarrow> operation_token option \<Rightarrow>
   work_class \<Rightarrow> resource_amounts \<Rightarrow> admission_failure + unit" where
  "refuse_principal_limit cfg state tenant_idx prin operation cls requested =
     (case (prin, g_principal_quota cfg) of
        (Some prin, Some quota) \<Rightarrow>
          and_then (principal_usage state tenant_idx prin cls) (\<lambda>(in_use, usage).
          let allowed = maximum_operations quota in
          if operation = None \<and> allowed \<le> in_use
          then Inl (failure_at_pressure Code_PrincipalQuotaExceeded AfterCapacityRelease Scope_Principal cls
                 (disk_pressure state)
                 \<lparr> dl_dimension = None, dl_allowed = allowed, dl_in_use = in_use, dl_requested = 1 \<rparr>)
          else
          and_then (case operation of
              Some token \<Rightarrow> operation_usage state token None cls | None \<Rightarrow> Inr amounts_zero)
            (\<lambda>operation_in_use.
          and_then (refuse_exceeded Code_PrincipalQuotaExceeded Scope_Operation cls operation_in_use requested
              (per_operation_limits quota) (disk_pressure state)) (\<lambda>_.
          refuse_exceeded Code_PrincipalQuotaExceeded Scope_Principal cls usage requested
            (aggregate_limits quota) (disk_pressure state))))
      | _ \<Rightarrow> Inr ())"

text \<open>The logical operation a slot belongs to: its own root, or the root its child record names.\<close>

definition operation_of_slot :: "governor_config \<Rightarrow> 'a accounting_state_scheme \<Rightarrow> u16 \<Rightarrow> operation_token option" where
  "operation_of_slot cfg state slot =
     Option.bind (slot_get (grant_records state) slot) (\<lambda>rec.
     case gr_operation rec of
       Some (Root _ _ _) \<Rightarrow> root_token rec (g_authority cfg) slot
     | Some (Child root_slot generation) \<Rightarrow>
         Option.bind (slot_get (grant_records state) root_slot) (\<lambda>root.
         Option.bind (root_token root (g_authority cfg) root_slot) (\<lambda>token.
         if token_generation token = generation then Some token else None))
     | None \<Rightarrow> None)"

definition refuse_principal_resize_limit ::
  "governor_config \<Rightarrow> 'a accounting_state_scheme \<Rightarrow> usize \<Rightarrow> principal_id option \<Rightarrow> u16 \<Rightarrow>
   work_class \<Rightarrow> resource_amounts \<Rightarrow> admission_failure + unit" where
  "refuse_principal_resize_limit cfg state tenant_idx prin excluded_slot cls requested =
     (case (prin, g_principal_quota cfg) of
        (Some prin, Some quota) \<Rightarrow>
          and_then (principal_usage_excluding state tenant_idx prin (Some excluded_slot) cls) (\<lambda>(_, usage).
          and_then (case operation_of_slot cfg state excluded_slot of
              Some token \<Rightarrow> operation_usage state token (Some excluded_slot) cls | None \<Rightarrow> Inr amounts_zero)
            (\<lambda>operation_in_use.
          and_then (refuse_exceeded Code_PrincipalQuotaExceeded Scope_Operation cls operation_in_use requested
              (per_operation_limits quota) (disk_pressure state)) (\<lambda>_.
          refuse_exceeded Code_PrincipalQuotaExceeded Scope_Principal cls usage requested
            (aggregate_limits quota) (disk_pressure state))))
      | _ \<Rightarrow> Inr ())"

section \<open>Operations\<close>

definition invalid_operation_failure :: "'a accounting_state_scheme \<Rightarrow> work_class \<Rightarrow> admission_failure" where
  "invalid_operation_failure state cls =
     failure_at_pressure Code_PrincipalQuotaExceeded AfterCapacityRelease Scope_Operation cls (disk_pressure state)
       \<lparr> dl_dimension = None, dl_allowed = 0, dl_in_use = 0, dl_requested = 1 \<rparr>"

definition token_valid ::
  "governor_config \<Rightarrow> 'a accounting_state_scheme \<Rightarrow> usize \<Rightarrow> operation_token \<Rightarrow> work_class \<Rightarrow> bool" where
  "token_valid cfg state tenant_idx token cls =
     (case slot_get (grant_records state) (token_root_slot token) of
        None \<Rightarrow> False
      | Some rec \<Rightarrow>
          token_authority token = g_authority cfg \<and>
          record_tenant_index rec = Some tenant_idx \<and>
          gr_tenant rec = Some (token_tenant token) \<and>
          gr_principal rec = Some (token_principal token) \<and>
          record_class rec = cls \<and>
          (case gr_operation rec of
             Some (Root generation True _) \<Rightarrow> generation = token_generation token
           | _ \<Rightarrow> False))"

definition validate_operation_child ::
  "governor_config \<Rightarrow> 'a accounting_state_scheme \<Rightarrow> usize \<Rightarrow> operation_token option \<Rightarrow> work_class \<Rightarrow>
   admission_failure + unit" where
  "validate_operation_child cfg state tenant_idx operation cls =
     (case operation of
        None \<Rightarrow> Inr ()
      | Some token \<Rightarrow>
          if token_valid cfg state tenant_idx token cls then Inr ()
          else Inl (invalid_operation_failure state cls))"

definition operation_record_for_claim ::
  "operation_token option \<Rightarrow> principal_id option \<Rightarrow> work_class \<Rightarrow> governor \<Rightarrow>
   (admission_failure + operation_record option) \<times> governor" where
  "operation_record_for_claim operation prin cls g =
     (case operation of
        Some token \<Rightarrow> (Inr (Some (Child (token_root_slot token) (token_generation token))), g)
      | None \<Rightarrow>
          if prin = None then (Inr None, g)
          else
            let generation = next_operation_generation g in
            some_or_fenced g (internal_failure_at_pressure cls (disk_pressure g))
              (checked_add u64_max generation 1)
              (\<lambda>next. (Inr (Some (Root generation True 0)), g\<lparr> next_operation_generation := next \<rparr>)))"

section \<open>Ordinary admission\<close>

record ordinary_plan =
  op_tenant_index :: usize
  op_outstanding :: u32
  op_total :: resource_amounts
  op_tenant :: resource_amounts
  op_pool :: pool_capacities
  op_tenant_pool :: pool_capacities
  op_ordinary_count :: u32
  op_class_index :: usize
  op_class_count :: u32
  op_tenant_count :: u32
  op_owner :: charge_owner
  op_identity :: reservation_identity

definition is_internal :: "admission_failure \<Rightarrow> bool" where
  "is_internal fail = (af_code fail = Code_InternalFenced)"

definition plan_ordinary ::
  "governor_config \<Rightarrow> work_claim \<Rightarrow> 'a accounting_state_scheme \<Rightarrow> (admission_failure, ordinary_plan) plan" where
  "plan_ordinary cfg claim state =
     (let cls = claim_class claim;
          pressure = disk_pressure state;
          internal = internal_failure_at_pressure cls pressure;
          amounts = claim_amounts claim
      in
      if lifecycle state = ShuttingDown then Refuse (shutdown_failure cls pressure) else
      plan_bind (question (map_sum (\<lambda>f. at_pressure f pressure) id (tenant_index state (claim_tenant claim) cls)))
        (\<lambda>tenant_idx.
      plan_bind (question (require_healthy_and_slot cfg state cls (Some tenant_idx))) (\<lambda>outstanding_candidate.
      plan_bind (question (validate_operation_child cfg state tenant_idx (claim_operation claim) cls)) (\<lambda>_.
      plan_bind (question (refuse_principal_limit cfg state tenant_idx (claim_principal claim)
          (claim_operation claim) cls amounts)) (\<lambda>_.
      plan_bind (question (pressure_eligibility pressure cls amounts)) (\<lambda>shared_eligible.
      plan_bind (question (refuse_live_disk_growth cls (total_usage state) amounts
          (usable_disk_bytes state) pressure)) (\<lambda>_.
      plan_bind (some_or_fence internal (amounts_checked_sub (total_usage state) (recovery_usage state)))
        (\<lambda>ordinary_usage.
      plan_bind (question (refuse_ordinary_capacity cls amounts
          \<lparr> oc_ordinary_usage = ordinary_usage,
            oc_recovery_shared_usage = rpu_shared (recovery_pool_usage state),
            oc_ordinary_ceiling = g_ordinary_ceiling cfg,
            oc_total_ceiling = g_total_ceiling cfg,
            oc_pressure = pressure \<rparr>)) (\<lambda>_.
      plan_bind (some_or_fence internal (amounts_checked_add (total_usage state) amounts)) (\<lambda>total_candidate.
      plan_bind (some_or_fence internal (slice_get (ordinary_tenant_usage state) tenant_idx)) (\<lambda>tenant_usage.
      plan_bind (some_or_fence internal (slice_get (tenant_limits state) tenant_idx)) (\<lambda>tenant_limit.
      plan_bind (question (refuse_exceeded Code_TenantQuotaExceeded Scope_Tenant cls tenant_usage amounts
          tenant_limit pressure)) (\<lambda>_.
      plan_bind (some_or_fence internal
          (map_option rpu_shared (slice_get (recovery_tenant_pool_usage state) tenant_idx)))
        (\<lambda>recovery_shared_usage.
      plan_bind (some_or_fence internal (slice_get (recovery_tenant_shared_fair state) tenant_idx))
        (\<lambda>recovery_shared_limit.
      plan_bind (question_fencing is_internal (refuse_tenant_recovery_shared_fair_share cls tenant_usage
          recovery_shared_usage amounts recovery_shared_limit pressure)) (\<lambda>_.
      plan_bind (some_or_fence internal (amounts_checked_add tenant_usage amounts)) (\<lambda>tenant_candidate.
      plan_bind (some_or_fence internal (slice_get (ordinary_tenant_pool_usage state) tenant_idx))
        (\<lambda>tenant_pool_usage.
      plan_bind (some_or_fence internal (slice_get (tenant_fair_capacities state) tenant_idx))
        (\<lambda>tenant_fair_capacity.
      plan_bind (question_fencing is_internal (plan_pool_charge cls amounts
          \<lparr> pa_global_capacity = g_pool_capacities cfg, pa_global_usage = pool_usage state,
            pa_tenant_capacity = tenant_fair_capacity, pa_tenant_usage = tenant_pool_usage \<rparr>
          pressure shared_eligible)) (\<lambda>pools.
      let pool_amounts = pool_charge_capacities pools in
      plan_bind (some_or_fence internal (pools_checked_add (pool_usage state) pool_amounts)) (\<lambda>pool_candidate.
      plan_bind (some_or_fence internal (pools_checked_add tenant_pool_usage pool_amounts))
        (\<lambda>tenant_pool_candidate.
      plan_bind (some_or_fence internal (checked_add u32_max (outstanding_ordinary state) 1)) (\<lambda>ordinary_count.
      plan_bind (some_or_fence internal (next_class_count state cls)) (\<lambda>(class_idx, class_count).
      plan_bind (some_or_fence internal (Option.bind (slice_get (tenant_outstanding state) tenant_idx)
          (\<lambda>n. checked_add u32_max n 1))) (\<lambda>tenant_count.
      if slice_get (ordinary_tenant_usage state) tenant_idx = None
         \<or> slice_get (ordinary_tenant_pool_usage state) tenant_idx = None
         \<or> slice_get (class_counts state) class_idx = None
         \<or> slice_get (tenant_outstanding state) tenant_idx = None
      then Fence internal
      else Proceed
        \<lparr> op_tenant_index = tenant_idx, op_outstanding = outstanding_candidate, op_total = total_candidate,
          op_tenant = tenant_candidate, op_pool = pool_candidate, op_tenant_pool = tenant_pool_candidate,
          op_ordinary_count = ordinary_count, op_class_index = class_idx, op_class_count = class_count,
          op_tenant_count = tenant_count,
          op_owner = \<lparr> owner_attribution = Charge_Ordinary tenant_idx, owner_pools = Some pools,
                       owner_recovery_pools = None \<rparr>,
          op_identity = Ordinary (claim_tenant claim) (claim_principal claim) (claim_kind claim) \<rparr>
      )))))))))))))))))))))))))"

text \<open>Registering a child with its root after the child's slot is taken.\<close>

definition increment_root_slot ::
  "operation_token option \<Rightarrow> admission_failure \<Rightarrow> governor \<Rightarrow>
   (governor \<Rightarrow> (admission_failure + 'b) \<times> governor) \<Rightarrow> (admission_failure + 'b) \<times> governor" where
  "increment_root_slot operation internal g k =
     (case operation of
        None \<Rightarrow> k g
      | Some token \<Rightarrow>
          some_or_fenced g internal (slot_get (grant_records g) (token_root_slot token)) (\<lambda>root.
          some_or_fenced g internal (increment_root_child root) (\<lambda>updated.
          k (g\<lparr> grant_records := (grant_records g)[token_root_slot token := Some updated] \<rparr>))))"

definition commit_ordinary ::
  "governor_config \<Rightarrow> work_claim \<Rightarrow> ordinary_plan \<Rightarrow> governor \<Rightarrow> (admission_failure + reservation) \<times> governor" where
  "commit_ordinary cfg claim p g =
     (let cls = claim_class claim;
          internal = internal_failure_at_pressure cls (disk_pressure g);
          amounts = claim_amounts claim
      in
      case operation_record_for_claim (claim_operation claim) (claim_principal claim) cls g of
        (Inl e, g1) \<Rightarrow> (Inl e, g1)
      | (Inr operation_record, g1) \<Rightarrow>
          some_or_fenced g1 internal (grant_record_new (op_owner p) (op_identity p) amounts operation_record) (\<lambda>rec.
          case activate_slot rec g1 of (activated, g2) \<Rightarrow>
          some_or_fenced g2 internal activated (\<lambda>slot.
          increment_root_slot (claim_operation claim) internal g2 (\<lambda>g3.
          let operation = Option.bind (slot_get (grant_records g3) slot)
                (\<lambda>rec. root_token rec (g_authority cfg) slot)
          in
          some_or_fenced g3 internal (slice_set (ordinary_tenant_usage g3) (op_tenant_index p) (op_tenant p))
            (\<lambda>tenant_usage.
          let g4 = g3\<lparr> ordinary_tenant_usage := tenant_usage \<rparr> in
          some_or_fenced g4 internal (slice_set (ordinary_tenant_pool_usage g4) (op_tenant_index p) (op_tenant_pool p))
            (\<lambda>tenant_pools.
          let g5 = g4\<lparr> ordinary_tenant_pool_usage := tenant_pools \<rparr> in
          some_or_fenced g5 internal (slice_set (class_counts g5) (op_class_index p) (op_class_count p)) (\<lambda>counts.
          let g6 = g5\<lparr> class_counts := counts \<rparr> in
          some_or_fenced g6 internal (slice_set (tenant_outstanding g6) (op_tenant_index p) (op_tenant_count p))
            (\<lambda>tenant_counts.
          (Inr (reservation_new (op_owner p) (op_identity p) amounts slot operation),
           g6\<lparr> tenant_outstanding := tenant_counts, total_usage := op_total p, pool_usage := op_pool p,
               outstanding := op_outstanding p, outstanding_ordinary := op_ordinary_count p \<rparr>)))))))))"

definition reserve_ordinary_locked ::
  "governor_config \<Rightarrow> work_claim \<Rightarrow> governor \<Rightarrow> (admission_failure + reservation) \<times> governor" where
  "reserve_ordinary_locked cfg claim g =
     run_plan (plan_ordinary cfg claim g) g (\<lambda>p. commit_ordinary cfg claim p g)"

text \<open>The wrapper of every admission: take the lock, run the section, count a refusal.\<close>

definition with_admission ::
  "lock_outcome \<Rightarrow> work_class \<Rightarrow> governor \<Rightarrow> (governor \<Rightarrow> (admission_failure + 'a) \<times> governor) \<Rightarrow>
   (admission_failure + 'a) \<times> governor" where
  "with_admission lock cls g body =
     (case lock_for_admission lock cls g of
        (Inl e, g1) \<Rightarrow> (Inl e, g1)
      | (Inr _, g1) \<Rightarrow>
          (case body g1 of
             (Inl e, g2) \<Rightarrow> (Inl e, record_refusal_locked e g2)
           | (Inr a, g2) \<Rightarrow> (Inr a, g2)))"

definition reserve_ordinary ::
  "governor_config \<Rightarrow> lock_outcome \<Rightarrow> work_claim \<Rightarrow> governor \<Rightarrow> (admission_failure + reservation) \<times> governor" where
  "reserve_ordinary cfg lock claim g =
     with_admission lock (claim_class claim) g (reserve_ordinary_locked cfg claim)"

end
