(* ===== verification/RecoveryAdmission.thy ===== *)
theory RecoveryAdmission
  imports Admission
begin

text \<open>
  \<^verbatim>\<open>resource_governor/recovery_admission.rs\<close>: admission of the closed set of recovery
  work kinds, which may use the recovery reserve and, for the kinds that must not be
  interrupted, stays open during shutdown.
\<close>

section \<open>Refusals of the recovery pools\<close>

record recovery_scope_view =
  sv_shared :: resource_amounts
  sv_protected :: resource_amounts
  sv_usage :: recovery_pool_usage
  sv_ordinary :: resource_amounts

definition recovery_pool_failure ::
  "recovery_pool_limit \<Rightarrow> bool \<Rightarrow> recovery_work_kind \<Rightarrow> resource_amounts \<Rightarrow> resource_amounts \<Rightarrow> resource_amounts \<Rightarrow>
   recovery_pool_usage \<Rightarrow> resource_amounts \<Rightarrow> recovery_scope_view \<Rightarrow> disk_pressure_state \<Rightarrow> admission_failure" where
  "recovery_pool_failure limit tenant kind requested global_shared global_protected global_usage
       global_shared_occupied_by_ordinary scope pressure =
     (let report = (\<lambda>d scope_limited.
        let view = (if scope_limited then scope
              else \<lparr> sv_shared = global_shared, sv_protected = global_protected, sv_usage = global_usage,
                     sv_ordinary = global_shared_occupied_by_ordinary \<rparr>);
            allowed = checked_add u64_max (amounts_get (sv_shared view) d) (amounts_get (sv_protected view) d);
            in_use = Option.bind (checked_add u64_max (amounts_get (rpu_shared (sv_usage view)) d)
                  (amounts_get (sv_ordinary view) d))
                (\<lambda>usage. checked_add u64_max usage (amounts_get (usage_protected (sv_usage view) kind) d))
        in case (allowed, in_use) of
             (Some allowed, Some in_use) \<Rightarrow>
               failure_at_pressure
                 (if scope_limited
                  then (if tenant then Code_TenantFairShareExceeded else Code_ProtectedCapacityUnavailable)
                  else Code_RecoveryReserveExhausted)
                 AfterCapacityRelease
                 (if scope_limited
                  then (if tenant then Scope_TenantFairShare else Scope_ProtectedReserve)
                  else Scope_RecoveryReserve)
                 DurabilityRecovery pressure
                 \<lparr> dl_dimension = Some d, dl_allowed = allowed, dl_in_use = in_use,
                   dl_requested = amounts_get requested d \<rparr>
           | _ \<Rightarrow> internal_failure_at_pressure DurabilityRecovery pressure)
      in case limit of
           Limit_Internal \<Rightarrow> internal_failure_at_pressure DurabilityRecovery pressure
         | Limit_Global d \<Rightarrow> report d False
         | Limit_Scope d \<Rightarrow> report d True)"

section \<open>Recovery admission\<close>

record recovery_plan =
  rp_tenant_index :: "usize option"
  rp_outstanding :: u32
  rp_total :: resource_amounts
  rp_recovery :: resource_amounts
  rp_tenant :: "resource_amounts option"
  rp_pool :: recovery_pool_usage
  rp_scope_pool :: recovery_pool_usage
  rp_recovery_count :: u32
  rp_uninterruptible_count :: "u32 option"
  rp_class_index :: usize
  rp_class_count :: u32
  rp_tenant_count :: "u32 option"
  rp_owner :: charge_owner
  rp_identity :: reservation_identity

text \<open>What a tenant may still take of its quota, over ordinary and recovery usage together.\<close>

definition plan_recovery_tenant ::
  "recovery_work_claim \<Rightarrow> usize \<Rightarrow> 'a accounting_state_scheme \<Rightarrow> (admission_failure, resource_amounts) plan" where
  "plan_recovery_tenant claim index state =
     (let cls = DurabilityRecovery;
          internal = internal_failure_at_pressure cls (disk_pressure state);
          amounts = recovery_claim_amounts claim
      in
      plan_bind (some_or_fence internal (slice_get (recovery_tenant_usage state) index)) (\<lambda>usage.
      plan_bind (some_or_fence internal (amounts_checked_add usage amounts)) (\<lambda>candidate.
      plan_bind (some_or_fence internal (slice_get (ordinary_tenant_usage state) index)) (\<lambda>ordinary_usage.
      plan_bind (some_or_fence internal (slice_get (tenant_quotas state) index)) (\<lambda>quota.
      plan_bind (some_or_fence internal (amounts_checked_add ordinary_usage usage)) (\<lambda>combined_usage.
      plan_bind (question (refuse_exceeded Code_TenantQuotaExceeded Scope_Tenant cls combined_usage amounts
          (quota_limits quota) (disk_pressure state))) (\<lambda>_.
      Proceed candidate)))))))"

definition recovery_scope_of ::
  "governor_config \<Rightarrow> recovery_work_kind \<Rightarrow> usize option \<Rightarrow> resource_amounts \<Rightarrow> 'a accounting_state_scheme \<Rightarrow>
   admission_failure + recovery_scope_view" where
  "recovery_scope_of cfg kind tenant_idx ordinary_usage state =
     (let internal = internal_failure_at_pressure DurabilityRecovery (disk_pressure state) in
      case tenant_idx of
        Some index \<Rightarrow>
          and_then (ok_or (slice_get (recovery_tenant_shared_fair state) index) internal) (\<lambda>shared.
          and_then (ok_or (map_option (\<lambda>pools. recovery_get pools kind)
              (slice_get (recovery_tenant_pool_fair state) index)) internal) (\<lambda>protected.
          and_then (ok_or (slice_get (recovery_tenant_pool_usage state) index) internal) (\<lambda>usage.
          and_then (ok_or (slice_get (ordinary_tenant_usage state) index) internal) (\<lambda>ordinary.
          Inr \<lparr> sv_shared = shared, sv_protected = protected, sv_usage = usage, sv_ordinary = ordinary \<rparr>))))
      | None \<Rightarrow>
          Inr \<lparr> sv_shared = g_recovery_shared_capacity cfg,
                sv_protected = recovery_get (recovery_system_pool_capacities state) kind,
                sv_usage = recovery_system_pool_usage state, sv_ordinary = ordinary_usage \<rparr>)"

definition plan_recovery_pools ::
  "governor_config \<Rightarrow> recovery_work_kind \<Rightarrow> bool \<Rightarrow> resource_amounts \<Rightarrow> recovery_pool_usage \<Rightarrow> resource_amounts \<Rightarrow>
   recovery_scope_view \<Rightarrow> disk_pressure_state \<Rightarrow> admission_failure + recovery_pool_charge" where
  "plan_recovery_pools cfg kind tenant requested usage ordinary_usage scope pressure =
     map_sum (\<lambda>limit. recovery_pool_failure limit tenant kind requested (g_recovery_shared_capacity cfg)
           (recovery_get (g_recovery_pool_capacities cfg) kind) usage ordinary_usage scope pressure) id
       (plan_recovery_charge kind requested
          \<lparr> view_shared_capacity = g_recovery_shared_capacity cfg,
            view_protected_capacity = recovery_get (g_recovery_pool_capacities cfg) kind,
            view_usage = usage, view_shared_occupied_by_ordinary = ordinary_usage \<rparr>
          \<lparr> view_shared_capacity = sv_shared scope, view_protected_capacity = sv_protected scope,
            view_usage = sv_usage scope, view_shared_occupied_by_ordinary = sv_ordinary scope \<rparr>)"

definition plan_recovery ::
  "governor_config \<Rightarrow> recovery_work_claim \<Rightarrow> 'a accounting_state_scheme \<Rightarrow> (admission_failure, recovery_plan) plan" where
  "plan_recovery cfg claim state =
     (let cls = DurabilityRecovery;
          kind = recovery_claim_kind claim;
          pressure = disk_pressure state;
          internal = internal_failure_at_pressure cls pressure;
          amounts = recovery_claim_amounts claim
      in
      if lifecycle state = ShuttingDown \<and> \<not> retains_capacity_on_resize_failure kind
      then Refuse (shutdown_failure cls pressure) else
      plan_bind (case recovery_claim_scope claim of
          System \<Rightarrow> Proceed None
        | Tenant tenant \<Rightarrow>
            plan_bind (question (map_sum (\<lambda>f. at_pressure f pressure) id (tenant_index state tenant cls)))
              (\<lambda>i. Proceed (Some i))) (\<lambda>tenant_idx.
      plan_bind (question (require_healthy_and_slot cfg state cls tenant_idx)) (\<lambda>outstanding_candidate.
      plan_bind (question (refuse_live_disk_growth cls (total_usage state) amounts
          (usable_disk_bytes state) pressure)) (\<lambda>_.
      plan_bind (question (refuse_exceeded Code_RecoveryReserveExhausted Scope_RecoveryReserve cls
          (total_usage state) amounts (g_total_ceiling cfg) pressure)) (\<lambda>_.
      plan_bind (some_or_fence internal (amounts_checked_add (total_usage state) amounts)) (\<lambda>total_candidate.
      plan_bind (some_or_fence internal (amounts_checked_add (recovery_usage state) amounts)) (\<lambda>recovery_candidate.
      plan_bind (some_or_fence internal (amounts_checked_sub (total_usage state) (recovery_usage state)))
        (\<lambda>ordinary_usage.
      plan_bind (case tenant_idx of
          Some index \<Rightarrow> plan_bind (plan_recovery_tenant claim index state) (\<lambda>c. Proceed (Some c))
        | None \<Rightarrow> Proceed None) (\<lambda>tenant_candidate.
      plan_bind (question (recovery_scope_of cfg kind tenant_idx ordinary_usage state)) (\<lambda>scope.
      plan_bind (question_fencing is_internal (plan_recovery_pools cfg kind (tenant_idx \<noteq> None) amounts
          (recovery_pool_usage state) ordinary_usage scope pressure)) (\<lambda>recovery_pools.
      plan_bind (some_or_refuse internal (recovery_usage_checked_add (recovery_pool_usage state) recovery_pools))
        (\<lambda>pool_candidate.
      plan_bind (some_or_refuse internal (recovery_usage_checked_add (sv_usage scope) recovery_pools))
        (\<lambda>scope_pool_candidate.
      plan_bind (some_or_fence internal (checked_add u32_max (outstanding_recovery state) 1)) (\<lambda>recovery_count.
      plan_bind (if retains_capacity_on_resize_failure kind
          then plan_bind (some_or_fence internal (checked_add u32_max (outstanding_uninterruptible state) 1))
            (\<lambda>n. Proceed (Some n))
          else Proceed None) (\<lambda>uninterruptible_count.
      plan_bind (some_or_fence internal (next_class_count state cls)) (\<lambda>(class_idx, class_count).
      plan_bind (case tenant_idx of
          Some index \<Rightarrow>
            plan_bind (some_or_fence internal (Option.bind (slice_get (tenant_outstanding state) index)
                (\<lambda>n. checked_add u32_max n 1))) (\<lambda>n. Proceed (Some n))
        | None \<Rightarrow> Proceed None) (\<lambda>tenant_count.
      Proceed
        \<lparr> rp_tenant_index = tenant_idx, rp_outstanding = outstanding_candidate, rp_total = total_candidate,
          rp_recovery = recovery_candidate, rp_tenant = tenant_candidate, rp_pool = pool_candidate,
          rp_scope_pool = scope_pool_candidate, rp_recovery_count = recovery_count,
          rp_uninterruptible_count = uninterruptible_count, rp_class_index = class_idx,
          rp_class_count = class_count, rp_tenant_count = tenant_count,
          rp_owner = \<lparr> owner_attribution = Charge_Recovery tenant_idx, owner_pools = None,
                       owner_recovery_pools = Some recovery_pools \<rparr>,
          rp_identity = Recovery (recovery_claim_scope claim) kind \<rparr>)))))))))))))))))"

definition commit_recovery ::
  "recovery_work_claim \<Rightarrow> recovery_plan \<Rightarrow> governor \<Rightarrow> (admission_failure + reservation) \<times> governor" where
  "commit_recovery claim p g =
     (let internal = internal_failure_at_pressure DurabilityRecovery (disk_pressure g);
          amounts = recovery_claim_amounts claim;
          finish = (\<lambda>slot g1.
            if slice_get (class_counts g1) (rp_class_index p) = None
            then (Inl internal, g1\<lparr> lifecycle := Fenced \<rparr>)
            else
            let g2 = g1\<lparr> total_usage := rp_total p, recovery_usage := rp_recovery p, recovery_pool_usage := rp_pool p,
                         outstanding := rp_outstanding p, outstanding_recovery := rp_recovery_count p \<rparr>
            in
            some_or_fenced g2 internal (slice_set (class_counts g2) (rp_class_index p) (rp_class_count p)) (\<lambda>counts.
            let g3 = g2\<lparr> class_counts := counts \<rparr>;
                last_step = (\<lambda>g4.
                  (Inr (reservation_new (rp_owner p) (rp_identity p) amounts slot None),
                   case rp_uninterruptible_count p of
                     Some n \<Rightarrow> g4\<lparr> outstanding_uninterruptible := n \<rparr> | None \<Rightarrow> g4))
            in case (rp_tenant_index p, rp_tenant_count p) of
                 (Some index, Some n) \<Rightarrow>
                   some_or_fenced g3 internal (slice_set (tenant_outstanding g3) index n) (\<lambda>counts.
                   last_step (g3\<lparr> tenant_outstanding := counts \<rparr>))
               | _ \<Rightarrow> last_step g3))
      in
      some_or_fenced g internal (grant_record_new (rp_owner p) (rp_identity p) amounts None) (\<lambda>rec.
      case activate_slot rec g of (activated, g1) \<Rightarrow>
      some_or_fenced g1 internal activated (\<lambda>slot.
      case (rp_tenant_index p, rp_tenant p) of
        (Some index, Some candidate) \<Rightarrow>
          some_or_fenced g1 internal (slice_set (recovery_tenant_usage g1) index candidate) (\<lambda>usage.
          let g2 = g1\<lparr> recovery_tenant_usage := usage \<rparr> in
          some_or_fenced g2 internal (slice_set (recovery_tenant_pool_usage g2) index (rp_scope_pool p)) (\<lambda>pools.
          finish slot (g2\<lparr> recovery_tenant_pool_usage := pools \<rparr>)))
      | _ \<Rightarrow> finish slot (g1\<lparr> recovery_system_pool_usage := rp_scope_pool p \<rparr>))))"

definition reserve_recovery_locked ::
  "governor_config \<Rightarrow> recovery_work_claim \<Rightarrow> governor \<Rightarrow> (admission_failure + reservation) \<times> governor" where
  "reserve_recovery_locked cfg claim g =
     run_plan (plan_recovery cfg claim g) g (\<lambda>p. commit_recovery claim p g)"

definition reserve_recovery ::
  "governor_config \<Rightarrow> lock_outcome \<Rightarrow> recovery_work_claim \<Rightarrow> governor \<Rightarrow>
   (admission_failure + reservation) \<times> governor" where
  "reserve_recovery cfg lock claim g =
     with_admission lock DurabilityRecovery g (reserve_recovery_locked cfg claim)"

end
