(* ===== verification/Plans.thy ===== *)
theory Plans
  imports RecoveryAdmission
begin

text \<open>
  What a successful plan has established: every guard of the admission passed, and the
  candidate values it carries are the old values plus the request.
\<close>

section \<open>What a plan knows\<close>

lemma map_err_Inr_iff [simp]: "map_sum f id r = Inr x \<longleftrightarrow> r = Inr x"
  by (cases r) auto

text \<open>Walking a plan that proceeds, one step at a time.\<close>

lemma plan_bindE:
  assumes "plan_bind p k = Proceed b"
  obtains a where "p = Proceed a" "k a = Proceed b"
  using assms by auto

lemma if_refuseE:
  assumes "(if c then Refuse e else r) = Proceed b"
  obtains "\<not> c" "r = Proceed b"
  using assms by (auto split: if_splits)

lemma if_fenceE:
  assumes "(if c then Fence e else r) = Proceed b"
  obtains "\<not> c" "r = Proceed b"
  using assms by (auto split: if_splits)

lemma case_pairE:
  assumes "(case x of (a, b) \<Rightarrow> f a b) = Proceed y"
  obtains a b where "x = (a, b)" "f a b = Proceed y"
  using assms by (cases x) simp

lemmas plan_elims = plan_bindE if_refuseE if_fenceE case_pairE

lemma next_class_count_Some:
  "next_class_count g cls = Some (k, m) \<longleftrightarrow>
     k = class_index cls \<and> class_index cls < length (class_counts g) \<and> m = class_counts g ! class_index cls + 1 \<and>
     m \<le> u32_max"
  by (auto simp: next_class_count_def Option.bind_eq_Some_conv Let_def)

text \<open>A step that is taken only for tenant work.\<close>

lemma optional_step_Proceed:
  "(case ti of None \<Rightarrow> Proceed None | Some i \<Rightarrow> plan_bind (f i) (\<lambda>c. Proceed (Some c))) = Proceed x \<longleftrightarrow>
     (case ti of None \<Rightarrow> x = None | Some i \<Rightarrow> \<exists>c. x = Some c \<and> f i = Proceed c)"
  by (cases ti) auto

lemma scope_step_Proceed:
  "(case s of System \<Rightarrow> Proceed None | Tenant t \<Rightarrow> plan_bind (f t) (\<lambda>c. Proceed (Some c))) = Proceed x \<longleftrightarrow>
     (case s of System \<Rightarrow> x = None | Tenant t \<Rightarrow> \<exists>c. f t = Proceed c \<and> x = Some c)"
  by (cases s) auto

lemma guarded_step_Proceed:
  "(if b then plan_bind q (\<lambda>c. Proceed (Some c)) else Proceed None) = Proceed x \<longleftrightarrow>
     (if b then \<exists>c. x = Some c \<and> q = Proceed c else x = None)"
  by auto

lemma plan_ordinary_Proceed:
  assumes "plan_ordinary cfg claim g = Proceed p"
  obtains i pools limit fair eligible ordinary where
    "lifecycle g \<noteq> ShuttingDown"
    "tenant_index g (claim_tenant claim) (claim_class claim) = Inr i"
    "require_healthy_and_slot cfg g (claim_class claim) (Some i) = Inr (op_outstanding p)"
    "validate_operation_child cfg g i (claim_operation claim) (claim_class claim) = Inr ()"
    "refuse_principal_limit cfg g i (claim_principal claim) (claim_operation claim) (claim_class claim)
       (claim_amounts claim) = Inr ()"
    "op_tenant_index p = i"
    "op_owner p = \<lparr> owner_attribution = Charge_Ordinary i, owner_pools = Some pools, owner_recovery_pools = None \<rparr>"
    "op_identity p = Ordinary (claim_tenant claim) (claim_principal claim) (claim_kind claim)"
    "amounts_checked_add (total_usage g) (claim_amounts claim) = Some (op_total p)"
    "i < length (ordinary_tenant_usage g)"
    "amounts_checked_add (ordinary_tenant_usage g ! i) (claim_amounts claim) = Some (op_tenant p)"
    "slice_get (tenant_limits g) i = Some limit"
    "refuse_exceeded Code_TenantQuotaExceeded Scope_Tenant (claim_class claim) (ordinary_tenant_usage g ! i)
       (claim_amounts claim) limit (disk_pressure g) = Inr ()"
    "pools_checked_add (pool_usage g) (pool_charge_capacities pools) = Some (op_pool p)"
    "i < length (ordinary_tenant_pool_usage g)"
    "pools_checked_add (ordinary_tenant_pool_usage g ! i) (pool_charge_capacities pools) = Some (op_tenant_pool p)"
    "slice_get (tenant_fair_capacities g) i = Some fair"
    "plan_pool_charge (claim_class claim) (claim_amounts claim)
       \<lparr> pa_global_capacity = g_pool_capacities cfg, pa_global_usage = pool_usage g,
         pa_tenant_capacity = fair, pa_tenant_usage = ordinary_tenant_pool_usage g ! i \<rparr>
       (disk_pressure g) eligible = Inr pools"
    "op_ordinary_count p = outstanding_ordinary g + 1"
    "pressure_eligibility (disk_pressure g) (claim_class claim) (claim_amounts claim) = Inr eligible"
    "refuse_live_disk_growth (claim_class claim) (total_usage g) (claim_amounts claim) (usable_disk_bytes g)
       (disk_pressure g) = Inr ()"
    "amounts_checked_sub (total_usage g) (recovery_usage g) = Some ordinary"
    "refuse_ordinary_capacity (claim_class claim) (claim_amounts claim)
       \<lparr> oc_ordinary_usage = ordinary, oc_recovery_shared_usage = rpu_shared (recovery_pool_usage g),
         oc_ordinary_ceiling = g_ordinary_ceiling cfg, oc_total_ceiling = g_total_ceiling cfg,
         oc_pressure = disk_pressure g \<rparr> = Inr ()"
    "op_class_index p = class_index (claim_class claim)"
    "class_index (claim_class claim) < length (class_counts g)"
    "op_class_count p = class_counts g ! class_index (claim_class claim) + 1"
    "i < length (tenant_outstanding g)"
    "op_tenant_count p = tenant_outstanding g ! i + 1"
  using assms unfolding plan_ordinary_def Let_def
  apply (elim plan_elims)
  apply (simp only: question_iffs some_or_fence_iffs question_fencing_iffs map_err_Inr_iff
      next_class_count_Some slice_get_Some_iff Option.bind_eq_Some_conv checked_add_Some_iff plan.inject)
  apply (elim conjE exE)
  apply hypsubst+
  apply (rule that)
  apply (assumption | simp only: recovery_plan.select_convs ordinary_plan.select_convs
      | simp split: if_splits | force simp: Option.bind_eq_Some_conv split: option.splits)+
  done

lemma plan_recovery_tenant_Proceed:
  assumes "plan_recovery_tenant claim i g = Proceed c"
  shows "i < length (recovery_tenant_usage g)"
    "amounts_checked_add (recovery_tenant_usage g ! i) (recovery_claim_amounts claim) = Some c"
    "i < length (ordinary_tenant_usage g)" "i < length (tenant_quotas g)"
    "\<exists>combined. amounts_checked_add (ordinary_tenant_usage g ! i) (recovery_tenant_usage g ! i) = Some combined \<and>
       refuse_exceeded Code_TenantQuotaExceeded Scope_Tenant DurabilityRecovery combined (recovery_claim_amounts claim)
         (quota_limits (tenant_quotas g ! i)) (disk_pressure g) = Inr ()"
  using assms by (auto simp: plan_recovery_tenant_def Let_def)

lemma plan_recovery_Proceed:
  assumes "plan_recovery cfg claim g = Proceed p"
  obtains pools scope ordinary where
    "lifecycle g = ShuttingDown \<Longrightarrow> retains_capacity_on_resize_failure (recovery_claim_kind claim)"
    "case recovery_claim_scope claim of
       System \<Rightarrow> rp_tenant_index p = None
     | Tenant t \<Rightarrow> \<exists>i. tenant_index g t DurabilityRecovery = Inr i \<and> rp_tenant_index p = Some i"
    "require_healthy_and_slot cfg g DurabilityRecovery (rp_tenant_index p) = Inr (rp_outstanding p)"
    "refuse_live_disk_growth DurabilityRecovery (total_usage g) (recovery_claim_amounts claim) (usable_disk_bytes g)
       (disk_pressure g) = Inr ()"
    "refuse_exceeded Code_RecoveryReserveExhausted Scope_RecoveryReserve DurabilityRecovery
       (total_usage g) (recovery_claim_amounts claim) (g_total_ceiling cfg) (disk_pressure g) = Inr ()"
    "amounts_checked_add (total_usage g) (recovery_claim_amounts claim) = Some (rp_total p)"
    "amounts_checked_add (recovery_usage g) (recovery_claim_amounts claim) = Some (rp_recovery p)"
    "amounts_checked_sub (total_usage g) (recovery_usage g) = Some ordinary"
    "case rp_tenant_index p of None \<Rightarrow> rp_tenant p = None
     | Some i \<Rightarrow> \<exists>c. rp_tenant p = Some c \<and> plan_recovery_tenant claim i g = Proceed c"
    "recovery_scope_of cfg (recovery_claim_kind claim) (rp_tenant_index p) ordinary g = Inr scope"
    "plan_recovery_pools cfg (recovery_claim_kind claim) (rp_tenant_index p \<noteq> None) (recovery_claim_amounts claim)
       (recovery_pool_usage g) ordinary scope (disk_pressure g) = Inr pools"
    "recovery_usage_checked_add (recovery_pool_usage g) pools = Some (rp_pool p)"
    "recovery_usage_checked_add (sv_usage scope) pools = Some (rp_scope_pool p)"
    "rp_recovery_count p = outstanding_recovery g + 1"
    "rp_uninterruptible_count p = (if retains_capacity_on_resize_failure (recovery_claim_kind claim)
       then Some (outstanding_uninterruptible g + 1) else None)"
    "rp_class_index p = class_index DurabilityRecovery" "class_index DurabilityRecovery < length (class_counts g)"
    "rp_class_count p = class_counts g ! class_index DurabilityRecovery + 1"
    "case rp_tenant_index p of None \<Rightarrow> rp_tenant_count p = None
     | Some i \<Rightarrow> i < length (tenant_outstanding g) \<and> rp_tenant_count p = Some (tenant_outstanding g ! i + 1)"
    "rp_owner p = \<lparr> owner_attribution = Charge_Recovery (rp_tenant_index p), owner_pools = None,
       owner_recovery_pools = Some pools \<rparr>"
    "rp_identity p = Recovery (recovery_claim_scope claim) (recovery_claim_kind claim)"
  using assms unfolding plan_recovery_def Let_def
  apply (elim plan_elims)
  apply (simp only: question_iffs some_or_fence_iffs some_or_refuse_iffs question_fencing_iffs
      next_class_count_Some slice_get_Some_iff checked_add_Some_iff plan.inject optional_step_Proceed guarded_step_Proceed
      scope_step_Proceed map_err_Inr_iff)
  apply (elim conjE exE)
  apply hypsubst+
  apply (rule that)
  apply (assumption | simp only: recovery_plan.select_convs ordinary_plan.select_convs
      | simp split: if_splits | force simp: Option.bind_eq_Some_conv split: option.splits)+
  done

end
