(* ===== verification/Resize.thy ===== *)
theory Resize
  imports RecoveryAdmission
begin

text \<open>
  \<^verbatim>\<open>resource_governor/resize_types.rs\<close>, \<^verbatim>\<open>resize.rs\<close>, \<^verbatim>\<open>resize_recovery.rs\<close> and
  \<^verbatim>\<open>reservation.rs\<close>: replacing the amounts of a live reservation and the operations of
  a reservation handle. A resize removes the old charge from the books, plans the new
  one against what is left, and either writes both changes or, when a growing request
  is refused and the caller does not keep the old grant, cancels the reservation.
\<close>

section \<open>Outcomes\<close>

record resize_outcome =
  ro_released :: resource_amounts
  ro_added :: resource_amounts

datatype resize_failure_code = Resize_InvalidRequest | Resize_InactiveReservation | Resize_AdmissionRefused
  | Resize_InternalFenced

datatype existing_capacity_disposition = CancelledBeforeLimit | CapacityRetained | NoActiveCapacity

record resize_failure =
  rf_code :: resize_failure_code
  rf_admission_code :: "admission_failure_code option"
  rf_retry :: admission_retry
  rf_scope :: limiting_scope
  rf_pressure :: disk_pressure_state
  rf_class :: work_class
  rf_disposition :: existing_capacity_disposition
  rf_dimension :: "resource_dimension option"
  rf_allowed :: u64
  rf_in_use :: u64
  rf_requested :: u64

record resize_commit =
  commit_owner :: charge_owner
  commit_outcome :: resize_outcome

definition resize_invalid :: "work_class \<Rightarrow> disk_pressure_state \<Rightarrow> resize_failure" where
  "resize_invalid cls pressure =
     \<lparr> rf_code = Resize_InvalidRequest, rf_admission_code = None, rf_retry = Never, rf_scope = Scope_Policy,
       rf_pressure = pressure, rf_class = cls, rf_disposition = CapacityRetained, rf_dimension = None,
       rf_allowed = 0, rf_in_use = 0, rf_requested = 0 \<rparr>"

definition resize_inactive :: "work_class \<Rightarrow> disk_pressure_state \<Rightarrow> resize_failure" where
  "resize_inactive cls pressure =
     \<lparr> rf_code = Resize_InactiveReservation, rf_admission_code = None, rf_retry = Never, rf_scope = Scope_Internal,
       rf_pressure = pressure, rf_class = cls, rf_disposition = NoActiveCapacity, rf_dimension = None,
       rf_allowed = 0, rf_in_use = 0, rf_requested = 0 \<rparr>"

definition resize_admission :: "admission_failure \<Rightarrow> existing_capacity_disposition \<Rightarrow> resize_failure" where
  "resize_admission fail disposition =
     \<lparr> rf_code = (if af_code fail = Code_InternalFenced then Resize_InternalFenced else Resize_AdmissionRefused),
       rf_admission_code = Some (af_code fail), rf_retry = af_retry fail, rf_scope = af_scope fail,
       rf_pressure = af_pressure fail, rf_class = af_class fail, rf_disposition = disposition,
       rf_dimension = af_dimension fail, rf_allowed = af_allowed fail, rf_in_use = af_in_use fail,
       rf_requested = af_requested fail \<rparr>"

definition resize_admission_failure :: "resize_failure \<Rightarrow> admission_failure option" where
  "resize_admission_failure self =
     map_option (\<lambda>code. admission_failure_new
         \<lparr> ev_code = code, ev_retry = rf_retry self, ev_scope = rf_scope self, ev_class = rf_class self,
           ev_pressure = rf_pressure self, ev_dimension = rf_dimension self, ev_allowed = rf_allowed self,
           ev_in_use = rf_in_use self, ev_requested = rf_requested self \<rparr>)
       (rf_admission_code self)"

definition resize_outcome_of :: "resource_amounts \<Rightarrow> resource_amounts \<Rightarrow> resize_outcome" where
  "resize_outcome_of old new =
     \<lparr> ro_released = amounts_excess_over old new, ro_added = amounts_excess_over new old \<rparr>"

definition retained_resize :: "work_class \<Rightarrow> disk_pressure_state \<Rightarrow> resize_failure" where
  "retained_resize cls pressure = resize_admission (internal_failure_at_pressure cls pressure) CapacityRetained"

definition fence_resize :: "work_class \<Rightarrow> governor \<Rightarrow> (resize_failure + 'a) \<times> governor" where
  "fence_resize cls g = (Inl (retained_resize cls (disk_pressure g)), g\<lparr> lifecycle := Fenced \<rparr>)"

definition some_or_fence_resize ::
  "work_class \<Rightarrow> governor \<Rightarrow> 'a option \<Rightarrow> ('a \<Rightarrow> (resize_failure + 'b) \<times> governor) \<Rightarrow>
   (resize_failure + 'b) \<times> governor" where
  "some_or_fence_resize cls g x k = (case x of None \<Rightarrow> fence_resize cls g | Some a \<Rightarrow> k a)"

record resize_request =
  rq_slot :: u16
  rq_owner :: charge_owner
  rq_identity :: reservation_identity
  rq_old :: resource_amounts
  rq_new :: resource_amounts
  rq_preserve_existing :: bool

section \<open>Ordinary resize\<close>

record ordinary_resize_view =
  orv_total_without :: resource_amounts
  orv_tenant_without :: resource_amounts
  orv_pool_without :: pool_capacities
  orv_tenant_pool_without :: pool_capacities
  orv_recovery_usage :: resource_amounts
  orv_recovery_shared_usage :: resource_amounts
  orv_recovery_tenant_shared_usage :: resource_amounts
  orv_pressure :: disk_pressure_state
  orv_lifecycle :: governor_lifecycle
  orv_tenant_limit :: resource_amounts
  orv_recovery_shared_limit :: resource_amounts
  orv_tenant_capacity :: pool_capacities

definition plan_ordinary_resize ::
  "governor_config \<Rightarrow> work_class \<Rightarrow> resource_amounts \<Rightarrow> ordinary_resize_view \<Rightarrow> admission_failure + pool_charge" where
  "plan_ordinary_resize cfg cls new view =
     (let pressure = orv_pressure view in
      if orv_lifecycle view = ShuttingDown then Inl (shutdown_failure cls pressure) else
      and_then (ok_or (amounts_checked_sub (orv_total_without view) (orv_recovery_usage view))
          (internal_failure_at_pressure cls pressure)) (\<lambda>ordinary_without.
      and_then (refuse_ordinary_capacity cls new
          \<lparr> oc_ordinary_usage = ordinary_without,
            oc_recovery_shared_usage = orv_recovery_shared_usage view,
            oc_ordinary_ceiling = g_ordinary_ceiling cfg,
            oc_total_ceiling = g_total_ceiling cfg,
            oc_pressure = pressure \<rparr>) (\<lambda>_.
      and_then (refuse_exceeded Code_TenantQuotaExceeded Scope_Tenant cls (orv_tenant_without view) new
          (orv_tenant_limit view) pressure) (\<lambda>_.
      and_then (refuse_tenant_recovery_shared_fair_share cls (orv_tenant_without view)
          (orv_recovery_tenant_shared_usage view) new (orv_recovery_shared_limit view) pressure) (\<lambda>_.
      and_then (pressure_eligibility pressure cls new) (\<lambda>shared.
      plan_pool_charge cls new
        \<lparr> pa_global_capacity = g_pool_capacities cfg, pa_global_usage = orv_pool_without view,
          pa_tenant_capacity = orv_tenant_capacity view, pa_tenant_usage = orv_tenant_pool_without view \<rparr>
        pressure shared))))))"

text \<open>The new charge of an ordinary resize: a shrink keeps its pools, anything else is planned afresh.\<close>

definition plan_resized_pools ::
  "governor_config \<Rightarrow> resize_request \<Rightarrow> usize \<Rightarrow> work_class \<Rightarrow> pool_charge \<Rightarrow> resource_amounts \<Rightarrow> resource_amounts \<Rightarrow>
   pool_capacities \<Rightarrow> pool_capacities \<Rightarrow> 'a accounting_state_scheme \<Rightarrow> resize_failure + pool_charge" where
  "plan_resized_pools cfg request tenant_idx cls old_pools total_without tenant_without pool_without
       tenant_pool_without state =
     (let new = rq_new request;
          old = rq_old request;
          pressure = disk_pressure state;
          internal = internal_failure_at_pressure cls pressure
      in
      if amounts_is_at_most new old
      then ok_or (pool_charge_shrink_to old_pools new) (resize_admission internal CapacityRetained)
      else
        map_sum (\<lambda>f. resize_admission f
              (if rq_preserve_existing request then CapacityRetained else CancelledBeforeLimit)) id
          (and_then (refuse_principal_resize_limit cfg state tenant_idx
               (case rq_identity request of Ordinary _ prin _ \<Rightarrow> prin | Recovery _ _ \<Rightarrow> None)
               (rq_slot request) cls new) (\<lambda>_.
           and_then (if amounts_get old DiskHeadroomBytes < amounts_get new DiskHeadroomBytes
               then refuse_live_disk_growth cls total_without new (usable_disk_bytes state) pressure
               else Inr ()) (\<lambda>_.
           and_then (ok_or (map_option rpu_shared (slice_get (recovery_tenant_pool_usage state) tenant_idx)) internal)
             (\<lambda>recovery_shared_usage.
           and_then (ok_or (slice_get (tenant_limits state) tenant_idx) internal) (\<lambda>tenant_limit.
           and_then (ok_or (slice_get (recovery_tenant_shared_fair state) tenant_idx) internal) (\<lambda>shared_limit.
           and_then (ok_or (slice_get (tenant_fair_capacities state) tenant_idx) internal) (\<lambda>tenant_capacity.
           plan_ordinary_resize cfg cls new
             \<lparr> orv_total_without = total_without, orv_tenant_without = tenant_without,
               orv_pool_without = pool_without, orv_tenant_pool_without = tenant_pool_without,
               orv_recovery_usage = recovery_usage state,
               orv_recovery_shared_usage = rpu_shared (recovery_pool_usage state),
               orv_recovery_tenant_shared_usage = recovery_shared_usage, orv_pressure = pressure,
               orv_lifecycle = lifecycle state, orv_tenant_limit = tenant_limit,
               orv_recovery_shared_limit = shared_limit, orv_tenant_capacity = tenant_capacity \<rparr>))))))))"

text \<open>Cancelling the reservation a refused growth gives up.\<close>

definition cancel_resized_ordinary ::
  "resize_request \<Rightarrow> usize \<Rightarrow> work_class \<Rightarrow> resource_amounts \<Rightarrow> resource_amounts \<Rightarrow> pool_capacities \<Rightarrow>
   pool_capacities \<Rightarrow> resize_failure \<Rightarrow> governor \<Rightarrow> (resize_failure + resize_commit) \<times> governor" where
  "cancel_resized_ordinary request tenant_idx cls total_without tenant_without pool_without tenant_pool_without
       fail g =
     some_or_fence_resize cls g (checked_sub (outstanding g) 1) (\<lambda>outstanding_candidate.
     some_or_fence_resize cls g (checked_sub (outstanding_ordinary g) 1) (\<lambda>ordinary_candidate.
     some_or_fence_resize cls g (Option.bind (slice_get (tenant_outstanding g) tenant_idx) (\<lambda>n. checked_sub n 1))
       (\<lambda>tenant_count.
     let index = class_index cls in
     some_or_fence_resize cls g (Option.bind (slice_get (class_counts g) index) (\<lambda>n. checked_sub n 1))
       (\<lambda>class_count.
     some_or_fence_resize cls g (slice_set (ordinary_tenant_usage g) tenant_idx tenant_without) (\<lambda>tenant_usage.
     let g1 = g\<lparr> ordinary_tenant_usage := tenant_usage \<rparr> in
     some_or_fence_resize cls g1 (slice_set (ordinary_tenant_pool_usage g1) tenant_idx tenant_pool_without)
       (\<lambda>tenant_pools.
     let g2 = g1\<lparr> ordinary_tenant_pool_usage := tenant_pools \<rparr> in
     some_or_fence_resize cls g2 (slice_set (class_counts g2) index class_count) (\<lambda>counts.
     let g3 = g2\<lparr> class_counts := counts \<rparr> in
     some_or_fence_resize cls g3 (slice_set (tenant_outstanding g3) tenant_idx tenant_count) (\<lambda>tenant_counts.
     let g4 = g3\<lparr> tenant_outstanding := tenant_counts, total_usage := total_without, pool_usage := pool_without,
                  outstanding := outstanding_candidate, outstanding_ordinary := ordinary_candidate \<rparr> in
     some_or_fence_resize cls g4 (slot_get (grant_records g4) (rq_slot request)) (\<lambda>rec.
     retire_slot_with (fence_resize cls) (Inl fail) rec (rq_slot request) g4)))))))))"

definition commit_resized_ordinary ::
  "resize_request \<Rightarrow> usize \<Rightarrow> work_class \<Rightarrow> resource_amounts \<Rightarrow> resource_amounts \<Rightarrow> pool_capacities \<Rightarrow>
   pool_capacities \<Rightarrow> pool_charge \<Rightarrow> governor \<Rightarrow> (resize_failure + resize_commit) \<times> governor" where
  "commit_resized_ordinary request tenant_idx cls total_without tenant_without pool_without tenant_pool_without
       new_pools g =
     (let new = rq_new request;
          new_pool_amounts = pool_charge_capacities new_pools
      in
     some_or_fence_resize cls g (amounts_checked_add total_without new) (\<lambda>total_candidate.
     some_or_fence_resize cls g (amounts_checked_add tenant_without new) (\<lambda>tenant_candidate.
     some_or_fence_resize cls g (pools_checked_add pool_without new_pool_amounts) (\<lambda>pool_candidate.
     some_or_fence_resize cls g (pools_checked_add tenant_pool_without new_pool_amounts) (\<lambda>tenant_pool_candidate.
     some_or_fence_resize cls g (slice_set (ordinary_tenant_usage g) tenant_idx tenant_candidate) (\<lambda>tenant_usage.
     let g1 = g\<lparr> ordinary_tenant_usage := tenant_usage \<rparr> in
     some_or_fence_resize cls g1 (slice_set (ordinary_tenant_pool_usage g1) tenant_idx tenant_pool_candidate)
       (\<lambda>tenant_pools.
     let g2 = g1\<lparr> ordinary_tenant_pool_usage := tenant_pools, total_usage := total_candidate,
                  pool_usage := pool_candidate \<rparr>;
         updated_owner = \<lparr> owner_attribution = owner_attribution (rq_owner request), owner_pools = Some new_pools,
                           owner_recovery_pools = None \<rparr>
     in case replace_slot_record (rq_slot request) updated_owner (rq_identity request) new g2 of (replaced, g3) \<Rightarrow>
        if \<not> replaced then fence_resize cls g3
        else (Inr \<lparr> commit_owner = updated_owner, commit_outcome = resize_outcome_of (rq_old request) new \<rparr>, g3)))))
        )))"

definition resize_ordinary_locked ::
  "governor_config \<Rightarrow> resize_request \<Rightarrow> usize \<Rightarrow> work_class \<Rightarrow> governor \<Rightarrow>
   (resize_failure + resize_commit) \<times> governor" where
  "resize_ordinary_locked cfg request tenant_idx cls g =
     (let old = rq_old request in
     if lifecycle g = Fenced then (Inl (retained_resize cls (disk_pressure g)), g) else
     some_or_fence_resize cls g (owner_pools (rq_owner request)) (\<lambda>old_pools.
     let old_pool_amounts = pool_charge_capacities old_pools in
     some_or_fence_resize cls g (amounts_checked_sub (total_usage g) old) (\<lambda>total_without.
     some_or_fence_resize cls g (Option.bind (slice_get (ordinary_tenant_usage g) tenant_idx)
         (\<lambda>usage. amounts_checked_sub usage old)) (\<lambda>tenant_without.
     some_or_fence_resize cls g (pools_checked_sub (pool_usage g) old_pool_amounts) (\<lambda>pool_without.
     some_or_fence_resize cls g (Option.bind (slice_get (ordinary_tenant_pool_usage g) tenant_idx)
         (\<lambda>usage. pools_checked_sub usage old_pool_amounts)) (\<lambda>tenant_pool_without.
     case plan_resized_pools cfg request tenant_idx cls old_pools total_without tenant_without pool_without
            tenant_pool_without g of
       Inr new_pools \<Rightarrow>
         commit_resized_ordinary request tenant_idx cls total_without tenant_without pool_without
           tenant_pool_without new_pools g
     | Inl fail \<Rightarrow>
         if rf_code fail = Resize_AdmissionRefused \<and> \<not> rq_preserve_existing request
         then cancel_resized_ordinary request tenant_idx cls total_without tenant_without pool_without
                tenant_pool_without fail g
         else (Inl fail, if rf_code fail = Resize_InternalFenced then g\<lparr> lifecycle := Fenced \<rparr> else g)))))))"

text \<open>The wrapper of a resize: take the lock, run the section, count an admission refusal.\<close>

definition with_resize ::
  "lock_outcome \<Rightarrow> work_class \<Rightarrow> governor \<Rightarrow> (governor \<Rightarrow> (resize_failure + 'a) \<times> governor) \<Rightarrow>
   (resize_failure + 'a) \<times> governor" where
  "with_resize lock cls g body =
     (case lock_for_admission lock cls g of
        (Inl e, g1) \<Rightarrow> (Inl (resize_admission e CapacityRetained), g1)
      | (Inr _, g1) \<Rightarrow>
          (case body g1 of
             (Inl e, g2) \<Rightarrow>
               (Inl e, case resize_admission_failure e of
                         Some admission \<Rightarrow> record_refusal_locked admission g2 | None \<Rightarrow> g2)
           | (Inr a, g2) \<Rightarrow> (Inr a, g2)))"

definition resize_ordinary ::
  "governor_config \<Rightarrow> lock_outcome \<Rightarrow> resize_request \<Rightarrow> usize \<Rightarrow> work_class \<Rightarrow> governor \<Rightarrow>
   (resize_failure + resize_commit) \<times> governor" where
  "resize_ordinary cfg lock request tenant_idx cls g =
     with_resize lock cls g (resize_ordinary_locked cfg request tenant_idx cls)"

end
