(* ===== verification/ResizeRecovery.thy ===== *)
theory ResizeRecovery
  imports Resize
begin

text \<open>
  \<^verbatim>\<open>resource_governor/resize_recovery.rs\<close>, the dispatch of \<^verbatim>\<open>resize.rs\<close>, and the handle
  operations of \<^verbatim>\<open>reservation.rs\<close>: resizing recovery work, and what a client can do with
  a reservation it holds.
\<close>

section \<open>Recovery resize\<close>

definition plan_resized_recovery ::
  "governor_config \<Rightarrow> resize_request \<Rightarrow> usize option \<Rightarrow> recovery_work_kind \<Rightarrow> resource_amounts \<Rightarrow> resource_amounts \<Rightarrow>
   recovery_pool_usage \<Rightarrow> recovery_pool_usage \<Rightarrow> resource_amounts option \<Rightarrow> 'a accounting_state_scheme \<Rightarrow>
   admission_failure + recovery_pool_charge" where
  "plan_resized_recovery cfg request tenant_idx kind total_without ordinary_usage pool_without scope_without
       tenant_without state =
     (let cls = DurabilityRecovery;
          new = rq_new request;
          old = rq_old request;
          pressure = disk_pressure state;
          internal = internal_failure_at_pressure cls pressure
      in
      if lifecycle state = ShuttingDown \<and> \<not> retains_capacity_on_resize_failure kind \<and> \<not> amounts_is_at_most new old
      then Inl (shutdown_failure cls pressure)
      else
      and_then (if amounts_get old DiskHeadroomBytes < amounts_get new DiskHeadroomBytes
          then refuse_live_disk_growth cls total_without new (usable_disk_bytes state) pressure
          else Inr ()) (\<lambda>_.
      and_then (case (tenant_idx, tenant_without) of
          (Some index, Some recovery_without) \<Rightarrow>
            and_then (ok_or (slice_get (ordinary_tenant_usage state) index) internal) (\<lambda>ordinary.
            and_then (ok_or (slice_get (tenant_quotas state) index) internal) (\<lambda>quota.
            and_then (ok_or (amounts_checked_add ordinary recovery_without) internal) (\<lambda>combined_without.
            refuse_exceeded Code_TenantQuotaExceeded Scope_Tenant cls combined_without new
              (quota_limits quota) pressure)))
        | _ \<Rightarrow> Inr ()) (\<lambda>_.
      and_then (case tenant_idx of
          Some index \<Rightarrow>
            and_then (ok_or (slice_get (recovery_tenant_shared_fair state) index) internal) (\<lambda>shared.
            and_then (ok_or (map_option (\<lambda>pools. recovery_get pools kind)
                (slice_get (recovery_tenant_pool_fair state) index)) internal) (\<lambda>protected.
            and_then (ok_or (slice_get (ordinary_tenant_usage state) index) internal) (\<lambda>ordinary.
            Inr \<lparr> sv_shared = shared, sv_protected = protected, sv_usage = scope_without, sv_ordinary = ordinary \<rparr>)))
        | None \<Rightarrow>
            Inr \<lparr> sv_shared = g_recovery_shared_capacity cfg,
                  sv_protected = recovery_get (recovery_system_pool_capacities state) kind,
                  sv_usage = scope_without, sv_ordinary = ordinary_usage \<rparr>) (\<lambda>scope.
      and_then (plan_recovery_pools cfg kind (tenant_idx \<noteq> None) new pool_without ordinary_usage scope pressure)
        (\<lambda>charge.
      and_then (refuse_exceeded Code_RecoveryReserveExhausted Scope_RecoveryReserve cls total_without new
          (g_total_ceiling cfg) pressure) (\<lambda>_.
      Inr charge))))))"

definition cancel_resized_recovery ::
  "resize_request \<Rightarrow> usize option \<Rightarrow> resource_amounts \<Rightarrow> resource_amounts \<Rightarrow> recovery_pool_usage \<Rightarrow>
   recovery_pool_usage \<Rightarrow> resource_amounts option \<Rightarrow> resize_failure \<Rightarrow> governor \<Rightarrow>
   (resize_failure + resize_commit) \<times> governor" where
  "cancel_resized_recovery request tenant_idx total_without recovery_without pool_without scope_without
       tenant_without fail g =
     (let cls = DurabilityRecovery; index = class_index DurabilityRecovery in
     some_or_fence_resize cls g (checked_sub (outstanding g) 1) (\<lambda>outstanding_candidate.
     some_or_fence_resize cls g (checked_sub (outstanding_recovery g) 1) (\<lambda>recovery_count.
     some_or_fence_resize cls g (transpose_option (map_option (\<lambda>i.
         Option.bind (slice_get (tenant_outstanding g) i) (\<lambda>n. checked_sub n 1)) tenant_idx)) (\<lambda>tenant_count.
     some_or_fence_resize cls g (Option.bind (slice_get (class_counts g) index) (\<lambda>n. checked_sub n 1))
       (\<lambda>class_count.
     let g1 = g\<lparr> total_usage := total_without, recovery_usage := recovery_without,
                 recovery_pool_usage := pool_without \<rparr> in
     some_or_fence_resize cls g1 (case (tenant_idx, tenant_without) of
         (Some i, Some usage) \<Rightarrow> slice_set (recovery_tenant_usage g1) i usage
       | _ \<Rightarrow> Some (recovery_tenant_usage g1)) (\<lambda>tenant_usage.
     let g2 = g1\<lparr> recovery_tenant_usage := tenant_usage \<rparr> in
     some_or_fence_resize cls g2 (case tenant_idx of
         Some i \<Rightarrow> map_option (\<lambda>pools. g2\<lparr> recovery_tenant_pool_usage := pools \<rparr>)
             (slice_set (recovery_tenant_pool_usage g2) i scope_without)
       | None \<Rightarrow> Some (g2\<lparr> recovery_system_pool_usage := scope_without \<rparr>)) (\<lambda>g3.
     let g4 = g3\<lparr> outstanding := outstanding_candidate, outstanding_recovery := recovery_count \<rparr> in
     some_or_fence_resize cls g4 (slice_set (class_counts g4) index class_count) (\<lambda>counts.
     let g5 = g4\<lparr> class_counts := counts \<rparr> in
     some_or_fence_resize cls g5 (case (tenant_idx, tenant_count) of
         (Some i, Some n) \<Rightarrow> slice_set (tenant_outstanding g5) i n
       | _ \<Rightarrow> Some (tenant_outstanding g5)) (\<lambda>tenant_counts.
     let g6 = g5\<lparr> tenant_outstanding := tenant_counts \<rparr> in
     case finish_slot (rq_slot request) g6 of (finished, g7) \<Rightarrow>
       if \<not> finished then fence_resize cls g7 else (Inl fail, g7))))))))))"

definition commit_resized_recovery ::
  "resize_request \<Rightarrow> usize option \<Rightarrow> resource_amounts \<Rightarrow> resource_amounts \<Rightarrow> recovery_pool_usage \<Rightarrow>
   recovery_pool_usage \<Rightarrow> resource_amounts option \<Rightarrow> recovery_pool_charge \<Rightarrow> governor \<Rightarrow>
   (resize_failure + resize_commit) \<times> governor" where
  "commit_resized_recovery request tenant_idx total_without recovery_candidate pool_without scope_without
       tenant_candidate charge g =
     (let cls = DurabilityRecovery; new = rq_new request in
     some_or_fence_resize cls g (amounts_checked_add total_without new) (\<lambda>total_candidate.
     some_or_fence_resize cls g (recovery_usage_checked_add pool_without charge) (\<lambda>pool_candidate.
     some_or_fence_resize cls g (recovery_usage_checked_add scope_without charge) (\<lambda>scope_candidate.
     let g1 = g\<lparr> total_usage := total_candidate, recovery_usage := recovery_candidate,
                 recovery_pool_usage := pool_candidate \<rparr> in
     some_or_fence_resize cls g1 (case (tenant_idx, tenant_candidate) of
         (Some i, Some usage) \<Rightarrow> slice_set (recovery_tenant_usage g1) i usage
       | _ \<Rightarrow> Some (recovery_tenant_usage g1)) (\<lambda>tenant_usage.
     let g2 = g1\<lparr> recovery_tenant_usage := tenant_usage \<rparr> in
     some_or_fence_resize cls g2 (case tenant_idx of
         Some i \<Rightarrow> map_option (\<lambda>pools. g2\<lparr> recovery_tenant_pool_usage := pools \<rparr>)
             (slice_set (recovery_tenant_pool_usage g2) i scope_candidate)
       | None \<Rightarrow> Some (g2\<lparr> recovery_system_pool_usage := scope_candidate \<rparr>)) (\<lambda>g3.
     let updated_owner = \<lparr> owner_attribution = Charge_Recovery tenant_idx, owner_pools = None,
                           owner_recovery_pools = Some charge \<rparr>
     in case replace_slot_record (rq_slot request) updated_owner (rq_identity request) new g3 of (replaced, g4) \<Rightarrow>
        if \<not> replaced then fence_resize cls g4
        else (Inr \<lparr> commit_owner = updated_owner, commit_outcome = resize_outcome_of (rq_old request) new \<rparr>, g4)
     ))))))"

definition resize_recovery_locked ::
  "governor_config \<Rightarrow> resize_request \<Rightarrow> usize option \<Rightarrow> recovery_work_kind \<Rightarrow> governor \<Rightarrow>
   (resize_failure + resize_commit) \<times> governor" where
  "resize_recovery_locked cfg request tenant_idx kind g =
     (let cls = DurabilityRecovery;
          old = rq_old request;
          new = rq_new request
      in
     if lifecycle g = Fenced then (Inl (retained_resize cls (disk_pressure g)), g) else
     some_or_fence_resize cls g (owner_recovery_pools (rq_owner request)) (\<lambda>old_pool_charge.
     some_or_fence_resize cls g (amounts_checked_sub (total_usage g) old) (\<lambda>total_without.
     some_or_fence_resize cls g (amounts_checked_sub (recovery_usage g) old) (\<lambda>recovery_without.
     some_or_fence_resize cls g (amounts_checked_sub total_without recovery_without) (\<lambda>ordinary_usage.
     some_or_fence_resize cls g (amounts_checked_add recovery_without new) (\<lambda>recovery_candidate.
     some_or_fence_resize cls g (recovery_usage_checked_sub (recovery_pool_usage g) old_pool_charge) (\<lambda>pool_without.
     some_or_fence_resize cls g (case tenant_idx of
         Some i \<Rightarrow> Option.bind (slice_get (recovery_tenant_pool_usage g) i)
             (\<lambda>usage. recovery_usage_checked_sub usage old_pool_charge)
       | None \<Rightarrow> recovery_usage_checked_sub (recovery_system_pool_usage g) old_pool_charge) (\<lambda>scope_without.
     some_or_fence_resize cls g (transpose_option (map_option (\<lambda>i.
         Option.bind (slice_get (recovery_tenant_usage g) i) (\<lambda>usage. amounts_checked_sub usage old)) tenant_idx))
       (\<lambda>tenant_without.
     some_or_fence_resize cls g (transpose_option (map_option (\<lambda>usage. amounts_checked_add usage new) tenant_without))
       (\<lambda>tenant_candidate.
     case plan_resized_recovery cfg request tenant_idx kind total_without ordinary_usage pool_without
            scope_without tenant_without g of
       Inl admission \<Rightarrow>
         if rq_preserve_existing request \<or> retains_capacity_on_resize_failure kind
         then (Inl (resize_admission admission CapacityRetained), g)
         else cancel_resized_recovery request tenant_idx total_without recovery_without pool_without
                scope_without tenant_without (resize_admission admission CancelledBeforeLimit) g
     | Inr charge \<Rightarrow>
         commit_resized_recovery request tenant_idx total_without recovery_candidate pool_without
           scope_without tenant_candidate charge g))))))))))"

definition resize_recovery ::
  "governor_config \<Rightarrow> lock_outcome \<Rightarrow> resize_request \<Rightarrow> usize option \<Rightarrow> recovery_work_kind \<Rightarrow> governor \<Rightarrow>
   (resize_failure + resize_commit) \<times> governor" where
  "resize_recovery cfg lock request tenant_idx kind g =
     with_resize lock DurabilityRecovery g (resize_recovery_locked cfg request tenant_idx kind)"

definition governor_resize ::
  "governor_config \<Rightarrow> lock_outcome \<Rightarrow> resize_request \<Rightarrow> governor \<Rightarrow> (resize_failure + resize_commit) \<times> governor" where
  "governor_resize cfg lock request g =
     (case rq_identity request of
        Ordinary _ _ kind \<Rightarrow>
          (case owner_attribution (rq_owner request) of
             Charge_Ordinary tenant_idx \<Rightarrow> resize_ordinary cfg lock request tenant_idx (work_kind_class kind) g
           | Charge_Recovery _ \<Rightarrow> (Inl (retained_resize (work_kind_class kind) (governor_last_pressure g)), g))
      | Recovery _ kind \<Rightarrow>
          (case owner_attribution (rq_owner request) of
             Charge_Recovery tenant_idx \<Rightarrow> resize_recovery cfg lock request tenant_idx kind g
           | Charge_Ordinary _ \<Rightarrow> (Inl (retained_resize DurabilityRecovery (governor_last_pressure g)), g)))"

section \<open>Handles\<close>

text \<open>A handle operation returns its result, the handle as it leaves it, and the governor.\<close>

definition reservation_cancel ::
  "lock_outcome \<Rightarrow> lock_outcome \<Rightarrow> reservation \<Rightarrow> governor \<Rightarrow>
   (governor_failure + release_outcome) \<times> reservation \<times> governor" where
  "reservation_cancel lock relock self g =
     (if \<not> res_active self then (Inr AlreadyInactive, self, g)
      else case try_release lock relock (res_slot self) (res_owner self) (res_identity self) (res_amounts self) g of
        (status, g1) \<Rightarrow>
          (status_result status, (if applied status then self\<lparr> res_active := False \<rparr> else self), g1))"

definition try_resize_with_policy ::
  "governor_config \<Rightarrow> lock_outcome \<Rightarrow> resource_amounts \<Rightarrow> bool \<Rightarrow> reservation \<Rightarrow> governor \<Rightarrow>
   (resize_failure + resize_outcome) \<times> reservation \<times> governor" where
  "try_resize_with_policy cfg lock new_amounts preserve_existing self g =
     (if \<not> res_active self
      then (Inl (resize_inactive (identity_class (res_identity self)) (governor_last_pressure g)), self, g)
      else if amounts_is_empty new_amounts
      then (Inl (resize_invalid (identity_class (res_identity self)) (governor_last_pressure g)), self, g)
      else case governor_resize cfg lock
          \<lparr> rq_slot = res_slot self, rq_owner = res_owner self, rq_identity = res_identity self,
            rq_old = res_amounts self, rq_new = new_amounts, rq_preserve_existing = preserve_existing \<rparr> g of
        (Inr commit, g1) \<Rightarrow>
          (Inr (commit_outcome commit), self\<lparr> res_owner := commit_owner commit, res_amounts := new_amounts \<rparr>, g1)
      | (Inl fail, g1) \<Rightarrow>
          if rf_disposition fail = CancelledBeforeLimit
          then (Inl fail, self\<lparr> res_active := False, res_amounts := amounts_zero \<rparr>, g1)
          else (Inl fail, self, g1))"

definition try_resize ::
  "governor_config \<Rightarrow> lock_outcome \<Rightarrow> resource_amounts \<Rightarrow> reservation \<Rightarrow> governor \<Rightarrow>
   (resize_failure + resize_outcome) \<times> reservation \<times> governor" where
  "try_resize cfg lock new_amounts self g = try_resize_with_policy cfg lock new_amounts False self g"

definition try_resize_preserving_capacity ::
  "governor_config \<Rightarrow> lock_outcome \<Rightarrow> resource_amounts \<Rightarrow> reservation \<Rightarrow> governor \<Rightarrow>
   (resize_failure + resize_outcome) \<times> reservation \<times> governor" where
  "try_resize_preserving_capacity cfg lock new_amounts self g =
     try_resize_with_policy cfg lock new_amounts True self g"

definition reservation_operation_token :: "reservation \<Rightarrow> operation_token option" where
  "reservation_operation_token self = (if res_active self then res_operation self else None)"

definition authorizes_ingest_preparation :: "reservation \<Rightarrow> tenant_id \<Rightarrow> u64 \<Rightarrow> bool" where
  "authorizes_ingest_preparation self tenant memory_bytes =
     (res_active self \<and>
      (case res_identity self of
         Ordinary reserved_tenant _ kind \<Rightarrow> kind = Kind_Ingest \<and> reserved_tenant = tenant
       | _ \<Rightarrow> False) \<and>
      memory_bytes \<le> amounts_get (res_amounts self) MemoryBytes)"

definition authorizes_tenant_schema_session :: "reservation \<Rightarrow> tenant_id \<Rightarrow> u64 \<Rightarrow> bool" where
  "authorizes_tenant_schema_session self tenant memory_bytes =
     (let tenant_bound = (case res_identity self of
            Ordinary reserved_tenant _ kind \<Rightarrow> kind = Kind_Ingest \<and> reserved_tenant = tenant
          | Recovery (Tenant reserved_tenant) kind \<Rightarrow> kind = Repair \<and> reserved_tenant = tenant
          | _ \<Rightarrow> False)
      in res_active self \<and> tenant_bound \<and> memory_bytes \<le> amounts_get (res_amounts self) MemoryBytes)"

definition authorizes_compaction :: "reservation \<Rightarrow> tenant_id \<Rightarrow> bool" where
  "authorizes_compaction self tenant =
     (res_active self \<and>
      (case res_identity self of
         Recovery (Tenant reserved_tenant) kind \<Rightarrow> kind = EmergencyCompaction \<and> reserved_tenant = tenant
       | _ \<Rightarrow> False))"

text \<open>Dropping a handle.\<close>

definition reservation_release :: "reservation \<Rightarrow> governor \<Rightarrow> reservation \<times> governor" where
  "reservation_release self g =
     (if res_active self then (self\<lparr> res_active := False \<rparr>, mark_drop_pending (res_slot self) g) else (self, g))"

text \<open>
  A transferred reservation keeps the drop ledger instead of the governor; here the
  ledger is the governor's identity.
\<close>

record transferred_reservation =
  tr_ledger :: nat
  tr_slot :: u16
  tr_owner :: charge_owner
  tr_identity :: reservation_identity
  tr_amounts :: resource_amounts
  tr_operation :: "operation_token option"
  tr_active :: bool

definition reservation_transfer :: "nat \<Rightarrow> reservation \<Rightarrow> transferred_reservation" where
  "reservation_transfer authority self =
     \<lparr> tr_ledger = authority, tr_slot = res_slot self, tr_owner = res_owner self, tr_identity = res_identity self,
       tr_amounts = res_amounts self, tr_operation = res_operation self, tr_active = True \<rparr>"

definition can_reclaim_with :: "transferred_reservation \<Rightarrow> governor_config \<Rightarrow> bool" where
  "can_reclaim_with self cfg = (tr_ledger self = g_authority cfg)"

text \<open>
  A foreign reclaim fences the governor it was handed to; dropping the token then
  releases the slot on the ledger that granted it, which is not this one.
\<close>

definition transferred_reclaim ::
  "governor_config \<Rightarrow> transferred_reservation \<Rightarrow> governor \<Rightarrow> (governor_failure + reservation) \<times> governor" where
  "transferred_reclaim cfg self g =
     (if \<not> can_reclaim_with self cfg then (Inl InternalFenced, mark_foreign_release g)
      else (Inr (reservation_new (tr_owner self) (tr_identity self) (tr_amounts self) (tr_slot self)
                   (tr_operation self)), g))"

definition transferred_release :: "governor_config \<Rightarrow> transferred_reservation \<Rightarrow> governor \<Rightarrow> governor" where
  "transferred_release cfg self g =
     (if tr_ledger self \<noteq> g_authority cfg then mark_foreign_release g
      else if tr_active self then mark_drop_pending (tr_slot self) g else g)"

end
