(* ===== verification/Setup.thy ===== *)
theory Setup
  imports ResizeRecovery
begin

text \<open>
  \<^verbatim>\<open>resource_governor/accounting/setup.rs\<close>, \<^verbatim>\<open>ledger/allocation.rs\<close>, the configuration of
  \<^verbatim>\<open>resource_governor.rs\<close>, \<^verbatim>\<open>authority.rs\<close> and \<^verbatim>\<open>active_segment_leases.rs\<close>: building the
  governor from an inventory and a policy, and the authority that owns it together with
  its two exclusive leases.
\<close>

section \<open>Allocation of the ledger\<close>

record ledger_allocation =
  la_signals :: "u8 list"
  la_pending_words :: "64 word list"
  la_records :: "grant_record option list"
  la_free_slots :: "u16 list"

definition ledger_allocate ::
  "type_sizes \<Rightarrow> allocator \<Rightarrow> bootstrap_inventory_layout \<Rightarrow> resource_amounts \<Rightarrow>
   bootstrap_allocation_stage option \<Rightarrow> governor_failure + ledger_allocation" where
  "ledger_allocate sz grants layout required fail_at =
     (let cnt = layout_outstanding_count layout;
          words = layout_pending_word_count layout
      in
      and_then (allocate_exact grants (size_of_atomic_u8 sz) cnt required LedgerSignals fail_at) (\<lambda>signals.
      and_then (allocate_exact grants (size_of_atomic_u64 sz) words required LedgerPendingWords fail_at)
        (\<lambda>pending.
      and_then (allocate_exact grants (size_of_grant_slot sz) cnt required LedgerRecords fail_at) (\<lambda>records.
      and_then (allocate_exact grants (size_of_u16 sz) cnt required LedgerFreeSlots fail_at) (\<lambda>free.
      and_then (for_fold (\<lambda>acc index. and_then (ok_or (try_from u16_max index) InvalidConfiguration)
          (\<lambda>slot. Inr (acc @ [slot]))) free (rev [0..<cnt])) (\<lambda>free_slots.
      Inr \<lparr> la_signals = signals @ replicate cnt SLOT_FREE, la_pending_words = pending @ replicate words 0,
            la_records = records @ replicate cnt None, la_free_slots = free_slots \<rparr>))))))"

definition zeroed_tenant_table ::
  "allocator \<Rightarrow> usize \<Rightarrow> bootstrap_inventory_layout \<Rightarrow> resource_amounts \<Rightarrow> bootstrap_allocation_stage \<Rightarrow>
   bootstrap_allocation_stage option \<Rightarrow> 'a \<Rightarrow> governor_failure + 'a list" where
  "zeroed_tenant_table grants element layout required stage fail_at v =
     and_then (allocate_exact grants element (layout_tenant_count layout) required stage fail_at)
       (\<lambda>allocation. Inr (allocation @ replicate (layout_tenant_count layout) v))"

section \<open>Configuration\<close>

record governor_setup_input =
  in_raw_effective :: resource_amounts
  in_bootstrap_overhead :: resource_amounts
  in_total_ceiling :: resource_amounts
  in_ordinary_ceiling :: resource_amounts
  in_principal_quota :: "principal_quota option"
  in_tenant_quotas :: "tenant_quota list"
  in_maximum_outstanding :: u32
  in_pool_capacities :: pool_capacities
  in_recovery_pool_capacities :: recovery_pool_capacities
  in_disk_thresholds :: disk_pressure_thresholds
  in_initial_disk :: u64
  in_layout :: bootstrap_inventory_layout
  in_fail_at :: "bootstrap_allocation_stage option"

record governor_configuration =
  gc_raw_effective :: resource_amounts
  gc_bootstrap_overhead :: resource_amounts
  gc_total_ceiling :: resource_amounts
  gc_ordinary_ceiling :: resource_amounts
  gc_principal_quota :: "principal_quota option"
  gc_recovery_reserve :: resource_amounts
  gc_maximum_outstanding :: u32
  gc_pool_capacities :: pool_capacities
  gc_recovery_pool_capacities :: recovery_pool_capacities
  gc_recovery_shared_capacity :: resource_amounts
  gc_disk_thresholds :: disk_pressure_thresholds
  gc_state :: accounting_state
  gc_slot_signals :: "u8 list"
  gc_pending_words :: "64 word list"

text \<open>\<open>for (slot, quota) in tenant_limits.iter_mut().zip(tenant_quotas.iter())\<close>.\<close>

fun fill_limits :: "resource_amounts list \<Rightarrow> tenant_quota list \<Rightarrow> resource_amounts list" where
  "fill_limits (slot # slots) (quota # quotas) = quota_limits quota # fill_limits slots quotas"
| "fill_limits slots [] = slots"
| "fill_limits [] quotas = []"

definition configure ::
  "type_sizes \<Rightarrow> allocator \<Rightarrow> governor_setup_input \<Rightarrow> governor_failure + governor_configuration" where
  "configure sz grants input =
     (let layout = in_layout input;
          required = layout_overhead layout;
          tenant_count = layout_tenant_count layout;
          quotas = in_tenant_quotas input;
          fail_at = in_fail_at input;
          recovery = in_recovery_pool_capacities input
      in
      and_then (total_weight quotas) (\<lambda>weight_sum.
      and_then (allocate_exact grants (size_of_pool_capacities sz) tenant_count required
          OrdinaryTenantFairCapacities fail_at) (\<lambda>ordinary_fair.
      and_then (ordinary_capacities quotas (in_pool_capacities input) weight_sum ordinary_fair) (\<lambda>tenant_fair.
      and_then (ok_or (protected_sum recovery) InvalidConfiguration) (\<lambda>protected.
      and_then (ok_or (amounts_checked_sub (in_total_ceiling input) protected) InvalidConfiguration)
        (\<lambda>recovery_shared_capacity.
      and_then (allocate_exact grants (size_of_resource_amounts sz) tenant_count required
          RecoveryTenantSharedFair fail_at) (\<lambda>shared_fair.
      and_then (amount_capacities quotas recovery_shared_capacity weight_sum shared_fair) (\<lambda>recovery_shared_fair.
      and_then (validate_system_recovery_progress quotas recovery) (\<lambda>_.
      and_then (allocate_exact grants (size_of_recovery_pool_capacities sz) tenant_count required
          RecoveryTenantPoolFair fail_at) (\<lambda>pool_fair.
      and_then (recovery_fair_capacities quotas recovery weight_sum pool_fair) (\<lambda>recovery_pool_fair.
      and_then (system_recovery_capacities recovery recovery_pool_fair) (\<lambda>recovery_system.
      and_then (validate_progress quotas tenant_fair (in_maximum_outstanding input)) (\<lambda>_.
      and_then (ok_or (amounts_checked_sub (in_total_ceiling input) (in_ordinary_ceiling input)) InvalidConfiguration)
        (\<lambda>recovery_reserve.
      and_then (zeroed_tenant_table grants (size_of_resource_amounts sz) layout required TenantLimits fail_at
          amounts_zero) (\<lambda>limits_table.
      and_then (zeroed_tenant_table grants (size_of_resource_amounts sz) layout required OrdinaryTenantUsage fail_at
          amounts_zero) (\<lambda>ordinary_usage.
      and_then (zeroed_tenant_table grants (size_of_resource_amounts sz) layout required RecoveryTenantUsage fail_at
          amounts_zero) (\<lambda>recovery_usage_table.
      and_then (zeroed_tenant_table grants (size_of_recovery_pool_usage sz) layout required RecoveryTenantPoolUsage
          fail_at recovery_usage_zero) (\<lambda>recovery_pools_table.
      and_then (zeroed_tenant_table grants (size_of_pool_capacities sz) layout required OrdinaryTenantPoolUsage
          fail_at pools_zero) (\<lambda>pools_table.
      and_then (zeroed_tenant_table grants (size_of_u32 sz) layout required TenantOutstanding fail_at 0)
        (\<lambda>outstanding_table.
      and_then (ledger_allocate sz grants layout required fail_at) (\<lambda>ledger.
      Inr \<lparr> gc_raw_effective = in_raw_effective input, gc_bootstrap_overhead = in_bootstrap_overhead input,
            gc_total_ceiling = in_total_ceiling input, gc_ordinary_ceiling = in_ordinary_ceiling input,
            gc_principal_quota = in_principal_quota input, gc_recovery_reserve = recovery_reserve,
            gc_maximum_outstanding = in_maximum_outstanding input, gc_pool_capacities = in_pool_capacities input,
            gc_recovery_pool_capacities = recovery, gc_recovery_shared_capacity = recovery_shared_capacity,
            gc_disk_thresholds = in_disk_thresholds input,
            gc_state =
              \<lparr> pending_tenant = None, tenant_quotas = quotas, tenant_fair_capacities = tenant_fair,
                recovery_tenant_shared_fair = recovery_shared_fair, recovery_tenant_pool_fair = recovery_pool_fair,
                recovery_system_pool_capacities = recovery_system,
                rejection_counts = replicate ADMISSION_FAILURE_CODE_COUNT 0, grant_records = la_records ledger,
                free_slots = la_free_slots ledger, next_operation_generation = 1, total_usage = amounts_zero,
                recovery_usage = amounts_zero, tenant_limits = fill_limits limits_table quotas,
                ordinary_tenant_usage = ordinary_usage, recovery_tenant_usage = recovery_usage_table,
                recovery_pool_usage = recovery_usage_zero, recovery_system_pool_usage = recovery_usage_zero,
                recovery_tenant_pool_usage = recovery_pools_table, pool_usage = pools_zero,
                ordinary_tenant_pool_usage = pools_table, tenant_outstanding = outstanding_table, outstanding = 0,
                disk_pressure = disk_initial (in_disk_thresholds input) (in_initial_disk input),
                usable_disk_bytes = in_initial_disk input, pressure_transition_count = 0, lifecycle = Open,
                outstanding_ordinary = 0, outstanding_recovery = 0, outstanding_uninterruptible = 0,
                class_counts = empty_class_counts \<rparr>,
            gc_slot_signals = la_signals ledger, gc_pending_words = la_pending_words ledger \<rparr>)))))))))))))))))))))"

text \<open>\<open>authority\<close> is the identity of the drop ledger the new governor allocates.\<close>

definition governor_new :: "nat \<Rightarrow> governor_configuration \<Rightarrow> governor_config \<times> governor" where
  "governor_new authority configuration =
     (\<lparr> g_authority = authority, g_raw_effective = gc_raw_effective configuration,
        g_bootstrap_overhead = gc_bootstrap_overhead configuration,
        g_total_ceiling = gc_total_ceiling configuration, g_ordinary_ceiling = gc_ordinary_ceiling configuration,
        g_principal_quota = gc_principal_quota configuration,
        g_recovery_reserve = gc_recovery_reserve configuration,
        g_maximum_outstanding = gc_maximum_outstanding configuration,
        g_pool_capacities = gc_pool_capacities configuration,
        g_recovery_pool_capacities = gc_recovery_pool_capacities configuration,
        g_recovery_shared_capacity = gc_recovery_shared_capacity configuration,
        g_disk_thresholds = gc_disk_thresholds configuration \<rparr>,
      accounting_state.extend (gc_state configuration)
        (governor.fields (gc_slot_signals configuration) (gc_pending_words configuration) False False
           (pressure_index (disk_pressure (gc_state configuration))) 0))"

record resource_governor_configuration =
  rgc_inner :: governor_configuration
  rgc_active_segment_scopes :: "string option list"
  rgc_volume_binding :: "observed_volume_binding option"

definition allocate_active_segment_scopes ::
  "type_sizes \<Rightarrow> allocator \<Rightarrow> resource_amounts \<Rightarrow> bootstrap_allocation_stage option \<Rightarrow>
   governor_failure + 'k option list" where
  "allocate_active_segment_scopes sz grants required fail_at =
     and_then (allocate_exact grants (size_of_active_segment_scopes sz div MAX_TENANT_QUOTAS) MAX_TENANT_QUOTAS
         required ActiveSegmentScopes fail_at) (\<lambda>allocation.
     Inr (allocation @ replicate MAX_TENANT_QUOTAS None))"

definition configuration_new_with_failure ::
  "type_sizes \<Rightarrow> allocator \<Rightarrow> resource_inventory \<Rightarrow> governor_policy \<Rightarrow> recovery_pool_capacities \<Rightarrow>
   bootstrap_allocation_stage option \<Rightarrow> governor_failure + resource_governor_configuration" where
  "configuration_new_with_failure sz grants inventory policy recovery_pools fail_at =
     (let quotas = policy_tenant_quotas policy in
      if max_tenant_quotas (inv_cardinality inventory) < length quotas then Inl PolicyCardinalityExceeded else
      and_then (layout_new sz (max_tenant_quotas (inv_cardinality inventory))
          (max_outstanding_reservations (inv_cardinality inventory))) (\<lambda>layout.
      let overhead = layout_overhead layout;
          unavailable = GovernorBootstrapInventoryUnavailable overhead
      in
      and_then (ok_or (amounts_checked_sub (inv_effective inventory) overhead) unavailable) (\<lambda>work_ceiling.
      and_then (ok_or (amounts_checked_sub work_ceiling (inv_recovery_reserve inventory)) unavailable)
        (\<lambda>ordinary_ceiling.
      if \<not> amounts_all_positive ordinary_ceiling then Inl unavailable
      else if list_ex (\<lambda>quota. list_ex (\<lambda>d. amounts_get ordinary_ceiling d < amounts_get (quota_limits quota) d)
             resource_dimension_all) quotas
      then Inl InvalidConfiguration
      else
      and_then (pool_policy_derive (policy_pools policy) ordinary_ceiling) (\<lambda>pool_capacities.
      and_then (ok_or (protected_sum recovery_pools) InvalidConfiguration) (\<lambda>protected_recovery.
      if \<not> amounts_is_at_most protected_recovery (inv_recovery_reserve inventory) then Inl InvalidConfiguration
      else
      and_then (allocate_active_segment_scopes sz grants overhead fail_at) (\<lambda>scopes.
      and_then (configure sz grants
          \<lparr> in_raw_effective = inv_effective inventory, in_bootstrap_overhead = overhead,
            in_total_ceiling = work_ceiling, in_ordinary_ceiling = ordinary_ceiling,
            in_principal_quota = policy_principal_quota policy, in_tenant_quotas = quotas,
            in_maximum_outstanding = max_outstanding_reservations (inv_cardinality inventory),
            in_pool_capacities = pool_capacities, in_recovery_pool_capacities = recovery_pools,
            in_disk_thresholds = inv_disk_thresholds inventory, in_initial_disk = inv_initial_disk inventory,
            in_layout = layout, in_fail_at = fail_at \<rparr>) (\<lambda>inner.
      Inr \<lparr> rgc_inner = inner, rgc_active_segment_scopes = scopes,
            rgc_volume_binding = inv_volume_binding inventory \<rparr>))))))))"

section \<open>The authority and its leases\<close>

text \<open>The two leases of the authority: one catalog writer, one ledger per active segment scope.\<close>

record storage_kernel_authority =
  sa_config :: governor_config
  sa_governor :: governor
  sa_catalog_writer_held :: bool
  sa_active_segment_scopes :: "string option list"

definition from_configuration :: "nat \<Rightarrow> resource_governor_configuration \<Rightarrow> storage_kernel_authority" where
  "from_configuration authority configuration =
     (case governor_new authority (rgc_inner configuration) of (cfg, g) \<Rightarrow>
        \<lparr> sa_config = cfg, sa_governor = g, sa_catalog_writer_held = False,
          sa_active_segment_scopes = rgc_active_segment_scopes configuration \<rparr>)"

definition establish ::
  "nat \<Rightarrow> observed_volume_binding \<Rightarrow> resource_governor_configuration \<Rightarrow>
   governor_failure + storage_kernel_authority" where
  "establish authority volume configuration =
     (if (case rgc_volume_binding configuration of None \<Rightarrow> True
          | Some binding \<Rightarrow> \<not> binding_matches binding volume)
      then Inl ObservedVolumeMismatch
      else Inr (from_configuration authority configuration))"

definition acquire_catalog_writer :: "storage_kernel_authority \<Rightarrow> bool \<times> storage_kernel_authority" where
  "acquire_catalog_writer self =
     (if sa_catalog_writer_held self then (False, self)
      else (True, self\<lparr> sa_catalog_writer_held := True \<rparr>))"

definition drop_catalog_writer :: "storage_kernel_authority \<Rightarrow> storage_kernel_authority" where
  "drop_catalog_writer self = self\<lparr> sa_catalog_writer_held := False \<rparr>"

datatype active_segment_lease_failure = Lease_Duplicate | Lease_Capacity | Lease_Unavailable

definition acquire_active_segment_ledger ::
  "bool \<Rightarrow> string \<Rightarrow> storage_kernel_authority \<Rightarrow> (active_segment_lease_failure + string) \<times> storage_kernel_authority" where
  "acquire_active_segment_ledger poisoned key self =
     (if poisoned then (Inl Lease_Unavailable, self)
      else if Some key \<in> set (sa_active_segment_scopes self) then (Inl Lease_Duplicate, self)
      else case position (\<lambda>slot. slot = None) (sa_active_segment_scopes self) of
        None \<Rightarrow> (Inl Lease_Capacity, self)
      | Some i \<Rightarrow>
          (Inr key, self\<lparr> sa_active_segment_scopes := (sa_active_segment_scopes self)[i := Some key] \<rparr>))"

definition drop_active_segment_ledger :: "bool \<Rightarrow> string \<Rightarrow> storage_kernel_authority \<Rightarrow> storage_kernel_authority" where
  "drop_active_segment_ledger poisoned key self =
     (if poisoned then self
      else case position (\<lambda>slot. slot = Some key) (sa_active_segment_scopes self) of
        None \<Rightarrow> self
      | Some i \<Rightarrow> self\<lparr> sa_active_segment_scopes := (sa_active_segment_scopes self)[i := None] \<rparr>)"

text \<open>A pending enrollment: activated once its catalog generation is durable, rolled back on drop otherwise.\<close>

record pending_tenant_enrollment =
  pe_tenant :: tenant_id
  pe_active :: bool

definition enrollment_activate ::
  "pending_tenant_enrollment \<Rightarrow> governor \<Rightarrow> pending_tenant_enrollment \<times> governor" where
  "enrollment_activate self g = (self\<lparr> pe_active := True \<rparr>, activate_tenant_quota (pe_tenant self) g)"

definition enrollment_drop :: "lock_outcome \<Rightarrow> pending_tenant_enrollment \<Rightarrow> governor \<Rightarrow> governor" where
  "enrollment_drop lock self g = (if pe_active self then g else rollback_tenant_quota lock (pe_tenant self) g)"

end
