(* ===== verification/Reserve.thy ===== *)
theory Reserve
  imports Admitting Plans Setup
begin

text \<open>
  Admission under the ledger invariant. A plan that proceeds carries candidate values
  that are exactly the old books plus the charge of the grant; the commit writes them,
  fills one free slot, and keeps the invariant.
\<close>

section \<open>From a plan to a record\<close>

lemma owner_matches_facts:
  assumes new: "grant_record_new owner identity amounts operation = Some r" and own: "owner_matches owner identity amounts"
    and idx: "\<And>i. attribution_tenant (owner_attribution owner) = Some i \<Longrightarrow> i < n"
    and op: "operation \<noteq> None \<Longrightarrow> \<exists>t p k. identity = Ordinary t p k"
  shows "record_ok n r"
    "\<not> retired r \<Longrightarrow> record_charge acc r = grant_charge owner (identity_class identity)
       (\<exists>t p k. identity = Ordinary t p k) (case identity of Recovery _ k \<Rightarrow> Some k | _ \<Rightarrow> None) amounts acc"
  using record_owner_of_new [OF new own] grant_record_new_fields [OF new] idx op
  by (auto simp: record_ok_def record_charge_def record_grant_def split: option.splits)

lemma activate_slot_relist:
  assumes "slots_wf g" and "free_slots g \<noteq> []" and "i = last (free_slots g)"
  shows "activate_slot r g = (Some i, relist g ((grant_records g)[i := Some r]) ((slot_signals g)[i := SLOT_ACTIVE])
      (butlast (free_slots g)))"
    "slots_wf (relist g ((grant_records g)[i := Some r]) ((slot_signals g)[i := SLOT_ACTIVE]) (butlast (free_slots g)))"
    "i < length (grant_records g)" "grant_records g ! i = None"
  using activate_slot_wf [OF assms(1,2)] slots_wf_cong [OF slots_wf_activate [OF assms(1,2)]] assms(3)
  by (simp_all add: relist_def)

definition child_of_token :: "operation_token option \<Rightarrow> grant_record \<Rightarrow> bool" where
  "child_of_token operation r \<longleftrightarrow>
     (case operation of
        None \<Rightarrow> \<forall>root gen. gr_operation r \<noteq> Some (Child root gen)
      | Some token \<Rightarrow> gr_operation r = Some (Child (token_root_slot token) (token_generation token)))"

lemma register_child:
  assumes ok: "forest_ok (grant_records g)" and adm: "admissible (grant_records g) i r" and tok: "child_of_token operation r"
    and wf: "slots_wf (relist g ((grant_records g)[i := Some r]) sig free)"
  shows "increment_root_slot operation internal (relist g ((grant_records g)[i := Some r]) sig free) k
      = k (relist g (admit_records (grant_records g) i r) sig free)"
    "slots_wf (relist g (admit_records (grant_records g) i r) sig free)"
proof -
  have "increment_root_slot operation internal (relist g ((grant_records g)[i := Some r]) sig free) k
      = k (relist g (admit_records (grant_records g) i r) sig free) \<and>
    slots_wf (relist g (admit_records (grant_records g) i r) sig free)"
    using ok adm
  proof (cases rule: admit_records_cases)
    case plain
    then have "operation = None" using tok by (auto simp: child_of_token_def is_child_of_def split: option.splits)
    then show ?thesis using plain wf by (simp add: increment_root_slot_def)
  next
    case (child root gen r' c)
    obtain token where t: "operation = Some token" "token_root_slot token = root" "token_generation token = gen"
      using tok child(1) by (auto simp: child_of_token_def split: option.splits)
    have "Suc c \<le> length (grant_records g)"
      using children_admit [OF ok adm, of root gen] children_le [of "admit_records (grant_records g) i r" root gen] child
      by (simp add: is_child_of_def)
    then have small: "Suc c \<le> u16_max" using adm by (simp add: admissible_def)
    have at: "((grant_records g)[i := Some r]) ! root = Some r'" "root < length ((grant_records g)[i := Some r])"
      using child by simp_all
    have "relist g ((grant_records g)[i := Some r]) sig free
        \<lparr> grant_records := ((grant_records g)[i := Some r])[root := Some x] \<rparr>
      = relist g ((grant_records g)[i := Some r, root := Some x]) sig free" for x
      by (simp add: relist_def)
    then show ?thesis
      using t at child small slots_wf_relist_replace [OF wf at(2)]
      by (simp add: increment_root_slot_def slot_get_def some_or_fenced_def increment_root_child_def checked_add_def)
  qed
  then show "increment_root_slot operation internal (relist g ((grant_records g)[i := Some r]) sig free) k
      = k (relist g (admit_records (grant_records g) i r) sig free)"
    "slots_wf (relist g (admit_records (grant_records g) i r) sig free)" by blast+
qed

section \<open>Ordinary admission\<close>

lemma operation_record_cases:
  obtains (fenced) "operation_record_for_claim operation prin cls g
      = (Inl (internal_failure_at_pressure cls (disk_pressure g)), g\<lparr> lifecycle := Fenced \<rparr>)"
  | (made) oprec m where "operation_record_for_claim operation prin cls g = (Inr oprec, g\<lparr> next_operation_generation := m \<rparr>)"
      "case operation of
         Some token \<Rightarrow> oprec = Some (Child (token_root_slot token) (token_generation token))
       | None \<Rightarrow> (if prin = None then oprec = None else oprec = Some (Root (next_operation_generation g) True 0))"
proof (cases operation)
  case None
  show thesis
  proof (cases "prin = None")
    case True
    then show thesis
      using None by (intro made [of None "next_operation_generation g"]) (simp_all add: operation_record_for_claim_def)
  next
    case False
    show thesis
    proof (cases "next_operation_generation g + 1 \<le> u64_max")
      case True
      then show thesis
        using None False
        by (intro made [of "Some (Root (next_operation_generation g) True 0)" "next_operation_generation g + 1"])
          (simp_all add: operation_record_for_claim_def some_or_fenced_def Let_def checked_add_def)
    next
      case overflow: False
      then show thesis
        using None False
        by (intro fenced) (simp add: operation_record_for_claim_def some_or_fenced_def Let_def checked_add_def)
    qed
  qed
next
  case (Some token)
  then show thesis
    by (intro made [of "Some (Child (token_root_slot token) (token_generation token))" "next_operation_generation g"])
      (simp_all add: operation_record_for_claim_def)
qed

lemma plan_ordinary_owner:
  assumes plan: "plan_ordinary cfg claim g = Proceed p" and tab: "tables_wf n g" and n: "n \<le> u16_max"
  shows "owner_matches (op_owner p) (op_identity p) (claim_amounts claim)"
    "attribution_tenant (owner_attribution (op_owner p)) = Some i \<Longrightarrow> i < n"
proof -
  obtain i pools fair eligible where
    p: "op_owner p = \<lparr> owner_attribution = Charge_Ordinary i, owner_pools = Some pools, owner_recovery_pools = None \<rparr>"
      "op_identity p = Ordinary (claim_tenant claim) (claim_principal claim) (claim_kind claim)"
      "i < length (ordinary_tenant_usage g)"
      "plan_pool_charge (claim_class claim) (claim_amounts claim)
       \<lparr> pa_global_capacity = g_pool_capacities cfg, pa_global_usage = pool_usage g,
         pa_tenant_capacity = fair, pa_tenant_usage = ordinary_tenant_pool_usage g ! i \<rparr>
       (disk_pressure g) eligible = Inr pools"
    by (rule plan_ordinary_Proceed [OF plan])
  note exact = plan_pool_charge_exact(1,3) [OF p(4)]
  show "owner_matches (op_owner p) (op_identity p) (claim_amounts claim)"
    using p(1-3) exact tab n by (auto simp: claim_class_def tables_wf_def)
  show "j < n" if "attribution_tenant (owner_attribution (op_owner p)) = Some j" for j
    using that p tab by (simp add: tables_wf_def)
qed

lemma ordinary_admissible:
  assumes wf: "claim_wf claim" and valid: "validate_operation_child cfg g i (claim_operation claim) (claim_class claim) = Inr ()"
    and new: "grant_record_new owner (Ordinary (claim_tenant claim) (claim_principal claim) (claim_kind claim)) amounts oprec = Some r"
    and own: "owner_attribution owner = Charge_Ordinary i"
    and op: "case claim_operation claim of
         Some token \<Rightarrow> oprec = Some (Child (token_root_slot token) (token_generation token))
       | None \<Rightarrow> (if claim_principal claim = None then oprec = None
                  else oprec = Some (Root (next_operation_generation g) True 0))"
    and free: "j < length (grant_records g)" "grant_records g ! j = None" "length (grant_records g) \<le> u16_max"
  shows "admissible (grant_records g) j r" "child_of_token (claim_operation claim) r"
proof -
  have r: "gr_operation r = oprec" "gr_tenant r = Some (claim_tenant claim)" "gr_principal r = claim_principal claim"
    "record_class r = claim_class claim"
    using grant_record_new_fields [OF new] by (simp_all add: claim_class_def)
  have idx: "gr_tenant_index r = i"
    using new own by (auto simp: grant_record_new_def try_from_def Option.bind_eq_Some_conv split: if_splits)
  show "child_of_token (claim_operation claim) r"
    using op r(1) by (auto simp: child_of_token_def split: option.splits if_splits)
  show "admissible (grant_records g) j r"
  proof (cases "claim_operation claim")
    case None
    then show ?thesis using op r(1) free by (auto simp: admissible_def split: if_splits)
  next
    case (Some token)
    with valid have "token_valid cfg g i token (claim_class claim)"
      by (simp add: validate_operation_child_def split: if_splits)
    then show ?thesis
      using Some op r idx free wf
      by (auto simp: token_valid_def admissible_def claim_wf_def slot_get_def same_subject_def record_tenant_index_def
          split: option.splits if_splits operation_record.splits bool.splits)
  qed
qed

text \<open>
  What a commit may do to the governor. Either it fails before any slot is taken, and only
  the lifecycle and the generation counter move, or it grants: one free slot is filled and
  the books move by exactly the charge of the new record.
\<close>

definition admitted :: "nat \<Rightarrow> governor \<Rightarrow> nat \<Rightarrow> grant_record \<Rightarrow> governor \<Rightarrow> bool" where
  "admitted n g i r g' \<longleftrightarrow> admissible (grant_records g) i r \<and> record_ok n r \<and>
     grant_records g' = admit_records (grant_records g) i r \<and> slot_signals g' = (slot_signals g)[i := SLOT_ACTIVE] \<and>
     slots_wf g' \<and> tables_wf n g' \<and> debited (\<lambda>acc. record_charge acc r) g' g \<and>
     (\<exists>m. world g' = world (g\<lparr> next_operation_generation := m \<rparr>))"

lemma some_or_fenced_simps [simp]:
  "some_or_fenced g e None k = (Inl e, g\<lparr> lifecycle := Fenced \<rparr>)" "some_or_fenced g e (Some a) k = k a"
  by (simp_all add: some_or_fenced_def)

lemma slice_set_in: "i < length xs \<Longrightarrow> slice_set xs i x = Some (xs[i := x])"
  by (simp add: slice_set_def)

definition ordinary_booked :: "ordinary_plan \<Rightarrow> governor \<Rightarrow> governor" where
  "ordinary_booked p g =
     g\<lparr> ordinary_tenant_usage := (ordinary_tenant_usage g)[op_tenant_index p := op_tenant p],
        ordinary_tenant_pool_usage := (ordinary_tenant_pool_usage g)[op_tenant_index p := op_tenant_pool p],
        class_counts := (class_counts g)[op_class_index p := op_class_count p],
        tenant_outstanding := (tenant_outstanding g)[op_tenant_index p := op_tenant_count p],
        total_usage := op_total p, pool_usage := op_pool p, outstanding := op_outstanding p,
        outstanding_ordinary := op_ordinary_count p \<rparr>"

lemma require_healthy_outstanding:
  assumes "require_healthy_and_slot cfg g cls i = Inr m"
  shows "m = outstanding g + 1"
  using assms by (auto simp: require_healthy_and_slot_def Let_def ok_or_def and_then_def split: if_splits option.splits sum.splits)

lemma posted:
  "amounts_checked_add u a = Some v \<Longrightarrow> \<forall>d. amounts_get v d = amounts_get u d + amounts_get a d"
  "pools_checked_add q b = Some q' \<Longrightarrow> \<forall>k. pool_amount q' k = pool_amount q k + pool_amount b k"
  "recovery_usage_checked_add s c = Some s' \<Longrightarrow> \<forall>k. recovery_amount s' k = recovery_amount s k + recovery_charge_amount c k"
  by (simp_all only: amounts_vec.add_Some pools_vec.add_Some recovery_vec.add_Some simp_thms)

lemma ordinary_booked_accounts:
  assumes plan: "plan_ordinary cfg claim g = Proceed p"
  shows "account_value acc (ordinary_booked p g) = account_value acc g +
    grant_charge (op_owner p) (claim_class claim) True None (claim_amounts claim) acc"
  apply (rule plan_ordinary_Proceed [OF plan])
  apply (drule require_healthy_outstanding, (drule posted)+)
  by (cases acc) (simp_all add: ordinary_booked_def row_update row_in owner_pool_amount_def kind_uninterruptible_def
      del: split_paired_All)

lemma ordinary_booked_elsewhere:
  "account_value acc (ordinary_booked p (relist (g\<lparr> next_operation_generation := m \<rparr>) rs sig free))
     = account_value acc (ordinary_booked p g)"
  by (cases acc) (simp_all add: ordinary_booked_def relist_def)

lemma ordinary_booked_frame:
  "world (ordinary_booked p g) = world g" "grant_records (ordinary_booked p g) = grant_records g"
  "slot_signals (ordinary_booked p g) = slot_signals g" "free_slots (ordinary_booked p g) = free_slots g"
  "tables_wf n (ordinary_booked p g) = tables_wf n g"
  by (simp_all add: ordinary_booked_def world_def relist_def books_erased_def tables_wf_def)

lemma commit_ordinary_cases:
  assumes inv: "ledger_inv n g" and n: "n \<le> u16_max" and wf: "claim_wf claim" and plan: "plan_ordinary cfg claim g = Proceed p"
  obtains (fenced) m where "commit_ordinary cfg claim p g
      = (Inl (internal_failure_at_pressure (claim_class claim) (disk_pressure g)),
         g\<lparr> next_operation_generation := m, lifecycle := Fenced \<rparr>)"
  | (granted) i r g' where "commit_ordinary cfg claim p g
      = (Inr (reservation_new (op_owner p) (op_identity p) (claim_amounts claim) i (root_token r (g_authority cfg) i)), g')"
      "grant_record_new (op_owner p) (op_identity p) (claim_amounts claim) (gr_operation r) = Some r" "admitted n g i r g'"
proof -
  note tab = ledger_invD(2) [OF inv]
  obtain i where p: "op_tenant_index p = i" "i < n" "class_index (claim_class claim) < 5"
    "op_class_index p = class_index (claim_class claim)" "owner_attribution (op_owner p) = Charge_Ordinary i"
    "op_identity p = Ordinary (claim_tenant claim) (claim_principal claim) (claim_kind claim)"
    "validate_operation_child cfg g i (claim_operation claim) (claim_class claim) = Inr ()"
    by (rule plan_ordinary_Proceed [OF plan]) (use tab in \<open>simp add: tables_wf_def\<close>)
  note own = plan_ordinary_owner [OF plan tab n]
  show thesis
  proof (cases rule: operation_record_cases [of "claim_operation claim" "claim_principal claim" "claim_class claim" g])
    case fenced': fenced
    then show thesis
      by (intro fenced [of "next_operation_generation g"]) (simp add: commit_ordinary_def Let_def)
  next
    case (made oprec m)
    let ?g1 = "g\<lparr> next_operation_generation := m \<rparr>"
    obtain r where r: "grant_record_new (op_owner p) (op_identity p) (claim_amounts claim) oprec = Some r"
      using grant_record_new_total [OF own(1)] by blast
    have op: "gr_operation r = oprec" using grant_record_new_fields(2) [OF r] .
    have wf1: "slots_wf ?g1" by (rule slots_wf_cong [OF ledger_invD(1) [OF inv]]) simp_all
    show thesis
    proof (cases "free_slots g = []")
      case True
      then show thesis
        using made(1) r by (intro fenced [of m]) (simp add: commit_ordinary_def Let_def activate_slot_def)
    next
      case False
      define j where "j = last (free_slots g)"
      note act = activate_slot_relist(1,2) [of ?g1 j r, OF wf1]
      have free: "j < length (grant_records g)" "grant_records g ! j = None" "length (grant_records g) \<le> u16_max"
        using activate_slot_relist(3,4) [of ?g1 j, OF wf1] False j_def ledger_invD(1) [OF inv]
        by (simp_all add: slots_wf_def)
      note adm = ordinary_admissible [OF wf p(7) r [unfolded p(6)] p(5) made(2) free]
      let ?g2 = "relist ?g1 (admit_records (grant_records g) j r) ((slot_signals g)[j := SLOT_ACTIVE]) (butlast (free_slots g))"
      have reg: "increment_root_slot (claim_operation claim) internal (relist ?g1 ((grant_records g)[j := Some r])
          ((slot_signals g)[j := SLOT_ACTIVE]) (butlast (free_slots g))) k = k ?g2"
        and wf2: "slots_wf ?g2" for internal and k :: "governor \<Rightarrow> (admission_failure + reservation) \<times> governor"
        using register_child [of ?g1 j r "claim_operation claim" "(slot_signals g)[j := SLOT_ACTIVE]"
            "butlast (free_slots g)"] adm act(2) ledger_invD(3) [OF inv] False j_def by simp_all
      have active: "activate_slot r ?g1 = (Some j, relist ?g1 ((grant_records g)[j := Some r])
          ((slot_signals g)[j := SLOT_ACTIVE]) (butlast (free_slots g)))"
        using act(1) False j_def by simp
      have slot: "slot_get (admit_records (grant_records g) j r) j = Some r"
        using admit_records_self [OF ledger_invD(3) [OF inv] adm(1)] free(1) by (simp add: slot_get_def)
      have commit: "commit_ordinary cfg claim p g
          = (Inr (reservation_new (op_owner p) (op_identity p) (claim_amounts claim) j (root_token r (g_authority cfg) j)),
             ordinary_booked p ?g2)"
        using made(1) r active p(1-4) tab
        by (simp add: commit_ordinary_def Let_def reg slot)
          (simp add: slice_set_in tables_wf_def ordinary_booked_def relist_def)
      have deb: "debited (\<lambda>acc. record_charge acc r) (ordinary_booked p ?g2) g"
        using owner_matches_facts(2) [OF r own _ admissible_live [OF adm(1)]] ordinary_booked_accounts [OF plan] p(6)
        by (simp add: debited_def ordinary_booked_elsewhere claim_class_def)
      show thesis
      proof (rule granted [OF commit])
        show "grant_record_new (op_owner p) (op_identity p) (claim_amounts claim) (gr_operation r) = Some r"
          using r op by simp
        have "record_ok n r" using owner_matches_facts(1) [OF r own] p(6) by simp
        moreover have "slots_wf (ordinary_booked p ?g2)"
          by (rule slots_wf_cong [OF wf2]) (simp_all only: ordinary_booked_frame)
        moreover have "tables_wf n ?g1" using tab by (simp add: tables_wf_def)
        ultimately show "admitted n g j r (ordinary_booked p ?g2)"
          using adm(1) deb unfolding admitted_def ordinary_booked_frame by auto
      qed
    qed
  qed
qed

section \<open>Recovery admission\<close>

definition recovery_booked :: "recovery_plan \<Rightarrow> governor \<Rightarrow> governor" where
  "recovery_booked p g =
     (case rp_tenant_index p of
        None \<Rightarrow> g\<lparr> recovery_system_pool_usage := rp_scope_pool p \<rparr>
      | Some i \<Rightarrow>
          g\<lparr> recovery_tenant_usage := (recovery_tenant_usage g)[i := the (rp_tenant p)],
             recovery_tenant_pool_usage := (recovery_tenant_pool_usage g)[i := rp_scope_pool p],
             tenant_outstanding := (tenant_outstanding g)[i := the (rp_tenant_count p)] \<rparr>)
     \<lparr> total_usage := rp_total p, recovery_usage := rp_recovery p, recovery_pool_usage := rp_pool p,
       outstanding := rp_outstanding p, outstanding_recovery := rp_recovery_count p,
       class_counts := (class_counts g)[rp_class_index p := rp_class_count p],
       outstanding_uninterruptible :=
         (case rp_uninterruptible_count p of Some m \<Rightarrow> m | None \<Rightarrow> outstanding_uninterruptible g) \<rparr>"

lemma recovery_scope_usage:
  assumes "recovery_scope_of cfg kind ti ordinary g = Inr scope"
  shows "case ti of None \<Rightarrow> sv_usage scope = recovery_system_pool_usage g
    | Some i \<Rightarrow> i < length (recovery_tenant_pool_usage g) \<and> sv_usage scope = recovery_tenant_pool_usage g ! i"
  using assms
  by (auto simp: recovery_scope_of_def Let_def and_then_def ok_or_def split: option.splits sum.splits)

lemma plan_recovery_tenant_posted:
  assumes "plan_recovery_tenant claim i g = Proceed c"
  shows "i < length (recovery_tenant_usage g) \<and> (\<forall>d. amounts_get c d = amounts_get (recovery_tenant_usage g ! i) d
    + amounts_get (recovery_claim_amounts claim) d)"
  using plan_recovery_tenant_Proceed(1,2) [OF assms] posted(1) by blast

lemma recovery_booked_accounts:
  assumes plan: "plan_recovery cfg claim g = Proceed p"
  shows "account_value acc (recovery_booked p g) = account_value acc g +
    grant_charge (rp_owner p) DurabilityRecovery False (Some (recovery_claim_kind claim)) (recovery_claim_amounts claim) acc"
  apply (rule plan_recovery_Proceed [OF plan])
  apply (drule require_healthy_outstanding, drule recovery_scope_usage, (drule posted)+)
  apply (cases "rp_tenant_index p")
  by (cases acc; simp add: recovery_booked_def row_update row_in owner_recovery_amount_def kind_uninterruptible_def
      del: split_paired_All)
    (cases acc; clarsimp simp: recovery_booked_def row_update row_in owner_recovery_amount_def kind_uninterruptible_def
      simp del: split_paired_All dest!: plan_recovery_tenant_posted)

lemma recovery_booked_frame:
  "world (recovery_booked p g) = world g" "grant_records (recovery_booked p g) = grant_records g"
  "slot_signals (recovery_booked p g) = slot_signals g" "free_slots (recovery_booked p g) = free_slots g"
  "tables_wf n (recovery_booked p g) = tables_wf n g"
  by (simp_all add: recovery_booked_def world_def relist_def books_erased_def tables_wf_def split: option.splits)

lemma recovery_booked_elsewhere:
  "account_value acc (recovery_booked p (relist g rs sig free)) = account_value acc (recovery_booked p g)"
  by (cases acc) (simp_all add: recovery_booked_def relist_def split: option.splits)

lemma plan_recovery_owner:
  assumes plan: "plan_recovery cfg claim g = Proceed p" and tab: "tables_wf n g" and n: "n \<le> u16_max"
  shows "owner_matches (rp_owner p) (rp_identity p) (recovery_claim_amounts claim)"
    "attribution_tenant (owner_attribution (rp_owner p)) = Some i \<Longrightarrow> i < n"
proof -
  obtain pools scope ordinary where
    p: "rp_owner p = \<lparr> owner_attribution = Charge_Recovery (rp_tenant_index p), owner_pools = None,
        owner_recovery_pools = Some pools \<rparr>"
      "rp_identity p = Recovery (recovery_claim_scope claim) (recovery_claim_kind claim)"
      "case rp_tenant_index p of None \<Rightarrow> rp_tenant_count p = None
        | Some i \<Rightarrow> i < length (tenant_outstanding g) \<and> rp_tenant_count p = Some (tenant_outstanding g ! i + 1)"
      "plan_recovery_pools cfg (recovery_claim_kind claim) (rp_tenant_index p \<noteq> None) (recovery_claim_amounts claim)
         (recovery_pool_usage g) ordinary scope (disk_pressure g) = Inr pools"
    by (rule plan_recovery_Proceed [OF plan])
  obtain v w where pools: "plan_recovery_charge (recovery_claim_kind claim) (recovery_claim_amounts claim) v w = Inr pools"
    using p(4) unfolding plan_recovery_pools_def map_err_Inr_iff by blast
  note exact = plan_recovery_charge_exact(1,2) [OF pools]
  show idx: "j < n" if "attribution_tenant (owner_attribution (rp_owner p)) = Some j" for j
    using that p(1,3) tab by (simp add: tables_wf_def)
  then show "owner_matches (rp_owner p) (rp_identity p) (recovery_claim_amounts claim)"
    using p(1,2) exact n by force
qed

lemma commit_recovery_cases:
  assumes inv: "ledger_inv n g" and n: "n \<le> u16_max" and plan: "plan_recovery cfg claim g = Proceed p"
  obtains (fenced) "commit_recovery claim p g
      = (Inl (internal_failure_at_pressure DurabilityRecovery (disk_pressure g)), g\<lparr> lifecycle := Fenced \<rparr>)"
  | (granted) i r g' where "commit_recovery claim p g
      = (Inr (reservation_new (rp_owner p) (rp_identity p) (recovery_claim_amounts claim) i None), g')"
      "grant_record_new (rp_owner p) (rp_identity p) (recovery_claim_amounts claim) None = Some r"
      "gr_operation r = None" "admitted n g i r g'"
proof -
  note tab = ledger_invD(2) [OF inv]
  have p: "rp_class_index p < 5" "rp_identity p = Recovery (recovery_claim_scope claim) (recovery_claim_kind claim)"
    "case rp_tenant_index p of None \<Rightarrow> rp_tenant p = None \<and> rp_tenant_count p = None
      | Some i \<Rightarrow> i < n \<and> (\<exists>c. rp_tenant p = Some c) \<and> (\<exists>m. rp_tenant_count p = Some m)"
    by (rule plan_recovery_Proceed [OF plan], use tab in \<open>auto simp: tables_wf_def split: option.splits\<close>)+
  note own = plan_recovery_owner [OF plan tab n]
  obtain r where r: "grant_record_new (rp_owner p) (rp_identity p) (recovery_claim_amounts claim) None = Some r"
    using grant_record_new_total [OF own(1)] by blast
  have op: "gr_operation r = None" using grant_record_new_fields(2) [OF r] .
  show thesis
  proof (cases "free_slots g = []")
    case True
    then show thesis using r by (intro fenced) (simp add: commit_recovery_def Let_def activate_slot_def)
  next
    case False
    define j where "j = last (free_slots g)"
    let ?g2 = "relist g ((grant_records g)[j := Some r]) ((slot_signals g)[j := SLOT_ACTIVE]) (butlast (free_slots g))"
    note act = activate_slot_relist [OF ledger_invD(1) [OF inv] False j_def]
    have adm: "admissible (grant_records g) j r"
      using act(3,4) ledger_invD(1) [OF inv] op by (simp add: admissible_def slots_wf_def)
    have commit: "commit_recovery claim p g
        = (Inr (reservation_new (rp_owner p) (rp_identity p) (recovery_claim_amounts claim) j None), recovery_booked p ?g2)"
      using r act(1) p(1,3) tab
      by (cases "rp_tenant_index p"; cases "rp_uninterruptible_count p")
        (auto simp: commit_recovery_def Let_def slice_set_in slice_get_def tables_wf_def recovery_booked_def relist_def)
    have deb: "debited (\<lambda>acc. record_charge acc r) (recovery_booked p ?g2) g"
      using owner_matches_facts(2) [OF r own _ admissible_live [OF adm]] recovery_booked_accounts [OF plan] p(2)
      by (simp add: debited_def recovery_booked_elsewhere)
    have "record_ok n r" using owner_matches_facts(1) [OF r own] by simp
    moreover have "slots_wf (recovery_booked p ?g2)"
      by (rule slots_wf_cong [OF act(2)]) (simp_all only: recovery_booked_frame)
    moreover have "\<exists>m. world g = world (g\<lparr> next_operation_generation := m \<rparr>)"
      by (rule exI [of _ "next_operation_generation g"]) simp
    ultimately have "admitted n g j r (recovery_booked p ?g2)"
      using adm deb tab op unfolding admitted_def recovery_booked_frame by (simp add: admit_records_def)
    then show thesis by (rule granted [OF commit r op])
  qed
qed

section \<open>The locked sections\<close>

lemma admitted_inv:
  assumes "ledger_inv n g" and "admitted n g i r g'"
  shows "ledger_inv n g'" "extends g i g'" "pending_slots g' = pending_slots g" "live_slot g' i r"
    "debited (\<lambda>acc. record_charge acc r) g' g"
proof -
  have a: "admissible (grant_records g) i r" "record_ok n r" "grant_records g' = admit_records (grant_records g) i r"
    "slot_signals g' = (slot_signals g)[i := SLOT_ACTIVE]" "slots_wf g'" "tables_wf n g'"
    "debited (\<lambda>acc. record_charge acc r) g' g"
    using assms(2) by (simp_all add: admitted_def)
  show "ledger_inv n g'" by (rule ledger_inv_admit [OF assms(1) a(1-3,5-7)])
  show "extends g i g'" "pending_slots g' = pending_slots g" "live_slot g' i r"
    by (rule admit_survives [OF assms(1) a(1,3,4)])+
qed (use assms(2) in \<open>simp add: admitted_def\<close>)

end
