(* ===== verification/Replacing.thy ===== *)
theory Replacing
  imports Reserve
begin

text \<open>
  Resizing under the ledger invariant. A resize of a held grant ends in one of four ways:
  the grant is exchanged for another one and the books move by the difference of the two
  charges; the grant is given back; it is kept and nothing moves; or it is kept and the
  governor is fenced.
\<close>

section \<open>Held grants\<close>

text \<open>What a live handle knows of its slot: the record is the one its owner, identity and amounts encode.\<close>

definition held :: "governor \<Rightarrow> charge_owner \<Rightarrow> reservation_identity \<Rightarrow> resource_amounts \<Rightarrow> nat \<Rightarrow> grant_record \<Rightarrow> bool" where
  "held g owner identity amounts i r \<longleftrightarrow> live_slot g i r \<and> owner_matches owner identity amounts \<and>
     grant_record_new owner identity amounts (gr_operation r) = Some r"

definition identity_ordinary :: "reservation_identity \<Rightarrow> bool" where
  "identity_ordinary identity \<longleftrightarrow> (case identity of Ordinary _ _ _ \<Rightarrow> True | Recovery _ _ \<Rightarrow> False)"

definition identity_recovery_kind :: "reservation_identity \<Rightarrow> recovery_work_kind option" where
  "identity_recovery_kind identity = (case identity of Ordinary _ _ _ \<Rightarrow> None | Recovery _ k \<Rightarrow> Some k)"

lemma identity_simps [simp]:
  "identity_ordinary (Ordinary t p k)" "\<not> identity_ordinary (Recovery s rk)"
  "identity_recovery_kind (Ordinary t p k) = None" "identity_recovery_kind (Recovery s rk) = Some rk"
  by (simp_all add: identity_ordinary_def identity_recovery_kind_def)

lemma heldD:
  assumes "held g owner identity amounts i r"
  shows "i < length (grant_records g)" "grant_records g ! i = Some r" "\<not> retired r" "slot_signals g ! i = SLOT_ACTIVE"
    "record_owner r = Some owner" "owner_matches owner identity amounts" "gr_amounts r = amounts"
    "record_class r = identity_class identity" "record_is_ordinary r = identity_ordinary identity"
    "record_recovery_kind r = identity_recovery_kind identity"
proof -
  have new: "grant_record_new owner identity amounts (gr_operation r) = Some r" and own: "owner_matches owner identity amounts"
    using assms by (simp_all add: held_def)
  show "record_owner r = Some owner" by (rule record_owner_of_new [OF new own])
  show "owner_matches owner identity amounts" by (fact own)
  show "gr_amounts r = amounts" "record_class r = identity_class identity" "record_is_ordinary r = identity_ordinary identity"
    "record_recovery_kind r = identity_recovery_kind identity"
    using grant_record_new_fields [OF new]
    by (auto simp: identity_ordinary_def identity_recovery_kind_def split: reservation_identity.splits)
qed (use assms in \<open>simp_all add: held_def live_slot_def\<close>)

lemma held_charge:
  assumes "held g owner identity amounts i r"
  shows "record_charge acc r = grant_charge owner (identity_class identity) (identity_ordinary identity)
    (identity_recovery_kind identity) amounts acc"
  using heldD [OF assms] by (simp add: record_charge_def record_grant_def)

lemma held_covers:
  assumes "ledger_inv n g" and h: "held g owner identity amounts i r"
  shows "grant_charge owner (identity_class identity) (identity_ordinary identity) (identity_recovery_kind identity) amounts acc
    \<le> account_value acc g"
  using ledger_inv_covers [OF assms(1) heldD(1,2,3,5) [OF h]] heldD [OF h] by (simp add: covers_def record_grant_def)

lemma held_tenant:
  assumes "ledger_inv n g" and h: "held g owner identity amounts i r"
    and "attribution_tenant (owner_attribution owner) = Some j"
  shows "j < n"
  using ledger_invD(5) [OF assms(1) heldD(1,2) [OF h]] heldD(5) [OF h] assms(3) by (simp add: record_ok_def)

text \<open>Exchanging the amounts of a grant keeps its place in the forest of operations.\<close>

lemma grant_record_new_place:
  assumes "grant_record_new owner identity amounts operation = Some r"
  shows "gr_kind r = (case identity of Ordinary _ _ k \<Rightarrow> grant_from_ordinary k | Recovery _ k \<Rightarrow> grant_from_recovery k)"
    "gr_tenant_index r = (case owner_attribution owner of
       Charge_Ordinary i \<Rightarrow> i | Charge_Recovery ti \<Rightarrow> (case ti of None \<Rightarrow> SYSTEM_TENANT_INDEX | Some i \<Rightarrow> i))"
  using assms
  by (auto simp: grant_record_new_def Option.bind_eq_Some_conv try_from_def
      split: charge_attribution.splits reservation_identity.splits option.splits if_splits)

lemma record_replaced_held:
  assumes h: "held g owner identity amounts i r" and own: "owner_matches owner' identity new"
    and att: "owner_attribution owner' = owner_attribution owner"
  obtains r' where "record_replaced r owner' identity new = Some r'"
    "grant_record_new owner' identity new (gr_operation r') = Some r'" "gr_operation r' = gr_operation r"
    "gr_tenant r' = gr_tenant r" "gr_principal r' = gr_principal r" "gr_tenant_index r' = gr_tenant_index r"
    "record_class r' = record_class r"
proof -
  have new: "grant_record_new owner identity amounts (gr_operation r) = Some r" using h by (simp add: held_def)
  obtain r' where r': "grant_record_new owner' identity new (gr_operation r) = Some r'"
    using grant_record_new_total [OF own] by blast
  note f = grant_record_new_fields [OF new] and f' = grant_record_new_fields [OF r']
  have kind: "gr_kind r' = gr_kind r" "gr_tenant_index r' = gr_tenant_index r"
    using grant_record_new_place [OF new] grant_record_new_place [OF r'] att by simp_all
  show thesis
    by (rule that [of r']) (use r' f f' kind in \<open>simp_all add: record_replaced_def\<close>)
qed

section \<open>Exchanging a record\<close>

definition exchanged :: "nat \<Rightarrow> governor \<Rightarrow> nat \<Rightarrow> grant_record \<Rightarrow> grant_record \<Rightarrow> governor \<Rightarrow> bool" where
  "exchanged n g i r r' g' \<longleftrightarrow>
     grant_records g' = (grant_records g)[i := Some r'] \<and> slot_signals g' = slot_signals g \<and> free_slots g' = free_slots g \<and>
     tables_wf n g' \<and> world g' = world g \<and>
     (\<forall>acc. account_value acc g' + record_charge acc r = account_value acc g + record_charge acc r')"

lemma replace_forest:
  assumes ok: "forest_ok rs" and i: "i < length rs" "rs ! i = Some r"
    and same: "gr_operation r' = gr_operation r" "gr_tenant r' = gr_tenant r" "gr_principal r' = gr_principal r"
      "gr_tenant_index r' = gr_tenant_index r" "record_class r' = record_class r"
  shows "forest_ok (rs[i := Some r'])"
  unfolding forest_ok_def
proof (intro allI impI)
  fix j x
  assume j: "j < length (rs[i := Some r'])" and x: "rs[i := Some r'] ! j = Some x"
  have kids: "children (rs[i := Some r']) root gen = children rs root gen" for root gen
    using children_update [OF i(1), of "Some r'" root gen] i(2) same(1) by (simp add: is_child_of_def)
  have subj: "same_subject y r' = same_subject y r" "same_subject r' y = same_subject r y" for y
    using same by (simp_all add: same_subject_def)
  obtain y where y: "rs ! j = Some y" "gr_operation x = gr_operation y" "\<And>z. same_subject x z = same_subject y z"
    using x j i same(1) subj by (cases "j = i") auto
  have "slot_ok rs j y" using slot_okD [OF ok] j y by simp
  then show "slot_ok (rs[i := Some r']) j x"
    using y i same(1) subj
    by (auto simp: slot_ok_def kids nth_list_update split: option.splits operation_record.splits)
qed

lemma ledger_inv_exchange:
  assumes inv: "ledger_inv n g" and i: "i < length (grant_records g)" "grant_records g ! i = Some r"
    and ex: "exchanged n g i r r' g'" and ok: "record_ok n r'"
    and same: "gr_operation r' = gr_operation r" "gr_tenant r' = gr_tenant r" "gr_principal r' = gr_principal r"
      "gr_tenant_index r' = gr_tenant_index r" "record_class r' = record_class r"
  shows "ledger_inv n g'"
proof -
  have rec: "grant_records g' = (grant_records g)[i := Some r']" using ex by (simp add: exchanged_def)
  have "slots_wf (g\<lparr> grant_records := (grant_records g)[i := Some r'] \<rparr>)"
    by (rule slots_wf_replace [OF ledger_invD(1) [OF inv] i(1)]) (simp add: i)
  then have wf: "slots_wf g'" by (rule slots_wf_cong) (use ex in \<open>simp_all add: exchanged_def\<close>)
  have "conserved g'"
    unfolding conserved_def rec
  proof
    fix acc
    have "slot_sum (record_charge acc) ((grant_records g)[i := Some r']) + record_charge acc r
        = slot_sum (record_charge acc) (grant_records g) + record_charge acc r'"
      using slot_sum_update [OF i(1), of "record_charge acc" "Some r'"] i(2) by simp
    moreover have "account_value acc g' + record_charge acc r = account_value acc g + record_charge acc r'"
      using ex by (simp add: exchanged_def)
    moreover have "account_value acc g = slot_sum (record_charge acc) (grant_records g)"
      using ledger_invD(4) [OF inv] by (simp add: conserved_def)
    ultimately show "account_value acc g' = slot_sum (record_charge acc) ((grant_records g)[i := Some r'])" by simp
  qed
  moreover have "forest_ok (grant_records g')"
    unfolding rec by (rule replace_forest [OF ledger_invD(3) [OF inv] i same])
  moreover have "tables_wf n g'" using ex by (simp add: exchanged_def)
  ultimately show ?thesis
    using wf ok ledger_invD(5) [OF inv] i
    unfolding ledger_inv_def rec by (auto simp: nth_list_update split: if_splits)
qed

lemma exchange_survives:
  assumes i: "live_slot g i r" and ex: "exchanged n g i r r' g'" and op: "gr_operation r' = gr_operation r"
  shows "live_slot g' i r'" "\<And>j x. j \<noteq> i \<Longrightarrow> live_slot g' j x = live_slot g j x" "pending_slots g' = pending_slots g"
proof -
  have ret: "retired r' = retired r" using op by (simp add: retired_def)
  then show "live_slot g' i r'" using i ex by (simp add: live_slot_def exchanged_def)
  show "live_slot g' j x = live_slot g j x" if "j \<noteq> i" for j x
    using that ex by (simp add: live_slot_def exchanged_def)
  show "pending_slots g' = pending_slots g"
    using i ex ret by (auto simp: pending_slots_def live_slot_def exchanged_def nth_list_update split: if_splits)
qed

section \<open>Giving a grant back\<close>

definition given_back :: "nat \<Rightarrow> governor \<Rightarrow> nat \<Rightarrow> grant_record \<Rightarrow> governor \<Rightarrow> bool" where
  "given_back n g i r g' \<longleftrightarrow> ledger_inv n g' \<and> debited (\<lambda>acc. record_charge acc r) g g' \<and>
     grant_records g' = retire_records (grant_records g) i r \<and> world g' = world g \<and>
     length (slot_signals g') = length (slot_signals g) \<and>
     (\<forall>j < length (slot_signals g'). grant_records g' ! j \<noteq> None \<longrightarrow> slot_signals g' ! j = slot_signals g ! j)"

lemma retire_given_back:
  assumes inv: "ledger_inv n g" and i: "i < length (grant_records g)" "grant_records g ! i = Some r" and live: "\<not> retired r"
    and g1: "grant_records g1 = grant_records g" "slot_signals g1 = slot_signals g" "free_slots g1 = free_slots g"
      "world g1 = world g" "tables_wf n g1" "debited (\<lambda>acc. record_charge acc r) g g1"
  obtains g' where "retire_slot_with fence res r i g1 = (res, g')" "given_back n g i r g'"
proof -
  have wf1: "slots_wf g1" by (rule slots_wf_cong [OF ledger_invD(1) [OF inv] g1(1-3)])
  have f1: "forest_ok (grant_records g1)" "i < length (grant_records g1)" "grant_records g1 ! i = Some r"
    using ledger_invD(3) [OF inv] i g1(1) by simp_all
  obtain sig free where retire: "retire_slot_with fence res r i g1
      = (res, relist g1 (retire_records (grant_records g) i r) sig free)"
    and wf: "slots_wf (relist g1 (retire_records (grant_records g) i r) sig free)"
    and len: "length sig = length (slot_signals g)"
    and sig: "\<forall>j < length sig. retire_records (grant_records g) i r ! j \<noteq> None \<longrightarrow> sig ! j = slot_signals g ! j"
    by (rule retire_slot_with_relist [OF wf1 f1 live, unfolded g1(1,2)])
  let ?g' = "relist g1 (retire_records (grant_records g) i r) sig free"
  have deb: "debited (\<lambda>acc. record_charge acc r) g ?g'" using g1(6) by (simp add: debited_def)
  have "ledger_inv n ?g'" by (rule ledger_inv_retire [OF inv i live _ wf _ deb]) (use g1(5) in simp_all)
  then show thesis
    using that [OF retire] deb len sig g1(4) by (simp add: given_back_def)
qed

section \<open>Ordinary resize\<close>

lemma taken:
  "amounts_checked_sub u a = Some v \<Longrightarrow> \<forall>d. amounts_get u d = amounts_get v d + amounts_get a d"
  "pools_checked_sub q b = Some q' \<Longrightarrow> \<forall>k. pool_amount q k = pool_amount q' k + pool_amount b k"
  "recovery_usage_checked_sub s c = Some s' \<Longrightarrow> \<forall>k. recovery_amount s k = recovery_amount s' k + recovery_charge_amount c k"
  by (simp_all only: amounts_vec.sub_Some pools_vec.sub_Some recovery_vec.sub_Some simp_thms)

lemma some_or_fence_resize_simps [simp]:
  "some_or_fence_resize cls g None k = fence_resize cls g" "some_or_fence_resize cls g (Some a) k = k a"
  by (simp_all add: some_or_fence_resize_def)

lemma resize_admission_simps [simp]:
  "rf_disposition (resize_admission f d) = d"
  "rf_code (resize_admission f d) = (if af_code f = Code_InternalFenced then Resize_InternalFenced else Resize_AdmissionRefused)"
  "rf_disposition (retained_resize cls pr) = CapacityRetained"
  by (simp_all add: resize_admission_def retained_resize_def)

lemma plan_resized_pools_exact:
  assumes plan: "plan_resized_pools cfg rq ti cls old_pools tw nw pw npw g = Inr c"
    and old: "pool_for_class cls = Some (charge_class_pool old_pools)"
  shows "pool_for_class cls = Some (charge_class_pool c)"
    "amounts_get (charge_shared c) d + amounts_get (charge_protected c) d = amounts_get (rq_new rq) d"
proof -
  have "pool_for_class cls = Some (charge_class_pool c) \<and>
      (\<forall>d. amounts_get (charge_shared c) d + amounts_get (charge_protected c) d = amounts_get (rq_new rq) d)"
  proof (cases "amounts_is_at_most (rq_new rq) (rq_old rq)")
    case True
    then have "pool_charge_shrink_to old_pools (rq_new rq) = Some c"
      using plan by (auto simp: plan_resized_pools_def Let_def ok_or_def split: option.splits)
    then show ?thesis using old unfolding pool_charge_shrink_to_Some_iff by metis
  next
    case False
    then obtain view where "plan_ordinary_resize cfg cls (rq_new rq) view = Inr c"
      using plan by (auto simp: plan_resized_pools_def Let_def and_then_def split: sum.splits if_splits)
    then obtain admission pressure shared where "plan_pool_charge cls (rq_new rq) admission pressure shared = Inr c"
      by (auto simp: plan_ordinary_resize_def Let_def and_then_def split: sum.splits if_splits)
    then show ?thesis using plan_pool_charge_exact(1,3) by blast
  qed
  then show "pool_for_class cls = Some (charge_class_pool c)"
    "amounts_get (charge_shared c) d + amounts_get (charge_protected c) d = amounts_get (rq_new rq) d" by blast+
qed

lemma map_err_InlE:
  assumes "map_sum f id x = Inl e"
  obtains y where "x = Inl y" "e = f y"
  using assms by (cases x) auto

lemma plan_resized_pools_failure:
  assumes "plan_resized_pools cfg rq ti cls old_pools tw nw pw npw g = Inl f"
  shows "rf_disposition f = (if amounts_is_at_most (rq_new rq) (rq_old rq) \<or> rq_preserve_existing rq
      then CapacityRetained else CancelledBeforeLimit)"
    "rf_code f = Resize_InternalFenced \<or> rf_code f = Resize_AdmissionRefused"
    "amounts_is_at_most (rq_new rq) (rq_old rq) \<Longrightarrow> rf_code f = Resize_InternalFenced"
  using assms unfolding plan_resized_pools_def Let_def
  by (auto simp: ok_or_def split: if_splits option.splits elim!: map_err_InlE)

definition ordinary_unbooked ::
  "usize \<Rightarrow> work_class \<Rightarrow> resource_amounts \<Rightarrow> resource_amounts \<Rightarrow> pool_capacities \<Rightarrow> pool_capacities \<Rightarrow> governor \<Rightarrow> governor" where
  "ordinary_unbooked ti cls total_without tenant_without pool_without tenant_pool_without g =
     g\<lparr> ordinary_tenant_usage := (ordinary_tenant_usage g)[ti := tenant_without],
        ordinary_tenant_pool_usage := (ordinary_tenant_pool_usage g)[ti := tenant_pool_without],
        class_counts := (class_counts g)[class_index cls := class_counts g ! class_index cls - 1],
        tenant_outstanding := (tenant_outstanding g)[ti := tenant_outstanding g ! ti - 1],
        total_usage := total_without, pool_usage := pool_without, outstanding := outstanding g - 1,
        outstanding_ordinary := outstanding_ordinary g - 1 \<rparr>"

lemma ordinary_unbooked_frame:
  "world (ordinary_unbooked ti cls tw nw pw npw g) = world g"
  "grant_records (ordinary_unbooked ti cls tw nw pw npw g) = grant_records g"
  "slot_signals (ordinary_unbooked ti cls tw nw pw npw g) = slot_signals g"
  "free_slots (ordinary_unbooked ti cls tw nw pw npw g) = free_slots g"
  "tables_wf n (ordinary_unbooked ti cls tw nw pw npw g) = tables_wf n g"
  by (simp_all add: ordinary_unbooked_def world_def relist_def books_erased_def tables_wf_def)

text \<open>The old charge can be taken off the books of the tenant and of the governor.\<close>

lemma held_ordinary_without:
  assumes inv: "ledger_inv n g" and h: "held g owner identity old i r"
    and att: "owner_attribution owner = Charge_Ordinary ti"
  obtains pools tw nw pw npw where "owner_pools owner = Some pools"
    "pool_for_class (identity_class identity) = Some (charge_class_pool pools)" "ti < n"
    "amounts_checked_sub (total_usage g) old = Some tw" "amounts_checked_sub (ordinary_tenant_usage g ! ti) old = Some nw"
    "pools_checked_sub (pool_usage g) (pool_charge_capacities pools) = Some pw"
    "pools_checked_sub (ordinary_tenant_pool_usage g ! ti) (pool_charge_capacities pools) = Some npw"
    "1 \<le> outstanding g" "1 \<le> outstanding_ordinary g" "1 \<le> class_counts g ! class_index (identity_class identity)"
    "1 \<le> tenant_outstanding g ! ti" "class_index (identity_class identity) < 5" "\<exists>t p k. identity = Ordinary t p k"
proof -
  note tab = ledger_invD(2) [OF inv, unfolded tables_wf_def]
  have "\<exists>t p k. identity = Ordinary t p k" using heldD(6) [OF h] att by (cases identity) auto
  then obtain t p k where id: "identity = Ordinary t p k" by blast
  obtain pools where pools: "owner_pools owner = Some pools" "pool_for_class (work_kind_class k) = Some (charge_class_pool pools)"
    using heldD(6) [OF h] unfolding id by auto
  have ti: "ti < n" using held_tenant [OF inv h] att by simp
  note cov = held_covers [OF inv h, unfolded id]
  have idx: "class_index (work_kind_class k) < 5" by (cases k) simp_all
  obtain tw where tw: "amounts_checked_sub (total_usage g) old = Some tw"
    using amounts_vec.sub_defined [of old "total_usage g"] cov [of "A_total _"] by auto
  obtain nw where nw: "amounts_checked_sub (ordinary_tenant_usage g ! ti) old = Some nw"
    using amounts_vec.sub_defined [of old "ordinary_tenant_usage g ! ti"] cov [of "A_tenant ti _"] ti tab att
    by (auto simp: row_in)
  obtain pw where pw: "pools_checked_sub (pool_usage g) (pool_charge_capacities pools) = Some pw"
    using pools_vec.sub_defined [of "pool_charge_capacities pools" "pool_usage g"] cov [of "A_pool _"] att pools
    by (auto simp: owner_pool_amount_def)
  obtain npw where npw: "pools_checked_sub (ordinary_tenant_pool_usage g ! ti) (pool_charge_capacities pools) = Some npw"
    using pools_vec.sub_defined [of "pool_charge_capacities pools" "ordinary_tenant_pool_usage g ! ti"]
      cov [of "A_tenant_pool ti _"] ti tab att pools
    by (auto simp: owner_pool_amount_def row_in)
  show thesis
    by (rule that [OF pools(1) _ ti tw nw pw npw])
      (use pools cov [of A_outstanding] cov [of A_ordinary] cov [of "A_class (class_index (work_kind_class k))"]
        cov [of "A_tenant_count ti"] id ti tab att idx in \<open>simp_all add: row_in\<close>)
qed

lemma ordinary_unbooked_accounts:
  assumes inv: "ledger_inv n g" and h: "held g owner identity old i r"
    and att: "owner_attribution owner = Charge_Ordinary ti" and pools: "owner_pools owner = Some pools"
    and sub: "amounts_checked_sub (total_usage g) old = Some tw"
      "amounts_checked_sub (ordinary_tenant_usage g ! ti) old = Some nw"
      "pools_checked_sub (pool_usage g) (pool_charge_capacities pools) = Some pw"
      "pools_checked_sub (ordinary_tenant_pool_usage g ! ti) (pool_charge_capacities pools) = Some npw"
  shows "debited (\<lambda>acc. record_charge acc r) g (ordinary_unbooked ti (identity_class identity) tw nw pw npw g)"
  unfolding debited_def
proof
  fix acc
  note tab = ledger_invD(2) [OF inv, unfolded tables_wf_def]
  obtain one: "1 \<le> outstanding g" "1 \<le> outstanding_ordinary g" "1 \<le> class_counts g ! class_index (identity_class identity)"
    "1 \<le> tenant_outstanding g ! ti" "class_index (identity_class identity) < 5" "\<exists>t p k. identity = Ordinary t p k" "ti < n"
    by (rule held_ordinary_without [OF inv h att])
  then show "account_value acc g
      = account_value acc (ordinary_unbooked ti (identity_class identity) tw nw pw npw g) + record_charge acc r"
    using taken(1) [OF sub(1)] taken(1) [OF sub(2)] taken(2) [OF sub(3)] taken(2) [OF sub(4)] att pools tab
    unfolding held_charge [OF h]
    by (cases acc) (auto simp: ordinary_unbooked_def row_update row_in owner_pool_amount_def kind_uninterruptible_def
        simp del: split_paired_All)
qed

text \<open>What a locked resize may do.\<close>

definition kept :: "governor \<Rightarrow> resize_failure + resize_commit \<Rightarrow> governor \<Rightarrow> bool" where
  "kept g res g' \<longleftrightarrow> (\<exists>f. res = Inl f \<and> (rf_disposition f = CancelledBeforeLimit \<longrightarrow> lifecycle g' = Fenced) \<and>
     (g' = g \<or> g' = g\<lparr> lifecycle := Fenced \<rparr>))"

definition cancelled :: "nat \<Rightarrow> governor \<Rightarrow> nat \<Rightarrow> grant_record \<Rightarrow> resize_failure + resize_commit \<Rightarrow> governor \<Rightarrow> bool" where
  "cancelled n g i r res g' \<longleftrightarrow> (\<exists>f. res = Inl f \<and> rf_disposition f = CancelledBeforeLimit) \<and> given_back n g i r g'"

definition resized ::
  "nat \<Rightarrow> governor \<Rightarrow> resize_request \<Rightarrow> grant_record \<Rightarrow> resize_failure + resize_commit \<Rightarrow> governor \<Rightarrow> bool" where
  "resized n g rq r res g' \<longleftrightarrow> (\<exists>c r'. res = Inr c \<and> commit_outcome c = resize_outcome_of (rq_old rq) (rq_new rq) \<and>
     owner_attribution (commit_owner c) = owner_attribution (rq_owner rq) \<and>
     ledger_inv n g' \<and> exchanged n g (rq_slot rq) r r' g' \<and>
     held g' (commit_owner c) (rq_identity rq) (rq_new rq) (rq_slot rq) r' \<and> gr_operation r' = gr_operation r)"

definition resize_effect ::
  "nat \<Rightarrow> governor \<Rightarrow> resize_request \<Rightarrow> grant_record \<Rightarrow> (resize_failure + resize_commit) \<times> governor \<Rightarrow> bool" where
  "resize_effect n g rq r out \<longleftrightarrow> (case out of (res, g') \<Rightarrow>
     kept g res g' \<or> cancelled n g (rq_slot rq) r res g' \<or> resized n g rq r res g')"

lemma fence_resize_kept: "resize_effect n g rq r (fence_resize cls g)"
  by (simp add: resize_effect_def kept_def fence_resize_def)

text \<open>A resize that has posted the new charge writes it into the record.\<close>

lemma resized_commit:
  assumes inv: "ledger_inv n g" and h: "held g (rq_owner rq) (rq_identity rq) (rq_old rq) (rq_slot rq) r"
    and own: "owner_matches owner' (rq_identity rq) (rq_new rq)"
    and att: "owner_attribution owner' = owner_attribution (rq_owner rq)"
    and g1: "grant_records g1 = grant_records g" "slot_signals g1 = slot_signals g" "free_slots g1 = free_slots g"
      "world g1 = world g" "tables_wf n g1"
    and books: "\<And>acc. account_value acc g1 + record_charge acc r = account_value acc g +
      grant_charge owner' (identity_class (rq_identity rq)) (identity_ordinary (rq_identity rq))
        (identity_recovery_kind (rq_identity rq)) (rq_new rq) acc"
  obtains g' where "replace_slot_record (rq_slot rq) owner' (rq_identity rq) (rq_new rq) g1 = (True, g')"
    "resized n g rq r (Inr \<lparr> commit_owner = owner', commit_outcome = resize_outcome_of (rq_old rq) (rq_new rq) \<rparr>) g'"
proof -
  let ?i = "rq_slot rq"
  note hD = heldD [OF h]
  obtain r' where r': "record_replaced r owner' (rq_identity rq) (rq_new rq) = Some r'"
    "grant_record_new owner' (rq_identity rq) (rq_new rq) (gr_operation r') = Some r'"
    and same: "gr_operation r' = gr_operation r" "gr_tenant r' = gr_tenant r" "gr_principal r' = gr_principal r"
      "gr_tenant_index r' = gr_tenant_index r" "record_class r' = record_class r"
    by (rule record_replaced_held [OF h own att])
  let ?g' = "g1\<lparr> grant_records := (grant_records g)[?i := Some r'] \<rparr>"
  have rep: "replace_slot_record ?i owner' (rq_identity rq) (rq_new rq) g1 = (True, ?g')"
    using hD(1,2,4) g1(1,2) r'(1) ledger_invD(1) [OF inv]
    by (simp add: replace_slot_record_def slot_is_active_def slice_get_def slot_get_def slots_wf_def)
  have val: "account_value acc ?g' = account_value acc g1" for acc by (cases acc) simp_all
  have live: "live_slot ?g' ?i r'"
    using hD(1-4) g1(2) same(1) by (simp add: live_slot_def retired_def)
  then have held': "held ?g' owner' (rq_identity rq) (rq_new rq) ?i r'" using own r'(2) by (simp add: held_def)
  have ex: "exchanged n g ?i r r' ?g'"
    using g1 books held_charge [OF held'] val
    by (simp add: exchanged_def tables_wf_def world_def relist_def books_erased_def)
  have "record_ok n r'"
  proof (rule owner_matches_facts(1) [OF r'(2) own])
    show "j < n" if "attribution_tenant (owner_attribution owner') = Some j" for j
      using held_tenant [OF inv h] that att by simp
    show "\<exists>t p k. rq_identity rq = Ordinary t p k" if "gr_operation r' \<noteq> None"
      using ledger_invD(5) [OF inv hD(1,2)] that same(1) hD(9)
      by (cases "rq_identity rq") (simp_all add: record_ok_def)
  qed
  then have "ledger_inv n ?g'" by (rule ledger_inv_exchange [OF inv hD(1,2) ex _ same])
  then show thesis using that [OF rep] ex held' same(1) att unfolding resized_def by auto
qed

lemma commit_resized_ordinary_effect:
  assumes inv: "ledger_inv n g" and n: "n \<le> u16_max" and h: "held g (rq_owner rq) (rq_identity rq) (rq_old rq) (rq_slot rq) r"
    and att: "owner_attribution (rq_owner rq) = Charge_Ordinary ti" and pools: "owner_pools (rq_owner rq) = Some pools"
    and sub: "amounts_checked_sub (total_usage g) (rq_old rq) = Some tw"
      "amounts_checked_sub (ordinary_tenant_usage g ! ti) (rq_old rq) = Some nw"
      "pools_checked_sub (pool_usage g) (pool_charge_capacities pools) = Some pw"
      "pools_checked_sub (ordinary_tenant_pool_usage g ! ti) (pool_charge_capacities pools) = Some npw"
    and new: "pool_for_class (identity_class (rq_identity rq)) = Some (charge_class_pool c)"
      "\<And>d. amounts_get (charge_shared c) d + amounts_get (charge_protected c) d = amounts_get (rq_new rq) d"
  shows "resize_effect n g rq r (commit_resized_ordinary rq ti cls tw nw pw npw c g)"
proof -
  note tab = ledger_invD(2) [OF inv]
  obtain t p k where id: "rq_identity rq = Ordinary t p k" and ti: "ti < n"
    using held_ordinary_without [OF inv h att] by metis
  show ?thesis
  proof (cases "amounts_checked_add tw (rq_new rq) = None \<or> amounts_checked_add nw (rq_new rq) = None \<or>
      pools_checked_add pw (pool_charge_capacities c) = None \<or> pools_checked_add npw (pool_charge_capacities c) = None")
    case True
    then have "commit_resized_ordinary rq ti cls tw nw pw npw c g = fence_resize cls g"
      by (auto simp: commit_resized_ordinary_def Let_def some_or_fence_resize_def split: option.splits)
    then show ?thesis by (simp add: fence_resize_kept)
  next
    case False
    then obtain tc nc pc npc where add: "amounts_checked_add tw (rq_new rq) = Some tc"
      "amounts_checked_add nw (rq_new rq) = Some nc" "pools_checked_add pw (pool_charge_capacities c) = Some pc"
      "pools_checked_add npw (pool_charge_capacities c) = Some npc" by auto
    let ?owner = "\<lparr> owner_attribution = Charge_Ordinary ti, owner_pools = Some c, owner_recovery_pools = None \<rparr>"
    let ?g1 = "g\<lparr> ordinary_tenant_usage := (ordinary_tenant_usage g)[ti := nc],
        ordinary_tenant_pool_usage := (ordinary_tenant_pool_usage g)[ti := npc], total_usage := tc, pool_usage := pc \<rparr>"
    have own: "owner_matches ?owner (rq_identity rq) (rq_new rq)"
      using new ti n by (auto simp: id)
    have books: "account_value acc ?g1 + record_charge acc r = account_value acc g +
      grant_charge ?owner (identity_class (rq_identity rq)) (identity_ordinary (rq_identity rq))
        (identity_recovery_kind (rq_identity rq)) (rq_new rq) acc" for acc
      using posted(1) [OF add(1)] posted(1) [OF add(2)] posted(2) [OF add(3)] posted(2) [OF add(4)]
        taken(1) [OF sub(1)] taken(1) [OF sub(2)] taken(2) [OF sub(3)] taken(2) [OF sub(4)] att pools tab ti
      unfolding held_charge [OF h]
      by (cases acc) (auto simp: tables_wf_def row_update row_in owner_pool_amount_def id simp del: split_paired_All)
    obtain g' where g': "replace_slot_record (rq_slot rq) ?owner (rq_identity rq) (rq_new rq) ?g1 = (True, g')"
      "resized n g rq r (Inr \<lparr> commit_owner = ?owner, commit_outcome = resize_outcome_of (rq_old rq) (rq_new rq) \<rparr>) g'"
      by (rule resized_commit [OF inv h own _ _ _ _ _ _ books])
        (use att tab in \<open>simp_all add: world_def relist_def books_erased_def tables_wf_def\<close>)
    have "commit_resized_ordinary rq ti cls tw nw pw npw c g
        = (Inr \<lparr> commit_owner = ?owner, commit_outcome = resize_outcome_of (rq_old rq) (rq_new rq) \<rparr>, g')"
      using add g'(1) att ti tab by (simp add: commit_resized_ordinary_def Let_def slice_set_in tables_wf_def)
    then show ?thesis using g'(2) by (simp add: resize_effect_def)
  qed
qed

lemma cancel_resized_ordinary_effect:
  assumes inv: "ledger_inv n g" and h: "held g (rq_owner rq) (rq_identity rq) (rq_old rq) (rq_slot rq) r"
    and att: "owner_attribution (rq_owner rq) = Charge_Ordinary ti" and pools: "owner_pools (rq_owner rq) = Some pools"
    and sub: "amounts_checked_sub (total_usage g) (rq_old rq) = Some tw"
      "amounts_checked_sub (ordinary_tenant_usage g ! ti) (rq_old rq) = Some nw"
      "pools_checked_sub (pool_usage g) (pool_charge_capacities pools) = Some pw"
      "pools_checked_sub (ordinary_tenant_pool_usage g ! ti) (pool_charge_capacities pools) = Some npw"
    and f: "rf_disposition f = CancelledBeforeLimit"
  shows "resize_effect n g rq r (cancel_resized_ordinary rq ti (identity_class (rq_identity rq)) tw nw pw npw f g)"
proof -
  note tab = ledger_invD(2) [OF inv] and hD = heldD [OF h]
  obtain one: "1 \<le> outstanding g" "1 \<le> outstanding_ordinary g"
    "1 \<le> class_counts g ! class_index (identity_class (rq_identity rq))" "1 \<le> tenant_outstanding g ! ti"
    "class_index (identity_class (rq_identity rq)) < 5" "ti < n"
    by (rule held_ordinary_without [OF inv h att])
  let ?g1 = "ordinary_unbooked ti (identity_class (rq_identity rq)) tw nw pw npw g"
  note deb = ordinary_unbooked_accounts [OF inv h att pools sub]
  obtain g' where g': "retire_slot_with (fence_resize (identity_class (rq_identity rq))) (Inl f :: resize_failure + resize_commit) r
      (rq_slot rq) ?g1 = (Inl f, g')"
    "given_back n g (rq_slot rq) r g'"
    by (rule retire_given_back [OF inv hD(1-3) _ _ _ _ _ deb, where fence = "fence_resize (identity_class (rq_identity rq))" and res = "Inl f"])
      (use tab in \<open>simp_all add: ordinary_unbooked_frame\<close>)
  have "cancel_resized_ordinary rq ti (identity_class (rq_identity rq)) tw nw pw npw f g
      = retire_slot_with (fence_resize (identity_class (rq_identity rq))) (Inl f) r (rq_slot rq) ?g1"
    using one tab hD(1,2)
    by (simp add: cancel_resized_ordinary_def Let_def slice_get_def slice_set_in checked_sub_def tables_wf_def slot_get_def
        ordinary_unbooked_def)
  then show ?thesis using g' f by (simp add: resize_effect_def cancelled_def)
qed

lemma resize_ordinary_locked_effect:
  assumes inv: "ledger_inv n g" and n: "n \<le> u16_max" and h: "held g (rq_owner rq) (rq_identity rq) (rq_old rq) (rq_slot rq) r"
    and att: "owner_attribution (rq_owner rq) = Charge_Ordinary ti"
  shows "resize_effect n g rq r (resize_ordinary_locked cfg rq ti (identity_class (rq_identity rq)) g)"
proof (cases "lifecycle g = Fenced")
  case True
  then show ?thesis by (simp add: resize_ordinary_locked_def resize_effect_def kept_def)
next
  case False
  let ?cls = "identity_class (rq_identity rq)"
  note tab = ledger_invD(2) [OF inv]
  obtain pools tw nw pw npw where pools: "owner_pools (rq_owner rq) = Some pools"
    "pool_for_class ?cls = Some (charge_class_pool pools)" "ti < n"
    and sub: "amounts_checked_sub (total_usage g) (rq_old rq) = Some tw"
      "amounts_checked_sub (ordinary_tenant_usage g ! ti) (rq_old rq) = Some nw"
      "pools_checked_sub (pool_usage g) (pool_charge_capacities pools) = Some pw"
      "pools_checked_sub (ordinary_tenant_pool_usage g ! ti) (pool_charge_capacities pools) = Some npw"
    by (rule held_ordinary_without [OF inv h att])
  have run: "resize_ordinary_locked cfg rq ti ?cls g = (case plan_resized_pools cfg rq ti ?cls pools tw nw pw npw g of
       Inr new_pools \<Rightarrow> commit_resized_ordinary rq ti ?cls tw nw pw npw new_pools g
     | Inl fail \<Rightarrow>
         if rf_code fail = Resize_AdmissionRefused \<and> \<not> rq_preserve_existing rq
         then cancel_resized_ordinary rq ti ?cls tw nw pw npw fail g
         else (Inl fail, if rf_code fail = Resize_InternalFenced then g\<lparr> lifecycle := Fenced \<rparr> else g))"
    using False pools sub tab by (simp add: resize_ordinary_locked_def Let_def slice_get_def tables_wf_def)
  show ?thesis
  proof (cases "plan_resized_pools cfg rq ti ?cls pools tw nw pw npw g")
    case (Inr c)
    then show ?thesis
      using commit_resized_ordinary_effect [OF inv n h att pools(1) sub plan_resized_pools_exact [OF Inr pools(2)]] run
      by simp
  next
    case (Inl f)
    note fail = plan_resized_pools_failure [OF Inl]
    show ?thesis
    proof (cases "rf_code f = Resize_AdmissionRefused \<and> \<not> rq_preserve_existing rq")
      case True
      then have "rf_disposition f = CancelledBeforeLimit" using fail by auto
      then show ?thesis using cancel_resized_ordinary_effect [OF inv h att pools(1) sub] run Inl True by simp
    next
      case False
      then have "rf_disposition f = CancelledBeforeLimit \<longrightarrow> rf_code f = Resize_InternalFenced" using fail by auto
      then show ?thesis using run Inl False by (auto simp: resize_effect_def kept_def)
    qed
  qed
qed

end
