(* ===== verification/ReplacingRecovery.thy ===== *)
theory ReplacingRecovery
  imports Replacing
begin

text \<open>
  Resizing recovery work under the ledger invariant, and the dispatch between the two
  kinds of resize.
\<close>

section \<open>Recovery resize\<close>

lemma some_or_fence_effect:
  assumes "\<And>a. x = Some a \<Longrightarrow> resize_effect n g rq r (k a)"
  shows "resize_effect n g rq r (some_or_fence_resize cls g x k)"
  using assms by (cases x) (simp_all add: fence_resize_kept)

definition recovery_rebooked ::
  "usize option \<Rightarrow> resource_amounts \<Rightarrow> resource_amounts \<Rightarrow> recovery_pool_usage \<Rightarrow> recovery_pool_usage \<Rightarrow>
   resource_amounts option \<Rightarrow> governor \<Rightarrow> governor" where
  "recovery_rebooked ti total_new recovery_new pool_new scope_new tenant_new g =
     (case ti of
        None \<Rightarrow> g\<lparr> total_usage := total_new, recovery_usage := recovery_new, recovery_pool_usage := pool_new,
                     recovery_system_pool_usage := scope_new \<rparr>
      | Some i \<Rightarrow> g\<lparr> total_usage := total_new, recovery_usage := recovery_new, recovery_pool_usage := pool_new,
                      recovery_tenant_usage := (recovery_tenant_usage g)[i := the tenant_new],
                      recovery_tenant_pool_usage := (recovery_tenant_pool_usage g)[i := scope_new] \<rparr>)"

lemma recovery_rebooked_frame:
  "world (recovery_rebooked ti tn rn pn sn nn g) = world g"
  "grant_records (recovery_rebooked ti tn rn pn sn nn g) = grant_records g"
  "slot_signals (recovery_rebooked ti tn rn pn sn nn g) = slot_signals g"
  "free_slots (recovery_rebooked ti tn rn pn sn nn g) = free_slots g"
  "tables_wf n (recovery_rebooked ti tn rn pn sn nn g) = tables_wf n g"
  by (simp_all add: recovery_rebooked_def world_def relist_def books_erased_def tables_wf_def split: option.splits)

text \<open>The usage of the scope of a grant: the row of its tenant, or the pools of the instance.\<close>

definition scope_usage :: "usize option \<Rightarrow> governor \<Rightarrow> recovery_pool_usage" where
  "scope_usage ti g =
     (case ti of None \<Rightarrow> recovery_system_pool_usage g | Some i \<Rightarrow> recovery_tenant_pool_usage g ! i)"

definition recovery_taken ::
  "governor \<Rightarrow> usize option \<Rightarrow> recovery_pool_charge \<Rightarrow> resource_amounts \<Rightarrow> resource_amounts \<Rightarrow> resource_amounts \<Rightarrow>
   recovery_pool_usage \<Rightarrow> recovery_pool_usage \<Rightarrow> resource_amounts option \<Rightarrow> bool" where
  "recovery_taken g ti c old tw rw pw sw nw \<longleftrightarrow>
     amounts_checked_sub (total_usage g) old = Some tw \<and> amounts_checked_sub (recovery_usage g) old = Some rw \<and>
     recovery_usage_checked_sub (recovery_pool_usage g) c = Some pw \<and>
     recovery_usage_checked_sub (scope_usage ti g) c = Some sw \<and>
     (case ti of None \<Rightarrow> nw = None
      | Some i \<Rightarrow> \<exists>u. nw = Some u \<and> amounts_checked_sub (recovery_tenant_usage g ! i) old = Some u)"

lemma recovery_resized_accounts:
  assumes inv: "ledger_inv n g" and h: "held g owner (Recovery s k) old i r"
    and att: "owner_attribution owner = Charge_Recovery ti" and pools: "owner_recovery_pools owner = Some c"
    and sub: "recovery_taken g ti c old tw rw pw sw nw"
    and add: "amounts_checked_add tw new = Some tc" "amounts_checked_add rw new = Some rc"
      "recovery_usage_checked_add pw c' = Some pc" "recovery_usage_checked_add sw c' = Some sc"
      "case nw of None \<Rightarrow> nc = None | Some u \<Rightarrow> \<exists>v. nc = Some v \<and> amounts_checked_add u new = Some v"
  shows "account_value acc (recovery_rebooked ti tc rc pc sc nc g) + record_charge acc r = account_value acc g +
      grant_charge \<lparr> owner_attribution = Charge_Recovery ti, owner_pools = None, owner_recovery_pools = Some c' \<rparr>
        DurabilityRecovery False (Some k) new acc"
proof -
  have ti: "ti = Some j \<Longrightarrow> j < n" for j using held_tenant [OF inv h] att by simp
  have s: "\<forall>d. amounts_get (total_usage g) d = amounts_get tw d + amounts_get old d"
    "\<forall>d. amounts_get (recovery_usage g) d = amounts_get rw d + amounts_get old d"
    "\<forall>k. recovery_amount (recovery_pool_usage g) k = recovery_amount pw k + recovery_charge_amount c k"
    "\<forall>k. recovery_amount (scope_usage ti g) k = recovery_amount sw k + recovery_charge_amount c k"
    using sub taken unfolding recovery_taken_def by blast+
  note a = posted(1) [OF add(1)] posted(1) [OF add(2)] posted(3) [OF add(3)] posted(3) [OF add(4)]
  show ?thesis
  proof (cases ti)
    case None
    then show ?thesis
      using s a att pools unfolding held_charge [OF h]
      by (cases acc) (auto simp: recovery_rebooked_def scope_usage_def owner_recovery_amount_def simp del: split_paired_All)
  next
    case (Some j)
    obtain u v where uv: "nw = Some u" "nc = Some v" "amounts_checked_sub (recovery_tenant_usage g ! j) old = Some u"
      "amounts_checked_add u new = Some v"
      using sub add(5) Some by (auto simp: recovery_taken_def)
    have "j < length (recovery_tenant_usage g)" "j < length (recovery_tenant_pool_usage g)"
      using ti Some ledger_invD(2) [OF inv] by (simp_all add: tables_wf_def)
    then show ?thesis
      using s a att pools Some uv(1,2) taken(1) [OF uv(3)] posted(1) [OF uv(4)] unfolding held_charge [OF h]
      by (cases acc) (auto simp: recovery_rebooked_def scope_usage_def owner_recovery_amount_def row_update row_in
          simp del: split_paired_All)
  qed
qed

lemma commit_resized_recovery_effect:
  assumes inv: "ledger_inv n g" and n: "n \<le> u16_max" and h: "held g (rq_owner rq) (Recovery s k) (rq_old rq) (rq_slot rq) r"
    and id: "rq_identity rq = Recovery s k"
    and att: "owner_attribution (rq_owner rq) = Charge_Recovery ti" and pools: "owner_recovery_pools (rq_owner rq) = Some c"
    and sub: "recovery_taken g ti c (rq_old rq) tw rw pw sw nw"
    and add: "amounts_checked_add rw (rq_new rq) = Some rc"
      "case nw of None \<Rightarrow> nc = None | Some u \<Rightarrow> \<exists>v. nc = Some v \<and> amounts_checked_add u (rq_new rq) = Some v"
    and new: "rc_kind c' = k" "\<And>d. amounts_get (rc_shared c') d + amounts_get (rc_protected c') d = amounts_get (rq_new rq) d"
  shows "resize_effect n g rq r (commit_resized_recovery rq ti tw rc pw sw nc c' g)"
proof (cases "amounts_checked_add tw (rq_new rq) = None \<or> recovery_usage_checked_add pw c' = None \<or>
    recovery_usage_checked_add sw c' = None")
  case True
  then have "commit_resized_recovery rq ti tw rc pw sw nc c' g = fence_resize DurabilityRecovery g"
    by (auto simp: commit_resized_recovery_def Let_def some_or_fence_resize_def split: option.splits)
  then show ?thesis by (simp add: fence_resize_kept)
next
  case False
  then obtain tc pc sc where adds: "amounts_checked_add tw (rq_new rq) = Some tc"
    "recovery_usage_checked_add pw c' = Some pc" "recovery_usage_checked_add sw c' = Some sc" by auto
  note tab = ledger_invD(2) [OF inv]
  let ?owner = "\<lparr> owner_attribution = Charge_Recovery ti, owner_pools = None, owner_recovery_pools = Some c' \<rparr>"
  let ?g1 = "recovery_rebooked ti tc rc pc sc nc g"
  have ti: "ti = Some j \<Longrightarrow> j < n" for j using held_tenant [OF inv h] att by simp
  have own: "owner_matches ?owner (rq_identity rq) (rq_new rq)" using new ti n unfolding id by force
  obtain g' where g': "replace_slot_record (rq_slot rq) ?owner (rq_identity rq) (rq_new rq) ?g1 = (True, g')"
    "resized n g rq r (Inr \<lparr> commit_owner = ?owner, commit_outcome = resize_outcome_of (rq_old rq) (rq_new rq) \<rparr>) g'"
  proof (rule resized_commit [OF inv h [folded id] own])
    show "account_value acc ?g1 + record_charge acc r = account_value acc g +
      grant_charge ?owner (identity_class (rq_identity rq)) (identity_ordinary (rq_identity rq))
        (identity_recovery_kind (rq_identity rq)) (rq_new rq) acc" for acc
      using recovery_resized_accounts [OF inv h att pools sub adds(1) add(1) adds(2,3) add(2)] by (simp add: id)
  qed (use att tab in \<open>simp_all add: recovery_rebooked_frame\<close>)
  have "(case ti of None \<Rightarrow> nw = None | Some i \<Rightarrow> \<exists>u. nw = Some u)"
    using sub by (auto simp: recovery_taken_def split: option.splits)
  then have "commit_resized_recovery rq ti tw rc pw sw nc c' g
      = (Inr \<lparr> commit_owner = ?owner, commit_outcome = resize_outcome_of (rq_old rq) (rq_new rq) \<rparr>, g')"
    using adds add(2) g'(1) ti tab
    by (cases ti) (auto simp: commit_resized_recovery_def recovery_rebooked_def Let_def slice_set_in tables_wf_def)
  then show ?thesis using g'(2) by (simp add: resize_effect_def)
qed

definition recovery_unbooked ::
  "usize option \<Rightarrow> resource_amounts \<Rightarrow> resource_amounts \<Rightarrow> recovery_pool_usage \<Rightarrow> recovery_pool_usage \<Rightarrow>
   resource_amounts option \<Rightarrow> governor \<Rightarrow> governor" where
  "recovery_unbooked ti tw rw pw sw nw g =
     (recovery_rebooked ti tw rw pw sw nw g)
     \<lparr> outstanding := outstanding g - 1, outstanding_recovery := outstanding_recovery g - 1,
       class_counts := (class_counts g)[0 := class_counts g ! 0 - 1],
       tenant_outstanding := (case ti of None \<Rightarrow> tenant_outstanding g
         | Some i \<Rightarrow> (tenant_outstanding g)[i := tenant_outstanding g ! i - 1]) \<rparr>"

lemma recovery_unbooked_frame:
  "world (recovery_unbooked ti tn rn pn sn nn g) = world g"
  "grant_records (recovery_unbooked ti tn rn pn sn nn g) = grant_records g"
  "slot_signals (recovery_unbooked ti tn rn pn sn nn g) = slot_signals g"
  "free_slots (recovery_unbooked ti tn rn pn sn nn g) = free_slots g"
  "tables_wf n (recovery_unbooked ti tn rn pn sn nn g) = tables_wf n g"
  by (simp_all add: recovery_unbooked_def recovery_rebooked_def world_def relist_def books_erased_def tables_wf_def
      split: option.splits)

lemma recovery_unbooked_accounts:
  assumes inv: "ledger_inv n g" and h: "held g owner (Recovery s k) old i r"
    and att: "owner_attribution owner = Charge_Recovery ti" and pools: "owner_recovery_pools owner = Some c"
    and sub: "recovery_taken g ti c old tw rw pw sw nw" and kind: "\<not> retains_capacity_on_resize_failure k"
  shows "debited (\<lambda>acc. record_charge acc r) g (recovery_unbooked ti tw rw pw sw nw g)"
  unfolding debited_def
proof
  fix acc
  note cov = held_covers [OF inv h] and tab = ledger_invD(2) [OF inv, unfolded tables_wf_def]
  have ti: "ti = Some j \<Longrightarrow> j < n" for j using held_tenant [OF inv h] att by simp
  have one: "1 \<le> outstanding g" "1 \<le> outstanding_recovery g" "1 \<le> class_counts g ! 0"
    "ti = Some j \<Longrightarrow> 1 \<le> tenant_outstanding g ! j" for j
    using cov [of A_outstanding] cov [of A_recovery_count] cov [of "A_class 0"] cov [of "A_tenant_count j"] tab att ti
    by (simp_all add: row_in)
  have s: "\<forall>d. amounts_get (total_usage g) d = amounts_get tw d + amounts_get old d"
    "\<forall>d. amounts_get (recovery_usage g) d = amounts_get rw d + amounts_get old d"
    "\<forall>k. recovery_amount (recovery_pool_usage g) k = recovery_amount pw k + recovery_charge_amount c k"
    "\<forall>k. recovery_amount (scope_usage ti g) k = recovery_amount sw k + recovery_charge_amount c k"
    using sub taken unfolding recovery_taken_def by blast+
  show "account_value acc g = account_value acc (recovery_unbooked ti tw rw pw sw nw g) + record_charge acc r"
  proof (cases ti)
    case None
    then show ?thesis
      using s one att pools kind tab unfolding held_charge [OF h]
      by (cases acc) (auto simp: recovery_unbooked_def recovery_rebooked_def scope_usage_def owner_recovery_amount_def
          kind_uninterruptible_def row_update row_in simp del: split_paired_All)
  next
    case (Some j)
    obtain u where u: "nw = Some u" "amounts_checked_sub (recovery_tenant_usage g ! j) old = Some u"
      using sub Some by (auto simp: recovery_taken_def)
    show ?thesis
      using s one(1-3) one(4) [OF Some] ti [OF Some] att pools kind tab Some u(1) taken(1) [OF u(2)]
      unfolding held_charge [OF h]
      by (cases acc) (auto simp: recovery_unbooked_def recovery_rebooked_def scope_usage_def owner_recovery_amount_def
          kind_uninterruptible_def row_update row_in simp del: split_paired_All)
  qed
qed

lemma cancel_resized_recovery_effect:
  assumes inv: "ledger_inv n g" and h: "held g (rq_owner rq) (Recovery s k) (rq_old rq) (rq_slot rq) r"
    and att: "owner_attribution (rq_owner rq) = Charge_Recovery ti" and pools: "owner_recovery_pools (rq_owner rq) = Some c"
    and sub: "recovery_taken g ti c (rq_old rq) tw rw pw sw nw" and kind: "\<not> retains_capacity_on_resize_failure k"
    and f: "rf_disposition f = CancelledBeforeLimit"
  shows "resize_effect n g rq r (cancel_resized_recovery rq ti tw rw pw sw nw f g)"
proof -
  note tab = ledger_invD(2) [OF inv] and hD = heldD [OF h] and cov = held_covers [OF inv h]
  have ti: "ti = Some j \<Longrightarrow> j < n" for j using held_tenant [OF inv h] att by simp
  have one: "1 \<le> outstanding g" "1 \<le> outstanding_recovery g" "1 \<le> class_counts g ! 0"
    "ti = Some j \<Longrightarrow> 1 \<le> tenant_outstanding g ! j" for j
    using cov [of A_outstanding] cov [of A_recovery_count] cov [of "A_class 0"] cov [of "A_tenant_count j"] tab att ti
    by (simp_all add: row_in tables_wf_def)
  have op: "gr_operation r = None"
    using ledger_invD(5) [OF inv hD(1,2)] hD(9) by (auto simp: record_ok_def)
  let ?g1 = "recovery_unbooked ti tw rw pw sw nw g"
  let ?fail = "Inl f :: resize_failure + resize_commit"
  obtain g' where g': "retire_slot_with (fence_resize DurabilityRecovery) ?fail r (rq_slot rq) ?g1 = (?fail, g')"
    "given_back n g (rq_slot rq) r g'"
    by (rule retire_given_back [OF inv hD(1-3) _ _ _ _ _ recovery_unbooked_accounts [OF inv h att pools sub kind],
          where fence = "fence_resize DurabilityRecovery" and res = ?fail])
      (use tab in \<open>simp_all add: recovery_unbooked_frame\<close>)
  have "(case ti of None \<Rightarrow> nw = None | Some i \<Rightarrow> \<exists>u. nw = Some u)"
    using sub by (auto simp: recovery_taken_def split: option.splits)
  then have "cancel_resized_recovery rq ti tw rw pw sw nw f g
      = retire_slot_with (fence_resize DurabilityRecovery) ?fail r (rq_slot rq) ?g1"
    using one ti tab op
    by (cases ti) (auto simp: cancel_resized_recovery_def Let_def slice_get_def slice_set_in checked_sub_def tables_wf_def
        retire_slot_with_def recovery_unbooked_def recovery_rebooked_def)
  then show ?thesis using g' f by (simp add: resize_effect_def cancelled_def)
qed

lemma plan_resized_recovery_exact:
  assumes "plan_resized_recovery cfg rq ti k tw ou pw sw nw g = Inr c"
  shows "rc_kind c = k" "amounts_get (rc_shared c) d + amounts_get (rc_protected c) d = amounts_get (rq_new rq) d"
proof -
  obtain scope where "plan_recovery_pools cfg k (ti \<noteq> None) (rq_new rq) pw ou scope (disk_pressure g) = Inr c"
    using assms by (auto simp: plan_resized_recovery_def Let_def and_then_def split: sum.splits if_splits)
  then obtain v w where "plan_recovery_charge k (rq_new rq) v w = Inr c"
    unfolding plan_recovery_pools_def map_err_Inr_iff by blast
  then show "rc_kind c = k" "amounts_get (rc_shared c) d + amounts_get (rc_protected c) d = amounts_get (rq_new rq) d"
    using plan_recovery_charge_exact(1,2) by blast+
qed

lemma transpose_SomeE:
  assumes "transpose_option (Some x) = Some y"
  obtains z where "x = Some z" "y = Some z"
  using assms by (cases x) auto

lemma resize_recovery_locked_effect:
  assumes inv: "ledger_inv n g" and n: "n \<le> u16_max" and h: "held g (rq_owner rq) (rq_identity rq) (rq_old rq) (rq_slot rq) r"
    and id: "rq_identity rq = Recovery s k" and att: "owner_attribution (rq_owner rq) = Charge_Recovery ti"
  shows "resize_effect n g rq r (resize_recovery_locked cfg rq ti k g)"
proof (cases "lifecycle g = Fenced")
  case True
  then show ?thesis by (simp add: resize_recovery_locked_def resize_effect_def kept_def Let_def)
next
  case False
  note h' = h [unfolded id]
  have ti: "ti = Some j \<Longrightarrow> j < n" for j using held_tenant [OF inv h] att by simp
  show ?thesis
    unfolding resize_recovery_locked_def Let_def if_not_P [OF False]
  proof (intro some_or_fence_effect)
    fix c tw rw ou rc pw sw nw nc
    assume c: "owner_recovery_pools (rq_owner rq) = Some c" and sub: "amounts_checked_sub (total_usage g) (rq_old rq) = Some tw"
      "amounts_checked_sub (recovery_usage g) (rq_old rq) = Some rw"
      and rc: "amounts_checked_add rw (rq_new rq) = Some rc"
      and pw: "recovery_usage_checked_sub (recovery_pool_usage g) c = Some pw"
      and sw: "(case ti of None \<Rightarrow> recovery_usage_checked_sub (recovery_system_pool_usage g) c
          | Some i \<Rightarrow> Option.bind (slice_get (recovery_tenant_pool_usage g) i) (\<lambda>u. recovery_usage_checked_sub u c)) = Some sw"
      and nw: "transpose_option (map_option (\<lambda>i. Option.bind (slice_get (recovery_tenant_usage g) i)
          (\<lambda>u. amounts_checked_sub u (rq_old rq))) ti) = Some nw"
      and nc: "transpose_option (map_option (\<lambda>u. amounts_checked_add u (rq_new rq)) nw) = Some nc"
    have taken: "recovery_taken g ti c (rq_old rq) tw rw pw sw nw"
      using sub pw sw nw by (cases ti) (auto simp: recovery_taken_def scope_usage_def Option.bind_eq_Some_conv
          elim!: transpose_SomeE)
    have cand: "case nw of None \<Rightarrow> nc = None | Some u \<Rightarrow> \<exists>v. nc = Some v \<and> amounts_checked_add u (rq_new rq) = Some v"
      using nc by (cases nw) (auto elim!: transpose_SomeE)
    show "resize_effect n g rq r (case plan_resized_recovery cfg rq ti k tw ou pw sw nw g of
       Inl admission \<Rightarrow>
         if rq_preserve_existing rq \<or> retains_capacity_on_resize_failure k
         then (Inl (resize_admission admission CapacityRetained), g)
         else cancel_resized_recovery rq ti tw rw pw sw nw (resize_admission admission CancelledBeforeLimit) g
     | Inr charge \<Rightarrow> commit_resized_recovery rq ti tw rc pw sw nc charge g)"
    proof (cases "plan_resized_recovery cfg rq ti k tw ou pw sw nw g")
      case (Inl f)
      then show ?thesis
        using cancel_resized_recovery_effect [OF inv h' att c taken, of "resize_admission f CancelledBeforeLimit"]
        by (auto simp: resize_effect_def kept_def)
    next
      case (Inr charge)
      then show ?thesis
        using commit_resized_recovery_effect [OF inv n h' id att c taken rc cand plan_resized_recovery_exact [OF Inr]] by simp
    qed
  qed
qed

end
