(* ===== verification/Sections.thy ===== *)
theory Sections
  imports ReplacingRecovery
begin

text \<open>
  The public operations of the governor, lock and all, under the governor invariant. Every
  operation either leaves the held grants alone, or adds, exchanges or removes exactly one.
\<close>

section \<open>Steady sections\<close>

text \<open>
  A section is steady when it keeps the invariant and every held grant, and does not
  reopen a fenced governor.
\<close>

definition steady :: "nat \<Rightarrow> governor \<Rightarrow> governor \<Rightarrow> bool" where
  "steady n g g' \<longleftrightarrow> governor_inv n g' \<and> survives g g' \<and> (lifecycle g = Fenced \<longrightarrow> lifecycle g' = Fenced)"

lemma steady_refl: "governor_inv n g \<Longrightarrow> steady n g g"
  by (simp add: steady_def)

lemma steady_trans: "steady n a b \<Longrightarrow> steady n b c \<Longrightarrow> steady n a c"
  using survives_trans by (auto simp: steady_def)

definition ledger_view where
  "ledger_view g = (core g, pending_words g, has_pending_releases g)"

lemma ledger_view_inv:
  assumes "ledger_view g' = ledger_view g"
  shows "governor_inv n g' = governor_inv n g"
proof -
  have c: "core g' = core g" and p: "pending_words g' = pending_words g" "has_pending_releases g' = has_pending_releases g"
    using assms by (simp_all add: ledger_view_def)
  have "marked g' = marked g" unfolding marked_def p ..
  then show ?thesis
    unfolding governor_inv_def pending_inv_def core_ledger_inv [OF c] core_pending_slots [OF c] core_slots(1) [OF c] p by simp
qed

lemma steady_view:
  assumes "governor_inv n g" and "ledger_view g' = ledger_view g" and "lifecycle g = Fenced \<longrightarrow> lifecycle g' = Fenced"
  shows "steady n g g'"
  using assms ledger_view_inv [OF assms(2)] core_survives [of g' g] by (simp add: steady_def ledger_view_def)

lemma ledger_view_updates [simp]:
  "ledger_view (g\<lparr> lifecycle := l \<rparr>) = ledger_view g" "ledger_view (g\<lparr> pending_fence := b \<rparr>) = ledger_view g"
  "ledger_view (g\<lparr> rejection_counts := rc \<rparr>) = ledger_view g" "ledger_view (g\<lparr> contention_count := cc \<rparr>) = ledger_view g"
  "ledger_view (g\<lparr> next_operation_generation := m \<rparr>) = ledger_view g"
  "ledger_view (g\<lparr> tenant_quotas := tq \<rparr>) = ledger_view g" "ledger_view (g\<lparr> tenant_limits := tls \<rparr>) = ledger_view g"
  "ledger_view (g\<lparr> tenant_fair_capacities := tf \<rparr>) = ledger_view g"
  "ledger_view (g\<lparr> recovery_tenant_shared_fair := ts \<rparr>) = ledger_view g"
  "ledger_view (g\<lparr> recovery_tenant_pool_fair := tp \<rparr>) = ledger_view g"
  "ledger_view (g\<lparr> recovery_system_pool_capacities := sp \<rparr>) = ledger_view g"
  "ledger_view (g\<lparr> pending_tenant := pt \<rparr>) = ledger_view g"
  "ledger_view (g\<lparr> usable_disk_bytes := u \<rparr>) = ledger_view g" "ledger_view (g\<lparr> disk_pressure := d \<rparr>) = ledger_view g"
  "ledger_view (g\<lparr> pressure_transition_count := pc \<rparr>) = ledger_view g" "ledger_view (g\<lparr> last_pressure := lp \<rparr>) = ledger_view g"
  by (simp_all add: ledger_view_def core_def)

section \<open>Taking the lock\<close>

lemma settle_steady:
  assumes "governor_inv n g"
  shows "steady n g (settle g)" "pending_slots (settle g) = {}"
proof -
  note d = drain_pending_inv [OF assms]
  have lc: "lifecycle (drain_pending g) = lifecycle g" by (rule outside_fields(2) [OF d(4)])
  have s: "steady n g (drain_pending g)" using d lc by (simp add: steady_def)
  have "steady n (drain_pending g) (settle g)"
    by (rule steady_view [OF d(1)]) (simp_all add: settle_def Let_def)
  with s show "steady n g (settle g)" by (rule steady_trans)
  have "core (settle g) = core (drain_pending g)" by (simp add: settle_def Let_def)
  then show "pending_slots (settle g) = {}" using core_pending_slots d(2) by metis
qed

lemma lock_for_admission_steady:
  assumes "governor_inv n g" and "lock_for_admission lock cls g = (res, g')"
  shows "steady n g g'"
  using assms(2) settle_steady(1) [OF assms(1)]
  by (cases lock) (auto simp: lock_for_admission_def split: option.splits intro!: steady_view [OF assms(1)])

lemma try_lock_for_control_steady:
  assumes "governor_inv n g" and "try_lock_for_control lock g = (res, g')"
  shows "steady n g g'"
  using assms settle_steady(1) [OF assms(1)] steady_refl [OF assms(1)]
  by (cases lock) (auto simp: try_lock_for_control_def intro: steady_view [OF assms(1)])

lemma with_control_steady:
  assumes inv: "governor_inv n g"
    and body: "\<And>g1 res g2. governor_inv n g1 \<Longrightarrow> body g1 = (res, g2) \<Longrightarrow> steady n g1 g2"
    and run: "with_control lock g body = (res, g')"
  shows "steady n g g'"
proof -
  obtain lr g1 where l: "try_lock_for_control lock g = (lr, g1)" by (cases "try_lock_for_control lock g")
  have s: "steady n g g1" by (rule try_lock_for_control_steady [OF inv l])
  then have inv1: "governor_inv n g1" by (simp add: steady_def)
  show ?thesis
  proof (cases lr)
    case (Inl e)
    then show ?thesis using run l s by (simp add: with_control_def)
  next
    case (Inr u)
    then have "body g1 = (res, g')" using run l by (simp add: with_control_def)
    from body [OF inv1 this] s show ?thesis by (blast intro: steady_trans)
  qed
qed

lemma record_refusal_steady:
  assumes "governor_inv n g"
  shows "steady n g (record_refusal_locked f g)"
  by (rule steady_view [OF assms]) (simp_all add: record_refusal_locked_def Let_def split: option.splits)

section \<open>Topology, pressure, shutdown and snapshots\<close>

lemma snapshot_from_steady:
  assumes "governor_inv n g" and "snapshot_from cfg g = (res, g')"
  shows "steady n g g'"
  by (rule steady_view [OF assms(1)]) (use assms(2) in \<open>auto simp: snapshot_from_def split: option.splits\<close>)

lemma governor_snapshot_steady:
  assumes inv: "governor_inv n g" and run: "governor_snapshot cfg lock g = (res, g')"
  shows "steady n g g'"
proof (cases lock)
  case LockOk
  have s: "steady n g (settle g)" by (rule settle_steady(1) [OF inv])
  have "steady n (settle g) g'"
    by (rule snapshot_from_steady) (use s LockOk run in \<open>simp_all add: governor_snapshot_def steady_def\<close>)
  with s show ?thesis by (rule steady_trans)
next
  case LockWouldBlock
  then show ?thesis using run steady_refl [OF inv] by (simp add: governor_snapshot_def)
next
  case LockPoisoned
  let ?g = "(drain_pending g)\<lparr> lifecycle := Fenced \<rparr>"
  note d = drain_pending_inv [OF inv]
  have 1: "steady n (drain_pending g) ?g" by (rule steady_view [OF d(1)]) simp_all
  have 2: "steady n ?g g'"
    by (rule snapshot_from_steady) (use 1 LockPoisoned run in \<open>auto simp: governor_snapshot_def steady_def\<close>)
  have "steady n g (drain_pending g)" using d outside_fields(2) [OF d(4)] by (simp add: steady_def)
  then show ?thesis using 1 2 steady_trans by blast
qed

lemma begin_shutdown_steady:
  assumes inv: "governor_inv n g" and run: "begin_shutdown cfg lock g = (res, g')"
  shows "steady n g g'"
  using inv
proof (rule with_control_steady [OF _ _ run [unfolded begin_shutdown_def]])
  fix g1 res g2
  assume i: "governor_inv n g1" and r: "(case lifecycle g1 of Open \<Rightarrow> snapshot_from cfg (g1\<lparr> lifecycle := ShuttingDown \<rparr>)
       | ShuttingDown \<Rightarrow> snapshot_from cfg g1 | Fenced \<Rightarrow> (Inl InternalFenced, g1)) = (res, g2)"
  have s: "steady n g1 (g1\<lparr> lifecycle := ShuttingDown \<rparr>)" if "lifecycle g1 = Open"
    by (rule steady_view [OF i]) (simp_all add: that)
  show "steady n g1 g2"
  proof (cases "lifecycle g1")
    case Open
    have "steady n (g1\<lparr> lifecycle := ShuttingDown \<rparr>) g2"
      by (rule snapshot_from_steady) (use s [OF Open] Open r in \<open>simp_all add: steady_def\<close>)
    with s [OF Open] show ?thesis by (rule steady_trans)
  qed (use r i snapshot_from_steady [OF i] steady_refl [OF i] in auto)
qed

lemma apply_disk_observation_steady:
  assumes inv: "governor_inv n g" and run: "apply_disk_observation cfg lock u g = (res, g')"
  shows "steady n g g'"
  using inv
proof (rule with_control_steady [OF _ _ run [unfolded apply_disk_observation_def]], goal_cases)
  case (1 g1 res g2)
  show ?case
    by (rule steady_view [OF 1(1)])
      (use 1(2) in \<open>auto simp: Let_def publish_pressure_def split: if_splits option.splits\<close>)
qed

lemma enroll_tenant_quota_steady:
  assumes inv: "governor_inv n g" and run: "enroll_tenant_quota cfg reserve lock tenant w limits pending g = (res, g')"
  shows "steady n g g'"
proof (cases "validate_tenant_quota cfg w limits")
  case (Inl e)
  then show ?thesis using run steady_refl [OF inv] by (simp add: enroll_tenant_quota_def)
next
  case (Inr u)
  show ?thesis
    using inv
  proof (rule with_control_steady [OF _ _ run [unfolded enroll_tenant_quota_def Inr sum.case]], goal_cases)
    case (1 g1 res g2)
    show ?case
      by (rule steady_view [OF 1(1)]) (use 1(2) in \<open>auto simp: Let_def split: if_splits sum.splits\<close>)
  qed
qed

lemma stage_tenant_quota_update_steady:
  assumes inv: "governor_inv n g" and run: "stage_tenant_quota_update cfg reserve lock tenant w limits g = (res, g')"
  shows "steady n g g'"
proof (cases "validate_tenant_quota cfg w limits")
  case (Inl e)
  then show ?thesis using run steady_refl [OF inv] by (simp add: stage_tenant_quota_update_def)
next
  case (Inr u)
  show ?thesis
    using inv
    by (rule with_control_steady [OF _ _ run [unfolded stage_tenant_quota_update_def Inr sum.case]])
      (simp add: steady_refl)
qed

lemma publish_quota_update_steady:
  assumes inv: "governor_inv n g"
  shows "steady n g (publish_quota_update poisoned successor g)"
proof -
  let ?g0 = "if poisoned then g\<lparr> lifecycle := Fenced \<rparr> else g"
  have 0: "steady n g ?g0" by (rule steady_view [OF inv]) simp_all
  then have "governor_inv n ?g0" by (simp only: steady_def)
  note s = settle_steady(1) [OF this]
  have "steady n (settle ?g0) (publish_quota_update poisoned successor g)"
    by (rule steady_view) (use s in \<open>simp_all add: publish_quota_update_def Let_def steady_def\<close>)
  with 0 s steady_trans show ?thesis by blast
qed

lemma update_tenant_quota_steady:
  assumes inv: "governor_inv n g" and run: "update_tenant_quota cfg reserve lock poisoned tenant w limits g = (res, g')"
  shows "steady n g g'"
proof -
  obtain sr g1 where st: "stage_tenant_quota_update cfg reserve lock tenant w limits g = (sr, g1)"
    by (cases "stage_tenant_quota_update cfg reserve lock tenant w limits g")
  note s = stage_tenant_quota_update_steady [OF inv st]
  have "governor_inv n g1" using s by (simp add: steady_def)
  note p = publish_quota_update_steady [OF this]
  show ?thesis using run st s p steady_trans by (cases sr) (auto simp: update_tenant_quota_def)
qed

lemma activate_tenant_quota_steady: "governor_inv n g \<Longrightarrow> steady n g (activate_tenant_quota tenant g)"
  by (rule steady_view) (simp_all add: activate_tenant_quota_def)

lemma rollback_tenant_quota_steady:
  assumes inv: "governor_inv n g"
  shows "steady n g (rollback_tenant_quota lock tenant g)"
proof -
  obtain lr g1 where l: "try_lock_for_control lock g = (lr, g1)" by (cases "try_lock_for_control lock g")
  have s: "steady n g g1" by (rule try_lock_for_control_steady [OF inv l])
  then have inv1: "governor_inv n g1" by (simp add: steady_def)
  have "steady n g1 (rollback_tenant_quota lock tenant g)"
    by (rule steady_view [OF inv1])
      (use l in \<open>auto simp: rollback_tenant_quota_def Let_def split: sum.splits option.splits\<close>)
  with s show ?thesis by (rule steady_trans)
qed

end
