(* ===== verification/Handles.thy ===== *)
theory Handles
  imports Sections
begin

text \<open>
  What a client sees: reservation handles. A handle is sound when its slot is live and
  holds the record the handle stands for. Every operation through a handle keeps the
  governor invariant and the soundness of all other handles.
\<close>

section \<open>Sound handles\<close>

definition handle_ok :: "governor \<Rightarrow> reservation \<Rightarrow> bool" where
  "handle_ok g h \<longleftrightarrow> res_active h \<and> (\<exists>r. held g (res_owner h) (res_identity h) (res_amounts h) (res_slot h) r)"

lemma grant_record_new_operation:
  assumes "grant_record_new owner identity amounts op = Some r"
  shows "grant_record_new owner identity amounts op' = Some (r\<lparr> gr_operation := op' \<rparr>)"
  using assms unfolding grant_record_new_def by (auto simp: map_option_case split: option.splits prod.splits)

lemma held_same_grant:
  assumes "held g owner identity amounts i r" and "live_slot g' i r'" and "same_grant r r'"
  shows "held g' owner identity amounts i r'"
proof -
  have new: "grant_record_new owner identity amounts (gr_operation r) = Some r"
    and own: "owner_matches owner identity amounts" using assms(1) by (simp_all add: held_def)
  have "grant_record_new owner identity amounts (gr_operation r') = Some r'"
    using assms(3) new grant_record_new_operation [OF new] by (auto simp: same_grant_def)
  then show ?thesis using own assms(2) by (simp add: held_def)
qed

lemma held_steady:
  assumes "steady n g g'" and h: "held g owner identity amounts i r"
  shows "\<exists>r'. held g' owner identity amounts i r'"
proof -
  have "live_slot g i r" using h by (simp add: held_def)
  then obtain r' where "live_slot g' i r'" "same_grant r r'" using assms(1) unfolding steady_def survives_def by blast
  then show ?thesis using held_same_grant [OF h] by blast
qed

lemma handle_ok_survives:
  assumes "handle_ok g h" and "\<And>r. live_slot g (res_slot h) r \<Longrightarrow> \<exists>r'. live_slot g' (res_slot h) r' \<and> same_grant r r'"
  shows "handle_ok g' h"
  using assms held_same_grant unfolding handle_ok_def held_def by meson

lemma handle_ok_steady: "steady n g g' \<Longrightarrow> handle_ok g h \<Longrightarrow> handle_ok g' h"
  by (rule handle_ok_survives) (auto simp: steady_def survives_def)

lemma handle_ok_slot: "handle_ok g h \<Longrightarrow> res_slot h \<in> live_slots g"
  by (auto simp: handle_ok_def held_def live_slots_def)

section \<open>Admission\<close>

text \<open>
  An admission is a steady prefix, which takes the lock and drains, followed by a grant of
  one slot that was not live; or it is steady and refuses.
\<close>

definition grants_slot :: "nat \<Rightarrow> governor \<Rightarrow> reservation \<Rightarrow> governor \<Rightarrow> bool" where
  "grants_slot n g h g' \<longleftrightarrow> (\<exists>g1 r. steady n g g1 \<and> governor_inv n g' \<and> extends g1 (res_slot h) g' \<and>
     lifecycle g' = lifecycle g1 \<and> handle_ok g' h \<and> live_slot g' (res_slot h) r \<and>
     debited (\<lambda>acc. record_charge acc r) g' g1)"

definition admission_effect :: "nat \<Rightarrow> governor \<Rightarrow> (admission_failure + reservation) \<times> governor \<Rightarrow> bool" where
  "admission_effect n g out \<longleftrightarrow> (case out of (Inl e, g') \<Rightarrow> steady n g g' | (Inr h, g') \<Rightarrow> grants_slot n g h g')"

lemma pending_inv_cong:
  assumes "pending_inv g" and "pending_slots g' = pending_slots g" and "pending_words g' = pending_words g"
    and "has_pending_releases g' = has_pending_releases g" and "length (grant_records g') = length (grant_records g)"
  shows "pending_inv g'"
  using assms(1) unfolding pending_inv_def marked_def assms(2-5) .

lemma admitted_governor_inv:
  assumes inv: "governor_inv n g" and adm: "admitted n g i r g'"
  shows "governor_inv n g'" "lifecycle g' = lifecycle g"
proof -
  have l: "ledger_inv n g" and p: "pending_inv g" using inv by (simp_all add: governor_inv_def)
  note a = admitted_inv [OF l adm]
  obtain m where w: "world g' = world (g\<lparr> next_operation_generation := m \<rparr>)" using adm by (auto simp: admitted_def)
  note f = world_fields(1,2,4) [OF w, simplified]
  have "length (grant_records g') = length (grant_records g)" using adm by (simp add: admitted_def)
  then have "pending_inv g'" by (rule pending_inv_cong [OF p a(3) f(1,2)])
  then show "governor_inv n g'" using a(1) by (simp add: governor_inv_def)
  show "lifecycle g' = lifecycle g" by (fact f(3))
qed

lemma admitted_grants:
  assumes s: "steady n g g1" and adm: "admitted n g1 i r g'"
    and new: "grant_record_new owner identity amounts (gr_operation r) = Some r" and own: "owner_matches owner identity amounts"
  shows "grants_slot n g (reservation_new owner identity amounts i token) g'"
proof -
  have inv: "governor_inv n g1" using s by (simp add: steady_def)
  then have l: "ledger_inv n g1" by (simp add: governor_inv_def)
  note a = admitted_inv [OF l adm] and g = admitted_governor_inv [OF inv adm]
  show ?thesis
    unfolding grants_slot_def using s a g new own
    by (intro exI [of _ g1] exI [of _ r]) (auto simp: handle_ok_def held_def reservation_new_def)
qed

lemma run_plan_steady:
  assumes "governor_inv n g" and "\<And>a. p \<noteq> Proceed a"
  shows "\<exists>e g'. run_plan p g k = (Inl e, g') \<and> steady n g g'"
  using assms steady_refl [OF assms(1)] steady_view [OF assms(1), of "g\<lparr> lifecycle := Fenced \<rparr>"]
  by (cases p) (auto simp: run_plan_def)

lemma reserve_ordinary_locked_effect:
  assumes inv: "governor_inv n g" and n: "n \<le> u16_max" and wf: "claim_wf claim"
  shows "admission_effect n g (reserve_ordinary_locked cfg claim g)"
proof (cases "\<exists>p. plan_ordinary cfg claim g = Proceed p")
  case False
  then obtain e g' where "reserve_ordinary_locked cfg claim g = (Inl e, g')" "steady n g g'"
    using run_plan_steady [OF inv, of "plan_ordinary cfg claim g"] unfolding reserve_ordinary_locked_def by metis
  then show ?thesis by (simp add: admission_effect_def)
next
  case True
  then obtain p where p: "plan_ordinary cfg claim g = Proceed p" by blast
  have l: "ledger_inv n g" using inv by (simp add: governor_inv_def)
  have run: "reserve_ordinary_locked cfg claim g = commit_ordinary cfg claim p g"
    by (simp add: reserve_ordinary_locked_def run_plan_def p)
  show ?thesis
    using l n wf p
  proof (cases rule: commit_ordinary_cases)
    case (fenced m)
    then show ?thesis
      unfolding run by (simp add: admission_effect_def) (rule steady_view [OF inv], simp_all)
  next
    case (granted i r g')
    then show ?thesis
      unfolding run using admitted_grants [OF steady_refl [OF inv] granted(3,2) plan_ordinary_owner(1) [OF p ledger_invD(2) [OF l] n]]
      by (simp add: admission_effect_def)
  qed
qed

lemma reserve_recovery_locked_effect:
  assumes inv: "governor_inv n g" and n: "n \<le> u16_max"
  shows "admission_effect n g (reserve_recovery_locked cfg claim g)"
proof (cases "\<exists>p. plan_recovery cfg claim g = Proceed p")
  case False
  then obtain e g' where "reserve_recovery_locked cfg claim g = (Inl e, g')" "steady n g g'"
    using run_plan_steady [OF inv, of "plan_recovery cfg claim g"] unfolding reserve_recovery_locked_def by metis
  then show ?thesis by (simp add: admission_effect_def)
next
  case True
  then obtain p where p: "plan_recovery cfg claim g = Proceed p" by blast
  have l: "ledger_inv n g" using inv by (simp add: governor_inv_def)
  have run: "reserve_recovery_locked cfg claim g = commit_recovery claim p g"
    by (simp add: reserve_recovery_locked_def run_plan_def p)
  show ?thesis
    using l n p
  proof (cases rule: commit_recovery_cases)
    case fenced
    then show ?thesis
      unfolding run by (simp add: admission_effect_def) (rule steady_view [OF inv], simp_all)
  next
    case (granted i r g')
    then have "grant_record_new (rp_owner p) (rp_identity p) (recovery_claim_amounts claim) (gr_operation r) = Some r" by simp
    then show ?thesis
      unfolding run using granted(1)
        admitted_grants [OF steady_refl [OF inv] granted(4) _ plan_recovery_owner(1) [OF p ledger_invD(2) [OF l] n]]
      by (simp add: admission_effect_def)
  qed
qed

lemma with_admission_effect:
  assumes inv: "governor_inv n g" and body: "\<And>g1. governor_inv n g1 \<Longrightarrow> admission_effect n g1 (body g1)"
  shows "admission_effect n g (with_admission lock cls g body)"
proof -
  obtain lr g1 where l: "lock_for_admission lock cls g = (lr, g1)" by (cases "lock_for_admission lock cls g")
  have s: "steady n g g1" by (rule lock_for_admission_steady [OF inv l])
  then have inv1: "governor_inv n g1" by (simp add: steady_def)
  obtain res g2 where b: "body g1 = (res, g2)" by (cases "body g1")
  note eff = body [OF inv1, unfolded b]
  show ?thesis
  proof (cases lr)
    case (Inl e)
    then show ?thesis using l s by (simp add: with_admission_def admission_effect_def)
  next
    case (Inr u)
    show ?thesis
    proof (cases res)
      case r: (Inl e)
      then have s2: "steady n g1 g2" using eff by (simp add: admission_effect_def)
      then have "governor_inv n g2" by (simp add: steady_def)
      note s3 = record_refusal_steady [OF this, of e]
      then show ?thesis
        using l b r Inr s s2 by (auto simp: with_admission_def admission_effect_def intro: steady_trans)
    next
      case r: (Inr h)
      then have "grants_slot n g1 h g2" using eff by (simp add: admission_effect_def)
      then have "grants_slot n g h g2" using s steady_trans unfolding grants_slot_def by meson
      then show ?thesis using l b r Inr by (simp add: with_admission_def admission_effect_def)
    qed
  qed
qed

lemma reserve_ordinary_effect:
  "governor_inv n g \<Longrightarrow> n \<le> u16_max \<Longrightarrow> claim_wf claim \<Longrightarrow> admission_effect n g (reserve_ordinary cfg lock claim g)"
  unfolding reserve_ordinary_def by (erule with_admission_effect) (rule reserve_ordinary_locked_effect)

lemma reserve_recovery_effect:
  "governor_inv n g \<Longrightarrow> n \<le> u16_max \<Longrightarrow> admission_effect n g (reserve_recovery cfg lock claim g)"
  unfolding reserve_recovery_def by (erule with_admission_effect) (rule reserve_recovery_locked_effect)

section \<open>Moves\<close>

text \<open>
  The shape of every operation: the slots \<open>gone\<close> lose their grant, the slots \<open>fresh\<close> get a
  new one, every other held grant stays.
\<close>

definition moves :: "nat \<Rightarrow> nat set \<Rightarrow> nat set \<Rightarrow> governor \<Rightarrow> governor \<Rightarrow> bool" where
  "moves n gone fresh g g' \<longleftrightarrow> governor_inv n g' \<and> (lifecycle g = Fenced \<longrightarrow> lifecycle g' = Fenced) \<and>
     live_slots g' = (live_slots g - gone) \<union> fresh \<and> (fresh = {} \<longrightarrow> eased g g') \<and>
     (\<forall>i r. live_slot g i r \<longrightarrow> i \<notin> gone \<longrightarrow> (\<exists>r'. live_slot g' i r' \<and> same_grant r r'))"

lemma steady_moves: "steady n g g' \<Longrightarrow> moves n {} {} g g'"
  by (auto simp: steady_def moves_def survives_def)

lemma moves_after_steady: "steady n g g1 \<Longrightarrow> moves n gone fresh g1 g' \<Longrightarrow> moves n gone fresh g g'"
  unfolding steady_def moves_def survives_def using same_grant_trans eased_trans by metis

lemma moves_before_steady:
  assumes "moves n gone fresh g g1" and "steady n g1 g'"
  shows "moves n gone fresh g g'"
  using assms unfolding steady_def moves_def survives_def using same_grant_trans eased_trans by metis

lemma moves_inv: "moves n gone fresh g g' \<Longrightarrow> governor_inv n g'"
  by (simp add: moves_def)

lemma handle_ok_moves:
  assumes "moves n gone fresh g g'" and "handle_ok g h" and "res_slot h \<notin> gone"
  shows "handle_ok g' h"
  using assms(2) by (rule handle_ok_survives) (use assms(1,3) in \<open>simp add: moves_def\<close>)

lemma grants_moves:
  assumes "grants_slot n g h g'"
  shows "moves n {} {res_slot h} g g'" "res_slot h \<notin> live_slots g" "handle_ok g' h"
proof -
  obtain g1 where s: "steady n g g1" and e: "extends g1 (res_slot h) g'" and i: "governor_inv n g'" "lifecycle g' = lifecycle g1"
    using assms by (auto simp: grants_slot_def)
  have "moves n {} {res_slot h} g1 g'" using e i by (auto simp: moves_def extends_def)
  with s show "moves n {} {res_slot h} g g'" by (rule moves_after_steady)
  show "res_slot h \<notin> live_slots g" using s e by (simp add: steady_def survives_def extends_def)
  show "handle_ok g' h" using assms by (auto simp: grants_slot_def)
qed

lemma given_back_moves:
  assumes inv: "governor_inv n g" and live: "live_slot g i r" and gb: "given_back n g i r g'"
  shows "moves n {i} {} g g'"
proof -
  have l: "ledger_inv n g" and p: "pending_inv g" using inv by (simp_all add: governor_inv_def)
  have i: "i < length (grant_records g)" "grant_records g ! i = Some r" "\<not> retired r" "slot_signals g ! i = SLOT_ACTIVE"
    using live by (simp_all add: live_slot_def)
  have w: "world g' = world g" and rec: "grant_records g' = retire_records (grant_records g) i r"
    and len: "length (slot_signals g') = length (slot_signals g)"
    and sig: "\<forall>j < length (slot_signals g'). grant_records g' ! j \<noteq> None \<longrightarrow> slot_signals g' ! j = slot_signals g ! j"
    using gb unfolding given_back_def by blast+
  note s = release_slot_survives [OF l i(1-3) rec sig len]
  have "i \<notin> pending_slots g" using i(4) by (simp add: pending_slots_def SLOT_ACTIVE_def SLOT_RELEASE_PENDING_def)
  then have "pending_slots g' = pending_slots g" using s(1) by simp
  then have "pending_inv g'" using pending_inv_cong [OF p _ world_fields(1,2) [OF w]] rec by simp
  then have "governor_inv n g'" using gb by (simp add: governor_inv_def given_back_def)
  moreover have "eased g g'" using gb unfolding given_back_def by (blast intro: eased_debited)
  ultimately show ?thesis using s(2,3) world_fields(4) [OF w] by (simp add: moves_def)
qed

lemma exchanged_moves:
  assumes inv: "governor_inv n g" and live: "live_slot g i r" and ex: "exchanged n g i r r' g'"
    and op: "gr_operation r' = gr_operation r" and l: "ledger_inv n g'"
  shows "moves n {i} {i} g g'"
proof -
  have p: "pending_inv g" using inv by (simp add: governor_inv_def)
  have w: "world g' = world g" and rec: "grant_records g' = (grant_records g)[i := Some r']" using ex by (simp_all add: exchanged_def)
  note e = exchange_survives [OF live ex op]
  have "pending_inv g'" using pending_inv_cong [OF p e(3) world_fields(1,2) [OF w]] rec by simp
  then have "governor_inv n g'" using l by (simp add: governor_inv_def)
  moreover have "live_slots g' = (live_slots g - {i}) \<union> {i}" unfolding live_slots_def using e(1,2) live by blast
  ultimately show ?thesis using e(2) world_fields(4) [OF w] same_grant_refl by (auto simp: moves_def)
qed

section \<open>Resize\<close>

lemma resize_effect_moves:
  assumes inv: "governor_inv n g" and h: "held g (rq_owner rq) (rq_identity rq) (rq_old rq) (rq_slot rq) r"
    and eff: "resize_effect n g rq r (res, g')"
  shows "case res of
      Inl f \<Rightarrow> (if rf_disposition f = CancelledBeforeLimit
                 then moves n {rq_slot rq} {} g g' \<or> (steady n g g' \<and> lifecycle g' = Fenced) else steady n g g')
    | Inr c \<Rightarrow> moves n {rq_slot rq} {rq_slot rq} g g' \<and>
        (\<exists>r'. held g' (commit_owner c) (rq_identity rq) (rq_new rq) (rq_slot rq) r')"
proof -
  have live: "live_slot g (rq_slot rq) r" using h by (simp add: held_def)
  consider "kept g res g'" | "cancelled n g (rq_slot rq) r res g'" | "resized n g rq r res g'"
    using eff by (auto simp: resize_effect_def)
  then show ?thesis
  proof cases
    case 1
    have s: "steady n g g" "steady n g (g\<lparr> lifecycle := Fenced \<rparr>)"
      using steady_refl [OF inv] steady_view [OF inv, of "g\<lparr> lifecycle := Fenced \<rparr>"] by simp_all
    then show ?thesis using 1 by (auto simp: kept_def split: if_splits)
  next
    case 2
    then show ?thesis using given_back_moves [OF inv live] by (auto simp: cancelled_def)
  next
    case 3
    then show ?thesis unfolding resized_def using exchanged_moves [OF inv live] by fastforce
  qed
qed

definition resize_moves ::
  "nat \<Rightarrow> governor \<Rightarrow> resize_request \<Rightarrow> (resize_failure + resize_commit) \<times> governor \<Rightarrow> bool" where
  "resize_moves n g rq out \<longleftrightarrow> (case out of (res, g') \<Rightarrow> (case res of
      Inl f \<Rightarrow> (if rf_disposition f = CancelledBeforeLimit
                 then moves n {rq_slot rq} {} g g' \<or> (steady n g g' \<and> lifecycle g' = Fenced) else steady n g g')
    | Inr c \<Rightarrow> moves n {rq_slot rq} {rq_slot rq} g g' \<and>
        (\<exists>r'. held g' (commit_owner c) (rq_identity rq) (rq_new rq) (rq_slot rq) r')))"

lemma steady_lifecycle: "steady n g g' \<Longrightarrow> lifecycle g = Fenced \<Longrightarrow> lifecycle g' = Fenced"
  by (simp add: steady_def)

lemma with_resize_moves:
  assumes inv: "governor_inv n g" and h: "held g (rq_owner rq) (rq_identity rq) (rq_old rq) (rq_slot rq) r"
    and body: "\<And>g1 r1. governor_inv n g1 \<Longrightarrow> held g1 (rq_owner rq) (rq_identity rq) (rq_old rq) (rq_slot rq) r1 \<Longrightarrow>
      resize_effect n g1 rq r1 (body g1)"
  shows "resize_moves n g rq (with_resize lock cls g body)"
proof -
  obtain lr g1 where l: "lock_for_admission lock cls g = (lr, g1)" by (cases "lock_for_admission lock cls g")
  have s: "steady n g g1" by (rule lock_for_admission_steady [OF inv l])
  then have inv1: "governor_inv n g1" by (simp add: steady_def)
  obtain r1 where h1: "held g1 (rq_owner rq) (rq_identity rq) (rq_old rq) (rq_slot rq) r1"
    using held_steady [OF s h] by blast
  obtain res g2 where b: "body g1 = (res, g2)" by (cases "body g1")
  note mv = resize_effect_moves [OF inv1 h1 body [OF inv1 h1, unfolded b]]
  show ?thesis
  proof (cases lr)
    case (Inl e)
    then show ?thesis using l s by (simp add: with_resize_def resize_moves_def)
  next
    case lk: (Inr u)
    show ?thesis
    proof (cases res)
      case (Inl f)
      let ?g3 = "case resize_admission_failure f of Some a \<Rightarrow> record_refusal_locked a g2 | None \<Rightarrow> g2"
      have "governor_inv n g2" using mv Inl by (auto simp: steady_def moves_def split: if_splits)
      then have s3: "steady n g2 ?g3" using record_refusal_steady steady_refl by (cases "resize_admission_failure f") auto
      have out: "with_resize lock cls g body = (Inl f, ?g3)" using l b lk Inl by (simp add: with_resize_def)
      have "moves n {rq_slot rq} {} g1 g2 \<Longrightarrow> moves n {rq_slot rq} {} g ?g3"
        using moves_after_steady [OF s] moves_before_steady s3 by blast
      moreover have "steady n g1 g2 \<Longrightarrow> steady n g ?g3" using s s3 steady_trans by blast
      moreover have "lifecycle g2 = Fenced \<Longrightarrow> lifecycle ?g3 = Fenced" by (rule steady_lifecycle [OF s3])
      ultimately show ?thesis using mv Inl unfolding out resize_moves_def by (auto split: if_splits)
    next
      case (Inr c)
      then show ?thesis
        using mv l b lk moves_after_steady [OF s] by (auto simp: with_resize_def resize_moves_def)
    qed
  qed
qed

lemma governor_resize_moves:
  assumes inv: "governor_inv n g" and n: "n \<le> u16_max"
    and h: "held g (rq_owner rq) (rq_identity rq) (rq_old rq) (rq_slot rq) r"
  shows "resize_moves n g rq (governor_resize cfg lock rq g)"
proof (cases "rq_identity rq")
  case (Ordinary t p k)
  then obtain ti where att: "owner_attribution (rq_owner rq) = Charge_Ordinary ti" using heldD(6) [OF h] by auto
  show ?thesis
    unfolding governor_resize_def resize_ordinary_def Ordinary att reservation_identity.case charge_attribution.case
  proof (rule with_resize_moves [OF inv h])
    fix g1 r1
    assume "governor_inv n g1" and h1: "held g1 (rq_owner rq) (rq_identity rq) (rq_old rq) (rq_slot rq) r1"
    then have "ledger_inv n g1" by (simp add: governor_inv_def)
    from resize_ordinary_locked_effect [OF this n h1 att, of cfg]
    show "resize_effect n g1 rq r1 (resize_ordinary_locked cfg rq ti (work_kind_class k) g1)" by (simp add: Ordinary)
  qed
next
  case (Recovery s k)
  then obtain ti where att: "owner_attribution (rq_owner rq) = Charge_Recovery ti" using heldD(6) [OF h] by auto
  show ?thesis
    unfolding governor_resize_def resize_recovery_def Recovery att reservation_identity.case charge_attribution.case
  proof (rule with_resize_moves [OF inv h])
    fix g1 r1
    assume "governor_inv n g1" and h1: "held g1 (rq_owner rq) (rq_identity rq) (rq_old rq) (rq_slot rq) r1"
    then have "ledger_inv n g1" by (simp add: governor_inv_def)
    then show "resize_effect n g1 rq r1 (resize_recovery_locked cfg rq ti k g1)"
      by (rule resize_recovery_locked_effect [OF _ n h1 Recovery att])
  qed
qed

text \<open>A resize through a handle keeps the handle, exchanges its grant, or deactivates it.\<close>

lemma try_resize_moves:
  assumes inv: "governor_inv n g" and n: "n \<le> u16_max" and h: "handle_ok g h"
    and run: "try_resize_with_policy cfg lock new preserve h g = (res, h', g')"
  shows "res_slot h' = res_slot h \<and>
    (if res_active h' then moves n {res_slot h} {res_slot h} g g' \<and> handle_ok g' h'
     else moves n {res_slot h} {} g g' \<or> (steady n g g' \<and> lifecycle g' = Fenced))"
proof -
  have act: "res_active h" using h by (simp add: handle_ok_def)
  have same: "moves n {res_slot h} {res_slot h} g g'" if "steady n g g'"
    using that handle_ok_slot [OF h] by (auto simp: steady_def survives_def moves_def)
  let ?rq = "\<lparr> rq_slot = res_slot h, rq_owner = res_owner h, rq_identity = res_identity h, rq_old = res_amounts h,
      rq_new = new, rq_preserve_existing = preserve \<rparr>"
  obtain r where "held g (rq_owner ?rq) (rq_identity ?rq) (rq_old ?rq) (rq_slot ?rq) r"
    using h by (auto simp: handle_ok_def)
  note mv = governor_resize_moves [OF inv n this, of cfg lock]
  show ?thesis
  proof (cases "amounts_is_empty new")
    case True
    then show ?thesis
      using run act h same steady_refl [OF inv] by (auto simp: try_resize_with_policy_def)
  next
    case False
    obtain o1 g1 where o: "governor_resize cfg lock ?rq g = (o1, g1)" by (cases "governor_resize cfg lock ?rq g")
    show ?thesis
    proof (cases o1)
      case (Inl f)
      show ?thesis
      proof (cases "rf_disposition f = CancelledBeforeLimit")
        case True
        then show ?thesis using run act False o Inl mv by (auto simp: try_resize_with_policy_def resize_moves_def)
      next
        case ret: False
        then have "g' = g1" "h' = h" "steady n g g1"
          using run act False o Inl mv by (auto simp: try_resize_with_policy_def resize_moves_def)
        then show ?thesis using act same handle_ok_steady [of n g g' h] h by simp
      qed
    next
      case (Inr c)
      then show ?thesis
        using run act False o mv by (auto simp: try_resize_with_policy_def resize_moves_def handle_ok_def)
    qed
  qed
qed

section \<open>Cancelling and dropping\<close>

lemma release_held:
  assumes inv: "governor_inv n g" and h: "held g owner identity amounts i r"
  shows "\<exists>st g'. release_slot_locked poisoned i g = (st, g') \<and> applied st \<and> given_back n g i r g' \<and>
    status_result st = (if poisoned \<or> lifecycle g = Fenced then Inl InternalFenced else Inr Released)"
proof -
  have l: "ledger_inv n g" using inv by (simp add: governor_inv_def)
  show ?thesis
    by (rule release_slot_inv [OF l heldD(1-3) [OF h], of poisoned]) (auto simp: given_back_def)
qed

lemma owner_matches_pools:
  "owner_matches owner identity amounts \<Longrightarrow>
     (case identity of Ordinary _ _ _ \<Rightarrow> owner_pools owner \<noteq> None | Recovery _ _ \<Rightarrow> owner_recovery_pools owner \<noteq> None)"
  by (cases identity) auto

lemma try_release_moves:
  assumes inv: "governor_inv n g" and h: "held g owner identity amounts i r"
    and run: "try_release lock relock i owner identity amounts g = (st, g')"
  shows "if applied st then moves n {i} {} g g' else steady n g g'"
proof -
  have locked: "\<exists>st2 g2. (case slot_get (grant_records g1) i of
        None \<Rightarrow> other
      | Some rec \<Rightarrow> if \<not> (gr_amounts rec = amounts \<and> (case identity of Ordinary _ _ _ \<Rightarrow> owner_pools owner \<noteq> None
            | Recovery _ _ \<Rightarrow> owner_recovery_pools owner \<noteq> None))
          then fence_release g1 else release_slot_locked poisoned i g1) = (st2, g2) \<and>
      applied st2 \<and> moves n {i} {} g g2" if s: "steady n g g1" for g1 poisoned other
  proof -
    have inv1: "governor_inv n g1" using s by (simp add: steady_def)
    obtain r1 where h1: "held g1 owner identity amounts i r1" using held_steady [OF s h] by blast
    then have "live_slot g1 i r1" by (simp add: held_def)
    then show ?thesis
      using release_held [OF inv1 h1, of poisoned] given_back_moves [OF inv1] moves_after_steady [OF s]
        heldD(1,2,7) [OF h1] owner_matches_pools [OF heldD(6) [OF h1]]
      by (auto simp: slot_get_def)
  qed
  show ?thesis
  proof (cases lock)
    case LockOk
    then show ?thesis
      using run locked [OF settle_steady(1) [OF inv], of _ False]
      unfolding try_release_def Let_def try_lock_for_control_def by (fastforce split: option.splits)
  next
    case LockWouldBlock
    then show ?thesis using run steady_refl [OF inv] by (auto simp: try_release_def try_lock_for_control_def)
  next
    case LockPoisoned
    have s: "steady n g (g\<lparr> lifecycle := Fenced \<rparr>)" by (rule steady_view [OF inv]) simp_all
    show ?thesis
    proof (cases "relock = LockOk")
      case True
      then show ?thesis
        using run LockPoisoned locked [OF s, of _ True]
        unfolding try_release_def Let_def try_lock_for_control_def by (fastforce split: option.splits)
    next
      case False
      then show ?thesis
        using run LockPoisoned s by (cases relock) (auto simp: try_release_def try_lock_for_control_def)
    qed
  qed
qed

lemma reservation_cancel_moves:
  assumes inv: "governor_inv n g" and h: "handle_ok g h" and run: "reservation_cancel lock relock h g = (res, h', g')"
  shows "res_slot h' = res_slot h \<and>
    (if res_active h' then steady n g g' \<and> handle_ok g' h' else moves n {res_slot h} {} g g')"
proof -
  obtain r where held: "held g (res_owner h) (res_identity h) (res_amounts h) (res_slot h) r"
    using h by (auto simp: handle_ok_def)
  let ?run = "try_release lock relock (res_slot h) (res_owner h) (res_identity h) (res_amounts h) g"
  obtain st g1 where r: "?run = (st, g1)" by (cases ?run)
  note mv = try_release_moves [OF inv held r]
  show ?thesis
    using run h r mv handle_ok_steady [of n g g1 h]
    by (cases "applied st") (auto simp: reservation_cancel_def handle_ok_def)
qed

lemma mark_drop_pending_moves:
  assumes inv: "governor_inv n g" and live: "live_slot g i r"
  shows "moves n {i} {} g (mark_drop_pending i g)"
proof -
  have l: "ledger_inv n g" and p: "pending_inv g" using inv by (simp_all add: governor_inv_def)
  have i: "i < length (grant_records g)" "grant_records g ! i = Some r" "\<not> retired r" "slot_signals g ! i = SLOT_ACTIVE"
    using live by (simp_all add: live_slot_def)
  have slen: "length (slot_signals g) = length (grant_records g)" using ledger_invD(1) [OF l] by (simp add: slots_wf_def)
  have word: "i div 64 < length (pending_words g)" using p i(1) by (simp add: pending_inv_def)
  let ?g = "g\<lparr> slot_signals := (slot_signals g)[i := SLOT_RELEASE_PENDING],
      pending_words := (pending_words g)[i div 64 := pending_words g ! (i div 64) OR push_bit (i mod 64) 1],
      has_pending_releases := True \<rparr>"
  have run: "mark_drop_pending i g = ?g"
    using i slen word by (simp add: mark_drop_pending_def slice_get_def Let_def)
  have val: "account_value acc ?g = account_value acc g" for acc by (cases acc) simp_all
  have signals: "SLOT_ACTIVE \<noteq> SLOT_RELEASE_PENDING" "SLOT_FREE \<noteq> SLOT_RELEASE_PENDING"
    by (simp_all add: SLOT_ACTIVE_def SLOT_RELEASE_PENDING_def SLOT_FREE_def)
  have "slots_wf ?g"
    using ledger_invD(1) [OF l] i signals unfolding slots_wf_def by (auto simp: nth_list_update)
  then have "ledger_inv n ?g"
    using l val by (auto simp: ledger_inv_def tables_wf_def conserved_def)
  moreover have pend: "pending_slots ?g = insert i (pending_slots g)"
    using i slen signals unfolding pending_slots_def by (auto simp: nth_list_update split: if_splits)
  moreover have "marked ?g = insert i (marked g)"
  proof -
    have inj: "x = i" if "x div 64 = i div 64" "x mod 64 = i mod 64" for x using that by (metis div_mult_mod_eq)
    have "x \<in> marked ?g \<longleftrightarrow> x = i \<or> x \<in> marked g" for x
      using word inj [of x] by (auto simp: marked_def nth_list_update bit_or_iff bit_exp_iff split: if_splits)
    then show ?thesis by blast
  qed
  ultimately have "governor_inv n ?g" using p by (simp add: governor_inv_def pending_inv_def)
  moreover have "live_slot ?g j x \<longleftrightarrow> live_slot g j x \<and> j \<noteq> i" for j x
    using i slen signals by (cases "j = i") (auto simp: live_slot_def)
  moreover have "eased g ?g" by (rule eased_same) (rule val)
  ultimately show ?thesis unfolding run moves_def live_slots_def by auto
qed

end
