(* ===== verification/Machine.thy ===== *)
theory Machine
  imports Handles
begin

text \<open>
  The governor together with the handles its clients hold, as a machine. An event is one
  call of the public interface with the outcome of every lock it takes; events interleave
  in any order.
\<close>

section \<open>Reachable states\<close>

inductive reachable :: "('s \<Rightarrow> bool) \<Rightarrow> ('e \<Rightarrow> bool) \<Rightarrow> ('e \<Rightarrow> 's \<Rightarrow> 's) \<Rightarrow> 's \<Rightarrow> bool"
  for init :: "'s \<Rightarrow> bool" and enabled :: "'e \<Rightarrow> bool" and step :: "'e \<Rightarrow> 's \<Rightarrow> 's" where
  start: "init s \<Longrightarrow> reachable init enabled step s"
| move: "reachable init enabled step s \<Longrightarrow> enabled e \<Longrightarrow> reachable init enabled step (step e s)"

locale inductive_invariant =
  fixes init :: "'s \<Rightarrow> bool" and enabled :: "'e \<Rightarrow> bool" and step :: "'e \<Rightarrow> 's \<Rightarrow> 's" and inv :: "'s \<Rightarrow> bool"
  assumes init_inv: "init s \<Longrightarrow> inv s"
    and step_inv: "inv s \<Longrightarrow> enabled e \<Longrightarrow> inv (step e s)"
begin

lemma reachable_inv: "reachable init enabled step s \<Longrightarrow> inv s"
  by (induction rule: reachable.induct) (auto intro: init_inv step_inv)

lemma reachable_run: "reachable init enabled step s \<Longrightarrow> \<forall>e \<in> set es. enabled e \<Longrightarrow> inv (fold step es s)"
proof (induction es arbitrary: s)
  case (Cons e es)
  then show ?case using reachable.move [of init enabled step s e] by simp
qed (simp add: reachable_inv)

end

section \<open>The machine of the governor\<close>

record client_system =
  sys_governor :: governor
  sys_handles :: "reservation list"

datatype event =
    Ev_Reserve lock_outcome work_claim
  | Ev_ReserveRecovery lock_outcome recovery_work_claim
  | Ev_Resize lock_outcome nat resource_amounts bool
  | Ev_Cancel lock_outcome lock_outcome nat
  | Ev_Drop nat
  | Ev_ForeignRelease
  | Ev_Snapshot lock_outcome
  | Ev_Shutdown lock_outcome
  | Ev_Observe lock_outcome u64
  | Ev_Stage "nat \<Rightarrow> bool" lock_outcome tenant_id u16 resource_amounts
  | Ev_Publish bool tenant_quota_successor
  | Ev_Enroll "nat \<Rightarrow> bool" lock_outcome tenant_id u16 resource_amounts bool
  | Ev_Activate tenant_id
  | Ev_Rollback lock_outcome tenant_id

text \<open>A handle that went inactive is forgotten.\<close>

definition put_handle :: "nat \<Rightarrow> reservation \<Rightarrow> reservation list \<Rightarrow> reservation list" where
  "put_handle k h hs = (if res_active h then hs[k := h] else take k hs @ drop (Suc k) hs)"

definition keep_granted :: "client_system \<Rightarrow> ('e + reservation) \<times> governor \<Rightarrow> client_system" where
  "keep_granted s out =
     (case out of
        (Inl _, g) \<Rightarrow> s\<lparr> sys_governor := g \<rparr>
      | (Inr h, g) \<Rightarrow> \<lparr> sys_governor = g, sys_handles = sys_handles s @ [h] \<rparr>)"

definition through_handle ::
  "nat \<Rightarrow> (reservation \<Rightarrow> governor \<Rightarrow> reservation \<times> governor) \<Rightarrow> client_system \<Rightarrow> client_system" where
  "through_handle k f s =
     (if length (sys_handles s) \<le> k then s
      else case f (sys_handles s ! k) (sys_governor s) of
        (h, g) \<Rightarrow> \<lparr> sys_governor = g, sys_handles = put_handle k h (sys_handles s) \<rparr>)"

fun sys_step :: "governor_config \<Rightarrow> event \<Rightarrow> client_system \<Rightarrow> client_system" where
  "sys_step cfg (Ev_Reserve lock claim) s = keep_granted s (reserve_ordinary cfg lock claim (sys_governor s))"
| "sys_step cfg (Ev_ReserveRecovery lock claim) s = keep_granted s (reserve_recovery cfg lock claim (sys_governor s))"
| "sys_step cfg (Ev_Resize lock k new preserve) s =
     through_handle k (\<lambda>h g. snd (try_resize_with_policy cfg lock new preserve h g)) s"
| "sys_step cfg (Ev_Cancel lock relock k) s = through_handle k (\<lambda>h g. snd (reservation_cancel lock relock h g)) s"
| "sys_step cfg (Ev_Drop k) s = through_handle k reservation_release s"
| "sys_step cfg Ev_ForeignRelease s = s\<lparr> sys_governor := mark_foreign_release (sys_governor s) \<rparr>"
| "sys_step cfg (Ev_Snapshot lock) s = s\<lparr> sys_governor := snd (governor_snapshot cfg lock (sys_governor s)) \<rparr>"
| "sys_step cfg (Ev_Shutdown lock) s = s\<lparr> sys_governor := snd (begin_shutdown cfg lock (sys_governor s)) \<rparr>"
| "sys_step cfg (Ev_Observe lock usable) s =
     s\<lparr> sys_governor := snd (apply_disk_observation cfg lock usable (sys_governor s)) \<rparr>"
| "sys_step cfg (Ev_Stage reserve lock tenant weight limits) s =
     s\<lparr> sys_governor := snd (stage_tenant_quota_update cfg reserve lock tenant weight limits (sys_governor s)) \<rparr>"
| "sys_step cfg (Ev_Publish poisoned successor) s =
     s\<lparr> sys_governor := publish_quota_update poisoned successor (sys_governor s) \<rparr>"
| "sys_step cfg (Ev_Enroll reserve lock tenant weight limits pending) s =
     s\<lparr> sys_governor := snd (enroll_tenant_quota cfg reserve lock tenant weight limits pending (sys_governor s)) \<rparr>"
| "sys_step cfg (Ev_Activate tenant) s = s\<lparr> sys_governor := activate_tenant_quota tenant (sys_governor s) \<rparr>"
| "sys_step cfg (Ev_Rollback lock tenant) s = s\<lparr> sys_governor := rollback_tenant_quota lock tenant (sys_governor s) \<rparr>"

text \<open>Clients can only present claims their constructors accepted.\<close>

fun event_ok :: "event \<Rightarrow> bool" where
  "event_ok (Ev_Reserve lock claim) = claim_wf claim"
| "event_ok (Ev_ReserveRecovery lock claim) = recovery_claim_wf claim"
| "event_ok _ = True"

section \<open>The invariant\<close>

definition system_inv :: "nat \<Rightarrow> client_system \<Rightarrow> bool" where
  "system_inv n s \<longleftrightarrow> n \<le> u16_max \<and> governor_inv n (sys_governor s) \<and>
     (\<forall>h \<in> set (sys_handles s). handle_ok (sys_governor s) h) \<and> distinct (map res_slot (sys_handles s)) \<and>
     (lifecycle (sys_governor s) \<noteq> Fenced \<longrightarrow> live_slots (sys_governor s) = res_slot ` set (sys_handles s))"

lemma system_inv_steady:
  assumes inv: "system_inv n s" and st: "steady n (sys_governor s) g"
  shows "system_inv n (s\<lparr> sys_governor := g \<rparr>)"
  using inv st handle_ok_steady [OF st] by (auto simp: system_inv_def steady_def survives_def)

lemma keep_granted_inv:
  assumes inv: "system_inv n s" and eff: "admission_effect n (sys_governor s) out"
  shows "system_inv n (keep_granted s out)"
proof (cases out)
  case (Pair res g)
  show ?thesis
  proof (cases res)
    case (Inl e)
    then show ?thesis
      using system_inv_steady [OF inv, of g] eff Pair by (simp add: keep_granted_def admission_effect_def)
  next
    case (Inr h)
    then have gr: "grants_slot n (sys_governor s) h g" using eff Pair by (simp add: admission_effect_def)
    note m = grants_moves [OF gr]
    have old: "handle_ok g h'" if "h' \<in> set (sys_handles s)" for h'
      using handle_ok_moves [OF m(1)] inv that by (simp add: system_inv_def)
    have "res_slot h \<notin> res_slot ` set (sys_handles s)"
      using m(2) handle_ok_slot inv by (auto simp: system_inv_def)
    then show ?thesis
      using inv m(1,3) old Pair Inr by (auto simp: keep_granted_def system_inv_def moves_def)
  qed
qed

lemma put_handle_set:
  assumes "k < length hs" and "distinct (map res_slot hs)" and "res_slot h = res_slot (hs ! k)"
  shows "distinct (map res_slot (put_handle k h hs))"
    "res_slot ` set (put_handle k h hs) = (if res_active h then res_slot ` set hs else res_slot ` set hs - {res_slot h})"
    "h' \<in> set (put_handle k h hs) \<Longrightarrow> (h' = h \<and> res_active h) \<or> (h' \<in> set hs \<and> res_slot h' \<noteq> res_slot h)"
proof -
  define xs x ys where "xs = take k hs" and "x = hs ! k" and "ys = drop (Suc k) hs"
  have hs: "hs = xs @ x # ys" and k: "length xs = k"
    unfolding xs_def x_def ys_def using assms(1) by (simp_all add: id_take_nth_drop)
  have put: "put_handle k h hs = (if res_active h then xs @ h # ys else xs @ ys)"
    using k by (auto simp: put_handle_def hs)
  have x: "res_slot x = res_slot h" using assms(3) by (simp add: x_def)
  have "res_slot h \<notin> res_slot ` (set xs \<union> set ys)" using assms(2) x by (simp add: hs image_Un)
  then have ne: "\<And>z. z \<in> set xs \<or> z \<in> set ys \<Longrightarrow> res_slot z \<noteq> res_slot h"
    by (metis UnI1 UnI2 image_eqI)
  show "distinct (map res_slot (put_handle k h hs))"
    "res_slot ` set (put_handle k h hs) = (if res_active h then res_slot ` set hs else res_slot ` set hs - {res_slot h})"
    "h' \<in> set (put_handle k h hs) \<Longrightarrow> (h' = h \<and> res_active h) \<or> (h' \<in> set hs \<and> res_slot h' \<noteq> res_slot h)"
    using assms(2) x ne unfolding put by (auto simp: hs split: if_splits)
qed

lemma through_handle_inv:
  assumes inv: "system_inv n s"
    and f: "\<And>h h' g'. h \<in> set (sys_handles s) \<Longrightarrow> f h (sys_governor s) = (h', g') \<Longrightarrow> res_slot h' = res_slot h \<and>
      (if res_active h' then moves n {res_slot h} {res_slot h} (sys_governor s) g' \<and> handle_ok g' h'
       else moves n {res_slot h} {} (sys_governor s) g' \<or> (steady n (sys_governor s) g' \<and> lifecycle g' = Fenced))"
  shows "system_inv n (through_handle k f s)"
proof (cases "k < length (sys_handles s)")
  case False
  then show ?thesis using inv by (simp add: through_handle_def)
next
  case True
  let ?h = "sys_handles s ! k" and ?g = "sys_governor s"
  have mem: "?h \<in> set (sys_handles s)" using True by simp
  obtain h' g' where run: "f ?h ?g = (h', g')" by (cases "f ?h ?g")
  note eff = f [OF mem run]
  have out: "through_handle k f s = \<lparr> sys_governor = g', sys_handles = put_handle k h' (sys_handles s) \<rparr>"
    using True run by (simp add: through_handle_def)
  have d: "distinct (map res_slot (sys_handles s))" using inv by (simp add: system_inv_def)
  have slot: "res_slot h' = res_slot ?h" using eff by blast
  note put = put_handle_set [OF True d slot]
  have live: "lifecycle ?g \<noteq> Fenced \<Longrightarrow> live_slots ?g = res_slot ` set (sys_handles s)"
    and hs: "\<And>h. h \<in> set (sys_handles s) \<Longrightarrow> handle_ok ?g h" and n: "n \<le> u16_max"
    using inv by (simp_all add: system_inv_def)
  have others: "handle_ok g' h" if "h \<in> set (sys_handles s)" "res_slot h \<noteq> res_slot h'" for h
    using eff handle_ok_moves [of n "{res_slot ?h}" _ ?g g' h] handle_ok_steady [of n ?g g' h] hs [OF that(1)] that(2) slot
    by (auto split: if_splits)
  have ok: "\<forall>h \<in> set (put_handle k h' (sys_handles s)). handle_ok g' h"
    using put(3) others eff by (metis (full_types))
  have mem': "res_slot h' \<in> res_slot ` set (sys_handles s)" using slot mem by simp
  have inv': "governor_inv n g'" using eff by (auto simp: moves_def steady_def split: if_splits)
  have "live_slots g' = res_slot ` set (put_handle k h' (sys_handles s))" if open_: "lifecycle g' \<noteq> Fenced"
  proof -
    have m: "moves n {res_slot ?h} (if res_active h' then {res_slot ?h} else {}) ?g g'"
      using eff open_ by (auto split: if_splits)
    then have "lifecycle ?g \<noteq> Fenced" using open_ by (auto simp: moves_def)
    then show ?thesis using m live mem' slot unfolding put(2) moves_def by auto
  qed
  then show ?thesis unfolding out using ok inv' put(1) n by (simp add: system_inv_def)
qed

lemma sys_step_inv:
  assumes inv: "system_inv n s" and ok: "event_ok e"
  shows "system_inv n (sys_step cfg e s)"
proof -
  let ?g = "sys_governor s"
  have n: "n \<le> u16_max" and g: "governor_inv n ?g" and hs: "\<And>h. h \<in> set (sys_handles s) \<Longrightarrow> handle_ok ?g h"
    using inv by (simp_all add: system_inv_def)
  note st = system_inv_steady [OF inv]
  show ?thesis
  proof (cases e)
    case (Ev_Reserve lock claim)
    then show ?thesis using keep_granted_inv [OF inv reserve_ordinary_effect [OF g n]] ok by simp
  next
    case (Ev_ReserveRecovery lock claim)
    then show ?thesis using keep_granted_inv [OF inv reserve_recovery_effect [OF g n]] by simp
  next
    case (Ev_Resize lock k new preserve)
    show ?thesis
      unfolding Ev_Resize sys_step.simps
    proof (rule through_handle_inv [OF inv])
      fix h h' g'
      assume "h \<in> set (sys_handles s)" and "snd (try_resize_with_policy cfg lock new preserve h ?g) = (h', g')"
      then show "res_slot h' = res_slot h \<and> (if res_active h' then moves n {res_slot h} {res_slot h} ?g g' \<and> handle_ok g' h'
         else moves n {res_slot h} {} ?g g' \<or> (steady n ?g g' \<and> lifecycle g' = Fenced))"
        using try_resize_moves [OF g n hs, of h cfg lock new preserve _ h' g'] by (metis prod.collapse)
    qed
  next
    case (Ev_Cancel lock relock k)
    show ?thesis
      unfolding Ev_Cancel sys_step.simps
    proof (rule through_handle_inv [OF inv])
      fix h h' g'
      assume h: "h \<in> set (sys_handles s)" and "snd (reservation_cancel lock relock h ?g) = (h', g')"
      then have m: "res_slot h' = res_slot h \<and>
          (if res_active h' then steady n ?g g' \<and> handle_ok g' h' else moves n {res_slot h} {} ?g g')"
        using reservation_cancel_moves [OF g hs, of h lock relock _ h' g'] by (metis prod.collapse)
      moreover have "moves n {res_slot h} {res_slot h} ?g g'" if "steady n ?g g'"
        using that handle_ok_slot [OF hs [OF h]] by (auto simp: steady_def survives_def moves_def)
      ultimately show "res_slot h' = res_slot h \<and> (if res_active h' then moves n {res_slot h} {res_slot h} ?g g' \<and> handle_ok g' h'
         else moves n {res_slot h} {} ?g g' \<or> (steady n ?g g' \<and> lifecycle g' = Fenced))"
        by (auto split: if_splits)
    qed
  next
    case (Ev_Drop k)
    show ?thesis
      unfolding Ev_Drop sys_step.simps
    proof (rule through_handle_inv [OF inv])
      fix h h' g'
      assume h: "h \<in> set (sys_handles s)" and "reservation_release h ?g = (h', g')"
      then show "res_slot h' = res_slot h \<and> (if res_active h' then moves n {res_slot h} {res_slot h} ?g g' \<and> handle_ok g' h'
         else moves n {res_slot h} {} ?g g' \<or> (steady n ?g g' \<and> lifecycle g' = Fenced))"
        using hs [OF h] mark_drop_pending_moves [OF g, of "res_slot h"]
        by (auto simp: reservation_release_def handle_ok_def held_def)
    qed
  next
    case Ev_ForeignRelease
    then show ?thesis using st steady_view [OF g, of "mark_foreign_release ?g"] by (simp add: mark_foreign_release_def)
  next
    case (Ev_Snapshot lock)
    then show ?thesis using st governor_snapshot_steady [OF g] by (metis prod.collapse sys_step.simps(7))
  next
    case (Ev_Shutdown lock)
    then show ?thesis using st begin_shutdown_steady [OF g] by (metis prod.collapse sys_step.simps(8))
  next
    case (Ev_Observe lock u)
    then show ?thesis using st apply_disk_observation_steady [OF g] by (metis prod.collapse sys_step.simps(9))
  next
    case (Ev_Stage reserve lock t w l)
    then show ?thesis using st stage_tenant_quota_update_steady [OF g] by (metis prod.collapse sys_step.simps(10))
  next
    case (Ev_Publish poisoned successor)
    then show ?thesis using st publish_quota_update_steady [OF g] by simp
  next
    case (Ev_Enroll reserve lock t w l pending)
    then show ?thesis using st enroll_tenant_quota_steady [OF g] by (metis prod.collapse sys_step.simps(12))
  next
    case (Ev_Activate t)
    then show ?thesis using st activate_tenant_quota_steady [OF g] by simp
  next
    case (Ev_Rollback lock t)
    then show ?thesis using st rollback_tenant_quota_steady [OF g] by simp
  qed
qed

end
