(* ===== verification/Established.thy ===== *)
theory Established
  imports Machine
begin

text \<open>
  A governor fresh from its configuration satisfies the invariant, so every state of the
  machine that starts from it does.
\<close>

section \<open>The fresh ledger\<close>

lemma ledger_allocate_Inr:
  assumes "ledger_allocate sz grants layout required fail_at = Inr l" and "layout_outstanding_count layout \<le> u16_max"
  shows "la_signals l = replicate (layout_outstanding_count layout) SLOT_FREE"
    "la_pending_words l = replicate (layout_pending_word_count layout) 0"
    "la_records l = replicate (layout_outstanding_count layout) None"
    "la_free_slots l = rev [0..<layout_outstanding_count layout]"
proof -
  have fold: "for_fold (\<lambda>acc index. and_then (ok_or (try_from u16_max index) InvalidConfiguration) (\<lambda>slot. Inr (acc @ [slot])))
      acc xs = Inr (acc @ xs)" if "\<forall>x \<in> set xs. x \<le> u16_max" for acc xs
    using that by (induction xs arbitrary: acc) (simp_all add: try_from_def)
  have "for_fold (\<lambda>acc index. and_then (ok_or (try_from u16_max index) InvalidConfiguration) (\<lambda>slot. Inr (acc @ [slot])))
      [] (rev [0..<layout_outstanding_count layout]) = Inr (rev [0..<layout_outstanding_count layout])"
    using fold [of "rev [0..<layout_outstanding_count layout]" "[]"] assms(2) by simp
  then show "la_signals l = replicate (layout_outstanding_count layout) SLOT_FREE"
    "la_pending_words l = replicate (layout_pending_word_count layout) 0"
    "la_records l = replicate (layout_outstanding_count layout) None"
    "la_free_slots l = rev [0..<layout_outstanding_count layout]"
    using assms(1) by (auto simp: ledger_allocate_def Let_def allocate_exact_def split: if_splits)
qed

lemma zeroed_tenant_table_Inr:
  "zeroed_tenant_table grants element layout required stage fail_at v = Inr t \<Longrightarrow> t = replicate (layout_tenant_count layout) v"
  by (auto simp: zeroed_tenant_table_def allocate_exact_def split: if_splits)

section \<open>The fresh governor\<close>

lemma configure_state:
  assumes conf: "configure sz grants input = Inr conf"
    and cnt: "layout_outstanding_count (in_layout input) \<le> u16_max"
  defines "n \<equiv> layout_tenant_count (in_layout input)" and "m \<equiv> layout_outstanding_count (in_layout input)"
  shows "grant_records (gc_state conf) = replicate m None" "free_slots (gc_state conf) = rev [0..<m]"
    "gc_slot_signals conf = replicate m SLOT_FREE"
    "gc_pending_words conf = replicate (layout_pending_word_count (in_layout input)) 0"
    "total_usage (gc_state conf) = amounts_zero" "recovery_usage (gc_state conf) = amounts_zero"
    "ordinary_tenant_usage (gc_state conf) = replicate n amounts_zero"
    "recovery_tenant_usage (gc_state conf) = replicate n amounts_zero"
    "recovery_pool_usage (gc_state conf) = recovery_usage_zero" "recovery_system_pool_usage (gc_state conf) = recovery_usage_zero"
    "recovery_tenant_pool_usage (gc_state conf) = replicate n recovery_usage_zero" "pool_usage (gc_state conf) = pools_zero"
    "ordinary_tenant_pool_usage (gc_state conf) = replicate n pools_zero"
    "tenant_outstanding (gc_state conf) = replicate n 0" "outstanding (gc_state conf) = 0"
    "outstanding_ordinary (gc_state conf) = 0" "outstanding_recovery (gc_state conf) = 0"
    "outstanding_uninterruptible (gc_state conf) = 0" "class_counts (gc_state conf) = empty_class_counts"
    "lifecycle (gc_state conf) = Open"
  using conf unfolding configure_def Let_def n_def m_def
  by (auto dest!: zeroed_tenant_table_Inr simp: ledger_allocate_Inr [OF _ cnt])

lemma pools_zero_amount [simp]: "pool_amount pools_zero k = 0"
  by (cases k) (simp add: pool_amount.simps)

lemma empty_class_counts_replicate: "empty_class_counts = replicate 5 0"
  by (simp add: empty_class_counts_def numeral_eq_Suc)

lemma row_zero: "row f (replicate n z) i = (if i < n then f z else 0)"
  by (simp add: row_def)

lemma configure_inv:
  assumes conf: "configure sz grants input = Inr conf" and new: "governor_new authority conf = (cfg, g)"
    and cnt: "layout_outstanding_count (in_layout input) \<le> u16_max"
    and words: "layout_pending_word_count (in_layout input) = (layout_outstanding_count (in_layout input) + 63) div 64"
  shows "governor_inv (layout_tenant_count (in_layout input)) g" "live_slots g = {}" "lifecycle g = Open" "account_value acc g = 0"
proof -
  let ?m = "layout_outstanding_count (in_layout input)" and ?n = "layout_tenant_count (in_layout input)"
  note st = configure_state [OF conf cnt]
  have g: "g = accounting_state.extend (gc_state conf)
      (governor.fields (gc_slot_signals conf) (gc_pending_words conf) False False
         (pressure_index (disk_pressure (gc_state conf))) 0)"
    using new by (simp add: governor_new_def)
  have rec: "grant_records g = replicate ?m None" "free_slots g = rev [0..<?m]" "slot_signals g = replicate ?m SLOT_FREE"
    "pending_words g = replicate ((?m + 63) div 64) 0" "has_pending_releases g = False" "lifecycle g = Open"
    using st words unfolding g by (simp_all add: accounting_state.extend_def governor.fields_def)
  have zero: "account_value acc g = 0" for acc
    using st unfolding g
    by (cases acc) (simp_all add: accounting_state.extend_def governor.fields_def row_zero
        empty_class_counts_replicate)
  then have "conserved g" by (simp add: conserved_def rec)
  moreover have "tables_wf ?n g"
    using st unfolding g by (simp add: tables_wf_def accounting_state.extend_def governor.fields_def empty_class_counts_replicate)
  moreover have "slots_wf g" using cnt unfolding slots_wf_def rec by auto
  ultimately have "ledger_inv ?n g" by (simp add: ledger_inv_def forest_ok_def rec)
  moreover have "marked g = {}" "pending_slots g = {}" by (auto simp: marked_def pending_slots_def rec)
  then have "pending_inv g" by (simp add: pending_inv_def rec)
  ultimately show "governor_inv ?n g" by (simp add: governor_inv_def)
  show "live_slots g = {}" by (simp add: live_slots_def live_slot_def rec)
  show "lifecycle g = Open" by (fact rec)
  show "account_value acc g = 0" by (rule zero)
qed

section \<open>Established governors\<close>

text \<open>A governor that was configured from a validated inventory and a policy, with no handles out yet.\<close>

definition established :: "governor_config \<Rightarrow> nat \<Rightarrow> client_system \<Rightarrow> bool" where
  "established cfg n s \<longleftrightarrow>
     (\<exists>sz grants inventory policy recovery_pools fail_at conf authority quotas reservations.
        cardinality_limits_new quotas reservations = Inr (inv_cardinality inventory) \<and>
        configuration_new_with_failure sz grants inventory policy recovery_pools fail_at = Inr conf \<and>
        governor_new authority (rgc_inner conf) = (cfg, sys_governor s) \<and>
        n = max_tenant_quotas (inv_cardinality inventory) \<and> sys_handles s = [])"

lemma established_inv:
  assumes "established cfg n s"
  shows "system_inv n s" "lifecycle (sys_governor s) = Open" "account_value acc (sys_governor s) = 0"
proof -
  obtain sz grants inventory policy recovery_pools fail_at conf authority quotas reservations where
    card: "cardinality_limits_new quotas reservations = Inr (inv_cardinality inventory)"
    and conf: "configuration_new_with_failure sz grants inventory policy recovery_pools fail_at = Inr conf"
    and new: "governor_new authority (rgc_inner conf) = (cfg, sys_governor s)"
    and n: "n = max_tenant_quotas (inv_cardinality inventory)" and hs: "sys_handles s = []"
    using assms unfolding established_def by blast
  have "inv_cardinality inventory = \<lparr> max_tenant_quotas = quotas, max_outstanding_reservations = reservations \<rparr>"
    "quotas \<le> MAX_TENANT_QUOTAS" "reservations \<le> MAX_OUTSTANDING_RESERVATIONS"
    using card by (auto simp: cardinality_limits_new_def split: if_splits)
  then have small: "n \<le> u16_max" "max_outstanding_reservations (inv_cardinality inventory) \<le> u16_max"
    using n by (simp_all add: MAX_TENANT_QUOTAS_def MAX_OUTSTANDING_RESERVATIONS_def u16_max_def)
  obtain layout input where lay: "layout_new sz n (max_outstanding_reservations (inv_cardinality inventory)) = Inr layout"
    and cfgd: "configure sz grants input = Inr (rgc_inner conf)" and inl: "in_layout input = layout"
    using conf unfolding configuration_new_with_failure_def Let_def n by (fastforce split: if_splits)
  note f = layout_new_fields [OF lay]
  have "governor_inv n (sys_governor s)" "live_slots (sys_governor s) = {}" "lifecycle (sys_governor s) = Open"
    "account_value acc (sys_governor s) = 0"
    using configure_inv [OF cfgd new] f small by (simp_all add: inl)
  then show "system_inv n s" "lifecycle (sys_governor s) = Open" "account_value acc (sys_governor s) = 0"
    using small hs by (simp_all add: system_inv_def)
qed

interpretation governor_machine:
  inductive_invariant "established cfg n" event_ok "sys_step cfg" "system_inv n"
  by unfold_locales (auto intro: established_inv sys_step_inv)

end
