(* ===== verification/Soundness.thy ===== *)
theory Soundness
  imports Established
begin

text \<open>
  What the machine invariant means for a client: once dropped handles are drained, every
  account of the governor is the sum of the charges of the handles that are out.
\<close>

section \<open>Books and handles\<close>

definition handle_charge :: "reservation \<Rightarrow> account \<Rightarrow> nat" where
  "handle_charge h acc =
     grant_charge (res_owner h) (identity_class (res_identity h)) (identity_ordinary (res_identity h))
       (identity_recovery_kind (res_identity h)) (res_amounts h) acc"

text \<open>The sum over slots as a sum over the live slots, when no drop is pending.\<close>

lemma slot_sum_nth:
  "slot_sum f rs = (\<Sum>i < length rs. case rs ! i of None \<Rightarrow> 0 | Some r \<Rightarrow> f r)"
  unfolding slot_sum_def sum_list_sum_nth by (simp add: lessThan_atLeast0)

lemma slot_sum_live:
  assumes inv: "ledger_inv n g" and none: "pending_slots g = {}"
  shows "slot_sum (record_charge acc) (grant_records g)
    = (\<Sum>i \<in> live_slots g. record_charge acc (the (grant_records g ! i)))"
proof -
  let ?f = "\<lambda>i. case grant_records g ! i of None \<Rightarrow> 0 | Some r \<Rightarrow> record_charge acc r"
  have sub: "live_slots g \<subseteq> {..<length (grant_records g)}" by (auto simp: live_slots_def live_slot_def)
  have zero: "?f i = 0" if i: "i \<in> {..<length (grant_records g)} - live_slots g" for i
  proof (cases "grant_records g ! i")
    case (Some r)
    have "slot_signals g ! i \<in> {SLOT_ACTIVE, SLOT_RELEASE_PENDING}"
      using ledger_invD(1) [OF inv] i Some by (auto simp: slots_wf_def)
    then have "retired r"
      using i Some none by (auto simp: live_slots_def live_slot_def pending_slots_def)
    then show ?thesis using Some by (simp add: record_charge_retired)
  qed simp
  have "slot_sum (record_charge acc) (grant_records g) = (\<Sum>i \<in> live_slots g. ?f i)"
    unfolding slot_sum_nth by (rule sum.mono_neutral_right) (use sub zero in auto)
  also have "\<dots> = (\<Sum>i \<in> live_slots g. record_charge acc (the (grant_records g ! i)))"
    by (rule sum.cong) (auto simp: live_slots_def live_slot_def)
  finally show ?thesis .
qed

lemma handle_charge_record:
  assumes "handle_ok g h"
  shows "record_charge acc (the (grant_records g ! res_slot h)) = handle_charge h acc"
proof -
  obtain r where h: "held g (res_owner h) (res_identity h) (res_amounts h) (res_slot h) r"
    using assms by (auto simp: handle_ok_def)
  then show ?thesis using heldD(2) [OF h] held_charge [OF h] by (simp add: handle_charge_def)
qed

lemma handles_sum:
  assumes ok: "\<And>h. h \<in> set hs \<Longrightarrow> handle_ok g h" and d: "distinct (map res_slot hs)"
  shows "(\<Sum>i \<in> res_slot ` set hs. record_charge acc (the (grant_records g ! i))) = sum_list (map (\<lambda>h. handle_charge h acc) hs)"
proof -
  have inj: "inj_on res_slot (set hs)" and dh: "distinct hs" using d by (simp_all add: distinct_map)
  have "(\<Sum>i \<in> res_slot ` set hs. record_charge acc (the (grant_records g ! i)))
      = (\<Sum>h \<in> set hs. handle_charge h acc)"
    unfolding sum.reindex [OF inj] using handle_charge_record [OF ok] by (intro sum.cong) simp_all
  also have "\<dots> = sum_list (map (\<lambda>h. handle_charge h acc) hs)" by (rule sum_list_distinct_conv_sum_set [OF dh, symmetric])
  finally show ?thesis .
qed

lemma settled_books:
  assumes inv: "system_inv n s" and open_: "lifecycle (settle (sys_governor s)) \<noteq> Fenced"
  shows "account_value acc (settle (sys_governor s)) = sum_list (map (\<lambda>h. handle_charge h acc) (sys_handles s))"
proof -
  let ?g = "settle (sys_governor s)"
  have gi: "governor_inv n (sys_governor s)" using inv by (simp add: system_inv_def)
  note st = settle_steady [OF gi]
  have l: "ledger_inv n ?g" using st(1) by (simp add: steady_def governor_inv_def)
  have "system_inv n (s\<lparr> sys_governor := ?g \<rparr>)" by (rule system_inv_steady [OF inv st(1)])
  then have hs: "\<And>h. h \<in> set (sys_handles s) \<Longrightarrow> handle_ok ?g h" "distinct (map res_slot (sys_handles s))"
    and live: "live_slots ?g = res_slot ` set (sys_handles s)"
    using open_ by (simp_all add: system_inv_def)
  have "account_value acc ?g = slot_sum (record_charge acc) (grant_records ?g)"
    using ledger_invD(4) [OF l] by (simp add: conserved_def)
  also have "\<dots> = (\<Sum>i \<in> live_slots ?g. record_charge acc (the (grant_records ?g ! i)))"
    by (rule slot_sum_live [OF l st(2)])
  also have "\<dots> = sum_list (map (\<lambda>h. handle_charge h acc) (sys_handles s))"
    unfolding live by (rule handles_sum [OF hs])
  finally show ?thesis .
qed

text \<open>A fenced governor may still carry charges no handle stands for, never fewer than the handles.\<close>

lemma held_books:
  assumes inv: "system_inv n s"
  shows "sum_list (map (\<lambda>h. handle_charge h acc) (sys_handles s)) \<le> account_value acc (sys_governor s)"
proof -
  let ?g = "sys_governor s" and ?f = "\<lambda>i. record_charge acc (the (grant_records (sys_governor s) ! i))"
  have l: "ledger_inv n ?g" and hs: "\<And>h. h \<in> set (sys_handles s) \<Longrightarrow> handle_ok ?g h"
    and d: "distinct (map res_slot (sys_handles s))"
    using inv by (simp_all add: system_inv_def governor_inv_def)
  have "res_slot ` set (sys_handles s) \<subseteq> {i. i < length (grant_records ?g) \<and> grant_records ?g ! i \<noteq> None}"
    using hs by (fastforce simp: handle_ok_def held_def live_slot_def)
  then have "(\<Sum>i \<in> res_slot ` set (sys_handles s). ?f i)
      \<le> (\<Sum>i \<in> {i. i < length (grant_records ?g) \<and> grant_records ?g ! i \<noteq> None}. ?f i)"
    by (intro sum_mono2) simp_all
  also have "\<dots> = (\<Sum>i \<in> {i. i < length (grant_records ?g) \<and> grant_records ?g ! i \<noteq> None}.
      case grant_records ?g ! i of None \<Rightarrow> 0 | Some r \<Rightarrow> record_charge acc r)"
    by (rule sum.cong) auto
  also have "\<dots> \<le> slot_sum (record_charge acc) (grant_records ?g)"
    unfolding slot_sum_nth by (intro sum_mono2) auto
  also have "\<dots> = account_value acc ?g" using ledger_invD(4) [OF l] by (simp add: conserved_def)
  finally show ?thesis using handles_sum [OF hs d, of acc] by simp
qed

end
