(* ===== verification/Capacity.thy ===== *)
theory Capacity
  imports Soundness
begin

text \<open>
  The governor never commits more than it has. The bounds that hold in every reachable
  state, whatever the interleaving, and that every admission and every growing resize
  re-establishes.
\<close>

section \<open>The bounds\<close>

definition ordinary_load :: "resource_dimension \<Rightarrow> governor \<Rightarrow> nat" where
  "ordinary_load d g = account_value (A_total d) g - account_value (A_recovery d) g"

definition within_capacity :: "governor_config \<Rightarrow> governor \<Rightarrow> bool" where
  "within_capacity cfg g \<longleftrightarrow>
     (\<forall>k. account_value (A_pool k) g \<le> pool_amount (g_pool_capacities cfg) k) \<and>
     (\<forall>kind d. account_value (A_recovery_pool (RProtected kind, d)) g
        \<le> amounts_get (recovery_get (g_recovery_pool_capacities cfg) kind) d) \<and>
     (\<forall>d. ordinary_load d g + account_value (A_recovery_pool (RShared, d)) g
        \<le> amounts_get (g_recovery_shared_capacity cfg) d) \<and>
     (\<forall>d. ordinary_load d g \<le> amounts_get (g_ordinary_ceiling cfg) d) \<and>
     account_value A_outstanding g \<le> g_maximum_outstanding cfg"

text \<open>What configuration guarantees of the ceilings.\<close>

definition config_wf :: "governor_config \<Rightarrow> bool" where
  "config_wf cfg \<longleftrightarrow>
     (\<forall>d. amounts_get (g_ordinary_ceiling cfg) d \<le> amounts_get (g_recovery_shared_capacity cfg) d) \<and>
     (\<forall>d. amounts_get (g_total_ceiling cfg) d
        = amounts_get (g_recovery_shared_capacity cfg) d + protected_total (g_recovery_pool_capacities cfg) d)"

lemma within_capacity_pools: "within_capacity cfg g \<Longrightarrow> pool_amount (pool_usage g) k \<le> pool_amount (g_pool_capacities cfg) k"
  unfolding within_capacity_def account_value.simps by blast

section \<open>Recovery charges add up\<close>

lemma record_charge_recovery_le: "record_charge (A_recovery d) r \<le> record_charge (A_total d) r"
  by (auto simp: record_charge_def record_grant_def split: option.splits charge_attribution.splits)

lemma sum_list_map_le: "(\<And>x. f x \<le> g x) \<Longrightarrow> sum_list (map f xs) \<le> (sum_list (map g xs) :: nat)"
  by (rule sum_list_mono) simp

lemma within_capacity_eased:
  assumes "within_capacity cfg g" and "eased g g'"
  shows "within_capacity cfg g'"
proof -
  obtain rs where e: "\<And>acc. account_value acc g = account_value acc g' + sum_list (map (record_charge acc) rs)"
    using assms(2) unfolding eased_def by blast
  have le: "account_value acc g' \<le> account_value acc g" for acc using e [of acc] by simp
  have ord: "ordinary_load d g' \<le> ordinary_load d g" for d
    using e [of "A_total d"] e [of "A_recovery d"]
      sum_list_map_le [of "record_charge (A_recovery d)" "record_charge (A_total d)" rs, OF record_charge_recovery_le]
    unfolding ordinary_load_def by linarith
  show ?thesis
    using assms(1) le ord unfolding within_capacity_def
    by (meson add_mono order_trans)
qed

text \<open>Every recovery grant is split between the shared pool and the pool of its kind.\<close>

lemma sum_recovery_kinds: "sum_list (map (\<lambda>k. if k = kind then x else 0) recovery_kind_all) = (x :: nat)"
  by (cases kind) (simp_all add: recovery_kind_all_def)

lemma record_charge_recovery_split:
  "record_charge (A_recovery d) r = record_charge (A_recovery_pool (RShared, d)) r
     + sum_list (map (\<lambda>k. record_charge (A_recovery_pool (RProtected k, d)) r) recovery_kind_all)"
proof (cases "retired r \<or> record_owner r = None")
  case True
  then show ?thesis by (auto simp: record_charge_def)
next
  case False
  then obtain owner where o: "\<not> retired r" "record_owner r = Some owner" by blast
  show ?thesis
  proof (cases "owner_attribution owner")
    case (Charge_Ordinary i)
    then show ?thesis using o by (simp add: record_charge_def record_grant_def)
  next
    case (Charge_Recovery ti)
    then obtain c where c: "owner_recovery_pools owner = Some c"
      "amounts_checked_sub (gr_amounts r) (rc_shared c) = Some (rc_protected c)"
      using o(2) by (auto simp: record_owner_def Option.bind_eq_Some_conv split: option.splits)
    have "amounts_get (gr_amounts r) d = amounts_get (rc_protected c) d + amounts_get (rc_shared c) d"
      using amounts_vec.sub_Some [OF c(2), of d] .
    then show ?thesis
      using o Charge_Recovery c(1) by (simp add: record_charge_def record_grant_def owner_recovery_amount_def sum_recovery_kinds)
  qed
qed

lemma slot_sum_sum_list:
  "slot_sum (\<lambda>r. sum_list (map (\<lambda>k. f k r) ks)) rs = sum_list (map (\<lambda>k. slot_sum (f k) rs) ks)"
proof (induction ks)
  case Nil
  have "slot_sum (\<lambda>_. 0) rs = 0" by (simp add: slot_sum_eq_0_iff)
  then show ?case by simp
qed (simp add: slot_sum_add)

lemma recovery_accounts_split:
  assumes "conserved g"
  shows "account_value (A_recovery d) g = account_value (A_recovery_pool (RShared, d)) g
     + sum_list (map (\<lambda>k. account_value (A_recovery_pool (RProtected k, d)) g) recovery_kind_all)"
proof -
  have v: "account_value acc g = slot_sum (record_charge acc) (grant_records g)" for acc
    using assms by (simp add: conserved_def)
  show ?thesis
    unfolding v slot_sum_sum_list [symmetric] slot_sum_add [symmetric] record_charge_recovery_split ..
qed

text \<open>So the total stays below its ceiling.\<close>

theorem within_total_ceiling:
  assumes "within_capacity cfg g" and "config_wf cfg" and "conserved g"
  shows "account_value (A_total d) g \<le> amounts_get (g_total_ceiling cfg) d"
proof -
  have "sum_list (map (\<lambda>k. account_value (A_recovery_pool (RProtected k, d)) g) recovery_kind_all)
      \<le> protected_total (g_recovery_pool_capacities cfg) d"
    unfolding protected_total_def using assms(1) by (intro sum_list_map_le) (simp add: within_capacity_def)
  moreover have "ordinary_load d g + account_value (A_recovery_pool (RShared, d)) g
      \<le> amounts_get (g_recovery_shared_capacity cfg) d" using assms(1) by (simp add: within_capacity_def)
  moreover have "amounts_get (g_total_ceiling cfg) d
      = amounts_get (g_recovery_shared_capacity cfg) d + protected_total (g_recovery_pool_capacities cfg) d"
    using assms(2) by (simp add: config_wf_def)
  ultimately show ?thesis
    using recovery_accounts_split [OF assms(3), of d] unfolding ordinary_load_def by linarith
qed

section \<open>Admission\<close>

lemma require_healthy_bound:
  assumes "require_healthy_and_slot cfg g cls i = Inr m"
  shows "m \<le> g_maximum_outstanding cfg"
  using assms by (auto simp: require_healthy_and_slot_def Let_def exceeds_checked_add split: if_splits)

lemma ordinary_admission_capacity:
  assumes plan: "plan_ordinary cfg claim g = Proceed p" and cap: "within_capacity cfg g" and wf: "config_wf cfg"
    and post: "\<And>acc. account_value acc g' = account_value acc g
      + grant_charge (op_owner p) (claim_class claim) True None (claim_amounts claim) acc"
  shows "within_capacity cfg g'"
proof -
  obtain i pools limit fair eligible ordinary where
    healthy: "require_healthy_and_slot cfg g (claim_class claim) (Some i) = Inr (op_outstanding p)"
    and owner: "op_owner p = \<lparr> owner_attribution = Charge_Ordinary i, owner_pools = Some pools, owner_recovery_pools = None \<rparr>"
    and pool: "plan_pool_charge (claim_class claim) (claim_amounts claim)
       \<lparr> pa_global_capacity = g_pool_capacities cfg, pa_global_usage = pool_usage g,
         pa_tenant_capacity = fair, pa_tenant_usage = ordinary_tenant_pool_usage g ! i \<rparr>
       (disk_pressure g) eligible = Inr pools"
    and ordinary: "amounts_checked_sub (total_usage g) (recovery_usage g) = Some ordinary"
    and room: "refuse_ordinary_capacity (claim_class claim) (claim_amounts claim)
       \<lparr> oc_ordinary_usage = ordinary, oc_recovery_shared_usage = rpu_shared (recovery_pool_usage g),
         oc_ordinary_ceiling = g_ordinary_ceiling cfg, oc_total_ceiling = g_total_ceiling cfg,
         oc_pressure = disk_pressure g \<rparr> = Inr ()"
    by (rule plan_ordinary_Proceed [OF plan])
  have load: "ordinary_load d g' = amounts_get ordinary d + amounts_get (claim_amounts claim) d" for d
    using taken(1) [OF ordinary] post [of "A_total d"] post [of "A_recovery d"] owner by (simp add: ordinary_load_def)
  have room': "amounts_get ordinary d + amounts_get (claim_amounts claim) d + amounts_get (rpu_shared (recovery_pool_usage g)) d
      \<le> amounts_get (g_ordinary_ceiling cfg) d" for d
    using room unfolding refuse_ordinary_capacity_Inr_iff by simp
  show ?thesis
    unfolding within_capacity_def
  proof (intro conjI allI)
    fix k :: "ordinary_pool \<times> resource_dimension"
    obtain pl d where k: "k = (pl, d)" by (cases k)
    note within_capacity_pools [OF cap, of k]
    then show "account_value (A_pool k) g' \<le> pool_amount (g_pool_capacities cfg) k"
      using plan_pool_charge_exact(5) [OF pool, of pl d] post [of "A_pool k"] owner
      unfolding k by (simp add: owner_pool_amount_def)
  next
    fix kind d
    show "account_value (A_recovery_pool (RProtected kind, d)) g' \<le> amounts_get (recovery_get (g_recovery_pool_capacities cfg) kind) d"
      using cap post [of "A_recovery_pool (RProtected kind, d)"] owner by (simp add: within_capacity_def)
  next
    fix d
    show "ordinary_load d g' \<le> amounts_get (g_ordinary_ceiling cfg) d" using load room' [of d] by simp
    have "amounts_get (g_ordinary_ceiling cfg) d \<le> amounts_get (g_recovery_shared_capacity cfg) d"
      using wf by (simp add: config_wf_def)
    then show "ordinary_load d g' + account_value (A_recovery_pool (RShared, d)) g' \<le> amounts_get (g_recovery_shared_capacity cfg) d"
      using load [of d] room' [of d] post [of "A_recovery_pool (RShared, d)"] owner by simp
  next
    show "account_value A_outstanding g' \<le> g_maximum_outstanding cfg"
      using require_healthy_bound [OF healthy] require_healthy_outstanding [OF healthy] post [of A_outstanding] by simp
  qed
qed

lemma recovery_admission_capacity:
  assumes plan: "plan_recovery cfg claim g = Proceed p" and cap: "within_capacity cfg g"
    and post: "\<And>acc. account_value acc g' = account_value acc g
      + grant_charge (rp_owner p) DurabilityRecovery False (Some (recovery_claim_kind claim)) (recovery_claim_amounts claim) acc"
  shows "within_capacity cfg g'"
proof -
  obtain pools scope ordinary where
    healthy: "require_healthy_and_slot cfg g DurabilityRecovery (rp_tenant_index p) = Inr (rp_outstanding p)"
    and ordinary: "amounts_checked_sub (total_usage g) (recovery_usage g) = Some ordinary"
    and pool: "plan_recovery_pools cfg (recovery_claim_kind claim) (rp_tenant_index p \<noteq> None) (recovery_claim_amounts claim)
       (recovery_pool_usage g) ordinary scope (disk_pressure g) = Inr pools"
    and owner: "rp_owner p = \<lparr> owner_attribution = Charge_Recovery (rp_tenant_index p), owner_pools = None,
       owner_recovery_pools = Some pools \<rparr>"
    by (rule plan_recovery_Proceed [OF plan])
  note exact = plan_recovery_charge_exact [OF pool [unfolded plan_recovery_pools_def map_err_Inr_iff], simplified]
  have load: "ordinary_load d g' = amounts_get ordinary d" "ordinary_load d g = amounts_get ordinary d" for d
    using taken(1) [OF ordinary] post [of "A_total d"] post [of "A_recovery d"] owner by (simp_all add: ordinary_load_def)
  show ?thesis
    unfolding within_capacity_def
  proof (intro conjI allI)
    fix k
    show "account_value (A_pool k) g' \<le> pool_amount (g_pool_capacities cfg) k"
      using within_capacity_pools [OF cap, of k] post [of "A_pool k"] owner by simp
  next
    fix kind d
    show "account_value (A_recovery_pool (RProtected kind, d)) g' \<le> amounts_get (recovery_get (g_recovery_pool_capacities cfg) kind) d"
      using cap post [of "A_recovery_pool (RProtected kind, d)"] owner exact(1) exact(4) [of d]
      by (auto simp: within_capacity_def owner_recovery_amount_def usage_protected_def)
  next
    fix d
    show "ordinary_load d g' \<le> amounts_get (g_ordinary_ceiling cfg) d"
      using cap load [of d] by (metis within_capacity_def)
    show "ordinary_load d g' + account_value (A_recovery_pool (RShared, d)) g' \<le> amounts_get (g_recovery_shared_capacity cfg) d"
      using load(1) [of d] exact(3) [of d] post [of "A_recovery_pool (RShared, d)"] owner by (simp add: owner_recovery_amount_def)
  next
    show "account_value A_outstanding g' \<le> g_maximum_outstanding cfg"
      using require_healthy_bound [OF healthy] require_healthy_outstanding [OF healthy] post [of A_outstanding] by simp
  qed
qed

lemma steady_capacity: "within_capacity cfg g \<Longrightarrow> steady n g g' \<Longrightarrow> within_capacity cfg g'"
  by (rule within_capacity_eased) (auto simp: steady_def survives_def)

lemma reserve_ordinary_locked_capacity:
  assumes inv: "governor_inv n g" and n: "n \<le> u16_max" and wf: "claim_wf claim"
    and cap: "within_capacity cfg g" and cwf: "config_wf cfg"
  shows "within_capacity cfg (snd (reserve_ordinary_locked cfg claim g))"
proof (cases "\<exists>p. plan_ordinary cfg claim g = Proceed p")
  case False
  then obtain e g' where "reserve_ordinary_locked cfg claim g = (Inl e, g')" "steady n g g'"
    using run_plan_steady [OF inv, of "plan_ordinary cfg claim g"] unfolding reserve_ordinary_locked_def by metis
  then show ?thesis using steady_capacity [OF cap] by simp
next
  case True
  then obtain p where p: "plan_ordinary cfg claim g = Proceed p" by blast
  have l: "ledger_inv n g" using inv by (simp add: governor_inv_def)
  have run: "reserve_ordinary_locked cfg claim g = commit_ordinary cfg claim p g"
    by (simp add: reserve_ordinary_locked_def run_plan_def p)
  show ?thesis
    using l n wf p
  proof (cases rule: commit_ordinary_cases)
    case (fenced m)
    then show ?thesis
      unfolding run using steady_capacity [OF cap steady_view [OF inv, of "g\<lparr> next_operation_generation := m, lifecycle := Fenced \<rparr>"]]
      by simp
  next
    case (granted i r g')
    note own = plan_ordinary_owner [OF p ledger_invD(2) [OF l] n]
    have live: "\<not> retired r" using granted(3) admissible_live by (auto simp: admitted_def)
    have id: "op_identity p = Ordinary (claim_tenant claim) (claim_principal claim) (claim_kind claim)"
      by (rule plan_ordinary_Proceed [OF p])
    have "record_charge acc r = grant_charge (op_owner p) (claim_class claim) True None (claim_amounts claim) acc" for acc
      using owner_matches_facts(2) [OF granted(2) own _ live] by (simp add: id claim_class_def)
    then show ?thesis
      unfolding run granted(1) using admitted_inv(5) [OF l granted(3)] ordinary_admission_capacity [OF p cap cwf, of g']
      by (simp add: debited_def)
  qed
qed

lemma reserve_recovery_locked_capacity:
  assumes inv: "governor_inv n g" and n: "n \<le> u16_max" and cap: "within_capacity cfg g"
  shows "within_capacity cfg (snd (reserve_recovery_locked cfg claim g))"
proof (cases "\<exists>p. plan_recovery cfg claim g = Proceed p")
  case False
  then obtain e g' where "reserve_recovery_locked cfg claim g = (Inl e, g')" "steady n g g'"
    using run_plan_steady [OF inv, of "plan_recovery cfg claim g"] unfolding reserve_recovery_locked_def by metis
  then show ?thesis using steady_capacity [OF cap] by simp
next
  case True
  then obtain p where p: "plan_recovery cfg claim g = Proceed p" by blast
  have l: "ledger_inv n g" using inv by (simp add: governor_inv_def)
  have run: "reserve_recovery_locked cfg claim g = commit_recovery claim p g"
    by (simp add: reserve_recovery_locked_def run_plan_def p)
  show ?thesis
    using l n p
  proof (cases rule: commit_recovery_cases)
    case fenced
    then show ?thesis
      unfolding run using steady_capacity [OF cap steady_view [OF inv, of "g\<lparr> lifecycle := Fenced \<rparr>"]] by simp
  next
    case (granted i r g')
    note own = plan_recovery_owner [OF p ledger_invD(2) [OF l] n]
    have live: "\<not> retired r" using granted(4) admissible_live by (auto simp: admitted_def)
    have id: "rp_identity p = Recovery (recovery_claim_scope claim) (recovery_claim_kind claim)"
      by (rule plan_recovery_Proceed [OF p])
    have "record_charge acc r = grant_charge (rp_owner p) DurabilityRecovery False (Some (recovery_claim_kind claim))
        (recovery_claim_amounts claim) acc" for acc
      using owner_matches_facts(2) [OF granted(2) own _ live] by (simp add: id)
    then show ?thesis
      unfolding run granted(1) using admitted_inv(5) [OF l granted(4)] recovery_admission_capacity [OF p cap, of g']
      by (simp add: debited_def)
  qed
qed

lemma with_admission_capacity:
  assumes inv: "governor_inv n g" and cap: "within_capacity cfg g"
    and eff: "\<And>g1. governor_inv n g1 \<Longrightarrow> admission_effect n g1 (body g1)"
    and body: "\<And>g1. governor_inv n g1 \<Longrightarrow> within_capacity cfg g1 \<Longrightarrow> within_capacity cfg (snd (body g1))"
  shows "within_capacity cfg (snd (with_admission lock cls g body))"
proof -
  obtain lr g1 where l: "lock_for_admission lock cls g = (lr, g1)" by (cases "lock_for_admission lock cls g")
  have s: "steady n g g1" by (rule lock_for_admission_steady [OF inv l])
  then have inv1: "governor_inv n g1" and cap1: "within_capacity cfg g1"
    using steady_capacity [OF cap s] by (simp_all add: steady_def)
  obtain res g2 where b: "body g1 = (res, g2)" by (cases "body g1")
  note cap2 = body [OF inv1 cap1, unfolded b snd_conv]
  have inv2: "governor_inv n g2"
    using eff [OF inv1] b by (cases res) (auto simp: admission_effect_def steady_def grants_slot_def)
  then show ?thesis
    using l b cap1 cap2 steady_capacity [OF cap2 record_refusal_steady [OF inv2]]
    by (cases lr; cases res) (simp_all add: with_admission_def)
qed

section \<open>Resize\<close>

lemma some_or_fence_InrE:
  assumes "some_or_fence_resize cls g x k = (Inr c, g')"
  obtains a where "x = Some a" "k a = (Inr c, g')"
  using assms by (cases x) (auto simp: fence_resize_def)

lemma replace_slot_record_books:
  assumes "replace_slot_record slot owner identity amounts g = (b, g')"
  shows "account_value acc g' = account_value acc g"
  using assms
  by (cases acc) (auto simp: replace_slot_record_def split: if_splits option.splits)

lemma replaced_InrE:
  assumes "(case replace_slot_record slot owner identity amounts g of (replaced, g1) \<Rightarrow>
      if \<not> replaced then fence_resize cls g1 else (Inr c, g1)) = (Inr c', g')"
  obtains "\<And>acc. account_value acc g' = account_value acc g"
  using assms replace_slot_record_books [of slot owner identity amounts g]
  by (auto simp: fence_resize_def split: prod.splits if_splits)

lemma retire_slot_with_Inl:
  "retire_slot_with (fence_resize cls) (Inl f) r i g \<noteq> (Inr c, g')"
  by (auto simp: retire_slot_with_def fence_resize_def
      split: option.splits operation_record.splits prod.splits if_splits)

lemma cancel_resized_ordinary_Inl: "cancel_resized_ordinary rq ti cls tw nw pw npw f g \<noteq> (Inr c, g')"
proof
  assume "cancel_resized_ordinary rq ti cls tw nw pw npw f g = (Inr c, g')"
  then show False
    unfolding cancel_resized_ordinary_def Let_def by (elim some_or_fence_InrE) (simp add: retire_slot_with_Inl)
qed

lemma resize_ordinary_books:
  assumes "resize_ordinary_locked cfg rq ti cls g = (Inr c, g')"
  obtains pools tw nw pw npw newp tc pc where "owner_pools (rq_owner rq) = Some pools"
    "amounts_checked_sub (total_usage g) (rq_old rq) = Some tw"
    "pools_checked_sub (pool_usage g) (pool_charge_capacities pools) = Some pw"
    "plan_resized_pools cfg rq ti cls pools tw nw pw npw g = Inr newp"
    "amounts_checked_add tw (rq_new rq) = Some tc" "pools_checked_add pw (pool_charge_capacities newp) = Some pc"
    "\<And>d. account_value (A_total d) g' = amounts_get tc d" "\<And>k. account_value (A_pool k) g' = pool_amount pc k"
    "\<And>d. account_value (A_recovery d) g' = account_value (A_recovery d) g"
    "\<And>k. account_value (A_recovery_pool k) g' = account_value (A_recovery_pool k) g"
    "account_value A_outstanding g' = account_value A_outstanding g"
proof -
  have nf: "lifecycle g \<noteq> Fenced" using assms by (auto simp: resize_ordinary_locked_def)
  obtain pools tw nw pw npw where sub: "owner_pools (rq_owner rq) = Some pools"
    "amounts_checked_sub (total_usage g) (rq_old rq) = Some tw"
    "pools_checked_sub (pool_usage g) (pool_charge_capacities pools) = Some pw"
    and rest: "(case plan_resized_pools cfg rq ti cls pools tw nw pw npw g of
       Inr new_pools \<Rightarrow> commit_resized_ordinary rq ti cls tw nw pw npw new_pools g
     | Inl fail \<Rightarrow>
         if rf_code fail = Resize_AdmissionRefused \<and> \<not> rq_preserve_existing rq
         then cancel_resized_ordinary rq ti cls tw nw pw npw fail g
         else (Inl fail, if rf_code fail = Resize_InternalFenced then g\<lparr> lifecycle := Fenced \<rparr> else g)) = (Inr c, g')"
    using assms unfolding resize_ordinary_locked_def Let_def if_not_P [OF nf] by (elim some_or_fence_InrE)
  obtain newp where newp: "plan_resized_pools cfg rq ti cls pools tw nw pw npw g = Inr newp"
    and com: "commit_resized_ordinary rq ti cls tw nw pw npw newp g = (Inr c, g')"
    using rest cancel_resized_ordinary_Inl by (auto split: sum.splits if_splits)
  from com obtain tc pc where "amounts_checked_add tw (rq_new rq) = Some tc"
    "pools_checked_add pw (pool_charge_capacities newp) = Some pc"
    "\<forall>d. account_value (A_total d) g' = amounts_get tc d" "\<forall>k. account_value (A_pool k) g' = pool_amount pc k"
    "\<forall>d. account_value (A_recovery d) g' = account_value (A_recovery d) g"
    "\<forall>k. account_value (A_recovery_pool k) g' = account_value (A_recovery_pool k) g"
    "account_value A_outstanding g' = account_value A_outstanding g"
    unfolding commit_resized_ordinary_def Let_def
    apply (elim some_or_fence_InrE replaced_InrE)
    subgoal for tc nc pc npc tu tp
      by (rule that [of tc pc]) (auto simp del: split_paired_All)
    done
  then show thesis using that [OF sub newp] by blast
qed

lemma plan_resized_pools_growth:
  assumes "plan_resized_pools cfg rq ti cls pools tw nw pw npw g = Inr c" and "\<not> amounts_is_at_most (rq_new rq) (rq_old rq)"
  obtains ordinary adm eligible where "amounts_checked_sub tw (recovery_usage g) = Some ordinary"
    "refuse_ordinary_capacity cls (rq_new rq)
       \<lparr> oc_ordinary_usage = ordinary, oc_recovery_shared_usage = rpu_shared (recovery_pool_usage g),
         oc_ordinary_ceiling = g_ordinary_ceiling cfg, oc_total_ceiling = g_total_ceiling cfg,
         oc_pressure = disk_pressure g \<rparr> = Inr ()"
    "plan_pool_charge cls (rq_new rq) adm (disk_pressure g) eligible = Inr c"
    "pa_global_capacity adm = g_pool_capacities cfg" "pa_global_usage adm = pw"
proof -
  obtain view where "plan_ordinary_resize cfg cls (rq_new rq) view = Inr c" "orv_total_without view = tw"
    "orv_recovery_usage view = recovery_usage g" "orv_recovery_shared_usage view = rpu_shared (recovery_pool_usage g)"
    "orv_pressure view = disk_pressure g" "orv_pool_without view = pw"
    using assms by (auto simp: plan_resized_pools_def Let_def and_then_def split: sum.splits if_splits)
  then show thesis
    using that by (auto simp: plan_ordinary_resize_def Let_def ok_or_def split: if_splits option.splits)
qed

lemma shrunk_charge_le:
  assumes "pool_charge_shrink_to c new = Some c'"
  shows "pool_amount (pool_charge_capacities c') k \<le> pool_amount (pool_charge_capacities c) k"
proof -
  have "charge_class_pool c' = charge_class_pool c"
    and le: "\<And>d. amounts_get (charge_shared c') d \<le> amounts_get (charge_shared c) d"
      "\<And>d. amounts_get (charge_protected c') d \<le> amounts_get (charge_protected c) d"
    using assms unfolding pool_charge_shrink_to_Some_iff by auto
  then show ?thesis
    by (cases k; cases "fst k"; cases "charge_class_pool c") (auto simp: pool_amount.simps pool_charge_capacities_def)
qed

lemma resize_ordinary_capacity:
  assumes cap: "within_capacity cfg g" and wf: "config_wf cfg"
    and run: "resize_ordinary_locked cfg rq ti cls g = (Inr c, g')"
  shows "within_capacity cfg g'"
proof -
  obtain pools tw nw pw npw newp tc pc where
    sub: "amounts_checked_sub (total_usage g) (rq_old rq) = Some tw"
      "pools_checked_sub (pool_usage g) (pool_charge_capacities pools) = Some pw"
    and plan: "plan_resized_pools cfg rq ti cls pools tw nw pw npw g = Inr newp"
    and add: "amounts_checked_add tw (rq_new rq) = Some tc" "pools_checked_add pw (pool_charge_capacities newp) = Some pc"
    and post: "\<And>d. account_value (A_total d) g' = amounts_get tc d" "\<And>k. account_value (A_pool k) g' = pool_amount pc k"
      "\<And>d. account_value (A_recovery d) g' = account_value (A_recovery d) g"
      "\<And>k. account_value (A_recovery_pool k) g' = account_value (A_recovery_pool k) g"
      "account_value A_outstanding g' = account_value A_outstanding g"
    by (rule resize_ordinary_books [OF run]) blast
  have pools: "account_value (A_pool k) g' \<le> pool_amount (g_pool_capacities cfg) k
      \<and> ordinary_load d g' \<le> amounts_get (g_ordinary_ceiling cfg) d
      \<and> ordinary_load d g' + account_value (A_recovery_pool (RShared, d)) g' \<le> amounts_get (g_recovery_shared_capacity cfg) d" for k d
  proof (cases "amounts_is_at_most (rq_new rq) (rq_old rq)")
    case True
    then have "pool_charge_shrink_to pools (rq_new rq) = Some newp"
      using plan by (auto simp: plan_resized_pools_def Let_def ok_or_def split: option.splits)
    note shr = shrunk_charge_le [OF this, of k]
    have "amounts_get (rq_new rq) d \<le> amounts_get (rq_old rq) d" using True by (simp add: amounts_is_at_most_def list_all_iff)
    then have "ordinary_load d g' \<le> ordinary_load d g"
      using taken(1) [OF sub(1)] posted(1) [OF add(1)] post(1,3) [of d] by (simp add: ordinary_load_def diff_le_mono)
    moreover have "account_value (A_pool k) g' \<le> pool_amount (pool_usage g) k"
      using shr taken(2) [OF sub(2)] posted(2) [OF add(2)] post(2) [of k] by (simp del: split_paired_All)
    moreover have "ordinary_load d g \<le> amounts_get (g_ordinary_ceiling cfg) d"
      "ordinary_load d g + account_value (A_recovery_pool (RShared, d)) g \<le> amounts_get (g_recovery_shared_capacity cfg) d"
      using cap by (simp_all add: within_capacity_def)
    ultimately show ?thesis using within_capacity_pools [OF cap, of k] post(4) by (metis add_le_mono1 order_trans)
  next
    case False
    obtain ordinary adm eligible where ord: "amounts_checked_sub tw (recovery_usage g) = Some ordinary"
      and room: "refuse_ordinary_capacity cls (rq_new rq)
         \<lparr> oc_ordinary_usage = ordinary, oc_recovery_shared_usage = rpu_shared (recovery_pool_usage g),
           oc_ordinary_ceiling = g_ordinary_ceiling cfg, oc_total_ceiling = g_total_ceiling cfg,
           oc_pressure = disk_pressure g \<rparr> = Inr ()"
      and charge: "plan_pool_charge cls (rq_new rq) adm (disk_pressure g) eligible = Inr newp"
      and adm: "pa_global_capacity adm = g_pool_capacities cfg" "pa_global_usage adm = pw"
      by (rule plan_resized_pools_growth [OF plan False])
    obtain pl d' where k: "k = (pl, d')" by (cases k)
    have "pool_amount pw k \<le> pool_amount (g_pool_capacities cfg) k"
      using taken(2) [OF sub(2)] within_capacity_pools [OF cap, of k] by (metis add_leD1)
    then have "account_value (A_pool k) g' \<le> pool_amount (g_pool_capacities cfg) k"
      using plan_pool_charge_exact(5) [OF charge, of pl d'] adm posted(2) [OF add(2)] post(2) [of k]
      unfolding k by (simp del: split_paired_All)
    moreover have load: "ordinary_load d g' = amounts_get ordinary d + amounts_get (rq_new rq) d"
      using taken(1) [OF ord] posted(1) [OF add(1)] post(1,3) [of d] by (simp add: ordinary_load_def)
    moreover have "amounts_get ordinary d + amounts_get (rq_new rq) d + amounts_get (rpu_shared (recovery_pool_usage g)) d
        \<le> amounts_get (g_ordinary_ceiling cfg) d"
      using room unfolding refuse_ordinary_capacity_Inr_iff by simp
    moreover have "amounts_get (g_ordinary_ceiling cfg) d \<le> amounts_get (g_recovery_shared_capacity cfg) d"
      using wf by (simp add: config_wf_def)
    ultimately show ?thesis using post(4) [of "(RShared, d)"] by simp
  qed
  then show ?thesis using cap unfolding within_capacity_def post(4,5) by blast
qed

lemma cancel_resized_recovery_Inl: "cancel_resized_recovery rq ti tw rw pw sw nw f g \<noteq> (Inr c, g')"
proof
  assume "cancel_resized_recovery rq ti tw rw pw sw nw f g = (Inr c, g')"
  then show False
    unfolding cancel_resized_recovery_def Let_def
    by (elim some_or_fence_InrE) (simp add: fence_resize_def split: prod.splits if_splits)
qed

lemma commit_resized_recovery_books:
  assumes "commit_resized_recovery rq ti tw rc pw sw nc charge g = (Inr c, g')"
  obtains tc pc where "amounts_checked_add tw (rq_new rq) = Some tc" "recovery_usage_checked_add pw charge = Some pc"
    "\<forall>d. account_value (A_total d) g' = amounts_get tc d" "\<forall>d. account_value (A_recovery d) g' = amounts_get rc d"
    "\<forall>k. account_value (A_recovery_pool k) g' = recovery_amount pc k"
    "\<forall>k. account_value (A_pool k) g' = account_value (A_pool k) g"
    "account_value A_outstanding g' = account_value A_outstanding g"
  using assms unfolding commit_resized_recovery_def Let_def
  apply (elim some_or_fence_InrE replaced_InrE)
  subgoal for tc pc sc tu g3
    by (rule that [of tc pc]) (auto split: option.splits simp del: split_paired_All)
  done

lemma resize_recovery_books:
  assumes "resize_recovery_locked cfg rq ti kind g = (Inr c, g')"
  obtains old tw rw ordinary pw sw nw charge tc pc where "amounts_checked_sub (total_usage g) (rq_old rq) = Some tw"
    "amounts_checked_sub (recovery_usage g) (rq_old rq) = Some rw" "amounts_checked_sub tw rw = Some ordinary"
    "recovery_usage_checked_sub (recovery_pool_usage g) old = Some pw"
    "plan_resized_recovery cfg rq ti kind tw ordinary pw sw nw g = Inr charge"
    "amounts_checked_add tw (rq_new rq) = Some tc" "recovery_usage_checked_add pw charge = Some pc"
    "\<And>d. account_value (A_total d) g' = amounts_get tc d"
    "\<And>d. account_value (A_recovery d) g' = amounts_get rw d + amounts_get (rq_new rq) d"
    "\<And>k. account_value (A_recovery_pool k) g' = recovery_amount pc k"
    "\<And>k. account_value (A_pool k) g' = account_value (A_pool k) g"
    "account_value A_outstanding g' = account_value A_outstanding g"
proof -
  have nf: "lifecycle g \<noteq> Fenced" using assms by (auto simp: resize_recovery_locked_def Let_def)
  obtain old tw rw ordinary rc pw sw nw nc where sub: "amounts_checked_sub (total_usage g) (rq_old rq) = Some tw"
    "amounts_checked_sub (recovery_usage g) (rq_old rq) = Some rw" "amounts_checked_sub tw rw = Some ordinary"
    "recovery_usage_checked_sub (recovery_pool_usage g) old = Some pw"
    and rc: "amounts_checked_add rw (rq_new rq) = Some rc"
    and rest: "(case plan_resized_recovery cfg rq ti kind tw ordinary pw sw nw g of
       Inl admission \<Rightarrow>
         if rq_preserve_existing rq \<or> retains_capacity_on_resize_failure kind
         then (Inl (resize_admission admission CapacityRetained), g)
         else cancel_resized_recovery rq ti tw rw pw sw nw (resize_admission admission CancelledBeforeLimit) g
     | Inr charge \<Rightarrow> commit_resized_recovery rq ti tw rc pw sw nc charge g) = (Inr c, g')"
    using assms unfolding resize_recovery_locked_def Let_def if_not_P [OF nf] by (elim some_or_fence_InrE)
  obtain charge where plan: "plan_resized_recovery cfg rq ti kind tw ordinary pw sw nw g = Inr charge"
    and com: "commit_resized_recovery rq ti tw rc pw sw nc charge g = (Inr c, g')"
    using rest cancel_resized_recovery_Inl by (auto split: sum.splits if_splits)
  show thesis
    by (rule commit_resized_recovery_books [OF com])
      (rule that [OF sub plan], use posted(1) [OF rc] in \<open>simp_all del: split_paired_All\<close>)
qed

lemma resize_recovery_capacity:
  assumes cap: "within_capacity cfg g" and run: "resize_recovery_locked cfg rq ti kind g = (Inr c, g')"
  shows "within_capacity cfg g'"
proof -
  obtain old tw rw ordinary pw sw nw charge tc pc where
    sub: "amounts_checked_sub (total_usage g) (rq_old rq) = Some tw"
      "amounts_checked_sub (recovery_usage g) (rq_old rq) = Some rw" "amounts_checked_sub tw rw = Some ordinary"
      "recovery_usage_checked_sub (recovery_pool_usage g) old = Some pw"
    and plan: "plan_resized_recovery cfg rq ti kind tw ordinary pw sw nw g = Inr charge"
    and add: "amounts_checked_add tw (rq_new rq) = Some tc" "recovery_usage_checked_add pw charge = Some pc"
    and post: "\<And>d. account_value (A_total d) g' = amounts_get tc d"
      "\<And>d. account_value (A_recovery d) g' = amounts_get rw d + amounts_get (rq_new rq) d"
      "\<And>k. account_value (A_recovery_pool k) g' = recovery_amount pc k"
      "\<And>k. account_value (A_pool k) g' = account_value (A_pool k) g"
      "account_value A_outstanding g' = account_value A_outstanding g"
    by (rule resize_recovery_books [OF run]) blast
  obtain scope where "plan_recovery_pools cfg kind (ti \<noteq> None) (rq_new rq) pw ordinary scope (disk_pressure g) = Inr charge"
    using plan by (auto simp: plan_resized_recovery_def Let_def and_then_def split: sum.splits if_splits)
  note exact = plan_recovery_charge_exact [OF this [unfolded plan_recovery_pools_def map_err_Inr_iff], simplified]
  note pc = posted(3) [OF add(2), rule_format]
  have load: "ordinary_load d g' = amounts_get ordinary d" "ordinary_load d g = amounts_get ordinary d" for d
    using taken(1) [OF sub(1)] taken(1) [OF sub(2)] taken(1) [OF sub(3)] posted(1) [OF add(1)] post(1,2) [of d]
    by (simp_all add: ordinary_load_def)
  have prot: "account_value (A_recovery_pool (RProtected k, d)) g'
      \<le> amounts_get (recovery_get (g_recovery_pool_capacities cfg) k) d" for k d
  proof (cases "k = kind")
    case True
    then show ?thesis
      using exact(1) exact(4) [of d] post(3) [of "(RProtected k, d)"] pc [of "(RProtected k, d)"]
      by (simp add: usage_protected_def)
  next
    case False
    have "recovery_amount pw (RProtected k, d) \<le> account_value (A_recovery_pool (RProtected k, d)) g"
      using taken(3) [OF sub(4), rule_format, of "(RProtected k, d)"] by simp
    moreover have "account_value (A_recovery_pool (RProtected k, d)) g
        \<le> amounts_get (recovery_get (g_recovery_pool_capacities cfg) k) d"
      using cap unfolding within_capacity_def by blast
    ultimately show ?thesis
      using False exact(1) post(3) [of "(RProtected k, d)"] pc [of "(RProtected k, d)"] by simp
  qed
  have "ordinary_load d g' + account_value (A_recovery_pool (RShared, d)) g' \<le> amounts_get (g_recovery_shared_capacity cfg) d" for d
    using load(1) [of d] exact(3) [of d] post(3) [of "(RShared, d)"] pc [of "(RShared, d)"] by simp
  moreover have "ordinary_load d g' \<le> amounts_get (g_ordinary_ceiling cfg) d" for d
    using cap load [of d] by (metis within_capacity_def)
  ultimately show ?thesis using cap prot unfolding within_capacity_def post(4,5) by blast
qed

lemma resize_effect_eased:
  assumes "resize_effect n g rq r (Inl f, g')"
  shows "eased g g'"
proof -
  consider "kept g (Inl f) g'" | "cancelled n g (rq_slot rq) r (Inl f) g'"
    using assms by (auto simp: resize_effect_def resized_def)
  then show ?thesis
  proof cases
    case 1
    then have "core g' = core g" by (auto simp: kept_def)
    then show ?thesis by (intro eased_same core_account)
  next
    case 2
    then show ?thesis unfolding cancelled_def given_back_def by (blast intro: eased_debited)
  qed
qed

lemma with_resize_capacity:
  assumes inv: "governor_inv n g" and h: "held g (rq_owner rq) (rq_identity rq) (rq_old rq) (rq_slot rq) r"
    and cap: "within_capacity cfg g"
    and eff: "\<And>g1 r1. governor_inv n g1 \<Longrightarrow> held g1 (rq_owner rq) (rq_identity rq) (rq_old rq) (rq_slot rq) r1 \<Longrightarrow>
      resize_effect n g1 rq r1 (body g1)"
    and body: "\<And>g1 c g2. within_capacity cfg g1 \<Longrightarrow> body g1 = (Inr c, g2) \<Longrightarrow> within_capacity cfg g2"
  shows "within_capacity cfg (snd (with_resize lock cls g body))"
proof -
  obtain lr g1 where l: "lock_for_admission lock cls g = (lr, g1)" by (cases "lock_for_admission lock cls g")
  have s: "steady n g g1" by (rule lock_for_admission_steady [OF inv l])
  then have inv1: "governor_inv n g1" and cap1: "within_capacity cfg g1"
    using steady_capacity [OF cap s] by (simp_all add: steady_def)
  obtain r1 where h1: "held g1 (rq_owner rq) (rq_identity rq) (rq_old rq) (rq_slot rq) r1"
    using held_steady [OF s h] by blast
  obtain res g2 where b: "body g1 = (res, g2)" by (cases "body g1")
  note e = eff [OF inv1 h1, unfolded b]
  show ?thesis
  proof (cases res)
    case (Inl f)
    have mv: "governor_inv n g2"
      using resize_effect_moves [OF inv1 h1 e] Inl by (auto simp: steady_def moves_def split: if_splits)
    have cap2: "within_capacity cfg g2" using within_capacity_eased [OF cap1 resize_effect_eased] e Inl by blast
    show ?thesis
      using l b Inl cap1 cap2 steady_capacity [OF cap2 record_refusal_steady [OF mv]]
      by (cases lr; cases "resize_admission_failure f") (simp_all add: with_resize_def)
  next
    case (Inr c)
    then show ?thesis using l b cap1 body [OF cap1] by (cases lr) (simp_all add: with_resize_def)
  qed
qed

lemma governor_resize_capacity:
  assumes inv: "governor_inv n g" and n: "n \<le> u16_max"
    and h: "held g (rq_owner rq) (rq_identity rq) (rq_old rq) (rq_slot rq) r"
    and cap: "within_capacity cfg g" and wf: "config_wf cfg"
  shows "within_capacity cfg (snd (governor_resize cfg lock rq g))"
proof (cases "rq_identity rq")
  case (Ordinary t p k)
  then obtain ti where att: "owner_attribution (rq_owner rq) = Charge_Ordinary ti" using heldD(6) [OF h] by auto
  show ?thesis
    unfolding governor_resize_def resize_ordinary_def Ordinary att reservation_identity.case charge_attribution.case
  proof (rule with_resize_capacity [OF inv h cap])
    fix g1 r1
    assume "governor_inv n g1" and h1: "held g1 (rq_owner rq) (rq_identity rq) (rq_old rq) (rq_slot rq) r1"
    then have "ledger_inv n g1" by (simp add: governor_inv_def)
    from resize_ordinary_locked_effect [OF this n h1 att, of cfg]
    show "resize_effect n g1 rq r1 (resize_ordinary_locked cfg rq ti (work_kind_class k) g1)" by (simp add: Ordinary)
  qed (rule resize_ordinary_capacity [OF _ wf])
next
  case (Recovery s k)
  then obtain ti where att: "owner_attribution (rq_owner rq) = Charge_Recovery ti" using heldD(6) [OF h] by auto
  show ?thesis
    unfolding governor_resize_def resize_recovery_def Recovery att reservation_identity.case charge_attribution.case
  proof (rule with_resize_capacity [OF inv h cap])
    fix g1 r1
    assume "governor_inv n g1" and h1: "held g1 (rq_owner rq) (rq_identity rq) (rq_old rq) (rq_slot rq) r1"
    then have "ledger_inv n g1" by (simp add: governor_inv_def)
    then show "resize_effect n g1 rq r1 (resize_recovery_locked cfg rq ti k g1)"
      by (rule resize_recovery_locked_effect [OF _ n h1 Recovery att])
  qed (rule resize_recovery_capacity)
qed

end
