(* ===== verification/Bounded.thy ===== *)
theory Bounded
  imports Capacity
begin

text \<open>
  The capacity bounds as an invariant of the machine: configuration establishes them and
  every event keeps them.
\<close>

section \<open>Events\<close>

lemma moves_capacity:
  "within_capacity cfg g \<Longrightarrow> moves n gone {} g g' \<Longrightarrow> within_capacity cfg g'"
  by (rule within_capacity_eased) (auto simp: moves_def)

lemma reserve_ordinary_capacity:
  assumes "governor_inv n g" and "n \<le> u16_max" and "claim_wf claim" and "within_capacity cfg g" and "config_wf cfg"
  shows "within_capacity cfg (snd (reserve_ordinary cfg lock claim g))"
  unfolding reserve_ordinary_def
  by (rule with_admission_capacity [OF assms(1,4)])
    (auto intro: reserve_ordinary_locked_effect reserve_ordinary_locked_capacity assms)

lemma reserve_recovery_capacity:
  assumes "governor_inv n g" and "n \<le> u16_max" and "within_capacity cfg g"
  shows "within_capacity cfg (snd (reserve_recovery cfg lock claim g))"
  unfolding reserve_recovery_def
  by (rule with_admission_capacity [OF assms(1,3)])
    (auto intro: reserve_recovery_locked_effect reserve_recovery_locked_capacity assms)

lemma try_resize_capacity:
  assumes inv: "governor_inv n g" and n: "n \<le> u16_max" and h: "handle_ok g h"
    and cap: "within_capacity cfg g" and wf: "config_wf cfg"
  shows "within_capacity cfg (snd (snd (try_resize_with_policy cfg lock new preserve h g)))"
proof -
  let ?rq = "\<lparr> rq_slot = res_slot h, rq_owner = res_owner h, rq_identity = res_identity h,
    rq_old = res_amounts h, rq_new = new, rq_preserve_existing = preserve \<rparr>"
  obtain r where "held g (rq_owner ?rq) (rq_identity ?rq) (rq_old ?rq) (rq_slot ?rq) r"
    using h by (auto simp: handle_ok_def)
  from governor_resize_capacity [OF inv n this cap wf, of lock]
  have "within_capacity cfg (snd (governor_resize cfg lock ?rq g))" .
  then show ?thesis using cap by (auto simp: try_resize_with_policy_def split: prod.split sum.split)
qed

definition bounded_inv :: "governor_config \<Rightarrow> nat \<Rightarrow> client_system \<Rightarrow> bool" where
  "bounded_inv cfg n s \<longleftrightarrow> system_inv n s \<and> config_wf cfg \<and> within_capacity cfg (sys_governor s)"

lemma keep_granted_governor [simp]: "sys_governor (keep_granted s out) = snd out"
  by (auto simp: keep_granted_def split: prod.split sum.split)

lemma through_handle_capacity:
  assumes "within_capacity cfg (sys_governor s)"
    and "\<And>h. h \<in> set (sys_handles s) \<Longrightarrow> within_capacity cfg (snd (f h (sys_governor s)))"
  shows "within_capacity cfg (sys_governor (through_handle k f s))"
  using assms(1) assms(2) [of "sys_handles s ! k"] by (auto simp: through_handle_def split: prod.split)

lemma sys_step_capacity:
  assumes inv: "bounded_inv cfg n s" and ok: "event_ok e"
  shows "within_capacity cfg (sys_governor (sys_step cfg e s))"
proof -
  let ?g = "sys_governor s"
  have n: "n \<le> u16_max" and g: "governor_inv n ?g" and hs: "\<And>h. h \<in> set (sys_handles s) \<Longrightarrow> handle_ok ?g h"
    and cap: "within_capacity cfg ?g" and wf: "config_wf cfg"
    using inv by (simp_all add: bounded_inv_def system_inv_def)
  note st = steady_capacity [OF cap, where n = n]
  show ?thesis
  proof (cases e)
    case (Ev_Reserve lock claim)
    then show ?thesis using reserve_ordinary_capacity [OF g n _ cap wf] ok by simp
  next
    case (Ev_ReserveRecovery lock claim)
    then show ?thesis using reserve_recovery_capacity [OF g n cap] by simp
  next
    case (Ev_Resize lock k new preserve)
    show ?thesis
      unfolding Ev_Resize sys_step.simps
      by (rule through_handle_capacity [OF cap]) (rule try_resize_capacity [OF g n hs cap wf])
  next
    case (Ev_Cancel lock relock k)
    show ?thesis
      unfolding Ev_Cancel sys_step.simps
    proof (rule through_handle_capacity [OF cap])
      fix h
      assume h: "h \<in> set (sys_handles s)"
      obtain res h' g' where run: "reservation_cancel lock relock h ?g = (res, h', g')"
        by (cases "reservation_cancel lock relock h ?g")
      then show "within_capacity cfg (snd (snd (reservation_cancel lock relock h ?g)))"
        using reservation_cancel_moves [OF g hs [OF h] run] st moves_capacity [OF cap] by (auto split: if_splits)
    qed
  next
    case (Ev_Drop k)
    show ?thesis
      unfolding Ev_Drop sys_step.simps
    proof (rule through_handle_capacity [OF cap])
      fix h
      assume h: "h \<in> set (sys_handles s)"
      then obtain r where "live_slot ?g (res_slot h) r" using hs by (auto simp: handle_ok_def held_def)
      from moves_capacity [OF cap mark_drop_pending_moves [OF g this]]
      show "within_capacity cfg (snd (reservation_release h ?g))" using cap by (simp add: reservation_release_def)
    qed
  next
    case Ev_ForeignRelease
    then show ?thesis using st steady_view [OF g, of "mark_foreign_release ?g"] by (simp add: mark_foreign_release_def)
  next
    case (Ev_Snapshot lock)
    then show ?thesis by simp (metis prod.collapse st governor_snapshot_steady [OF g])
  next
    case (Ev_Shutdown lock)
    then show ?thesis by simp (metis prod.collapse st begin_shutdown_steady [OF g])
  next
    case (Ev_Observe lock u)
    then show ?thesis by simp (metis prod.collapse st apply_disk_observation_steady [OF g])
  next
    case (Ev_Stage reserve lock t w l)
    then show ?thesis by simp (metis prod.collapse st stage_tenant_quota_update_steady [OF g])
  next
    case (Ev_Publish poisoned successor)
    then show ?thesis using st publish_quota_update_steady [OF g] by simp
  next
    case (Ev_Enroll reserve lock t w l pending)
    then show ?thesis by simp (metis prod.collapse st enroll_tenant_quota_steady [OF g])
  next
    case (Ev_Activate t)
    then show ?thesis using st activate_tenant_quota_steady [OF g] by simp
  next
    case (Ev_Rollback lock t)
    then show ?thesis using st rollback_tenant_quota_steady [OF g] by simp
  qed
qed

section \<open>Configuration\<close>

lemma configure_ceilings:
  assumes conf: "configure sz grants input = Inr conf" and new: "governor_new authority conf = (cfg, g)"
    and ceil: "\<And>d. amounts_get (in_ordinary_ceiling input) d + protected_total (in_recovery_pool_capacities input) d
      \<le> amounts_get (in_total_ceiling input) d"
  shows "config_wf cfg" "g_total_ceiling cfg = in_total_ceiling input" "g_ordinary_ceiling cfg = in_ordinary_ceiling input"
proof -
  obtain protected where p: "protected_sum (in_recovery_pool_capacities input) = Some protected"
    and sub: "amounts_checked_sub (in_total_ceiling input) protected = Some (gc_recovery_shared_capacity conf)"
    and f: "gc_total_ceiling conf = in_total_ceiling input" "gc_ordinary_ceiling conf = in_ordinary_ceiling input"
      "gc_recovery_pool_capacities conf = in_recovery_pool_capacities input"
    using conf unfolding configure_def Let_def by auto
  have cfg: "g_total_ceiling cfg = in_total_ceiling input" "g_ordinary_ceiling cfg = in_ordinary_ceiling input"
    "g_recovery_pool_capacities cfg = in_recovery_pool_capacities input"
    "g_recovery_shared_capacity cfg = gc_recovery_shared_capacity conf"
    using new f by (auto simp: governor_new_def)
  have prot: "amounts_get protected d = protected_total (in_recovery_pool_capacities input) d" for d
    using protected_sum_Some [OF p] by simp
  have split: "amounts_get (in_total_ceiling input) d
      = amounts_get (gc_recovery_shared_capacity conf) d + amounts_get protected d" for d
    using sub by (simp add: amounts_vec.sub_Some)
  show "config_wf cfg"
    unfolding config_wf_def cfg using split prot ceil by (metis add_le_cancel_right)
  show "g_total_ceiling cfg = in_total_ceiling input" "g_ordinary_ceiling cfg = in_ordinary_ceiling input" by (fact cfg)+
qed

lemma established_config_wf:
  assumes "established cfg n s"
  shows "config_wf cfg"
proof -
  obtain sz grants inventory policy recovery_pools fail_at conf authority where
    conf: "configuration_new_with_failure sz grants inventory policy recovery_pools fail_at = Inr conf"
    and new: "governor_new authority (rgc_inner conf) = (cfg, sys_governor s)"
    using assms unfolding established_def by blast
  obtain input protected where
    sub: "amounts_checked_sub (in_total_ceiling input) (inv_recovery_reserve inventory) = Some (in_ordinary_ceiling input)"
    and prot: "protected_sum (in_recovery_pool_capacities input) = Some protected"
      "amounts_is_at_most protected (inv_recovery_reserve inventory)"
    and cfgd: "configure sz grants input = Inr (rgc_inner conf)"
    using conf unfolding configuration_new_with_failure_def Let_def
    apply (clarsimp split: if_splits)
    subgoal premises p by (rule p(1)) (use p in simp_all)
    done
  have "amounts_get (in_ordinary_ceiling input) d + protected_total (in_recovery_pool_capacities input) d
      \<le> amounts_get (in_total_ceiling input) d" for d
    using amounts_vec.sub_Some [OF sub, of d] prot(2) [unfolded amounts_is_at_most_iff, rule_format, of d] protected_sum_Some [OF prot(1), of d]
    by linarith
  from configure_ceilings(1) [OF cfgd new this] show ?thesis .
qed

lemma established_capacity:
  assumes "established cfg n s"
  shows "within_capacity cfg (sys_governor s)"
  using established_inv(3) [OF assms] by (simp add: within_capacity_def ordinary_load_def)

lemma established_bounded: "established cfg n s \<Longrightarrow> bounded_inv cfg n s"
  by (simp add: bounded_inv_def established_inv established_config_wf established_capacity)

lemma bounded_step: "bounded_inv cfg n s \<Longrightarrow> event_ok e \<Longrightarrow> bounded_inv cfg n (sys_step cfg e s)"
  using sys_step_capacity [of cfg n s e] sys_step_inv [of n s e cfg] by (simp add: bounded_inv_def)

interpretation bounded_machine:
  inductive_invariant "established cfg n" event_ok "sys_step cfg" "bounded_inv cfg n"
  by unfold_locales
    (simp_all add: established_bounded bounded_step)

section \<open>What a client can rely on\<close>

lemma reachable_capacity:
  assumes "reachable (established cfg n) event_ok (sys_step cfg) s"
  shows "within_capacity cfg (sys_governor s)"
    "account_value (A_total d) (sys_governor s) \<le> amounts_get (g_total_ceiling cfg) d"
proof -
  have inv: "bounded_inv cfg n s" by (rule bounded_machine.reachable_inv [OF assms])
  then show "within_capacity cfg (sys_governor s)" by (simp add: bounded_inv_def)
  show "account_value (A_total d) (sys_governor s) \<le> amounts_get (g_total_ceiling cfg) d"
    using inv ledger_invD(4) [of n "sys_governor s"] within_total_ceiling [of cfg "sys_governor s" d]
    by (simp add: bounded_inv_def system_inv_def governor_inv_def)
qed

end
