(* ===== verification/Refinement.thy ===== *)
theory Refinement
  imports Bounded
begin

text \<open>
  The contract of the governor as an abstract machine: a list of grants, each a charge on
  the accounts, that never exceeds the configured limits. Every event of the governor is
  one step of it, and the books of the governor are the sum of its grants.
\<close>

section \<open>The abstract machine\<close>

type_synonym charge = "account \<Rightarrow> nat"

definition committed :: "charge list \<Rightarrow> account \<Rightarrow> nat" where
  "committed gs acc = sum_list (map (\<lambda>c. c acc) gs)"

definition fits :: "governor_config \<Rightarrow> charge list \<Rightarrow> bool" where
  "fits cfg gs \<longleftrightarrow>
     (\<forall>d. committed gs (A_total d) \<le> amounts_get (g_total_ceiling cfg) d) \<and>
     (\<forall>k. committed gs (A_pool k) \<le> pool_amount (g_pool_capacities cfg) k) \<and>
     (\<forall>kind d. committed gs (A_recovery_pool (RProtected kind, d))
        \<le> amounts_get (recovery_get (g_recovery_pool_capacities cfg) kind) d) \<and>
     committed gs A_outstanding \<le> g_maximum_outstanding cfg"

definition without :: "nat \<Rightarrow> 'a list \<Rightarrow> 'a list" where
  "without k xs = take k xs @ drop (Suc k) xs"

text \<open>
  An admission adds a grant for the claimed amounts or nothing; a resize replaces, keeps or
  ends one grant; a cancellation ends one grant or keeps it; a drop ends it; nothing else
  touches the grants.
\<close>

inductive grant_step :: "governor_config \<Rightarrow> event \<Rightarrow> charge list \<Rightarrow> charge list \<Rightarrow> bool"
  for cfg :: governor_config where
  keep: "(\<And>k. e = Ev_Drop k \<Longrightarrow> length gs \<le> k) \<Longrightarrow> grant_step cfg e gs gs"
| admit: "fits cfg (gs @ [c]) \<Longrightarrow> c A_outstanding = 1 \<Longrightarrow>
    (\<And>d. c (A_total d) = amounts_get (claim_amounts claim) d) \<Longrightarrow> (\<And>d. c (A_recovery d) = 0) \<Longrightarrow>
    grant_step cfg (Ev_Reserve lock claim) gs (gs @ [c])"
| admit_recovery: "fits cfg (gs @ [c]) \<Longrightarrow> c A_outstanding = 1 \<Longrightarrow>
    (\<And>d. c (A_total d) = amounts_get (recovery_claim_amounts claim') d) \<Longrightarrow> (\<And>d. c (A_recovery d) = c (A_total d)) \<Longrightarrow>
    grant_step cfg (Ev_ReserveRecovery lock claim') gs (gs @ [c])"
| resize: "k < length gs \<Longrightarrow> fits cfg (gs[k := c]) \<Longrightarrow> c A_outstanding = 1 \<Longrightarrow>
    (\<And>d. c (A_total d) = amounts_get new d) \<Longrightarrow> grant_step cfg (Ev_Resize lock k new preserve) gs (gs[k := c])"
| resize_end: "k < length gs \<Longrightarrow> grant_step cfg (Ev_Resize lock k new preserve) gs (without k gs)"
| cancel_end: "k < length gs \<Longrightarrow> grant_step cfg (Ev_Cancel lock relock k) gs (without k gs)"
| drop_end: "k < length gs \<Longrightarrow> grant_step cfg (Ev_Drop k) gs (without k gs)"

inductive_cases grant_step_DropE: "grant_step cfg (Ev_Drop k) gs gs'"
inductive_cases grant_step_ReserveE: "grant_step cfg (Ev_Reserve lock claim) gs gs'"

text \<open>The grants a system stands for.\<close>

definition grants_of :: "client_system \<Rightarrow> charge list" where
  "grants_of s = map handle_charge (sys_handles s)"

lemma committed_grants: "committed (grants_of s) acc = sum_list (map (\<lambda>h. handle_charge h acc) (sys_handles s))"
  by (simp add: committed_def grants_of_def comp_def)

section \<open>The abstraction is bounded\<close>

lemma grants_fit:
  assumes inv: "bounded_inv cfg n s"
  shows "fits cfg (grants_of s)"
proof -
  let ?g = "sys_governor s"
  have sys: "system_inv n s" and cap: "within_capacity cfg ?g" and wf: "config_wf cfg"
    using inv by (simp_all add: bounded_inv_def)
  have le: "committed (grants_of s) acc \<le> account_value acc ?g" for acc
    unfolding committed_grants by (rule held_books [OF sys])
  have "conserved ?g" using sys ledger_invD(4) by (auto simp: system_inv_def governor_inv_def)
  then have total: "account_value (A_total d) ?g \<le> amounts_get (g_total_ceiling cfg) d" for d
    by (rule within_total_ceiling [OF cap wf])
  show ?thesis
    using cap unfolding fits_def within_capacity_def by (meson le total order_trans)
qed

section \<open>Events are steps\<close>

lemma handle_charge_simps [simp]:
  "handle_charge h (A_total d) = amounts_get (res_amounts h) d" "handle_charge h A_outstanding = 1"
  by (simp_all add: handle_charge_def)

lemma with_admission_Inr:
  assumes "with_admission lock cls g body = (Inr h, g')"
  obtains g1 where "body g1 = (Inr h, g')"
  using assms by (auto simp: with_admission_def split: prod.splits sum.splits)

lemma commit_ordinary_handle:
  "commit_ordinary cfg claim p g = (Inr h, g') \<Longrightarrow>
     res_amounts h = claim_amounts claim \<and> res_identity h = op_identity p \<and> res_owner h = op_owner p \<and> res_active h"
  unfolding commit_ordinary_def increment_root_slot_def some_or_fenced_def Let_def
  by (auto simp: reservation_new_def split: prod.splits sum.splits option.splits)

lemma reserve_ordinary_handle:
  assumes "reserve_ordinary cfg lock claim g = (Inr h, g')"
  shows "res_amounts h = claim_amounts claim" "handle_charge h (A_recovery d) = 0"
proof -
  obtain g1 where "reserve_ordinary_locked cfg claim g1 = (Inr h, g')"
    using assms unfolding reserve_ordinary_def by (rule with_admission_Inr)
  then obtain p where p: "plan_ordinary cfg claim g1 = Proceed p" and c: "commit_ordinary cfg claim p g1 = (Inr h, g')"
    by (auto simp: reserve_ordinary_locked_def run_plan_def split: plan.splits)
  note f = commit_ordinary_handle [OF c]
  obtain i pools where "op_owner p = \<lparr> owner_attribution = Charge_Ordinary i, owner_pools = Some pools, owner_recovery_pools = None \<rparr>"
    by (rule plan_ordinary_Proceed [OF p])
  then show "res_amounts h = claim_amounts claim" "handle_charge h (A_recovery d) = 0"
    using f by (simp_all add: handle_charge_def)
qed

lemma commit_recovery_handle:
  "commit_recovery claim p g = (Inr h, g') \<Longrightarrow>
     res_amounts h = recovery_claim_amounts claim \<and> res_identity h = rp_identity p \<and> res_owner h = rp_owner p \<and> res_active h"
  unfolding commit_recovery_def some_or_fenced_def Let_def
  by (auto simp: reservation_new_def split: prod.splits sum.splits option.splits)

lemma reserve_recovery_handle:
  assumes "reserve_recovery cfg lock claim g = (Inr h, g')"
  shows "res_amounts h = recovery_claim_amounts claim" "handle_charge h (A_recovery d) = handle_charge h (A_total d)"
proof -
  obtain g1 where "reserve_recovery_locked cfg claim g1 = (Inr h, g')"
    using assms unfolding reserve_recovery_def by (rule with_admission_Inr)
  then obtain p where p: "plan_recovery cfg claim g1 = Proceed p" and c: "commit_recovery claim p g1 = (Inr h, g')"
    by (auto simp: reserve_recovery_locked_def run_plan_def split: plan.splits)
  note f = commit_recovery_handle [OF c]
  obtain pools where "rp_owner p = \<lparr> owner_attribution = Charge_Recovery (rp_tenant_index p), owner_pools = None,
      owner_recovery_pools = Some pools \<rparr>"
    by (rule plan_recovery_Proceed [OF p])
  then show "res_amounts h = recovery_claim_amounts claim" "handle_charge h (A_recovery d) = handle_charge h (A_total d)"
    using f by (simp_all add: handle_charge_def)
qed

lemma keep_granted_grants:
  "grants_of (keep_granted s out) = (case out of (Inl _, _) \<Rightarrow> grants_of s | (Inr h, _) \<Rightarrow> grants_of s @ [handle_charge h])"
  by (auto simp: keep_granted_def grants_of_def split: prod.splits sum.splits)

lemma through_handle_grants:
  "grants_of (through_handle k f s) =
     (if length (grants_of s) \<le> k then grants_of s
      else let h = fst (f (sys_handles s ! k) (sys_governor s)) in
        if res_active h then (grants_of s)[k := handle_charge h] else without k (grants_of s))"
  by (auto simp: through_handle_def put_handle_def grants_of_def without_def map_update take_map drop_map Let_def
      split: prod.splits)

lemma try_resize_handle:
  assumes "try_resize_with_policy cfg lock new preserve h g = (res, h', g')" and "res_active h'"
  shows "h' = h \<or> res_amounts h' = new"
  using assms by (auto simp: try_resize_with_policy_def split: prod.splits sum.splits if_splits)

lemma cancel_handle:
  "reservation_cancel lock relock h g = (res, h', g') \<Longrightarrow> res_active h' \<Longrightarrow> h' = h"
  by (auto simp: reservation_cancel_def split: prod.splits if_splits)

lemma step_refines:
  assumes inv: "bounded_inv cfg n s" and ok: "event_ok e"
  shows "grant_step cfg e (grants_of s) (grants_of (sys_step cfg e s))"
proof -
  have fits: "fits cfg (grants_of (sys_step cfg e s))" by (rule grants_fit [OF bounded_step [OF inv ok]])
  have act: "res_active h" if "h \<in> set (sys_handles s)" for h
    using inv that by (auto simp: bounded_inv_def system_inv_def handle_ok_def)
  let ?g = "sys_governor s" and ?h = "\<lambda>k. sys_handles s ! k"
  have at: "?h k \<in> set (sys_handles s)" "(grants_of s)[k := handle_charge (?h k)] = grants_of s" if "k < length (grants_of s)" for k
    using that by (simp_all add: grants_of_def list_update_same_conv)
  show ?thesis
  proof (cases e)
    case (Ev_Reserve lock claim)
    obtain res g' where r: "reserve_ordinary cfg lock claim ?g = (res, g')" by (cases "reserve_ordinary cfg lock claim ?g")
    show ?thesis
      using r fits reserve_ordinary_handle [of cfg lock claim ?g _ g'] unfolding Ev_Reserve
      by (cases res) (auto simp: keep_granted_grants intro: keep admit)
  next
    case (Ev_ReserveRecovery lock claim)
    obtain res g' where r: "reserve_recovery cfg lock claim ?g = (res, g')" by (cases "reserve_recovery cfg lock claim ?g")
    show ?thesis
      using r fits reserve_recovery_handle [of cfg lock claim ?g _ g'] unfolding Ev_ReserveRecovery
      by (cases res) (auto simp: keep_granted_grants intro: keep admit_recovery)
  next
    case (Ev_Resize lock k new preserve)
    obtain res h' g' where r: "try_resize_with_policy cfg lock new preserve (?h k) ?g = (res, h', g')"
      by (cases "try_resize_with_policy cfg lock new preserve (?h k) ?g")
    have end_: "grants_of (sys_step cfg e s) =
        (if length (grants_of s) \<le> k then grants_of s
         else if res_active h' then (grants_of s)[k := handle_charge h'] else without k (grants_of s))"
      using r by (simp add: Ev_Resize through_handle_grants Let_def)
    consider "length (grants_of s) \<le> k" | "k < length (grants_of s)" "\<not> res_active h'"
      | "k < length (grants_of s)" "res_active h'" "h' = ?h k" | "k < length (grants_of s)" "res_active h'" "res_amounts h' = new"
      using try_resize_handle [OF r] by fastforce
    then show ?thesis
    proof cases
      case 4
      then have eq: "grants_of (sys_step cfg e s) = (grants_of s)[k := handle_charge h']" by (simp add: end_)
      show ?thesis using fits 4 unfolding eq by (auto simp: Ev_Resize intro: resize)
    next
      case 2
      then show ?thesis unfolding end_ by (simp add: Ev_Resize resize_end)
    qed (simp_all add: end_ at, auto simp: Ev_Resize intro: keep)
  next
    case (Ev_Cancel lock relock k)
    obtain res h' g' where r: "reservation_cancel lock relock (?h k) ?g = (res, h', g')"
      by (cases "reservation_cancel lock relock (?h k) ?g")
    show ?thesis
      using cancel_handle [OF r] at [of k] r unfolding Ev_Cancel
      by (auto simp: through_handle_grants intro: keep cancel_end)
  next
    case (Ev_Drop k)
    show ?thesis
      using act [OF at(1)] unfolding Ev_Drop
      by (auto simp: through_handle_grants reservation_release_def intro: keep drop_end)
  qed (auto simp: grants_of_def intro: keep)
qed

end
