(* ===== verification/Sequences.thy ===== *)
theory Sequences
  imports Refinement
begin

text \<open>
  What a client sees of a sequence of calls: a settled governor stays settled, a granted
  handle can always be given back, a fence and a shutdown stay in force.
\<close>

section \<open>Settling\<close>

lemma settle_lifecycle:
  assumes "governor_inv n g"
  shows "lifecycle (settle g) = (if pending_fence g then Fenced else lifecycle g)" "\<not> pending_fence (settle g)"
proof -
  note d = drain_pending_inv [OF assms]
  show "lifecycle (settle g) = (if pending_fence g then Fenced else lifecycle g)" "\<not> pending_fence (settle g)"
    using outside_fields(1,2) [OF d(4)] by (simp_all add: settle_def Let_def)
qed

lemma given_back_lifecycle:
  assumes "given_back n g i r g'"
  shows "lifecycle g' = lifecycle g" "pending_fence g' = pending_fence g"
proof -
  have "world g' = world g" using assms by (simp add: given_back_def)
  from world_fields(3,4) [OF this] show "lifecycle g' = lifecycle g" "pending_fence g' = pending_fence g" by blast+
qed

section \<open>Giving a grant back\<close>

lemma cancel_exact:
  assumes inv: "governor_inv n g" and h: "handle_ok g h"
  obtains g' where
    "reservation_cancel LockOk relock h g
       = ((if lifecycle (settle g) = Fenced then Inl InternalFenced else Inr Released), h\<lparr> res_active := False \<rparr>, g')"
    "debited (handle_charge h) (settle g) g'" "lifecycle g' = lifecycle (settle g)" "\<not> pending_fence g'"
proof -
  let ?g = "settle g"
  note st = settle_steady(1) [OF inv]
  have inv1: "governor_inv n ?g" using st by (simp add: steady_def)
  have h1: "handle_ok ?g h" by (rule handle_ok_steady [OF st h])
  then obtain r where held: "held ?g (res_owner h) (res_identity h) (res_amounts h) (res_slot h) r"
    and act: "res_active h" by (auto simp: handle_ok_def)
  obtain res g' where rel: "release_slot_locked False (res_slot h) ?g = (res, g')" "applied res"
    "given_back n ?g (res_slot h) r g'"
    "status_result res = (if lifecycle ?g = Fenced then Inl InternalFenced else Inr Released)"
    using release_held [OF inv1 held, of False] by auto
  have "debited (handle_charge h) ?g g'"
    using rel(3) held_charge [OF held] by (simp add: given_back_def debited_def handle_charge_def)
  moreover have "reservation_cancel LockOk relock h g = (status_result res, h\<lparr> res_active := False \<rparr>, g')"
    using rel(1,2) act heldD(1,2,7) [OF held] owner_matches_pools [OF heldD(6) [OF held]]
    by (simp add: reservation_cancel_def try_release_def try_lock_for_control_def slot_get_def Let_def)
  ultimately show thesis
    using that rel(4) given_back_lifecycle [OF rel(3)] settle_lifecycle(2) [OF inv] by simp
qed

section \<open>Taking a grant\<close>

lemma reserve_ordinary_locked_open:
  assumes inv: "governor_inv n g" and n: "n \<le> u16_max" and wf: "claim_wf claim"
    and run: "reserve_ordinary_locked cfg claim g = (Inr h, g')"
  shows "lifecycle g' = Open" "lifecycle g = Open" "pending_fence g' = pending_fence g"
proof -
  have l: "ledger_inv n g" using inv by (simp add: governor_inv_def)
  obtain p where p: "plan_ordinary cfg claim g = Proceed p" and c: "commit_ordinary cfg claim p g = (Inr h, g')"
    using run by (auto simp: reserve_ordinary_locked_def run_plan_def split: plan.splits)
  obtain m where w: "world g' = world (g\<lparr> next_operation_generation := m \<rparr>)"
    using l n wf p by (rule commit_ordinary_cases) (use c in \<open>auto simp: admitted_def\<close>)
  have "lifecycle g \<noteq> ShuttingDown" "lifecycle g \<noteq> Fenced"
    by (rule plan_ordinary_Proceed [OF p], simp add: require_healthy_and_slot_def Let_def split: if_splits)+
  then show "lifecycle g' = Open" "lifecycle g = Open" "pending_fence g' = pending_fence g"
    using world_fields(3,4) [OF w] by (cases "lifecycle g", simp_all)+
qed

lemma reserve_recovery_locked_open:
  assumes inv: "governor_inv n g" and n: "n \<le> u16_max"
    and run: "reserve_recovery_locked cfg claim g = (Inr h, g')"
  shows "lifecycle g' = lifecycle g" "lifecycle g \<noteq> Fenced" "pending_fence g' = pending_fence g"
    "lifecycle g = ShuttingDown \<Longrightarrow> retains_capacity_on_resize_failure (recovery_claim_kind claim)"
proof -
  have l: "ledger_inv n g" using inv by (simp add: governor_inv_def)
  obtain p where p: "plan_recovery cfg claim g = Proceed p" and c: "commit_recovery claim p g = (Inr h, g')"
    using run by (auto simp: reserve_recovery_locked_def run_plan_def split: plan.splits)
  obtain m where w: "world g' = world (g\<lparr> next_operation_generation := m \<rparr>)"
    using l n p by (rule commit_recovery_cases) (use c in \<open>auto simp: admitted_def\<close>)
  show "lifecycle g \<noteq> Fenced"
    by (rule plan_recovery_Proceed [OF p]) (simp add: require_healthy_and_slot_def Let_def split: if_splits)
  show "lifecycle g = ShuttingDown \<Longrightarrow> retains_capacity_on_resize_failure (recovery_claim_kind claim)"
    by (rule plan_recovery_Proceed [OF p]) blast
  show "lifecycle g' = lifecycle g" "pending_fence g' = pending_fence g" using world_fields(3,4) [OF w] by simp_all
qed

lemma with_admission_LockOk_Inr:
  "with_admission LockOk cls g body = (Inr h, g') \<longleftrightarrow> body (settle g) = (Inr h, g')"
  by (auto simp: with_admission_def lock_for_admission_def split: prod.splits sum.splits)

lemma with_admission_Inr_LockOk: "with_admission lock cls g body = (Inr h, g') \<Longrightarrow> lock = LockOk"
  by (cases lock) (auto simp: with_admission_def lock_for_admission_def split: prod.splits sum.splits)

section \<open>Fencing is final\<close>

lemma fenced_settle: "governor_inv n g \<Longrightarrow> lifecycle g = Fenced \<Longrightarrow> lifecycle (settle g) = Fenced"
  by (simp add: settle_lifecycle)

lemma fenced_no_grant:
  assumes "governor_inv n g" and "n \<le> u16_max" and "lifecycle g = Fenced"
  shows "claim_wf claim \<Longrightarrow> fst (reserve_ordinary cfg lock claim g) \<noteq> Inr h"
    "fst (reserve_recovery cfg lock claim' g) \<noteq> Inr h"
proof -
  have g1: "governor_inv n (settle g)" "lifecycle (settle g) = Fenced"
    using settle_steady(1) [OF assms(1)] fenced_settle [OF assms(1,3)] by (simp_all add: steady_def)
  show "fst (reserve_ordinary cfg lock claim g) \<noteq> Inr h" if wf: "claim_wf claim"
  proof
    assume "fst (reserve_ordinary cfg lock claim g) = Inr h"
    then obtain g' where run: "reserve_ordinary cfg lock claim g = (Inr h, g')" by (metis prod.collapse)
    then have "reserve_ordinary_locked cfg claim (settle g) = (Inr h, g')"
      using with_admission_Inr_LockOk unfolding reserve_ordinary_def by (metis with_admission_LockOk_Inr)
    from reserve_ordinary_locked_open(2) [OF g1(1) assms(2) wf this] show False using g1(2) by simp
  qed
  show "fst (reserve_recovery cfg lock claim' g) \<noteq> Inr h"
  proof
    assume "fst (reserve_recovery cfg lock claim' g) = Inr h"
    then obtain g' where run: "reserve_recovery cfg lock claim' g = (Inr h, g')" by (metis prod.collapse)
    then have "reserve_recovery_locked cfg claim' (settle g) = (Inr h, g')"
      using with_admission_Inr_LockOk unfolding reserve_recovery_def by (metis with_admission_LockOk_Inr)
    from reserve_recovery_locked_open(2) [OF g1(1) assms(2) this] show False using g1(2) by simp
  qed
qed

lemma fenced_through:
  assumes inv: "system_inv n s" and fenced: "lifecycle (sys_governor s) = Fenced"
    and f: "\<And>h. h \<in> set (sys_handles s) \<Longrightarrow> lifecycle (snd (f h (sys_governor s))) = Fenced"
  shows "lifecycle (sys_governor (through_handle k f s)) = Fenced"
  using fenced f [of "sys_handles s ! k"] by (auto simp: through_handle_def split: prod.split)

lemma fenced_step:
  assumes inv: "system_inv n s" and fenced: "lifecycle (sys_governor s) = Fenced" and ok: "event_ok e"
  shows "lifecycle (sys_governor (sys_step cfg e s)) = Fenced"
proof -
  let ?g = "sys_governor s"
  have n: "n \<le> u16_max" and g: "governor_inv n ?g" and hs: "\<And>h. h \<in> set (sys_handles s) \<Longrightarrow> handle_ok ?g h"
    using inv by (simp_all add: system_inv_def)
  note st = steady_lifecycle [OF _ fenced, where n = n]
  have mv: "moves n gone fresh ?g g' \<Longrightarrow> lifecycle g' = Fenced" for gone fresh g' using fenced by (simp add: moves_def)
  have ad: "admission_effect n ?g out \<Longrightarrow> lifecycle (snd out) = Fenced" for out
    using st mv [OF grants_moves(1)] by (cases out, cases "fst out") (auto simp: admission_effect_def)
  show ?thesis
  proof (cases e)
    case (Ev_Reserve lock claim)
    then show ?thesis using ad reserve_ordinary_effect [OF g n] ok by simp
  next
    case (Ev_ReserveRecovery lock claim)
    then show ?thesis using ad reserve_recovery_effect [OF g n] by simp
  next
    case (Ev_Resize lock k new preserve)
    show ?thesis
      unfolding Ev_Resize sys_step.simps
    proof (rule fenced_through [OF inv fenced])
      fix h
      assume "h \<in> set (sys_handles s)"
      from try_resize_moves [OF g n hs [OF this], of cfg lock new preserve]
      show "lifecycle (snd (snd (try_resize_with_policy cfg lock new preserve h ?g))) = Fenced"
        using mv by (metis prod.collapse)
    qed
  next
    case (Ev_Cancel lock relock k)
    show ?thesis
      unfolding Ev_Cancel sys_step.simps
    proof (rule fenced_through [OF inv fenced])
      fix h
      assume "h \<in> set (sys_handles s)"
      from reservation_cancel_moves [OF g hs [OF this], of lock relock]
      show "lifecycle (snd (snd (reservation_cancel lock relock h ?g))) = Fenced"
        using mv st by (metis prod.collapse)
    qed
  next
    case (Ev_Drop k)
    show ?thesis
      unfolding Ev_Drop sys_step.simps
    proof (rule fenced_through [OF inv fenced])
      fix h
      assume "h \<in> set (sys_handles s)"
      then obtain r where "live_slot ?g (res_slot h) r" using hs by (auto simp: handle_ok_def held_def)
      from mv [OF mark_drop_pending_moves [OF g this]]
      show "lifecycle (snd (reservation_release h ?g)) = Fenced" using fenced by (simp add: reservation_release_def)
    qed
  next
    case Ev_ForeignRelease
    then show ?thesis using fenced by (simp add: mark_foreign_release_def)
  next
    case (Ev_Snapshot lock)
    then show ?thesis by simp (metis prod.collapse st governor_snapshot_steady [OF g])
  next
    case (Ev_Shutdown lock)
    then show ?thesis by simp (metis prod.collapse st begin_shutdown_steady [OF g])
  next
    case (Ev_Observe lock u)
    then show ?thesis by simp (metis prod.collapse st apply_disk_observation_steady [OF g])
  next
    case (Ev_Stage reserve lock t w l)
    then show ?thesis by simp (metis prod.collapse st stage_tenant_quota_update_steady [OF g])
  next
    case (Ev_Publish poisoned successor)
    then show ?thesis using st publish_quota_update_steady [OF g] by simp
  next
    case (Ev_Enroll reserve lock t w l pending)
    then show ?thesis by simp (metis prod.collapse st enroll_tenant_quota_steady [OF g])
  next
    case (Ev_Activate t)
    then show ?thesis using st activate_tenant_quota_steady [OF g] by simp
  next
    case (Ev_Rollback lock t)
    then show ?thesis using st rollback_tenant_quota_steady [OF g] by simp
  qed
qed

lemma through_handle_length: "length (sys_handles (through_handle k f s)) \<le> length (sys_handles s)"
  by (auto simp: through_handle_def put_handle_def split: prod.split)

lemma fenced_handles:
  assumes "governor_inv n (sys_governor s)" and "n \<le> u16_max" and "lifecycle (sys_governor s) = Fenced" and "event_ok e"
  shows "length (sys_handles (sys_step cfg e s)) \<le> length (sys_handles s)"
proof (cases e)
  case (Ev_Reserve lock claim)
  then show ?thesis
    using fenced_no_grant(1) [OF assms(1-3), of claim cfg lock] assms(4)
    by (fastforce simp: keep_granted_def split: prod.splits sum.splits)
next
  case (Ev_ReserveRecovery lock claim)
  then show ?thesis
    using fenced_no_grant(2) [OF assms(1-3), of cfg lock claim]
    by (fastforce simp: keep_granted_def split: prod.splits sum.splits)
qed (simp_all add: through_handle_length)

section \<open>Refusals\<close>

lemma reserve_ordinary_locked_Inl:
  assumes inv: "governor_inv n g" and n: "n \<le> u16_max" and wf: "claim_wf claim"
    and run: "reserve_ordinary_locked cfg claim g = (Inl e, g')"
  shows "g' = g \<or> lifecycle g' = Fenced"
proof (cases "plan_ordinary cfg claim g")
  case (Proceed p)
  have l: "ledger_inv n g" using inv by (simp add: governor_inv_def)
  from l n wf Proceed show ?thesis
    by (rule commit_ordinary_cases) (use run Proceed in \<open>auto simp: reserve_ordinary_locked_def run_plan_def\<close>)
qed (use run in \<open>auto simp: reserve_ordinary_locked_def run_plan_def\<close>)

definition counted :: "admission_failure \<Rightarrow> governor \<Rightarrow> governor" where
  "counted e g =
     (if af_code e = Code_GovernorContended then g
      else g\<lparr> rejection_counts :=
                (rejection_counts g)[code_index (af_code e) := rejection_counts g ! code_index (af_code e) + 1] \<rparr>)"

lemma record_refusal_counted: "lifecycle (record_refusal_locked e g) \<noteq> Fenced \<Longrightarrow> record_refusal_locked e g = counted e g"
  by (cases "try_fold (checked_add u64_max) 0 (rejection_counts g)")
    (auto simp: record_refusal_locked_def counted_def Let_def checked_add_def slice_set_def slice_get_def split: if_splits)

lemma record_refusal_fenced: "lifecycle g = Fenced \<Longrightarrow> lifecycle (record_refusal_locked e g) = Fenced"
  by (auto simp: record_refusal_locked_def Let_def split: option.splits)

lemma reserve_ordinary_refused:
  assumes inv: "governor_inv n g" and n: "n \<le> u16_max" and wf: "claim_wf claim"
    and run: "reserve_ordinary cfg LockOk claim g = (Inl e, g')" and open_: "lifecycle g' \<noteq> Fenced"
  shows "g' = counted e (settle g)"
proof -
  obtain g2 where body: "reserve_ordinary_locked cfg claim (settle g) = (Inl e, g2)" and g': "g' = record_refusal_locked e g2"
    using run by (auto simp: reserve_ordinary_def with_admission_def lock_for_admission_def split: prod.splits sum.splits)
  have "governor_inv n (settle g)" using settle_steady(1) [OF inv] by (simp add: steady_def)
  from reserve_ordinary_locked_Inl [OF this n wf body] have "g2 = settle g"
    using open_ record_refusal_fenced unfolding g' by blast
  then show ?thesis using record_refusal_counted open_ unfolding g' by blast
qed

section \<open>Resizes\<close>

lemma with_resize_Inr:
  assumes inv: "governor_inv n g" and run: "with_resize lock cls g body = (Inr c, g')"
  obtains g1 where "steady n g g1" "body g1 = (Inr c, g')"
proof -
  obtain lr g1 where l: "lock_for_admission lock cls g = (lr, g1)" by (cases "lock_for_admission lock cls g")
  from run l have "body g1 = (Inr c, g')"
    by (auto simp: with_resize_def split: sum.splits prod.splits option.splits)
  with lock_for_admission_steady [OF inv l] show thesis by (rule that)
qed

lemma governor_resize_outcome:
  assumes inv: "governor_inv n g" and n: "n \<le> u16_max"
    and h: "held g (rq_owner rq) (rq_identity rq) (rq_old rq) (rq_slot rq) r"
    and run: "governor_resize cfg lock rq g = (Inr c, g')"
  shows "commit_outcome c = resize_outcome_of (rq_old rq) (rq_new rq)"
proof -
  have eff: "commit_outcome c = resize_outcome_of (rq_old rq) (rq_new rq)"
    if "resize_effect n g1 rq r1 (Inr c, g')" for g1 r1
    using that by (auto simp: resize_effect_def kept_def cancelled_def resized_def)
  show ?thesis
  proof (cases "rq_identity rq")
    case (Ordinary t p k)
    then obtain ti where att: "owner_attribution (rq_owner rq) = Charge_Ordinary ti" using heldD(6) [OF h] by auto
    obtain g1 where s: "steady n g g1" and b: "resize_ordinary_locked cfg rq ti (work_kind_class k) g1 = (Inr c, g')"
      using run unfolding governor_resize_def resize_ordinary_def Ordinary att reservation_identity.case charge_attribution.case
      by (rule with_resize_Inr [OF inv])
    obtain r1 where h1: "held g1 (rq_owner rq) (rq_identity rq) (rq_old rq) (rq_slot rq) r1" using held_steady [OF s h] by blast
    have "ledger_inv n g1" using s by (simp add: steady_def governor_inv_def)
    from eff [of g1 r1] resize_ordinary_locked_effect [OF this n h1 att, of cfg] b show ?thesis by (simp add: Ordinary)
  next
    case (Recovery sc k)
    then obtain ti where att: "owner_attribution (rq_owner rq) = Charge_Recovery ti" using heldD(6) [OF h] by auto
    obtain g1 where s: "steady n g g1" and b: "resize_recovery_locked cfg rq ti k g1 = (Inr c, g')"
      using run unfolding governor_resize_def resize_recovery_def Recovery att reservation_identity.case charge_attribution.case
      by (rule with_resize_Inr [OF inv])
    obtain r1 where h1: "held g1 (rq_owner rq) (rq_identity rq) (rq_old rq) (rq_slot rq) r1" using held_steady [OF s h] by blast
    have "ledger_inv n g1" using s by (simp add: steady_def governor_inv_def)
    from eff [of g1 r1] resize_recovery_locked_effect [OF this n h1 Recovery att, of cfg] b show ?thesis by simp
  qed
qed

lemma try_resize_Inr:
  assumes inv: "governor_inv n g" and n: "n \<le> u16_max" and h: "handle_ok g h"
    and run: "try_resize_with_policy cfg lock new preserve h g = (Inr outcome, h', g')"
  shows "res_amounts h' = new" "res_slot h' = res_slot h" "res_identity h' = res_identity h" "res_active h'"
    "outcome = resize_outcome_of (res_amounts h) new"
proof -
  let ?rq = "\<lparr> rq_slot = res_slot h, rq_owner = res_owner h, rq_identity = res_identity h,
    rq_old = res_amounts h, rq_new = new, rq_preserve_existing = preserve \<rparr>"
  obtain r where held: "held g (rq_owner ?rq) (rq_identity ?rq) (rq_old ?rq) (rq_slot ?rq) r" and act: "res_active h"
    using h by (auto simp: handle_ok_def)
  obtain c where c: "governor_resize cfg lock ?rq g = (Inr c, g')" and out: "outcome = commit_outcome c"
    and h': "h' = h\<lparr> res_owner := commit_owner c, res_amounts := new \<rparr>"
    using run by (auto simp: try_resize_with_policy_def split: if_splits prod.splits sum.splits)
  show "res_amounts h' = new" "res_slot h' = res_slot h" "res_identity h' = res_identity h" "res_active h'"
    using act by (simp_all add: h')
  show "outcome = resize_outcome_of (res_amounts h) new"
    using governor_resize_outcome [OF inv n held c] out by simp
qed

lemma sum_list_exchange:
  "k < length xs \<Longrightarrow> sum_list (map f (xs[k := y])) + f (xs ! k) = sum_list (map f xs) + (f y :: nat)"
proof -
  assume k: "k < length xs"
  have "map f (xs[k := y]) = (map f xs)[k := f y]" by (rule map_update)
  moreover have "f (xs ! k) \<le> sum_list (map f xs)" using k by (intro member_le_sum_list) auto
  ultimately show ?thesis using k sum_list_update [of k "map f xs" "f y"] by simp
qed

end
