(* ===== verification/Sample.thy ===== *)
theory Sample
  imports Bounded "HOL-Library.Code_Target_Nat"
begin

text \<open>
  A concrete governor, configured through the constructors of the code, on which the
  properties are instantiated: two tenants of equal weight, seven slots, every type one
  byte wide and an allocator that always delivers.
\<close>

section \<open>The inputs\<close>

definition sample_sizes :: type_sizes where
  "sample_sizes =
     \<lparr> size_of_authority = 1, size_of_active_segment_scopes = 1024, size_of_tenant_quota = 1, size_of_pool_capacities = 1,
       size_of_resource_amounts = 1, size_of_recovery_pool_capacities = 1, size_of_recovery_pool_usage = 1,
       size_of_u32 = 1, size_of_atomic_u8 = 1, size_of_atomic_u64 = 1, size_of_grant_slot = 1, size_of_u16 = 1 \<rparr>"

definition sample_grants :: allocator where "sample_grants = (\<lambda>_ _. True)"

definition sample_effective :: resource_amounts where
  "sample_effective = with_amount (with_amount (amounts_uniform 2000) MemoryBytes 3067) FileDescriptors 2002"

definition sample_quota :: "nat \<Rightarrow> tenant_quota" where
  "sample_quota t = \<lparr> quota_tenant = TenantId t, quota_weight = 1, quota_limits = amounts_uniform 1000 \<rparr>"

definition sample_thresholds :: disk_pressure_thresholds where
  "sample_thresholds = \<lparr> hard_enter = 200, hard_exit = 300, soft_enter = 400, soft_exit = 500 \<rparr>"

definition sample_inventory :: resource_inventory where
  "sample_inventory =
     \<lparr> inv_detected = sample_effective, inv_operator = sample_effective, inv_effective = sample_effective,
       inv_recovery_reserve = amounts_uniform 100,
       inv_cardinality = \<lparr> max_tenant_quotas = 2, max_outstanding_reservations = 7 \<rparr>,
       inv_disk_thresholds = sample_thresholds, inv_initial_disk = 1000, inv_volume_binding = None \<rparr>"

definition sample_policy :: governor_policy where
  "sample_policy =
     \<lparr> policy_tenant_quotas = [sample_quota 1, sample_quota 2],
       policy_pools = \<lparr> policy_security = amounts_uniform 20, policy_ingest = amounts_uniform 20,
         policy_query = amounts_uniform 10, policy_maintenance = amounts_uniform 10 \<rparr>,
       policy_principal_quota = None \<rparr>"

definition uniform_recovery :: "nat \<Rightarrow> nat \<Rightarrow> nat \<Rightarrow> recovery_pool_capacities" where
  "uniform_recovery both tenants system =
     \<lparr> rp_durability = amounts_uniform both, rp_retention = amounts_uniform tenants, rp_compaction = amounts_uniform both,
       rp_purge = amounts_uniform tenants, rp_repair = amounts_uniform both, rp_fencing = amounts_uniform system,
       rp_shutdown = amounts_uniform system \<rparr>"

definition sample_recovery :: recovery_pool_capacities where
  "sample_recovery = uniform_recovery 10 10 10"

section \<open>The governor\<close>

definition sample_layout :: bootstrap_inventory_layout where
  "sample_layout =
     \<lparr> layout_tenant_count = 2, layout_outstanding_count = 7, layout_pending_word_count = 1, layout_memory_bytes = 1067 \<rparr>"

definition uniform_pools :: "nat \<Rightarrow> nat \<Rightarrow> nat \<Rightarrow> nat \<Rightarrow> nat \<Rightarrow> pool_capacities" where
  "uniform_pools shared security ingest query maintenance =
     \<lparr> pools_shared = amounts_uniform shared, pools_security = amounts_uniform security, pools_ingest = amounts_uniform ingest,
       pools_query = amounts_uniform query, pools_maintenance = amounts_uniform maintenance \<rparr>"

definition sample_cfg :: governor_config where
  "sample_cfg =
     \<lparr> g_authority = 0, g_raw_effective = sample_effective, g_bootstrap_overhead = layout_overhead sample_layout,
       g_total_ceiling = amounts_uniform 2000, g_ordinary_ceiling = amounts_uniform 1900, g_principal_quota = None,
       g_recovery_reserve = amounts_uniform 100, g_maximum_outstanding = 7,
       g_pool_capacities = uniform_pools 1840 20 20 10 10, g_recovery_pool_capacities = sample_recovery,
       g_recovery_shared_capacity = amounts_uniform 1930, g_disk_thresholds = sample_thresholds \<rparr>"

definition sample_state :: accounting_state where
  "sample_state =
     \<lparr> pending_tenant = None, tenant_quotas = [sample_quota 1, sample_quota 2],
       tenant_fair_capacities = [uniform_pools 920 10 10 5 5, uniform_pools 920 10 10 5 5],
       recovery_tenant_shared_fair = [amounts_uniform 965, amounts_uniform 965],
       recovery_tenant_pool_fair = [uniform_recovery 4 5 0, uniform_recovery 4 5 0],
       recovery_system_pool_capacities = uniform_recovery 2 10 10,
       rejection_counts = [0, 0, 0, 0, 0, 0, 0, 0, 0, 0, 0, 0, 0, 0],
       grant_records = [None, None, None, None, None, None, None],
       free_slots = [6, 5, 4, 3, 2, 1, 0], next_operation_generation = 1,
       total_usage = amounts_zero, recovery_usage = amounts_zero,
       tenant_limits = [amounts_uniform 1000, amounts_uniform 1000],
       ordinary_tenant_usage = [amounts_zero, amounts_zero], recovery_tenant_usage = [amounts_zero, amounts_zero],
       recovery_pool_usage = recovery_usage_zero, recovery_system_pool_usage = recovery_usage_zero,
       recovery_tenant_pool_usage = [recovery_usage_zero, recovery_usage_zero], pool_usage = pools_zero,
       ordinary_tenant_pool_usage = [pools_zero, pools_zero], tenant_outstanding = [0, 0], outstanding = 0,
       disk_pressure = Healthy, usable_disk_bytes = 1000, pressure_transition_count = 0, lifecycle = Open,
       outstanding_ordinary = 0, outstanding_recovery = 0, outstanding_uninterruptible = 0,
       class_counts = [0, 0, 0, 0, 0] \<rparr>"

definition sample_configuration :: governor_configuration where
  "sample_configuration =
     \<lparr> gc_raw_effective = sample_effective, gc_bootstrap_overhead = layout_overhead sample_layout,
       gc_total_ceiling = amounts_uniform 2000, gc_ordinary_ceiling = amounts_uniform 1900, gc_principal_quota = None,
       gc_recovery_reserve = amounts_uniform 100, gc_maximum_outstanding = 7,
       gc_pool_capacities = uniform_pools 1840 20 20 10 10, gc_recovery_pool_capacities = sample_recovery,
       gc_recovery_shared_capacity = amounts_uniform 1930, gc_disk_thresholds = sample_thresholds,
       gc_state = sample_state, gc_slot_signals = [0, 0, 0, 0, 0, 0, 0], gc_pending_words = [0] \<rparr>"

definition sample_governor :: governor where
  "sample_governor = snd (governor_new 0 sample_configuration)"

definition sample_system :: client_system where
  "sample_system = \<lparr> sys_governor = sample_governor, sys_handles = [] \<rparr>"

definition sample_input :: governor_setup_input where
  "sample_input =
     \<lparr> in_raw_effective = sample_effective, in_bootstrap_overhead = layout_overhead sample_layout,
       in_total_ceiling = amounts_uniform 2000, in_ordinary_ceiling = amounts_uniform 1900, in_principal_quota = None,
       in_tenant_quotas = [sample_quota 1, sample_quota 2], in_maximum_outstanding = 7,
       in_pool_capacities = uniform_pools 1840 20 20 10 10, in_recovery_pool_capacities = sample_recovery,
       in_disk_thresholds = sample_thresholds, in_initial_disk = 1000, in_layout = sample_layout, in_fail_at = None \<rparr>"

section \<open>It is established\<close>

lemma sample_parts:
  "layout_new sample_sizes 2 7 = Inr sample_layout"
  "amounts_checked_sub sample_effective (layout_overhead sample_layout) = Some (amounts_uniform 2000)"
  "amounts_checked_sub (amounts_uniform 2000) (amounts_uniform 100) = Some (amounts_uniform 1900)"
  "pool_policy_derive (policy_pools sample_policy) (amounts_uniform 1900) = Inr (uniform_pools 1840 20 20 10 10)"
  "protected_sum sample_recovery = Some (amounts_uniform 70)"
  "amounts_is_at_most (amounts_uniform 70) (amounts_uniform 100)"
  "amounts_all_positive (amounts_uniform 1900)"
  "list_ex (\<lambda>d. amounts_get (amounts_uniform 1900) d < amounts_get (amounts_uniform 1000) d) resource_dimension_all = False"
  by code_simp+

lemma sample_configure: "configure sample_sizes sample_grants sample_input = Inr sample_configuration"
  by code_simp

lemma sample_governor_new: "governor_new 0 sample_configuration = (sample_cfg, sample_governor)"
  by (simp add: governor_new_def sample_governor_def sample_configuration_def sample_cfg_def)

lemma sample_scopes:
  "allocate_active_segment_scopes sample_sizes sample_grants req None = Inr (replicate MAX_TENANT_QUOTAS None)"
  by (simp add: allocate_active_segment_scopes_def allocate_exact_def sample_sizes_def sample_grants_def MAX_TENANT_QUOTAS_def)

lemma sample_new:
  "configuration_new_with_failure sample_sizes sample_grants sample_inventory sample_policy sample_recovery None
     = Inr \<lparr> rgc_inner = sample_configuration, rgc_active_segment_scopes = replicate MAX_TENANT_QUOTAS None,
             rgc_volume_binding = None \<rparr>"
  using sample_configure sample_parts(4)
  by (simp add: configuration_new_with_failure_def Let_def sample_parts sample_scopes sample_input_def
      sample_inventory_def sample_policy_def sample_quota_def list_ex_iff)

lemma sample_established: "established sample_cfg 2 sample_system"
proof -
  have "cardinality_limits_new 2 7 = Inr (inv_cardinality sample_inventory)"
    by (simp add: cardinality_limits_new_def sample_inventory_def MAX_TENANT_QUOTAS_def MAX_OUTSTANDING_RESERVATIONS_def u16_max_def)
  then show ?thesis
    unfolding established_def using sample_new sample_governor_new
    by (intro exI conjI) (assumption | simp add: sample_system_def sample_inventory_def)+
qed

lemma sample_reachable: "reachable (established sample_cfg 2) event_ok (sys_step sample_cfg) sample_system"
  using sample_established by (rule reachable.start)

section \<open>Events from it\<close>

definition sample_claim :: work_claim where
  "sample_claim =
     \<lparr> claim_tenant = TenantId 1, claim_principal = None, claim_kind = Kind_Ingest, claim_amounts = amounts_uniform 15,
       claim_operation = None \<rparr>"

definition sample_granted :: client_system where
  "sample_granted = sys_step sample_cfg (Ev_Reserve LockOk sample_claim) sample_system"

lemma sample_claim_ok: "event_ok (Ev_Reserve lock sample_claim)"
  by (simp add: sample_claim_def claim_wf_def amounts_is_empty_def list_all_iff)

lemma sample_granted_reachable: "reachable (established sample_cfg 2) event_ok (sys_step sample_cfg) sample_granted"
  unfolding sample_granted_def by (rule reachable.move [OF sample_reachable sample_claim_ok])

lemma sample_granted_facts:
  "length (sys_handles sample_granted) = 1"
  "account_value (A_total MemoryBytes) (sys_governor sample_granted) = 15"
  "lifecycle (sys_governor sample_granted) = Open"
  by code_simp+

end
