(* ===== verification/Governor.thy ===== *)
theory Governor
  imports Sequences Sample
begin

text \<open>
  The properties of the resource governor as a whole: what holds in every state its public
  interface can reach, whatever the interleaving and the lock outcomes.
\<close>

section \<open>Every reachable state\<close>

text \<open>C1: In every state a configured governor can reach, once dropped handles are drained and
  unless the governor is fenced, each of its accounts (the total and recovery usage of every
  dimension, the usage of every tenant and pool, the outstanding counts by class, tenant and
  kind) is exactly the sum of what the handles its clients hold were charged: no
  reservation is lost, counted twice or leaked.\<close>

theorem books_match_handles:
  assumes "reachable (established cfg n) event_ok (sys_step cfg) s"
    and "lifecycle (settle (sys_governor s)) \<noteq> Fenced"
  shows "account_value acc (settle (sys_governor s)) = sum_list (map (\<lambda>h. handle_charge h acc) (sys_handles s))"
  by (rule settled_books [OF governor_machine.reachable_inv [OF assms(1)] assms(2)])

lemma sample_granted_settled: "lifecycle (settle (sys_governor sample_granted)) \<noteq> Fenced"
  by code_simp

theorem books_match_handles_witness:
  "lifecycle (settle (sys_governor sample_granted)) \<noteq> Fenced \<and>
   account_value (A_total MemoryBytes) (settle (sys_governor sample_granted))
     = sum_list (map (\<lambda>h. handle_charge h (A_total MemoryBytes)) (sys_handles sample_granted))"
  using books_match_handles [OF sample_granted_reachable sample_granted_settled, of "A_total MemoryBytes"]
    sample_granted_settled by blast

text \<open>C2: The governor never commits more than it has. In every reachable state the total usage of
  every dimension is at most the total ceiling, the usage of every ordinary pool is at most
  the capacity of the pool, the protected recovery usage of every kind is at most its
  protected capacity, ordinary and shared recovery usage together are at most the shared
  capacity, ordinary usage alone is at most the ordinary ceiling, and no more reservations
  are outstanding than the maximum.\<close>

theorem never_overcommitted:
  assumes "reachable (established cfg n) event_ok (sys_step cfg) s"
  shows "amounts_get (total_usage (sys_governor s)) d \<le> amounts_get (g_total_ceiling cfg) d \<and>
    pool_amount (pool_usage (sys_governor s)) (pool, d) \<le> pool_amount (g_pool_capacities cfg) (pool, d) \<and>
    amounts_get (usage_protected (recovery_pool_usage (sys_governor s)) kind) d
      \<le> amounts_get (recovery_get (g_recovery_pool_capacities cfg) kind) d \<and>
    amounts_get (total_usage (sys_governor s)) d - amounts_get (recovery_usage (sys_governor s)) d
      + amounts_get (rpu_shared (recovery_pool_usage (sys_governor s))) d \<le> amounts_get (g_recovery_shared_capacity cfg) d \<and>
    amounts_get (total_usage (sys_governor s)) d - amounts_get (recovery_usage (sys_governor s)) d
      \<le> amounts_get (g_ordinary_ceiling cfg) d \<and>
    outstanding (sys_governor s) \<le> g_maximum_outstanding cfg"
  using reachable_capacity [OF assms]
  by (simp add: within_capacity_def ordinary_load_def usage_protected_def)

theorem never_overcommitted_witness:
  "amounts_get (total_usage (sys_governor sample_granted)) MemoryBytes \<le> amounts_get (g_total_ceiling sample_cfg) MemoryBytes \<and>
   outstanding (sys_governor sample_granted) \<le> g_maximum_outstanding sample_cfg"
  using never_overcommitted [OF sample_granted_reachable, of MemoryBytes Shared Purge] by blast

text \<open>C4: The handles are exact. In every reachable state distinct handles occupy distinct slots,
  the ledger slot of every handle is active and holds the record made from the owner, the
  identity and the amounts of the handle, and unless the governor is fenced the active slots
  whose grant is not yet given back are exactly those of the handles.\<close>

theorem handles_are_exact:
  assumes "reachable (established cfg n) event_ok (sys_step cfg) s"
  shows "distinct (map res_slot (sys_handles s)) \<and>
    (\<forall>h \<in> set (sys_handles s). res_active h \<and> slot_is_active (sys_governor s) (res_slot h) \<and>
       (\<exists>r. slot_get (grant_records (sys_governor s)) (res_slot h) = Some r \<and>
          grant_record_new (res_owner h) (res_identity h) (res_amounts h) (gr_operation r) = Some r \<and>
          record_owner r = Some (res_owner h) \<and> gr_amounts r = res_amounts h)) \<and>
    (lifecycle (sys_governor s) \<noteq> Fenced \<longrightarrow> live_slots (sys_governor s) = res_slot ` set (sys_handles s))"
proof -
  have inv: "system_inv n s" by (rule governor_machine.reachable_inv [OF assms])
  then have slots: "length (slot_signals (sys_governor s)) = length (grant_records (sys_governor s))"
    using ledger_invD(1) by (auto simp: system_inv_def governor_inv_def slots_wf_def)
  have "res_active h \<and> slot_is_active (sys_governor s) (res_slot h) \<and>
       (\<exists>r. slot_get (grant_records (sys_governor s)) (res_slot h) = Some r \<and>
          grant_record_new (res_owner h) (res_identity h) (res_amounts h) (gr_operation r) = Some r \<and>
          record_owner r = Some (res_owner h) \<and> gr_amounts r = res_amounts h)" if "h \<in> set (sys_handles s)" for h
  proof -
    have "handle_ok (sys_governor s) h" using inv that by (simp add: system_inv_def)
    then obtain r where h: "held (sys_governor s) (res_owner h) (res_identity h) (res_amounts h) (res_slot h) r"
      and act: "res_active h" by (auto simp: handle_ok_def)
    show ?thesis using heldD(1,2,4,5,7) [OF h] h act slots by (auto simp: held_def slot_is_active_def slice_get_def)
  qed
  then show ?thesis using inv by (simp add: system_inv_def)
qed

theorem handles_are_exact_witness:
  "lifecycle (sys_governor sample_granted) \<noteq> Fenced \<and>
   live_slots (sys_governor sample_granted) = res_slot ` set (sys_handles sample_granted)"
  using handles_are_exact [OF sample_granted_reachable] sample_granted_facts(3) by simp

text \<open>C5: Operations form a forest. In every reachable state an admitted child sits under a root of
  the same generation, tenant, principal and class; a root counts exactly the children in the
  ledger that name it, and a root whose own grant was given back stays only as long as it
  has children.\<close>

theorem operation_forest:
  assumes "reachable (established cfg n) event_ok (sys_step cfg) s"
    and "slot_get (grant_records (sys_governor s)) i = Some r"
  shows "case gr_operation r of
      None \<Rightarrow> True
    | Some (Root gen accepting cnt) \<Rightarrow> cnt = children (grant_records (sys_governor s)) i gen \<and> (accepting \<or> 0 < cnt)
    | Some (Child root gen) \<Rightarrow> (\<exists>r' accepting cnt. slot_get (grant_records (sys_governor s)) root = Some r' \<and>
        gr_operation r' = Some (Root gen accepting cnt) \<and> same_subject r r')"
proof -
  have "forest_ok (grant_records (sys_governor s))"
    using governor_machine.reachable_inv [OF assms(1)] ledger_invD(3) by (auto simp: system_inv_def governor_inv_def)
  then have "slot_ok (grant_records (sys_governor s)) i r" using assms(2) by (simp add: forest_ok_def)
  then show ?thesis unfolding slot_ok_def by (auto split: option.splits operation_record.splits)
qed

definition sample_root_claim :: work_claim where
  "sample_root_claim =
     \<lparr> claim_tenant = TenantId 1, claim_principal = Some (PrincipalId 7), claim_kind = Kind_Ingest,
       claim_amounts = amounts_uniform 3, claim_operation = None \<rparr>"

definition sample_rooted :: client_system where
  "sample_rooted = sys_step sample_cfg (Ev_Reserve LockOk sample_root_claim) sample_system"

definition sample_child_claim :: work_claim where
  "sample_child_claim =
     \<lparr> claim_tenant = TenantId 1, claim_principal = Some (PrincipalId 7), claim_kind = Kind_Ingest,
       claim_amounts = amounts_uniform 2, claim_operation = res_operation (sys_handles sample_rooted ! 0) \<rparr>"

definition sample_family :: client_system where
  "sample_family = sys_step sample_cfg (Ev_Reserve LockOk sample_child_claim) sample_rooted"

lemma sample_claims_ok: "claim_wf sample_root_claim" "claim_wf sample_child_claim"
  by code_simp+

lemma sample_rooted_reachable: "reachable (established sample_cfg 2) event_ok (sys_step sample_cfg) sample_rooted"
  unfolding sample_rooted_def by (rule reachable.move [OF sample_reachable]) (simp add: sample_claims_ok)

lemma sample_family_reachable: "reachable (established sample_cfg 2) event_ok (sys_step sample_cfg) sample_family"
  unfolding sample_family_def by (rule reachable.move [OF sample_rooted_reachable]) (simp add: sample_claims_ok)

lemma sample_family_root:
  "map_option gr_operation (slot_get (grant_records (sys_governor sample_family)) 0) = Some (Some (Root 1 True 1))"
  by code_simp

theorem operation_forest_witness:
  "\<exists>r. slot_get (grant_records (sys_governor sample_family)) 0 = Some r \<and> gr_operation r = Some (Root 1 True 1) \<and>
     children (grant_records (sys_governor sample_family)) 0 1 = 1"
proof -
  obtain r where r: "slot_get (grant_records (sys_governor sample_family)) 0 = Some r" "gr_operation r = Some (Root 1 True 1)"
    using sample_family_root by auto
  show ?thesis using operation_forest [OF sample_family_reachable r(1)] r by auto
qed

section \<open>The contract\<close>

text \<open>C3: The governor implements its abstract contract. Seen through the charges of the handles,
  every event from a reachable state is one step of the machine of grants: an admission adds
  a grant for exactly the claimed amounts within all limits or leaves the grants alone, a
  resize exchanges, keeps or ends one grant, a cancellation ends or keeps it, a drop ends
  it, and no other event touches the grants.\<close>

theorem governor_refines_contract:
  assumes "reachable (established cfg n) event_ok (sys_step cfg) s" and "event_ok e"
  shows "fits cfg (grants_of s) \<and> grant_step cfg e (grants_of s) (grants_of (sys_step cfg e s))"
  using bounded_machine.reachable_inv [OF assms(1)] grants_fit step_refines [OF _ assms(2)] by blast

theorem governor_refines_contract_witness:
  "fits sample_cfg (grants_of sample_granted) \<and>
   grant_step sample_cfg (Ev_Drop 0) (grants_of sample_granted) (grants_of (sys_step sample_cfg (Ev_Drop 0) sample_granted))"
  using governor_refines_contract [OF sample_granted_reachable, of "Ev_Drop 0"] by simp

text \<open>C6: A handle can always be given back. In a reachable state that is not fenced, cancelling any
  handle with the lock free succeeds, deactivates the handle, and takes exactly the charge of
  the handle off every account.\<close>

theorem cancel_always_releases:
  assumes "reachable (established cfg n) event_ok (sys_step cfg) s" and "h \<in> set (sys_handles s)"
    and "lifecycle (settle (sys_governor s)) \<noteq> Fenced"
  shows "\<exists>g'. reservation_cancel LockOk relock h (sys_governor s) = (Inr Released, h\<lparr> res_active := False \<rparr>, g') \<and>
    lifecycle g' \<noteq> Fenced \<and>
    (\<forall>acc. account_value acc (settle (sys_governor s)) = account_value acc g' + handle_charge h acc)"
proof -
  have inv: "governor_inv n (sys_governor s)" "handle_ok (sys_governor s) h"
    using governor_machine.reachable_inv [OF assms(1)] assms(2) by (simp_all add: system_inv_def)
  show ?thesis by (rule cancel_exact [OF inv, of relock]) (use assms(3) in \<open>simp add: debited_def\<close>)
qed

theorem cancel_always_releases_witness:
  "\<exists>g'. reservation_cancel LockOk LockOk (hd (sys_handles sample_granted)) (sys_governor sample_granted)
     = (Inr Released, (hd (sys_handles sample_granted))\<lparr> res_active := False \<rparr>, g')"
proof -
  have "hd (sys_handles sample_granted) \<in> set (sys_handles sample_granted)"
    using sample_granted_facts(1) by (intro hd_in_set) auto
  from cancel_always_releases [OF sample_granted_reachable this sample_granted_settled] show ?thesis by blast
qed

end
