(* ===== verification/Calls.thy ===== *)
theory Calls
  imports Governor
begin

text \<open>
  Properties of single calls and short sequences of calls of the governor: reserve and give
  back, a refusal, a resize, a shutdown, a fence, a disk observation.
\<close>

section \<open>Reserve, cancel, resize\<close>

text \<open>C10: Reserve and cancel round trip. From a reachable state, an ordinary reservation that is
  granted can be cancelled at once; the cancellation reports a release, the governor is open,
  and every account is back to its value before the reservation.\<close>

theorem reserve_then_cancel:
  assumes "reachable (established cfg n) event_ok (sys_step cfg) s" and "claim_wf claim"
    and "reserve_ordinary cfg LockOk claim (sys_governor s) = (Inr h, g1)"
  shows "\<exists>g2. reservation_cancel LockOk relock h g1 = (Inr Released, h\<lparr> res_active := False \<rparr>, g2) \<and> lifecycle g2 = Open \<and>
    (\<forall>acc. account_value acc g2 = account_value acc (settle (sys_governor s)))"
proof -
  let ?g = "sys_governor s" and ?s1 = "sys_step cfg (Ev_Reserve LockOk claim) s"
  have s1: "?s1 = \<lparr> sys_governor = g1, sys_handles = sys_handles s @ [h] \<rparr>" using assms(3) by (simp add: keep_granted_def)
  have inv: "system_inv n s" by (rule governor_machine.reachable_inv [OF assms(1)])
  then have inv1: "system_inv n ?s1" using assms(2) by (intro sys_step_inv) simp_all
  have n: "n \<le> u16_max" and g: "governor_inv n ?g" using inv by (simp_all add: system_inv_def)
  have g1: "governor_inv n g1" and h: "handle_ok g1 h" using inv1 unfolding s1 by (simp_all add: system_inv_def)
  have sg: "governor_inv n (settle ?g)" using settle_steady(1) [OF g] by (simp add: steady_def)
  have run: "reserve_ordinary_locked cfg claim (settle ?g) = (Inr h, g1)"
    using assms(3) by (simp add: reserve_ordinary_def with_admission_LockOk_Inr)
  note op = reserve_ordinary_locked_open [OF sg n assms(2) run]
  have open1: "lifecycle (settle g1) = Open" using settle_lifecycle(1) [OF g1] op settle_lifecycle(2) [OF g] by simp
  obtain g2 where c: "reservation_cancel LockOk relock h g1 = (Inr Released, h\<lparr> res_active := False \<rparr>, g2)"
    "debited (handle_charge h) (settle g1) g2" "lifecycle g2 = Open"
    by (rule cancel_exact [OF g1 h, of relock]) (use open1 in auto)
  have "account_value acc g2 = account_value acc (settle ?g)" for acc
    using settled_books [OF inv, of acc] settled_books [OF inv1, of acc] c(2) open1 op(2) unfolding s1
    by (simp add: debited_def)
  then show ?thesis using c by blast
qed

lemma sample_reserve: "\<exists>h g. reserve_ordinary sample_cfg LockOk sample_claim (sys_governor sample_system) = (Inr h, g)"
proof -
  have "\<not> isl (fst (reserve_ordinary sample_cfg LockOk sample_claim (sys_governor sample_system)))" by code_simp
  then show ?thesis by (metis isl_def prod.collapse sum.collapse(2))
qed

theorem reserve_then_cancel_witness:
  "\<exists>h g1 g2. reserve_ordinary sample_cfg LockOk sample_claim (sys_governor sample_system) = (Inr h, g1) \<and>
     reservation_cancel LockOk LockOk h g1 = (Inr Released, h\<lparr> res_active := False \<rparr>, g2) \<and> lifecycle g2 = Open"
proof -
  obtain h g1 where r: "reserve_ordinary sample_cfg LockOk sample_claim (sys_governor sample_system) = (Inr h, g1)"
    using sample_reserve by blast
  have "claim_wf sample_claim" using sample_claim_ok by simp
  from reserve_then_cancel [OF sample_reachable this r, of LockOk] r show ?thesis by blast
qed

text \<open>C12: A refusal is inert. When an ordinary reservation is refused from a reachable state and the
  governor is not fenced, the only change besides draining dropped handles is one count for
  the failure code of the answer.\<close>

theorem refusal_is_inert:
  assumes "reachable (established cfg n) event_ok (sys_step cfg) s" and "claim_wf claim"
    and "reserve_ordinary cfg LockOk claim (sys_governor s) = (Inl e, g')" and "lifecycle g' \<noteq> Fenced"
  shows "g' = counted e (settle (sys_governor s))"
proof -
  have "governor_inv n (sys_governor s)" "n \<le> u16_max"
    using governor_machine.reachable_inv [OF assms(1)] by (simp_all add: system_inv_def)
  from reserve_ordinary_refused [OF this assms(2-4)] show ?thesis .
qed

definition greedy_claim :: work_claim where
  "greedy_claim = sample_claim\<lparr> claim_amounts := with_amount (amounts_uniform 1001) DiskHeadroomBytes 1 \<rparr>"

lemma greedy_refused:
  "map_sum af_code (\<lambda>_. ()) (fst (reserve_ordinary sample_cfg LockOk greedy_claim (sys_governor sample_system)))
     = Inl Code_TenantQuotaExceeded"
  "lifecycle (snd (reserve_ordinary sample_cfg LockOk greedy_claim (sys_governor sample_system))) = Open"
  by code_simp+

theorem refusal_is_inert_witness:
  "\<exists>e g'. reserve_ordinary sample_cfg LockOk greedy_claim (sys_governor sample_system) = (Inl e, g') \<and>
     af_code e = Code_TenantQuotaExceeded \<and> g' = counted e (settle (sys_governor sample_system))"
proof -
  let ?run = "reserve_ordinary sample_cfg LockOk greedy_claim (sys_governor sample_system)"
  obtain res g' where run: "?run = (res, g')" by (cases ?run)
  then obtain e where r: "?run = (Inl e, g')" and e: "af_code e = Code_TenantQuotaExceeded" and l: "lifecycle g' \<noteq> Fenced"
    using greedy_refused by (cases res) auto
  have "claim_wf greedy_claim" by code_simp
  from refusal_is_inert [OF sample_reachable this r l] r e show ?thesis by blast
qed

text \<open>C11: A resize that succeeds from a reachable state exchanges one charge for another. The handle
  keeps its slot and identity and now stands for the new amounts, the outcome says whether
  it grew or shrank, and unless the governor is fenced every account changes by
  exactly the difference of the two charges.\<close>

theorem resize_exchanges_charge:
  assumes "reachable (established cfg n) event_ok (sys_step cfg) s" and "k < length (sys_handles s)"
    and "try_resize_with_policy cfg lock new preserve (sys_handles s ! k) (sys_governor s) = (Inr outcome, h', g')"
    and "lifecycle (settle (sys_governor s)) \<noteq> Fenced" and "lifecycle (settle g') \<noteq> Fenced"
  shows "res_amounts h' = new \<and> res_slot h' = res_slot (sys_handles s ! k) \<and>
    res_identity h' = res_identity (sys_handles s ! k) \<and>
    outcome = resize_outcome_of (res_amounts (sys_handles s ! k)) new \<and>
    (\<forall>acc. account_value acc (settle g') + handle_charge (sys_handles s ! k) acc
       = account_value acc (settle (sys_governor s)) + handle_charge h' acc)"
proof -
  let ?h = "sys_handles s ! k" and ?s' = "sys_step cfg (Ev_Resize lock k new preserve) s"
  have inv: "system_inv n s" by (rule governor_machine.reachable_inv [OF assms(1)])
  then have h: "handle_ok (sys_governor s) ?h" and n: "n \<le> u16_max" and g: "governor_inv n (sys_governor s)"
    using assms(2) by (simp_all add: system_inv_def)
  note r = try_resize_Inr [OF g n h assms(3)]
  have s': "?s' = \<lparr> sys_governor = g', sys_handles = (sys_handles s)[k := h'] \<rparr>"
    using assms(2,3) r(4) by (simp add: through_handle_def put_handle_def)
  have inv': "system_inv n ?s'" by (rule sys_step_inv [OF inv]) simp
  have "account_value acc (settle g') + handle_charge ?h acc
      = account_value acc (settle (sys_governor s)) + handle_charge h' acc" for acc
    using settled_books [OF inv assms(4), of acc] settled_books [OF inv', of acc] assms(5)
      sum_list_exchange [OF assms(2), of "\<lambda>h. handle_charge h acc" h']
    unfolding s' by simp
  then show ?thesis using r by blast
qed

lemma sample_resize:
  "case try_resize_with_policy sample_cfg LockOk (amounts_uniform 40) False (sys_handles sample_granted ! 0)
       (sys_governor sample_granted) of
     (res, h', g') \<Rightarrow> \<not> isl res \<and> lifecycle (settle g') = Open"
  by code_simp

theorem resize_exchanges_charge_witness:
  "\<exists>outcome h' g'. try_resize_with_policy sample_cfg LockOk (amounts_uniform 40) False (sys_handles sample_granted ! 0)
      (sys_governor sample_granted) = (Inr outcome, h', g') \<and> res_amounts h' = amounts_uniform 40 \<and>
     account_value (A_total MemoryBytes) (settle g') + handle_charge (sys_handles sample_granted ! 0) (A_total MemoryBytes)
       = account_value (A_total MemoryBytes) (settle (sys_governor sample_granted)) + handle_charge h' (A_total MemoryBytes)"
proof -
  let ?run = "try_resize_with_policy sample_cfg LockOk (amounts_uniform 40) False (sys_handles sample_granted ! 0)
    (sys_governor sample_granted)"
  obtain res h' g' where run: "?run = (res, h', g')" by (cases ?run)
  then obtain outcome where r: "?run = (Inr outcome, h', g')" and l: "lifecycle (settle g') \<noteq> Fenced"
    using sample_resize by (cases res) auto
  have k: "0 < length (sys_handles sample_granted)" by (simp add: sample_granted_facts)
  from resize_exchanges_charge [OF sample_granted_reachable k r sample_granted_settled l] r show ?thesis by blast
qed

section \<open>Shutdown and fences\<close>

text \<open>C13: A fence is final. Once the governor of a reachable state is fenced, every event leaves it
  fenced and none hands out a further handle.\<close>

theorem fence_is_final:
  assumes "reachable (established cfg n) event_ok (sys_step cfg) s" and "lifecycle (sys_governor s) = Fenced"
    and "event_ok e"
  shows "lifecycle (sys_governor (sys_step cfg e s)) = Fenced \<and> length (sys_handles (sys_step cfg e s)) \<le> length (sys_handles s)"
proof -
  have inv: "system_inv n s" by (rule governor_machine.reachable_inv [OF assms(1)])
  then have g: "governor_inv n (sys_governor s)" and n: "n \<le> u16_max" by (simp_all add: system_inv_def)
  show ?thesis using fenced_step [OF inv assms(2,3)] fenced_handles [OF g n assms(2,3)] by blast
qed

definition fenced_system :: client_system where
  "fenced_system = sys_step sample_cfg (Ev_Reserve LockPoisoned sample_claim) sample_granted"

lemma fenced_system_reachable: "reachable (established sample_cfg 2) event_ok (sys_step sample_cfg) fenced_system"
  unfolding fenced_system_def by (rule reachable.move [OF sample_granted_reachable sample_claim_ok])

lemma fenced_system_fenced: "lifecycle (sys_governor fenced_system) = Fenced"
  by (simp add: fenced_system_def reserve_ordinary_def with_admission_def lock_for_admission_def)

theorem fence_is_final_witness:
  "lifecycle (sys_governor fenced_system) = Fenced \<and>
   lifecycle (sys_governor (sys_step sample_cfg (Ev_Reserve LockOk sample_claim) fenced_system)) = Fenced"
  using fence_is_final [OF fenced_system_reachable fenced_system_fenced sample_claim_ok] fenced_system_fenced by blast

text \<open>C14: Shutdown admits only what must complete. While the governor shuts down every ordinary claim
  is refused with the shutdown code, and a recovery claim is granted only for the two kinds
  that retain their capacity until completion.\<close>

theorem shutdown_admits_only_completion:
  assumes "lifecycle (settle g) = ShuttingDown"
  shows "fst (reserve_ordinary cfg LockOk claim g) = Inl (shutdown_failure (claim_class claim) (disk_pressure (settle g))) \<and>
    (\<forall>h g'. reserve_recovery cfg LockOk claim' g = (Inr h, g') \<longrightarrow>
       interruption (recovery_claim_kind claim') = RetainUntilCompletion)"
proof
  have "plan_ordinary cfg claim (settle g) = Refuse (shutdown_failure (claim_class claim) (disk_pressure (settle g)))"
    using assms by (simp add: plan_ordinary_def Let_def)
  then show "fst (reserve_ordinary cfg LockOk claim g) = Inl (shutdown_failure (claim_class claim) (disk_pressure (settle g)))"
    by (simp add: reserve_ordinary_def with_admission_def lock_for_admission_def reserve_ordinary_locked_def run_plan_def)
  show "\<forall>h g'. reserve_recovery cfg LockOk claim' g = (Inr h, g') \<longrightarrow>
       interruption (recovery_claim_kind claim') = RetainUntilCompletion"
  proof (intro allI impI)
    fix h g'
    assume "reserve_recovery cfg LockOk claim' g = (Inr h, g')"
    then have "reserve_recovery_locked cfg claim' (settle g) = (Inr h, g')"
      by (simp add: reserve_recovery_def with_admission_LockOk_Inr)
    then obtain p where p: "plan_recovery cfg claim' (settle g) = Proceed p"
      by (auto simp: reserve_recovery_locked_def run_plan_def split: plan.splits)
    show "interruption (recovery_claim_kind claim') = RetainUntilCompletion"
      by (rule plan_recovery_Proceed [OF p]) (use assms retains_iff_uninterruptible in blast)
  qed
qed

definition closing_governor :: governor where
  "closing_governor = snd (begin_shutdown sample_cfg LockOk sample_governor)"

definition completion_claim :: recovery_work_claim where
  "completion_claim =
     \<lparr> recovery_claim_scope = System, recovery_claim_kind = DurabilityCompletion,
       recovery_claim_amounts = amounts_uniform 1 \<rparr>"

lemma closing_facts:
  "lifecycle (settle closing_governor) = ShuttingDown"
  "\<not> isl (fst (reserve_recovery sample_cfg LockOk completion_claim closing_governor))"
  by code_simp+

theorem shutdown_admits_only_completion_witness:
  "\<not> isl (fst (reserve_recovery sample_cfg LockOk completion_claim closing_governor)) \<and>
   fst (reserve_ordinary sample_cfg LockOk sample_claim closing_governor)
     = Inl (shutdown_failure (claim_class sample_claim) (disk_pressure (settle closing_governor)))"
  using shutdown_admits_only_completion [OF closing_facts(1), of sample_cfg sample_claim completion_claim] closing_facts(2) by blast

end
