(* ===== verification/Parts.thy ===== *)
theory Parts
  imports Sample
begin

text \<open>
  Properties of the parts of the governor: the split of a charge over pools, the fair shares
  of the tenants, disk pressure, the ledger of grants and the two leases of the authority.
\<close>

section \<open>Splitting a charge\<close>

text \<open>C22: A charge planned for ordinary work is exact and within capacity. It is attributed to
  the pool of the work class, the shared and protected parts of every dimension add up to
  the request, the shared part is the largest the shared pool of the governor and of the
  tenant allow, and adding the charge keeps every pool at or below its capacity, for the
  governor and for the tenant.\<close>

theorem ordinary_charge_is_exact:
  assumes "plan_pool_charge cls requested admission pressure eligible = Inr charge"
    and "\<And>pool d. pool_usage_within admission pool d"
  shows "pool_for_class cls = Some (charge_class_pool charge) \<and>
    (\<forall>d. amounts_get (charge_shared charge) d + amounts_get (charge_protected charge) d = amounts_get requested d \<and>
         amounts_get (charge_shared charge) d = pool_shared_part eligible requested admission d) \<and>
    (\<forall>pool d. pool_amount (pa_global_usage admission) (pool, d) + pool_amount (pool_charge_capacities charge) (pool, d)
           \<le> pool_amount (pa_global_capacity admission) (pool, d) \<and>
         pool_amount (pa_tenant_usage admission) (pool, d) + pool_amount (pool_charge_capacities charge) (pool, d)
           \<le> pool_amount (pa_tenant_capacity admission) (pool, d))"
proof (intro conjI allI)
  fix pool d
  have within: "pool_amount (pa_global_usage admission) (pool, d) \<le> pool_amount (pa_global_capacity admission) (pool, d)"
    "pool_amount (pa_tenant_usage admission) (pool, d) \<le> pool_amount (pa_tenant_capacity admission) (pool, d)"
    using assms(2) [of pool d] unfolding pool_usage_within_def by blast+
  show "pool_amount (pa_global_usage admission) (pool, d) + pool_amount (pool_charge_capacities charge) (pool, d)
           \<le> pool_amount (pa_global_capacity admission) (pool, d)"
    "pool_amount (pa_tenant_usage admission) (pool, d) + pool_amount (pool_charge_capacities charge) (pool, d)
           \<le> pool_amount (pa_tenant_capacity admission) (pool, d)"
    using plan_pool_charge_exact(5,6) [OF assms(1), of pool d] within by (simp_all only: max.absorb1)
qed (rule plan_pool_charge_exact [OF assms(1)])+

definition sample_admission :: pool_admission where
  "sample_admission =
     \<lparr> pa_global_capacity = pools_with (pools_with pools_zero Shared (amounts_uniform 10)) Pool_Ingest (amounts_uniform 5),
       pa_global_usage = pools_with pools_zero Shared (amounts_uniform 4),
       pa_tenant_capacity = pools_with (pools_with pools_zero Shared (amounts_uniform 5)) Pool_Ingest (amounts_uniform 3),
       pa_tenant_usage = pools_with pools_zero Shared (amounts_uniform 1) \<rparr>"

definition sample_charge :: pool_charge where
  "sample_charge = pool_charge_new Pool_Ingest (amounts_uniform 4) (amounts_uniform 2)"

lemma sample_plan:
  "plan_pool_charge Ingest (amounts_uniform 6) sample_admission Healthy True = Inr sample_charge"
  by code_simp

lemma sample_within: "pool_usage_within sample_admission pool d"
  by (cases pool) (simp_all add: pool_usage_within_def sample_admission_def pools_zero_def pool_amount.simps)

theorem ordinary_charge_is_exact_witness:
  "plan_pool_charge Ingest (amounts_uniform 6) sample_admission Healthy True = Inr sample_charge \<and>
   (\<forall>d. amounts_get (charge_shared sample_charge) d = pool_shared_part True (amounts_uniform 6) sample_admission d) \<and>
   pool_amount (pa_tenant_usage sample_admission) (Shared, MemoryBytes)
     + pool_amount (pool_charge_capacities sample_charge) (Shared, MemoryBytes)
     \<le> pool_amount (pa_tenant_capacity sample_admission) (Shared, MemoryBytes)"
  using sample_plan ordinary_charge_is_exact [OF sample_plan sample_within] by blast

text \<open>C23: The recovery split is exact and complete. Over views whose usage is within capacity, a
  recovery request is granted precisely when in every dimension some split into a shared
  and a protected part fits the shared and protected room of both the governor and the
  scope; the granted split then adds up to the request, fits both views, and takes at
  least as much from the shared pools as any other that fits.\<close>

theorem recovery_split_complete:
  assumes "\<And>d. view_within kind global d" and "\<And>d. view_within kind scope d"
  shows "case plan_recovery_charge kind requested global scope of
      Inl e \<Rightarrow> (\<exists>d. \<forall>s p. s + p = amounts_get requested d \<longrightarrow> \<not> fits_views kind global scope d s p)
    | Inr charge \<Rightarrow> rc_kind charge = kind \<and>
        (\<forall>d. amounts_get (rc_shared charge) d + amounts_get (rc_protected charge) d = amounts_get requested d \<and>
           fits_views kind global scope d (amounts_get (rc_shared charge) d) (amounts_get (rc_protected charge) d) \<and>
           (\<forall>s p. s + p = amounts_get requested d \<longrightarrow> fits_views kind global scope d s p \<longrightarrow>
              s \<le> amounts_get (rc_shared charge) d))"
proof (cases "plan_recovery_charge kind requested global scope")
  case (Inl e)
  then obtain d where d: "plan_recovery_dimension kind requested global scope d = Inl e"
    by (auto simp: plan_recovery_charge_def and_then_Inl_iff dest: build_split_Inl)
  have "\<not> fits_views kind global scope d s p" if "s + p = amounts_get requested d" for s p
    using plan_recovery_dimension_complete [OF assms that] d by auto
  then show ?thesis using Inl by auto
next
  case (Inr charge)
  have "rc_kind charge = kind \<and>
      (\<forall>d. amounts_get (rc_shared charge) d + amounts_get (rc_protected charge) d = amounts_get requested d \<and>
         fits_views kind global scope d (amounts_get (rc_shared charge) d) (amounts_get (rc_protected charge) d) \<and>
         (\<forall>s p. s + p = amounts_get requested d \<longrightarrow> fits_views kind global scope d s p \<longrightarrow>
            s \<le> amounts_get (rc_shared charge) d))"
  proof (intro conjI allI impI)
    show "rc_kind charge = kind" using Inr by (simp add: plan_recovery_charge_Inr_iff)
    fix d
    have "amounts_get (rc_shared charge) d = min (min (amounts_get requested d) (shared_room global d)) (shared_room scope d)"
      "amounts_get (rc_shared charge) d + amounts_get (rc_protected charge) d = amounts_get requested d"
      "fits_views kind global scope d (amounts_get (rc_shared charge) d) (amounts_get (rc_protected charge) d)"
      using Inr unfolding plan_recovery_charge_Inr_iff plan_recovery_dimension_Inr_iff by blast+
    then show "amounts_get (rc_shared charge) d + amounts_get (rc_protected charge) d = amounts_get requested d"
      "fits_views kind global scope d (amounts_get (rc_shared charge) d) (amounts_get (rc_protected charge) d)"
      "\<And>s p. s + p = amounts_get requested d \<Longrightarrow> fits_views kind global scope d s p \<Longrightarrow> s \<le> amounts_get (rc_shared charge) d"
      by (simp_all add: fits_views_def)
  qed
  then show ?thesis using Inr by simp
qed

definition sample_view :: "u64 \<Rightarrow> u64 \<Rightarrow> recovery_pool_view" where
  "sample_view shared protected =
     \<lparr> view_shared_capacity = amounts_uniform shared, view_protected_capacity = amounts_uniform protected,
       view_usage = recovery_usage_zero, view_shared_occupied_by_ordinary = amounts_zero \<rparr>"

lemma sample_view_within: "shared + protected \<le> 1000 \<Longrightarrow> view_within kind (sample_view shared protected) d"
  by (cases kind) (simp_all add: view_within_def sample_view_def shared_room_def protected_room_def recovery_usage_zero_def
      usage_protected_def recovery_zero_def u64_max_def)

lemma sample_recovery_plan:
  "plan_recovery_charge Purge (amounts_uniform 12) (sample_view 9 5) (sample_view 8 4)
     = Inr \<lparr> rc_kind = Purge, rc_shared = amounts_uniform 8, rc_protected = amounts_uniform 4 \<rparr>"
  by code_simp

theorem recovery_split_complete_witness:
  "plan_recovery_charge Purge (amounts_uniform 12) (sample_view 9 5) (sample_view 8 4)
     = Inr \<lparr> rc_kind = Purge, rc_shared = amounts_uniform 8, rc_protected = amounts_uniform 4 \<rparr> \<and>
   fits_views Purge (sample_view 9 5) (sample_view 8 4) MemoryBytes 8 4"
  using recovery_split_complete [of Purge "sample_view 9 5" "sample_view 8 4" "amounts_uniform 12"]
    sample_view_within [of 9 5] sample_view_within [of 8 4] sample_recovery_plan by simp

text \<open>C25: Shrinking a charge keeps it a split. A charge reduced to smaller amounts keeps its pool, its
  parts add up to the new amounts, neither part grows, and the protected part is given back
  only after the shared part has been kept as far as the new amount allows.\<close>

theorem shrink_keeps_split:
  assumes "\<And>d. amounts_get new d \<le> amounts_get (charge_shared c) d + amounts_get (charge_protected c) d"
  shows "\<exists>c'. pool_charge_shrink_to c new = Some c' \<and> charge_class_pool c' = charge_class_pool c \<and>
    (\<forall>d. amounts_get (charge_shared c') d + amounts_get (charge_protected c') d = amounts_get new d \<and>
       amounts_get (charge_shared c') d = min (amounts_get (charge_shared c) d) (amounts_get new d) \<and>
       amounts_get (charge_protected c') d \<le> amounts_get (charge_protected c) d)"
  using pool_charge_shrink_to_total [of new c] assms by (auto simp: pool_charge_shrink_to_Some_iff)

theorem shrink_keeps_split_witness:
  "\<exists>c'. pool_charge_shrink_to (pool_charge_new Pool_Ingest (amounts_uniform 8) (amounts_uniform 4)) (amounts_uniform 10) = Some c' \<and>
     amounts_get (charge_shared c') MemoryBytes = 8"
  using shrink_keeps_split [of "amounts_uniform 10" "pool_charge_new Pool_Ingest (amounts_uniform 8) (amounts_uniform 4)"]
  by (auto simp del: pool_charge_shrink_to_Some_iff)

section \<open>Fair shares\<close>

text \<open>C24: The fair shares of the tenants partition the pools. The ordinary share of a tenant is the
  floor of its weighted part and the shares of all tenants fit into every pool. For a
  recovery kind of both scopes the part of the system and the parts of the tenants add up
  to the protected pool exactly; the system can make progress in every kind that permits
  system scope and every tenant in every kind that permits tenant scope.\<close>

theorem fair_shares_partition:
  assumes "total_weight quotas = Inr tw" and "ordinary_capacities quotas pools tw [] = Inr caps"
    and "recovery_fair_capacities quotas recovery tw [] = Inr floors"
    and "system_recovery_capacities recovery floors = Inr system"
  shows "length caps = length quotas \<and> length floors = length quotas \<and>
    (\<forall>i < length quotas. pool_amount (caps ! i) (pool, d) = pool_amount pools (pool, d) * quota_weight (quotas ! i) div tw) \<and>
    sum_list (map (\<lambda>c. pool_amount c (pool, d)) caps) \<le> pool_amount pools (pool, d) \<and>
    (permits_system_scope kind \<longrightarrow> permits_tenant_scope kind \<longrightarrow>
       amounts_get (recovery_get system kind) d + sum_list (map (\<lambda>c. amounts_get (recovery_get c kind) d) floors)
         = amounts_get (recovery_get recovery kind) d) \<and>
    (permits_system_scope kind \<longrightarrow> 0 < amounts_get (recovery_get system kind) d) \<and>
    (permits_tenant_scope kind \<longrightarrow> (\<forall>c \<in> set floors. 0 < amounts_get (recovery_get c kind) d))"
proof (intro conjI impI)
  show "length caps = length quotas" by (rule ordinary_capacities_Inr(1) [OF assms(2)])
  show "length floors = length quotas" by (rule recovery_fair_capacities_Inr(1) [OF assms(3)])
  show "\<forall>i < length quotas. pool_amount (caps ! i) (pool, d) = pool_amount pools (pool, d) * quota_weight (quotas ! i) div tw"
    using ordinary_capacities_Inr(2) [OF assms(2)] by (auto simp: list_all2_conv_all_nth)
  show "sum_list (map (\<lambda>c. pool_amount c (pool, d)) caps) \<le> pool_amount pools (pool, d)"
    by (rule ordinary_capacities_sum_le [OF assms(1,2)])
  show "amounts_get (recovery_get system kind) d + sum_list (map (\<lambda>c. amounts_get (recovery_get c kind) d) floors)
      = amounts_get (recovery_get recovery kind) d" if "permits_system_scope kind" "permits_tenant_scope kind"
    using system_recovery_capacities_Inr(1) [OF assms(4), of kind d] that by (simp add: both_scopes_def)
  show "0 < amounts_get (recovery_get system kind) d" if "permits_system_scope kind"
    by (rule system_recovery_capacities_Inr(2) [OF assms(4) that])
  show "\<forall>c \<in> set floors. 0 < amounts_get (recovery_get c kind) d" if "permits_tenant_scope kind"
    using recovery_fair_capacities_Inr(3) [OF assms(3) _ that] by blast
qed

lemma sample_shares:
  "total_weight [sample_quota 1, sample_quota 2] = Inr 2"
  "ordinary_capacities [sample_quota 1, sample_quota 2] (uniform_pools 9 5 5 3 3) 2 []
     = Inr [uniform_pools 4 2 2 1 1, uniform_pools 4 2 2 1 1]"
  "recovery_fair_capacities [sample_quota 1, sample_quota 2] sample_recovery 2 []
     = Inr [uniform_recovery 4 5 0, uniform_recovery 4 5 0]"
  "system_recovery_capacities sample_recovery [uniform_recovery 4 5 0, uniform_recovery 4 5 0]
     = Inr (uniform_recovery 2 10 10)"
  by code_simp+

theorem fair_shares_partition_witness:
  "sum_list (map (\<lambda>c. pool_amount c (Shared, MemoryBytes)) [uniform_pools 4 2 2 1 1, uniform_pools 4 2 2 1 1])
     \<le> pool_amount (uniform_pools 9 5 5 3 3) (Shared, MemoryBytes)"
  using fair_shares_partition [OF sample_shares, of Shared MemoryBytes Repair] by blast

section \<open>Disk pressure\<close>

text \<open>C27: Disk pressure is a hysteresis. With the thresholds a constructor accepts, more usable bytes
  never raise the pressure, observing the same bytes again changes nothing, and between an
  enter and an exit threshold the pressure stays what it was.\<close>

theorem disk_pressure_hysteresis:
  assumes "disk_thresholds_new a b c e = Inr t"
  shows "(bytes \<le> bytes' \<longrightarrow> disk_transition t p bytes' \<le> disk_transition t p bytes) \<and>
    disk_transition t (disk_transition t p bytes) bytes = disk_transition t p bytes \<and>
    (hard_enter t < bytes \<longrightarrow> bytes < hard_exit t \<longrightarrow> p \<noteq> Healthy \<longrightarrow> disk_transition t p bytes = p) \<and>
    (soft_enter t < bytes \<longrightarrow> bytes < soft_exit t \<longrightarrow> p \<noteq> HardPressure \<longrightarrow> disk_transition t p bytes = p)"
proof -
  have t: "thresholds_wf t" using assms unfolding disk_thresholds_new_iff by blast
  have "disk_transition t p bytes = p" if "soft_enter t < bytes" "bytes < soft_exit t" "p \<noteq> HardPressure"
    using disk_transition_soft_band [OF t that(1,2), of p] that(3) by (cases p) simp_all
  then show ?thesis
    using disk_transition_antimono [OF t] disk_transition_idem [OF t] disk_transition_dead_band [OF t] by auto
qed

theorem disk_pressure_hysteresis_witness:
  "disk_thresholds_new 200 300 400 500 = Inr sample_thresholds \<and>
   disk_transition sample_thresholds SoftPressure 450 = SoftPressure \<and>
   disk_transition sample_thresholds HardPressure 250 = HardPressure"
proof -
  have t: "disk_thresholds_new 200 300 400 500 = Inr sample_thresholds" by code_simp
  show ?thesis
    using disk_pressure_hysteresis [OF t, of 450 450 SoftPressure] disk_pressure_hysteresis [OF t, of 250 250 HardPressure] t
    by (simp add: sample_thresholds_def)
qed

section \<open>The ledger\<close>

text \<open>C28: Draining a word of pending releases visits every set bit once, in ascending order, and
  terminates: the loop that clears the lowest set bit until the word is zero is the filter of
  the sixty-four positions.\<close>

theorem drain_bits_visits_set_bits: "drain_bits w = filter (bit w) [0..<64]"
  by (rule drain_bits_eq_filter)

text \<open>C29: A grant record remembers its owner. The compact record the ledger stores for a charge that
  matches its identity and amounts always exists, and the owner read back from it is the
  owner it was made from, with the class and the amounts of the grant.\<close>

theorem grant_record_roundtrip:
  assumes "owner_matches owner identity amounts"
  shows "\<exists>r. grant_record_new owner identity amounts operation = Some r \<and> record_owner r = Some owner \<and>
    record_class r = identity_class identity \<and> gr_amounts r = amounts \<and> gr_operation r = operation"
  using grant_record_new_total [OF assms, of operation] record_owner_of_new [OF _ assms] grant_record_new_fields by metis

theorem grant_record_roundtrip_witness:
  "\<exists>r. grant_record_new
      \<lparr> owner_attribution = Charge_Recovery (Some 3), owner_pools = None,
        owner_recovery_pools = Some \<lparr> rc_kind = Purge, rc_shared = amounts_uniform 8, rc_protected = amounts_uniform 4 \<rparr> \<rparr>
      (Recovery (Tenant (TenantId 5)) Purge) (amounts_uniform 12) None = Some r \<and>
    record_owner r = Some
      \<lparr> owner_attribution = Charge_Recovery (Some 3), owner_pools = None,
        owner_recovery_pools = Some \<lparr> rc_kind = Purge, rc_shared = amounts_uniform 8, rc_protected = amounts_uniform 4 \<rparr> \<rparr>"
proof -
  have "owner_matches
      \<lparr> owner_attribution = Charge_Recovery (Some 3), owner_pools = None,
        owner_recovery_pools = Some \<lparr> rc_kind = Purge, rc_shared = amounts_uniform 8, rc_protected = amounts_uniform 4 \<rparr> \<rparr>
      (Recovery (Tenant (TenantId 5)) Purge) (amounts_uniform 12)"
    by (simp add: u16_max_def)
  from grant_record_roundtrip [OF this, of None] show ?thesis by blast
qed

section \<open>Leases\<close>

lemma position_Some: "position P xs = Some i \<Longrightarrow> i < length xs \<and> P (xs ! i) \<and> (\<forall>j < i. \<not> P (xs ! j))"
  by (induction xs arbitrary: i) (auto simp: less_Suc_eq_0_disj nth_Cons' split: if_splits)

lemma position_None: "position P xs = None \<longleftrightarrow> (\<forall>x \<in> set xs. \<not> P x)"
  by (induction xs) auto

lemma position_unique:
  assumes "i < length xs" and "P (xs ! i)" and "\<And>j. j < length xs \<Longrightarrow> P (xs ! j) \<Longrightarrow> j = i"
  shows "position P xs = Some i"
proof (cases "position P xs")
  case None
  then show ?thesis using assms(1,2) by (simp add: position_None)
next
  case (Some j)
  then show ?thesis using position_Some [OF Some] assms(3) by blast
qed

definition scopes_exclusive :: "string option list \<Rightarrow> bool" where
  "scopes_exclusive scopes \<longleftrightarrow>
     (\<forall>i j key. i < length scopes \<longrightarrow> j < length scopes \<longrightarrow> scopes ! i = Some key \<longrightarrow> scopes ! j = Some key \<longrightarrow> i = j)"

text \<open>C26: Active segment leases are exclusive. Acquiring the ledger of a scope succeeds exactly when the
  scope is not held and a slot is free, names the reason otherwise and then changes nothing;
  no scope is ever held twice, and dropping the lease restores the table.\<close>

theorem segment_lease_exclusive:
  assumes "scopes_exclusive (sa_active_segment_scopes a)" and "acquire_active_segment_ledger False key a = (res, a')"
  shows "scopes_exclusive (sa_active_segment_scopes a') \<and>
    (case res of
       Inr k \<Rightarrow> k = key \<and> Some key \<notin> set (sa_active_segment_scopes a) \<and> Some key \<in> set (sa_active_segment_scopes a') \<and>
         drop_active_segment_ledger False key a' = a
     | Inl e \<Rightarrow> a' = a \<and>
         (if Some key \<in> set (sa_active_segment_scopes a) then e = Lease_Duplicate
          else None \<notin> set (sa_active_segment_scopes a) \<and> e = Lease_Capacity))"
proof -
  let ?scopes = "sa_active_segment_scopes a"
  consider (dup) "Some key \<in> set ?scopes" | (full) "Some key \<notin> set ?scopes" "position (\<lambda>slot. slot = None) ?scopes = None"
    | (free) i where "Some key \<notin> set ?scopes" "position (\<lambda>slot. slot = None) ?scopes = Some i"
    by (cases "position (\<lambda>slot. slot = None) ?scopes") auto
  then show ?thesis
  proof cases
    case (free i)
    have i: "i < length ?scopes" "?scopes ! i = None" using position_Some [OF free(2)] by auto
    have out: "res = Inr key" "a' = a\<lparr> sa_active_segment_scopes := ?scopes[i := Some key] \<rparr>"
      using assms(2) free by (simp_all add: acquire_active_segment_ledger_def)
    have pos: "position (\<lambda>slot. slot = Some key) (?scopes[i := Some key]) = Some i"
      by (rule position_unique) (use i free(1) in \<open>auto simp: nth_list_update in_set_conv_nth split: if_splits\<close>)
    have "drop_active_segment_ledger False key a' = a"
      unfolding drop_active_segment_ledger_def out using pos i by (simp add: list_update_same_conv)
    moreover have "scopes_exclusive (?scopes[i := Some key])"
      unfolding scopes_exclusive_def
    proof (intro allI impI)
      fix j k key'
      assume j: "j < length (?scopes[i := Some key])" and k: "k < length (?scopes[i := Some key])"
        and eq: "?scopes[i := Some key] ! j = Some key'" "?scopes[i := Some key] ! k = Some key'"
      have "?scopes ! l \<noteq> Some key" if "l < length ?scopes" for l using free(1) that by (metis nth_mem)
      then show "j = k"
        using j k eq assms(1) unfolding scopes_exclusive_def
        by (cases "j = i"; cases "k = i") (auto simp: nth_list_update)
    qed
    ultimately show ?thesis using out free(1) i(1) by (simp add: set_update_memI)
  next
    case full
    then have "None \<notin> set ?scopes" by (auto simp: position_None)
    with full show ?thesis using assms by (auto simp: acquire_active_segment_ledger_def)
  next
    case dup
    then show ?thesis using assms by (auto simp: acquire_active_segment_ledger_def)
  qed
qed

definition sample_authority :: storage_kernel_authority where
  "sample_authority =
     \<lparr> sa_config = sample_cfg, sa_governor = sample_governor, sa_catalog_writer_held = False,
       sa_active_segment_scopes = [Some ''a'', None] \<rparr>"

theorem segment_lease_exclusive_witness:
  "\<exists>a'. acquire_active_segment_ledger False ''b'' sample_authority = (Inr ''b'', a') \<and>
     drop_active_segment_ledger False ''b'' a' = sample_authority"
proof -
  have x: "scopes_exclusive (sa_active_segment_scopes sample_authority)"
    by (auto simp: scopes_exclusive_def sample_authority_def less_Suc_eq)
  have r: "acquire_active_segment_ledger False ''b'' sample_authority
      = (Inr ''b'', sample_authority\<lparr> sa_active_segment_scopes := [Some ''a'', Some ''b''] \<rparr>)"
    by (simp add: acquire_active_segment_ledger_def sample_authority_def)
  from segment_lease_exclusive [OF x r] r show ?thesis by auto
qed

end
