(* ===== verification/Edges.thy ===== *)
theory Edges
  imports Governor
begin

text \<open>
  Behaviours at the edges of the governor: where a healthy governor refuses all work, fences itself,
  or keeps a derived value that no longer matches its inputs. Each is a general theorem, applied to a
  concrete configuration that passes every check of the constructors.
\<close>

section \<open>Rows that are not registered yet\<close>

text \<open>A configuration with four tenant rows of which one is registered, and seven slots.\<close>

definition lone_effective :: resource_amounts where
  "lone_effective = with_amount (with_amount (amounts_uniform 2000) MemoryBytes 3087) FileDescriptors 2002"

definition lone_inventory :: resource_inventory where
  "lone_inventory = sample_inventory\<lparr> inv_effective := lone_effective,
     inv_cardinality := \<lparr> max_tenant_quotas = 4, max_outstanding_reservations = 7 \<rparr> \<rparr>"

definition lone_policy :: governor_policy where
  "lone_policy = sample_policy\<lparr> policy_tenant_quotas := [sample_quota 1] \<rparr>"

definition lone_layout :: bootstrap_inventory_layout where
  "lone_layout = sample_layout\<lparr> layout_tenant_count := 4, layout_memory_bytes := 1087 \<rparr>"

definition lone_input :: governor_setup_input where
  "lone_input = sample_input\<lparr> in_raw_effective := lone_effective, in_bootstrap_overhead := layout_overhead lone_layout,
     in_tenant_quotas := [sample_quota 1], in_layout := lone_layout \<rparr>"

definition lone_state :: accounting_state where
  "lone_state = sample_state\<lparr> tenant_quotas := [sample_quota 1], tenant_fair_capacities := [uniform_pools 1840 20 20 10 10],
     recovery_tenant_shared_fair := [amounts_uniform 1930], recovery_tenant_pool_fair := [uniform_recovery 9 10 0],
     recovery_system_pool_capacities := uniform_recovery 1 10 10,
     tenant_limits := [amounts_uniform 1000, amounts_zero, amounts_zero, amounts_zero],
     ordinary_tenant_usage := replicate 4 amounts_zero, recovery_tenant_usage := replicate 4 amounts_zero,
     recovery_tenant_pool_usage := replicate 4 recovery_usage_zero, ordinary_tenant_pool_usage := replicate 4 pools_zero,
     tenant_outstanding := [0, 0, 0, 0] \<rparr>"

definition lone_configuration :: governor_configuration where
  "lone_configuration = sample_configuration\<lparr> gc_raw_effective := lone_effective,
     gc_bootstrap_overhead := layout_overhead lone_layout, gc_state := lone_state \<rparr>"

definition lone_cfg :: governor_config where
  "lone_cfg = fst (governor_new 0 lone_configuration)"

definition lone_governor :: governor where
  "lone_governor = snd (governor_new 0 lone_configuration)"

definition lone_system :: client_system where
  "lone_system = \<lparr> sys_governor = lone_governor, sys_handles = [] \<rparr>"

lemma lone_parts:
  "layout_new sample_sizes 4 7 = Inr lone_layout"
  "amounts_checked_sub lone_effective (layout_overhead lone_layout) = Some (amounts_uniform 2000)"
  by code_simp+

lemma lone_configure: "configure sample_sizes sample_grants lone_input = Inr lone_configuration"
  by code_simp

lemma lone_new:
  "configuration_new_with_failure sample_sizes sample_grants lone_inventory lone_policy sample_recovery None
     = Inr \<lparr> rgc_inner = lone_configuration, rgc_active_segment_scopes = replicate MAX_TENANT_QUOTAS None,
             rgc_volume_binding = None \<rparr>"
  using lone_configure sample_parts(4)
  by (simp add: configuration_new_with_failure_def Let_def sample_parts lone_parts sample_scopes sample_input_def
      lone_input_def lone_inventory_def lone_policy_def
      sample_inventory_def sample_policy_def sample_quota_def list_ex_iff)

lemma lone_established: "established lone_cfg 4 lone_system"
proof -
  have "cardinality_limits_new 4 7 = Inr (inv_cardinality lone_inventory)"
    by (simp add: cardinality_limits_new_def lone_inventory_def MAX_TENANT_QUOTAS_def MAX_OUTSTANDING_RESERVATIONS_def u16_max_def)
  moreover have "governor_new 0 lone_configuration = (lone_cfg, lone_governor)" by (simp add: lone_cfg_def lone_governor_def)
  ultimately show ?thesis
    unfolding established_def using lone_new
    by (intro exI conjI) (assumption | simp add: lone_system_def lone_inventory_def)+
qed

lemma lone_reachable: "reachable (established lone_cfg 4) event_ok (sys_step lone_cfg) lone_system"
  using lone_established by (rule reachable.start)

text \<open>A fresh governor has no counts, and settling it changes nothing that admission reads.\<close>

lemma governor_new_fence: "governor_new authority c = (cfg, g) \<Longrightarrow> \<not> pending_fence g"
  by (auto simp: governor_new_def accounting_state.extend_def governor.fields_def)

lemma established_fresh:
  assumes "established cfg n s"
  shows "tenant_outstanding (settle (sys_governor s)) = replicate n 0" "class_counts (settle (sys_governor s)) = replicate 5 0"
    "outstanding (settle (sys_governor s)) = 0" "lifecycle (settle (sys_governor s)) = Open"
proof -
  let ?g = "settle (sys_governor s)"
  have inv: "system_inv n s" and hs: "sys_handles s = []"
    using established_inv(1) [OF assms] assms by (auto simp: established_def)
  then have g: "governor_inv n (sys_governor s)" by (simp add: system_inv_def)
  have "\<not> pending_fence (sys_governor s)"
    using assms unfolding established_def by (blast dest: governor_new_fence)
  then show op: "lifecycle ?g = Open" using settle_lifecycle(1) [OF g] established_inv(2) [OF assms] by simp
  have zero: "account_value acc ?g = 0" for acc
    using settled_books [OF inv, of acc] op hs by simp
  have wf: "tables_wf n ?g" using settle_steady(1) [OF g] ledger_invD(2) by (auto simp: steady_def governor_inv_def)
  show "outstanding ?g = 0" using zero [of A_outstanding] by simp
  have "tenant_outstanding ?g ! i = 0" if "i < n" for i
    using wf zero [of "A_tenant_count i"] that by (simp add: tables_wf_def row_def)
  then show "tenant_outstanding ?g = replicate n 0" using wf by (intro nth_equalityI) (simp_all add: tables_wf_def)
  have "class_counts ?g ! i = 0" if "i < 5" for i
    using wf zero [of "A_class i"] that by (simp add: tables_wf_def row_def)
  then show "class_counts ?g = replicate 5 0" using wf by (intro nth_equalityI) (simp_all add: tables_wf_def)
qed

lemma missing_rows_zero: "i < n \<Longrightarrow> missing_rows (replicate n 0) (Some i) = n - 1"
proof -
  assume i: "i < n"
  have "filter (\<lambda>(j, m). Some j \<noteq> Some i \<and> m = 0) (enumerate 0 (replicate n (0::nat)))
      = map (\<lambda>j. (j, 0)) (filter (\<lambda>j. j \<noteq> i) [0..<n])"
    by (simp add: enumerate_replicate_eq filter_map comp_def)
  moreover have "length (filter (\<lambda>j. j \<noteq> i) [0..<n]) = n - 1"
  proof -
    have "length (filter (\<lambda>j. j \<noteq> i) [0..<n]) = card (set [0..<n] - {i})"
      unfolding distinct_card [OF distinct_filter [OF distinct_upt], symmetric] by (rule arg_cong [of _ _ card]) auto
    then show ?thesis using i by simp
  qed
  ultimately show ?thesis by (simp add: missing_rows_def)
qed

text \<open>C32: A slot is held back for every tenant row of the inventory, registered or not, while the
  configuration is only checked against the registered tenants. A fresh governor whose
  maximum of outstanding reservations is below the number of tenant rows plus four refuses
  every ordinary claim of every registered tenant with the outstanding reservation limit.\<close>

theorem unregistered_rows_block_admission:
  assumes "established cfg n s" and "g_maximum_outstanding cfg < n + 4" and "n \<le> 1024"
    and "tenant_index (settle (sys_governor s)) (claim_tenant claim) (claim_class claim) = Inr i" and "i < n"
  shows "\<exists>e. fst (reserve_ordinary cfg LockOk claim (sys_governor s)) = Inl e \<and> af_code e = Code_OutstandingReservationLimit"
proof -
  let ?g = "settle (sys_governor s)"
  note f = established_fresh [OF assms(1)]
  have classes: "missing_rows (class_counts ?g) (Some (class_index (claim_class claim))) = 4"
    unfolding f(2) by (simp add: missing_rows_zero)
  have tenants: "missing_rows (tenant_outstanding ?g) (Some i) = n - 1"
    unfolding f(1) by (rule missing_rows_zero [OF assms(5)])
  define e where "e = failure_at_pressure Code_OutstandingReservationLimit AfterCapacityRelease
    Scope_OutstandingReservations (claim_class claim) (disk_pressure ?g)
    \<lparr> dl_dimension = None, dl_allowed = g_maximum_outstanding cfg, dl_in_use = outstanding ?g, dl_requested = 1 \<rparr>"
  have bound: "exceeds (checked_add u32_max 1 (4 + (n - 1))) (g_maximum_outstanding cfg)"
    using assms(2,3,5) by (simp add: checked_add_def exceeds_def u32_max_def)
  have e: "require_healthy_and_slot cfg ?g (claim_class claim) (Some i) = Inl e" "af_code e = Code_OutstandingReservationLimit"
    using bound assms(3) unfolding require_healthy_and_slot_def Let_def classes tenants e_def f(3,4)
    by (simp_all add: try_from_def checked_add_def u32_max_def)
  then have "plan_ordinary cfg claim ?g = Refuse e"
    using f(4) assms(4) by (simp add: plan_ordinary_def Let_def question_def)
  then show ?thesis
    using e(2) by (simp add: reserve_ordinary_def with_admission_def lock_for_admission_def reserve_ordinary_locked_def run_plan_def)
qed

lemma lone_tenant: "tenant_index (settle (sys_governor lone_system)) (TenantId 1) Ingest = Inr 0"
  by code_simp

lemma lone_maximum: "g_maximum_outstanding lone_cfg = 7"
  by code_simp

theorem unregistered_rows_block_admission_witness:
  "\<exists>e. fst (reserve_ordinary lone_cfg LockOk sample_claim (sys_governor lone_system)) = Inl e \<and>
     af_code e = Code_OutstandingReservationLimit"
  by (rule unregistered_rows_block_admission [OF lone_established, of _ 0])
    (use lone_tenant lone_maximum in \<open>simp_all add: sample_claim_def claim_class_def\<close>)

section \<open>Shares that follow the topology\<close>

text \<open>Settling leaves the tenant topology alone.\<close>

lemma settle_topology:
  assumes "governor_inv n g"
  shows "tenant_quotas (settle g) = tenant_quotas g" "tenant_fair_capacities (settle g) = tenant_fair_capacities g"
    "pending_tenant (settle g) = pending_tenant g"
  using outside_fields(3,6,8) [OF drain_pending_inv(4) [OF assms]] by (simp_all add: settle_def Let_def)

text \<open>The shares derived for a topology are the floors of the weighted parts.\<close>

lemma derive_tenant_fairness_shares:
  assumes "derive_tenant_fairness cfg reserve quotas = Inr (fair, shared, pools)"
  shows "length fair = length quotas"
    "i < length quotas \<Longrightarrow> pool_amount (fair ! i) (pool, d) =
       pool_amount (g_pool_capacities cfg) (pool, d) * quota_weight (quotas ! i) div sum_list (map quota_weight quotas)"
proof -
  obtain tw where "total_weight quotas = Inr tw" and caps: "ordinary_capacities quotas (g_pool_capacities cfg) tw [] = Inr fair"
    using assms by (auto simp: derive_tenant_fairness_def)
  then have tw: "tw = sum_list (map quota_weight quotas)" by (simp add: total_weight_Inr)
  show "length fair = length quotas" by (rule ordinary_capacities_Inr(1) [OF caps])
  show "pool_amount (fair ! i) (pool, d) =
      pool_amount (g_pool_capacities cfg) (pool, d) * quota_weight (quotas ! i) div sum_list (map quota_weight quotas)"
    if "i < length quotas"
    using ordinary_capacities_Inr(2) [OF caps] that by (auto simp: list_all2_conv_all_nth tw)
qed

lemma tenant_quota_new_Inr:
  "tenant_quota_new tenant weight limits = Inr quota \<Longrightarrow> quota_tenant quota = tenant \<and> quota_weight quota = weight"
  by (auto simp: tenant_quota_new_def split: if_splits)

lemma prepare_tenant_quota_Inr:
  assumes "prepare_tenant_quota cfg reserve lock tenant weight limits g = (Inr (), g1)"
  obtains quota shared pools where "quota_tenant quota = tenant" "quota_weight quota = weight"
    "tenant_quotas g1 = tenant_quotas (settle g) @ [quota]" "pending_tenant g1 = Some tenant" "weight \<noteq> 0"
    "derive_tenant_fairness cfg reserve (tenant_quotas g1) = Inr (tenant_fair_capacities g1, shared, pools)"
    "ledger_view g1 = ledger_view (settle g)"
proof -
  note run = assms [unfolded prepare_tenant_quota_def enroll_tenant_quota_def]
  have valid: "validate_tenant_quota cfg weight limits = Inr ()"
    using run by (cases "validate_tenant_quota cfg weight limits") auto
  then have weight: "weight \<noteq> 0" by (simp add: validate_tenant_quota_def split: if_splits)
  have lock: "lock = LockOk" using run by (cases lock) (simp_all add: valid with_control_def try_lock_for_control_def)
  note body = run [unfolded valid lock with_control_def try_lock_for_control_def, simplified, unfolded Let_def]
  obtain new where new: "and_then (tenant_quota_new tenant weight limits) (\<lambda>quota.
      and_then (try_reserve cfg reserve 0) (\<lambda>_.
      and_then (derive_tenant_fairness cfg reserve (tenant_quotas (settle g) @ [quota])) (\<lambda>(tenant_fair, recovery_shared, recovery_fair).
      and_then (system_recovery_capacities (g_recovery_pool_capacities cfg) recovery_fair) (\<lambda>recovery_system.
      and_then (validate_progress (tenant_quotas (settle g) @ [quota]) tenant_fair (g_maximum_outstanding cfg)) (\<lambda>_.
      and_then (ok_or (slice_set (tenant_limits (settle g)) (length (tenant_quotas (settle g))) limits) InternalFenced) (\<lambda>limits_table.
      Inr \<lparr> succ_tenant_quotas = tenant_quotas (settle g) @ [quota], succ_tenant_fair_capacities = tenant_fair,
            succ_recovery_tenant_shared_fair = recovery_shared, succ_recovery_tenant_pool_fair = recovery_fair,
            succ_recovery_system_pool_capacities = recovery_system, succ_tenant_limits = limits_table \<rparr>)))))) = Inr new"
    and g1: "g1 = (settle g)\<lparr> tenant_limits := succ_tenant_limits new, tenant_quotas := succ_tenant_quotas new,
      tenant_fair_capacities := succ_tenant_fair_capacities new,
      recovery_tenant_shared_fair := succ_recovery_tenant_shared_fair new,
      recovery_tenant_pool_fair := succ_recovery_tenant_pool_fair new,
      recovery_system_pool_capacities := succ_recovery_system_pool_capacities new, pending_tenant := Some tenant \<rparr>"
    using body by (simp split: if_splits sum.splits)
  show ?thesis
    using new weight that unfolding g1
    by (auto dest: tenant_quota_new_Inr)
qed

lemma floor_share_falls:
  fixes x w more :: nat
  assumes "w * (w + more) \<le> x * more" and "0 < w"
  shows "x div (w + more) < x div w"
proof -
  let ?q = "x div (w + more)"
  have "(?q + 1) * w * (w + more) = ?q * (w + more) * w + w * (w + more)" by (simp add: algebra_simps)
  also have "\<dots> \<le> x * w + x * more" using assms(1) by (intro add_mono mult_right_mono) (simp_all add: div_times_less_eq_dividend)
  also have "\<dots> = x * (w + more)" by (simp add: algebra_simps)
  finally have "(?q + 1) * w \<le> x" using assms(2) by simp
  then have "?q + 1 \<le> x div w" using assms(2) by (simp add: less_eq_div_iff_mult_less_eq)
  then show ?thesis by simp
qed

lemma rollback_pops:
  assumes "governor_inv n g" and "pending_tenant g = Some tenant" and "tenant_quotas g = quotas @ [quota]"
    and "quota_tenant quota = tenant"
  shows "tenant_quotas (rollback_tenant_quota LockOk tenant g) = quotas"
    "pending_tenant (rollback_tenant_quota LockOk tenant g) = None"
    "tenant_fair_capacities (rollback_tenant_quota LockOk tenant g) = butlast (tenant_fair_capacities g)"
  using assms(2-4)
  by (auto simp: rollback_tenant_quota_def try_lock_for_control_def Let_def settle_topology [OF assms(1)] split: option.splits)

text \<open>C34: Rolling a prepared enrollment back does not restore the fair shares. From any reachable state, after a tenant
  is prepared and rolled back the quotas are the ones before and nothing is pending, but every remaining tenant keeps
  the share derived with the weight of the tenant that is gone: the floor of its part of the pool by the total of the
  weights plus the withdrawn weight. The shares derived for the quotas alone divide by the total of the weights; they
  are larger as soon as the withdrawn weight counts for at least one unit of the pool.\<close>

theorem rollback_keeps_reduced_shares:
  assumes "reachable (established cfg n) event_ok (sys_step cfg) s"
    and "prepare_tenant_quota cfg reserve lock tenant weight limits (sys_governor s) = (Inr (), g1)"
    and "rollback_tenant_quota LockOk tenant g1 = g2"
    and "quotas = tenant_quotas (sys_governor s)" and "weights = sum_list (map quota_weight quotas)" and "i < length quotas"
    and "derive_tenant_fairness cfg reserve' quotas = Inr (fair, shared, pools)"
    and "part = pool_amount (g_pool_capacities cfg) (pool, d) * quota_weight (quotas ! i)"
  shows "tenant_quotas g2 = quotas \<and> pending_tenant g2 = None \<and>
    pool_amount (tenant_fair_capacities g2 ! i) (pool, d) = part div (weights + weight) \<and>
    pool_amount (fair ! i) (pool, d) = part div weights \<and>
    (weights * (weights + weight) \<le> part * weight \<longrightarrow>
       pool_amount (tenant_fair_capacities g2 ! i) (pool, d) < pool_amount (fair ! i) (pool, d))"
proof -
  have inv: "governor_inv n (sys_governor s)"
    using governor_machine.reachable_inv [OF assms(1)] by (simp add: system_inv_def)
  obtain quota shared' pools' where q: "quota_tenant quota = tenant" "quota_weight quota = weight"
    and g1: "tenant_quotas g1 = quotas @ [quota]" "pending_tenant g1 = Some tenant"
    and derived: "derive_tenant_fairness cfg reserve (quotas @ [quota]) = Inr (tenant_fair_capacities g1, shared', pools')"
    and view: "ledger_view g1 = ledger_view (settle (sys_governor s))"
    using prepare_tenant_quota_Inr [OF assms(2)] settle_topology(1) [OF inv] assms(4) by metis
  have inv1: "governor_inv n g1" using ledger_view_inv [OF view] settle_steady(1) [OF inv] by (simp add: steady_def)
  note g2 = rollback_pops [OF inv1 g1(2,1) q(1), unfolded assms(3)]
  note shares = derive_tenant_fairness_shares [OF derived]
  have kept: "pool_amount (tenant_fair_capacities g2 ! i) (pool, d) = part div (weights + weight)"
    using shares(1) shares(2) [of i pool d] assms(5,6,8) q(2) by (simp add: g2(3) nth_butlast nth_append)
  have alone: "pool_amount (fair ! i) (pool, d) = part div weights"
    using derive_tenant_fairness_shares(2) [OF assms(7,6)] assms(5,8) by simp
  have "quota_weight (quotas ! i) \<le> weights" unfolding assms(5) by (rule weight_le_sum) (simp add: assms(6))
  moreover have "part = 0" if "quota_weight (quotas ! i) = 0" using that assms(8) by simp
  ultimately have "part div (weights + weight) < part div weights" if "weights * (weights + weight) \<le> part * weight" "0 < weights"
    using floor_share_falls that by simp
  moreover have "0 < weights" using assms(5,7) total_weight_Inr(1,2) by (auto simp: derive_tenant_fairness_def)
  ultimately show ?thesis using g2(1,2) kept alone by auto
qed

definition prepared_governor :: governor where
  "prepared_governor = snd (prepare_tenant_quota lone_cfg (\<lambda>_. True) LockOk (TenantId 2) 1 (amounts_uniform 1000) lone_governor)"

lemma sample_quota_weight: "quota_weight (sample_quota k) = 1"
  by (simp add: sample_quota_def)

lemma lone_prepare:
  "fst (prepare_tenant_quota lone_cfg (\<lambda>_. True) LockOk (TenantId 2) 1 (amounts_uniform 1000) lone_governor) = Inr ()"
  "tenant_quotas lone_governor = [sample_quota 1]"
  "map_sum id fst (derive_tenant_fairness lone_cfg (\<lambda>_. True) [sample_quota 1]) = Inr [uniform_pools 1840 20 20 10 10]"
  "pool_amount (g_pool_capacities lone_cfg) (Shared, MemoryBytes) = 1840"
  by code_simp+

theorem rollback_keeps_reduced_shares_witness:
  "tenant_quotas (rollback_tenant_quota LockOk (TenantId 2) prepared_governor) = tenant_quotas lone_governor \<and>
   pool_amount (tenant_fair_capacities (rollback_tenant_quota LockOk (TenantId 2) prepared_governor) ! 0) (Shared, MemoryBytes) = 920 \<and>
   pool_amount (tenant_fair_capacities lone_governor ! 0) (Shared, MemoryBytes) = 1840"
proof -
  have run: "prepare_tenant_quota lone_cfg (\<lambda>_. True) LockOk (TenantId 2) 1 (amounts_uniform 1000) (sys_governor lone_system) =
      (Inr (), prepared_governor)"
    using lone_prepare(1) by (simp add: prod_eq_iff prepared_governor_def lone_system_def)
  obtain shared pools where derived: "derive_tenant_fairness lone_cfg (\<lambda>_. True) [sample_quota 1] =
      Inr ([uniform_pools 1840 20 20 10 10], shared, pools)"
    using lone_prepare(3) by (cases "derive_tenant_fairness lone_cfg (\<lambda>_. True) [sample_quota 1]") auto
  have quotas: "[sample_quota 1] = tenant_quotas (sys_governor lone_system)" by (simp add: lone_prepare(2) lone_system_def)
  have "pool_amount (tenant_fair_capacities lone_governor ! 0) (Shared, MemoryBytes) = 1840" by code_simp
  then show ?thesis
    using rollback_keeps_reduced_shares [OF lone_reachable run refl quotas refl _ derived refl,
        of 0 Shared MemoryBytes]
    by (simp add: lone_prepare sample_quota_weight flip: numeral_2_eq_2)
qed

section \<open>Usage above a new share\<close>

text \<open>Everything admission checks before the pools is independent of the ordinary shares.\<close>

lemma shares_unread:
  "tenant_index (g\<lparr> tenant_fair_capacities := shares \<rparr>) t cls = tenant_index g t cls"
  "require_healthy_and_slot cfg (g\<lparr> tenant_fair_capacities := shares \<rparr>) cls exempt = require_healthy_and_slot cfg g cls exempt"
  "validate_operation_child cfg (g\<lparr> tenant_fair_capacities := shares \<rparr>) i token cls = validate_operation_child cfg g i token cls"
  "refuse_principal_limit cfg (g\<lparr> tenant_fair_capacities := shares \<rparr>) i prin token cls requested =
     refuse_principal_limit cfg g i prin token cls requested"
proof -
  let ?g = "g\<lparr> tenant_fair_capacities := shares \<rparr>"
  show "tenant_index ?g t cls = tenant_index g t cls" by (simp add: tenant_index_def)
  have fields: "lifecycle ?g = lifecycle g" "outstanding ?g = outstanding g" "class_counts ?g = class_counts g"
    "tenant_outstanding ?g = tenant_outstanding g" "disk_pressure ?g = disk_pressure g" by simp_all
  show "require_healthy_and_slot cfg ?g cls exempt = require_healthy_and_slot cfg g cls exempt"
    unfolding require_healthy_and_slot_def fields ..
  show "validate_operation_child cfg ?g i token cls = validate_operation_child cfg g i token cls"
    by (cases token) (simp_all add: validate_operation_child_def token_valid_def invalid_operation_failure_def)
  have usages: "principal_usage ?g = principal_usage g" "operation_usage ?g = operation_usage g"
    by (simp_all add: fun_eq_iff principal_usage_def principal_usage_excluding_def operation_usage_def)
  show "refuse_principal_limit cfg ?g i prin token cls requested = refuse_principal_limit cfg g i prin token cls requested"
    unfolding refuse_principal_limit_def usages fields ..
qed

text \<open>A split whose members fail only with one error, and one of which does, fails with it.\<close>

lemma for_fold_one_error:
  assumes "\<forall>x \<in> set xs. f x = Inl e \<or> (\<exists>y. f x = Inr y)" and "\<exists>x \<in> set xs. f x = Inl e"
  shows "for_fold (\<lambda>acc x. and_then (f x) (\<lambda>y. Inr (k acc x y))) b xs = Inl e"
  using assms
proof (induction xs arbitrary: b)
  case (Cons x xs)
  then show ?case by (cases "f x") auto
qed simp

lemma for_fold_append_Inl: "for_fold f b xs = Inl e \<Longrightarrow> for_fold f b (xs @ ys) = Inl e"
  by (induction xs arbitrary: b) (auto simp: and_then_def split: sum.splits)

lemma build_split_error:
  assumes "f d = Inl e" and "\<forall>d' \<in> set (takeWhile (\<lambda>x. x \<noteq> d) resource_dimension_all). f d' = Inl e \<or> (\<exists>y. f d' = Inr y)"
  shows "build_split f = Inl e"
proof -
  obtain before after where split_at: "resource_dimension_all = before @ d # after" and "d \<notin> set before"
    using split_list_first [OF in_resource_dimension_all [of d]] by blast
  have "takeWhile (\<lambda>x. x \<noteq> d) (before @ d # after) = before" using \<open>d \<notin> set before\<close> by (induction before) auto
  then have "takeWhile (\<lambda>x. x \<noteq> d) resource_dimension_all = before" by (simp only: split_at)
  then have only: "\<forall>x \<in> set (before @ [d]). f x = Inl e \<or> (\<exists>y. f x = Inr y)" using assms by simp
  have "for_fold (\<lambda>acc d. and_then (f d) (\<lambda>xy. Inr (with_amount (fst acc) d (fst xy), with_amount (snd acc) d (snd xy))))
      (amounts_zero, amounts_zero) (before @ [d]) = Inl e"
    by (rule for_fold_one_error [OF only]) (use assms(1) in auto)
  then have "for_fold (\<lambda>acc d. and_then (f d) (\<lambda>xy. Inr (with_amount (fst acc) d (fst xy), with_amount (snd acc) d (snd xy))))
      (amounts_zero, amounts_zero) ((before @ [d]) @ after) = Inl e" by (rule for_fold_append_Inl)
  then show ?thesis unfolding build_split_def split_at by simp
qed

text \<open>
  A usage above the tenant's share of the shared pool is an internal failure of the pool plan,
  unless the plan was refused in an earlier dimension; a dimension nothing is asked of never refuses.
\<close>

lemma plan_pool_charge_above:
  assumes "plan_pool_charge cls requested (admission\<lparr> pa_tenant_capacity := other \<rparr>) pressure el = Inr charge"
    and "pool_amount (pa_tenant_capacity admission) (Shared, d) < pool_amount (pa_tenant_usage admission) (Shared, d)"
    and "\<forall>d' \<in> set (takeWhile (\<lambda>x. x \<noteq> d) resource_dimension_all). amounts_get requested d' = 0"
  shows "plan_pool_charge cls requested admission pressure el = Inl (internal_failure_at_pressure cls pressure)"
proof -
  have cls: "pool_for_class cls = Some (charge_class_pool charge)" using assms(1) by (simp add: plan_pool_charge_Inr_iff)
  let ?f = "plan_pool_dimension cls (charge_class_pool charge) requested admission pressure el"
  have "?f d = Inl (internal_failure_at_pressure cls pressure)"
    using assms(2) by (simp add: plan_pool_dimension_eq Let_def pool_usage_within_def)
  moreover have "?f d' = Inl (internal_failure_at_pressure cls pressure) \<or> (\<exists>y. ?f d' = Inr y)"
    if "amounts_get requested d' = 0" for d' using that by (simp add: plan_pool_dimension_eq Let_def)
  ultimately have "build_split ?f = Inl (internal_failure_at_pressure cls pressure)"
    using assms(3) by (intro build_split_error [of _ d]) auto
  then show ?thesis by (simp add: plan_pool_charge_def cls)
qed

lemma plan_ordinary_pools:
  assumes "plan_ordinary cfg claim (g\<lparr> tenant_fair_capacities := shares \<rparr>) = Proceed p"
  obtains eligible fair pools where
    "tenant_index g (claim_tenant claim) (claim_class claim) = Inr (op_tenant_index p)"
    "plan_pool_charge (claim_class claim) (claim_amounts claim)
       \<lparr> pa_global_capacity = g_pool_capacities cfg, pa_global_usage = pool_usage g,
         pa_tenant_capacity = fair, pa_tenant_usage = ordinary_tenant_pool_usage g ! op_tenant_index p \<rparr>
       (disk_pressure g) eligible = Inr pools"
    "\<And>fair' e. slice_get (tenant_fair_capacities g) (op_tenant_index p) = Some fair' \<Longrightarrow>
       plan_pool_charge (claim_class claim) (claim_amounts claim)
         \<lparr> pa_global_capacity = g_pool_capacities cfg, pa_global_usage = pool_usage g,
           pa_tenant_capacity = fair', pa_tenant_usage = ordinary_tenant_pool_usage g ! op_tenant_index p \<rparr>
         (disk_pressure g) eligible = Inl e \<Longrightarrow>
       is_internal e \<Longrightarrow> plan_ordinary cfg claim g = Fence e"
proof -
  let ?g = "g\<lparr> tenant_fair_capacities := shares \<rparr>"
  have fields: "lifecycle ?g = lifecycle g" "disk_pressure ?g = disk_pressure g" "total_usage ?g = total_usage g"
    "usable_disk_bytes ?g = usable_disk_bytes g" "recovery_usage ?g = recovery_usage g"
    "recovery_pool_usage ?g = recovery_pool_usage g" "ordinary_tenant_usage ?g = ordinary_tenant_usage g"
    "tenant_limits ?g = tenant_limits g" "recovery_tenant_pool_usage ?g = recovery_tenant_pool_usage g"
    "recovery_tenant_shared_fair ?g = recovery_tenant_shared_fair g"
    "ordinary_tenant_pool_usage ?g = ordinary_tenant_pool_usage g" "pool_usage ?g = pool_usage g"
    "tenant_fair_capacities ?g = shares" by simp_all
  show ?thesis
    using assms [unfolded plan_ordinary_def Let_def shares_unread fields]
    apply (elim plan_elims)
    apply (simp only: question_iffs some_or_fence_iffs question_fencing_iffs map_err_Inr_iff plan.inject slice_get_Some_iff)
    apply (elim conjE)
    apply hypsubst
    apply (rule that)
      apply (simp only: ordinary_plan.select_convs)
     apply (simp only: ordinary_plan.select_convs)
    apply (clarsimp simp: plan_ordinary_def Let_def question_def some_or_fence_def question_fencing_def slice_get_def
        split: if_splits)
    done
qed

lemma internal_is_internal: "is_internal (internal_failure_at_pressure cls pressure)"
  by (cases cls; cases pressure; code_simp)

lemma plan_ordinary_above:
  assumes "plan_ordinary cfg claim (g\<lparr> tenant_fair_capacities := shares \<rparr>) = Proceed p"
    and "op_tenant_index p < length (tenant_fair_capacities g)"
    and "pool_amount (tenant_fair_capacities g ! op_tenant_index p) (Shared, d)
      < pool_amount (ordinary_tenant_pool_usage g ! op_tenant_index p) (Shared, d)"
    and "\<forall>d' \<in> set (takeWhile (\<lambda>x. x \<noteq> d) resource_dimension_all). amounts_get (claim_amounts claim) d' = 0"
  shows "plan_ordinary cfg claim g = Fence (internal_failure_at_pressure (claim_class claim) (disk_pressure g))"
proof (rule plan_ordinary_pools [OF assms(1)])
  fix eligible fair pools
  let ?admission = "\<lambda>capacity. \<lparr> pa_global_capacity = g_pool_capacities cfg, pa_global_usage = pool_usage g,
    pa_tenant_capacity = capacity, pa_tenant_usage = ordinary_tenant_pool_usage g ! op_tenant_index p \<rparr>"
  let ?internal = "internal_failure_at_pressure (claim_class claim) (disk_pressure g)"
  assume pool: "plan_pool_charge (claim_class claim) (claim_amounts claim) (?admission fair) (disk_pressure g) eligible = Inr pools"
    and fences: "\<And>fair' e. slice_get (tenant_fair_capacities g) (op_tenant_index p) = Some fair' \<Longrightarrow>
      plan_pool_charge (claim_class claim) (claim_amounts claim) (?admission fair') (disk_pressure g) eligible = Inl e \<Longrightarrow>
      is_internal e \<Longrightarrow> plan_ordinary cfg claim g = Fence e"
  have "plan_pool_charge (claim_class claim) (claim_amounts claim)
      (?admission (tenant_fair_capacities g ! op_tenant_index p)) (disk_pressure g) eligible = Inl ?internal"
    by (rule plan_pool_charge_above [where other = fair and d = d]) (use pool assms(3,4) in simp_all)
  then show ?thesis using assms(2) internal_is_internal by (intro fences) simp_all
qed

lemma position_less: "position P xs = Some i \<Longrightarrow> i < length xs"
  by (induction xs arbitrary: i) (auto split: if_splits)

lemma update_tenant_quota_shares:
  assumes "update_tenant_quota cfg reserve lock poisoned tenant weight limits g = (Inr (), g1)"
  obtains shared pools where
    "derive_tenant_fairness cfg reserve (tenant_quotas g1) = Inr (tenant_fair_capacities g1, shared, pools)"
proof -
  note run = assms [unfolded update_tenant_quota_def stage_tenant_quota_update_def]
  have valid: "validate_tenant_quota cfg weight limits = Inr ()"
    using run by (cases "validate_tenant_quota cfg weight limits") auto
  have lock: "lock = LockOk" using run by (cases lock) (simp_all add: valid with_control_def try_lock_for_control_def)
  show ?thesis
    using run [unfolded valid lock with_control_def try_lock_for_control_def, simplified] that
    by (auto simp: publish_quota_update_def Let_def split: sum.splits)
qed

text \<open>C35: A change of weights can make the next admission fence the governor. Take any reachable state, any accepted
  change of a tenant's weight, and a tenant that now holds more of a dimension of the shared pool than the floor of its
  weighted part. Then every claim of that tenant that asks nothing of the dimensions before this one and that some
  other ordinary shares would let through fences the governor, which was not fenced before the claim.\<close>

theorem reweighting_can_fence:
  assumes "reachable (established cfg n) event_ok (sys_step cfg) s"
    and "update_tenant_quota cfg reserve lock poisoned other weight limits (sys_governor s) = (Inr (), g1)"
    and "plan_ordinary cfg claim ((settle g1)\<lparr> tenant_fair_capacities := shares \<rparr>) = Proceed p"
    and "pool_amount (g_pool_capacities cfg) (Shared, d) * quota_weight (tenant_quotas g1 ! op_tenant_index p)
        div sum_list (map quota_weight (tenant_quotas g1))
      < pool_amount (ordinary_tenant_pool_usage (settle g1) ! op_tenant_index p) (Shared, d)"
    and "\<forall>d' \<in> set (takeWhile (\<lambda>x. x \<noteq> d) resource_dimension_all). amounts_get (claim_amounts claim) d' = 0"
  shows "lifecycle (settle g1) \<noteq> Fenced \<and>
    fst (reserve_ordinary cfg LockOk claim g1) = Inl (internal_failure_at_pressure (claim_class claim) (disk_pressure (settle g1))) \<and>
    lifecycle (snd (reserve_ordinary cfg LockOk claim g1)) = Fenced"
proof -
  let ?i = "op_tenant_index p"
  have "governor_inv n (sys_governor s)"
    using governor_machine.reachable_inv [OF assms(1)] by (simp add: system_inv_def)
  then have inv: "governor_inv n g1" using update_tenant_quota_steady [OF _ assms(2)] by (simp add: steady_def)
  obtain shared pools where derived: "derive_tenant_fairness cfg reserve (tenant_quotas g1) = Inr (tenant_fair_capacities g1, shared, pools)"
    using assms(2) by (rule update_tenant_quota_shares)
  have index: "tenant_index (settle g1) (claim_tenant claim) (claim_class claim) = Inr ?i"
    by (rule plan_ordinary_pools [OF assms(3)])
  have i: "?i < length (tenant_quotas g1)"
    using index by (auto simp: tenant_index_def settle_topology [OF inv] dest: position_less)
  have "plan_ordinary cfg claim (settle g1) = Fence (internal_failure_at_pressure (claim_class claim) (disk_pressure (settle g1)))"
    by (rule plan_ordinary_above [OF assms(3) _ _ assms(5)])
      (use assms(4) derive_tenant_fairness_shares [OF derived] i in \<open>simp_all add: settle_topology [OF inv]\<close>)
  moreover have "lifecycle (settle g1) \<noteq> Fenced"
    by (rule plan_ordinary_Proceed [OF assms(3)]) (auto simp: require_healthy_and_slot_def Let_def split: if_splits)
  ultimately show ?thesis
    by (auto simp: reserve_ordinary_def with_admission_def lock_for_admission_def reserve_ordinary_locked_def run_plan_def
        record_refusal_locked_def Let_def split: option.splits)
qed

definition holding_claim :: work_claim where
  "holding_claim = sample_claim\<lparr> claim_amounts := amounts_uniform 470 \<rparr>"

definition holding_system :: client_system where
  "holding_system = sys_step sample_cfg (Ev_Reserve LockOk holding_claim) sample_system"

definition reweighted_governor :: governor where
  "reweighted_governor = snd (update_tenant_quota sample_cfg (\<lambda>_. True) LockOk False (TenantId 2) 3 (amounts_uniform 1000)
     (sys_governor holding_system))"

definition small_claim :: work_claim where
  "small_claim = sample_claim\<lparr> claim_amounts := amounts_uniform 1 \<rparr>"

lemma holding_reachable: "reachable (established sample_cfg 2) event_ok (sys_step sample_cfg) holding_system"
proof -
  have "event_ok (Ev_Reserve LockOk holding_claim)" by code_simp
  with sample_reachable show ?thesis unfolding holding_system_def by (rule reachable.move)
qed

lemma reweighted_facts:
  "fst (update_tenant_quota sample_cfg (\<lambda>_. True) LockOk False (TenantId 2) 3 (amounts_uniform 1000)
     (sys_governor holding_system)) = Inr ()"
  "case plan_ordinary sample_cfg small_claim
       ((settle reweighted_governor)\<lparr> tenant_fair_capacities := tenant_fair_capacities (sys_governor holding_system) \<rparr>) of
     Proceed p \<Rightarrow> op_tenant_index p = 0 | _ \<Rightarrow> False"
  "pool_amount (g_pool_capacities sample_cfg) (Shared, MemoryBytes) * quota_weight (tenant_quotas reweighted_governor ! 0)
     div sum_list (map quota_weight (tenant_quotas reweighted_governor)) = 460"
  "pool_amount (ordinary_tenant_pool_usage (settle reweighted_governor) ! 0) (Shared, MemoryBytes) = 470"
  "takeWhile (\<lambda>x. x \<noteq> MemoryBytes) resource_dimension_all = []"
  by code_simp+

theorem reweighting_can_fence_witness:
  "lifecycle (settle reweighted_governor) \<noteq> Fenced \<and>
   lifecycle (snd (reserve_ordinary sample_cfg LockOk small_claim reweighted_governor)) = Fenced"
proof -
  have run: "update_tenant_quota sample_cfg (\<lambda>_. True) LockOk False (TenantId 2) 3 (amounts_uniform 1000)
      (sys_governor holding_system) = (Inr (), reweighted_governor)"
    using reweighted_facts(1) by (simp add: prod_eq_iff reweighted_governor_def)
  obtain p where p: "plan_ordinary sample_cfg small_claim
      ((settle reweighted_governor)\<lparr> tenant_fair_capacities := tenant_fair_capacities (sys_governor holding_system) \<rparr>) = Proceed p"
    and i: "op_tenant_index p = 0"
    using reweighted_facts(2) by (auto split: plan.splits)
  show ?thesis
    using reweighting_can_fence [OF holding_reachable run p, of MemoryBytes] by (simp add: i reweighted_facts(3-5))
qed

end
