(* ===== verification/Crowding.thy ===== *)
theory Crowding
  imports Governor
begin

text \<open>
  A trace of calls that fills the slots of a governor with roots that were given back, so
  that the next claim fences it.
\<close>

section \<open>Slots of released roots\<close>












end
