(* ===== verification/Bytes.thy ===== *)
theory Bytes
  imports Prelude
begin

text \<open>
  Byte strings and fixed-width integers as the codecs of the repository write them:
  big-endian, two's complement for signed values. A byte is a natural number below 256.
  A codec is an encoder whose decoder reads back exactly what was written.
\<close>

named_theorems codec_simps \<open>reading fixed-width fields back\<close>

section \<open>Unsigned big-endian fields\<close>

type_synonym bytes = "nat list"

definition bytes_ok :: "bytes \<Rightarrow> bool" where
  "bytes_ok bs \<longleftrightarrow> (\<forall>b \<in> set bs. b < 256)"

fun be_bytes :: "nat \<Rightarrow> nat \<Rightarrow> bytes" where
  "be_bytes 0 v = []"
| "be_bytes (Suc n) v = be_bytes n (v div 256) @ [v mod 256]"

definition be_value :: "bytes \<Rightarrow> nat" where
  "be_value bs = foldl (\<lambda>acc b. acc * 256 + b) 0 bs"

lemma length_be_bytes [simp]: "length (be_bytes n v) = n"
  by (induction n arbitrary: v) simp_all

lemma be_bytes_ok [simp]: "bytes_ok (be_bytes n v)"
  by (induction n arbitrary: v) (auto simp: bytes_ok_def)

lemma bytes_ok_append [simp]: "bytes_ok (xs @ ys) \<longleftrightarrow> bytes_ok xs \<and> bytes_ok ys"
  by (auto simp: bytes_ok_def)

lemma bytes_ok_Cons [simp]: "bytes_ok (b # xs) \<longleftrightarrow> b < 256 \<and> bytes_ok xs"
  by (simp add: bytes_ok_def)

lemma bytes_ok_Nil [simp]: "bytes_ok []"
  by (simp add: bytes_ok_def)

lemma be_value_snoc [simp]: "be_value (bs @ [b]) = be_value bs * 256 + b"
  by (simp add: be_value_def)

lemma be_value_Nil [simp]: "be_value [] = 0"
  by (simp add: be_value_def)

lemma be_value_bytes: "be_value (be_bytes n v) = v mod 256 ^ n"
proof (induction n arbitrary: v)
  case (Suc n)
  have "v mod 256 ^ Suc n = v div 256 mod 256 ^ n * 256 + v mod 256"
    by (simp add: mod_mult2_eq mult.commute)
  then show ?case by (simp add: Suc)
qed simp

lemma be_value_bytes_id: "v < 256 ^ n \<Longrightarrow> be_value (be_bytes n v) = v"
  by (simp add: be_value_bytes)

lemma be_bytes_value: "bytes_ok bs \<Longrightarrow> length bs = n \<Longrightarrow> be_bytes n (be_value bs) = bs"
proof (induction bs arbitrary: n rule: rev_induct)
  case (snoc b bs)
  then show ?case by (cases n) simp_all
qed simp

lemma be_value_bound: "bytes_ok bs \<Longrightarrow> be_value bs < 256 ^ length bs"
proof (induction bs rule: rev_induct)
  case (snoc b bs)
  then have "be_value bs + 1 \<le> 256 ^ length bs" and "b < 256" by simp_all
  then have "(be_value bs + 1) * 256 \<le> 256 ^ length bs * 256" by (intro mult_right_mono) simp_all
  then show ?case using \<open>b < 256\<close> by simp
qed simp

section \<open>Signed 64-bit integers\<close>

definition i64_min :: int where "i64_min = - 9223372036854775808"
definition i64_max :: int where "i64_max = 9223372036854775807"

definition i64_ok :: "int \<Rightarrow> bool" where
  "i64_ok x \<longleftrightarrow> i64_min \<le> x \<and> x \<le> i64_max"

text \<open>\<open>checked_add\<close> and \<open>checked_sub\<close> of \<open>i64\<close>, and \<open>i64::try_from(u64)\<close>.\<close>

definition i64_of :: "int \<Rightarrow> int option" where
  "i64_of x = (if i64_min \<le> x \<and> x \<le> i64_max then Some x else None)"

definition i64_checked_add :: "int \<Rightarrow> int \<Rightarrow> int option" where
  "i64_checked_add a b = i64_of (a + b)"

definition i64_checked_sub :: "int \<Rightarrow> int \<Rightarrow> int option" where
  "i64_checked_sub a b = i64_of (a - b)"

lemma i64_of_Some_iff [simp]: "i64_of x = Some y \<longleftrightarrow> y = x \<and> i64_ok x"
  by (auto simp: i64_of_def i64_ok_def)

lemma i64_of_None_iff [simp]: "i64_of x = None \<longleftrightarrow> \<not> i64_ok x"
  by (auto simp: i64_of_def i64_ok_def)

lemmas i64_checked_defs = i64_checked_add_def i64_checked_sub_def

definition i64_bits :: "int \<Rightarrow> nat" where
  "i64_bits x = nat (x mod 18446744073709551616)"

definition i64_from_bits :: "nat \<Rightarrow> int" where
  "i64_from_bits v = (if v < 9223372036854775808 then int v else int v - 18446744073709551616)"

definition i64_be_bytes :: "int \<Rightarrow> bytes" where
  "i64_be_bytes x = be_bytes 8 (i64_bits x)"

definition i64_be_value :: "bytes \<Rightarrow> int" where
  "i64_be_value bs = i64_from_bits (be_value bs)"

lemma i64_bits_less: "i64_bits x < 256 ^ 8"
  by (simp add: i64_bits_def nat_less_iff)

lemma i64_negative_mod: "i64_ok x \<Longrightarrow> x < 0 \<Longrightarrow> x mod 18446744073709551616 = x + 18446744073709551616"
proof -
  assume *: "i64_ok x" "x < 0"
  have "x mod 18446744073709551616 = (x + 18446744073709551616) mod 18446744073709551616" by simp
  also have "\<dots> = x + 18446744073709551616"
    using * by (intro mod_pos_pos_trivial) (simp_all add: i64_ok_def i64_min_def)
  finally show ?thesis .
qed

lemma i64_from_bits_bits: "i64_ok x \<Longrightarrow> i64_from_bits (i64_bits x) = x"
proof (cases "0 \<le> x")
  case True
  then show "i64_ok x \<Longrightarrow> ?thesis"
    by (simp add: i64_from_bits_def i64_bits_def i64_ok_def i64_max_def nat_less_iff)
next
  case False
  then show "i64_ok x \<Longrightarrow> ?thesis"
    by (simp add: i64_from_bits_def i64_bits_def i64_negative_mod)
      (simp add: i64_ok_def i64_min_def nat_less_iff)
qed

lemma i64_bits_from_bits: "v < 18446744073709551616 \<Longrightarrow> i64_bits (i64_from_bits v) = v"
  by (simp add: i64_from_bits_def i64_bits_def minus_mod_self2)

lemma i64_from_bits_ok: "v < 18446744073709551616 \<Longrightarrow> i64_ok (i64_from_bits v)"
  by (simp add: i64_from_bits_def i64_ok_def i64_min_def i64_max_def)

lemma length_i64_be_bytes [simp]: "length (i64_be_bytes x) = 8"
  by (simp add: i64_be_bytes_def)

lemma i64_be_bytes_ok [simp]: "bytes_ok (i64_be_bytes x)"
  by (simp add: i64_be_bytes_def)

lemma i64_be_value_bytes [codec_simps]: "i64_ok x \<Longrightarrow> i64_be_value (i64_be_bytes x) = x"
  unfolding i64_be_value_def i64_be_bytes_def be_value_bytes_id [OF i64_bits_less] by (rule i64_from_bits_bits)

lemma i64_be_bytes_value: "bytes_ok bs \<Longrightarrow> length bs = 8 \<Longrightarrow> i64_be_bytes (i64_be_value bs) = bs"
  using be_value_bound [of bs] by (simp add: i64_be_value_def i64_be_bytes_def i64_bits_from_bits be_bytes_value)

lemma i64_be_value_ok: "bytes_ok bs \<Longrightarrow> length bs = 8 \<Longrightarrow> i64_ok (i64_be_value bs)"
  using be_value_bound [of bs] by (simp add: i64_be_value_def i64_from_bits_ok)

section \<open>Fields of a byte string\<close>

text \<open>\<open>bytes.get(start..start + len)\<close>.\<close>

definition slice_range :: "bytes \<Rightarrow> nat \<Rightarrow> nat \<Rightarrow> bytes option" where
  "slice_range bs start len = (if start + len \<le> length bs then Some (take len (drop start bs)) else None)"

lemma slice_range_append [codec_simps]:
  "length xs = start \<Longrightarrow> length ys = len \<Longrightarrow> slice_range (xs @ ys @ zs) start len = Some ys"
  by (simp add: slice_range_def)

lemma slice_range_append_end [codec_simps]:
  "length xs = start \<Longrightarrow> length ys = len \<Longrightarrow> slice_range (xs @ ys) start len = Some ys"
  by (simp add: slice_range_def)

lemma slice_range_Some:
  "slice_range bs start len = Some xs \<longleftrightarrow> (\<exists>us vs. bs = us @ xs @ vs \<and> length us = start \<and> length xs = len)"
proof
  assume "slice_range bs start len = Some xs"
  then have le: "start + len \<le> length bs" and xs: "xs = take len (drop start bs)"
    by (auto simp: slice_range_def split: if_splits)
  have "bs = take start bs @ xs @ drop len (drop start bs)" unfolding xs by (simp only: append_take_drop_id)
  moreover have "length (take start bs) = start" "length xs = len" using le by (simp_all add: xs)
  ultimately show "\<exists>us vs. bs = us @ xs @ vs \<and> length us = start \<and> length xs = len" by blast
qed (auto simp: slice_range_def)

section \<open>Codecs\<close>

locale codec =
  fixes encode :: "'a \<Rightarrow> bytes" and decode :: "bytes \<Rightarrow> 'e + 'a" and valid :: "'a \<Rightarrow> bool"
  assumes decode_encode: "valid x \<Longrightarrow> decode (encode x) = Inr x"
begin

lemma encode_inject: "valid x \<Longrightarrow> valid y \<Longrightarrow> encode x = encode y \<longleftrightarrow> x = y"
  by (metis decode_encode sum.inject(2))

lemma decode_total: "valid x \<Longrightarrow> \<exists>y. decode (encode x) = Inr y"
  using decode_encode by blast

end

end
