(* ===== verification/Domain.thy ===== *)
theory Domain
  imports Bytes
begin

text \<open>
  The foundational values of \<^verbatim>\<open>positron-domain\<close>: typed failures (\<^verbatim>\<open>outcome.rs\<close>), tenant and
  principal identities with their canonical text (\<^verbatim>\<open>identity.rs\<close>), shard and commit positions
  (\<^verbatim>\<open>routing.rs\<close>), the tenant lifecycle (\<^verbatim>\<open>lifecycle.rs\<close>) and source, observed and query times
  (\<^verbatim>\<open>time.rs\<close>). Text is the list of its UTF-8 bytes.
\<close>

unbundle bit_operations_syntax

section \<open>Failures\<close>

datatype domain_failure_code =
    InvalidIdentifier | InvalidAttribution | InvalidLifecycleTransition | InvalidTimeAnnotation
  | ArithmeticOverflow | LimitExceedsSystem | InvalidLimit | ValueLimitExceeded | AllocationUnavailable

datatype domain_retry = Retry_Never | Retry_AfterBackoff | Retry_AfterInputCorrection

datatype domain_completion = Domain_Rejected

datatype failure_source =
    Source_TenantId | Source_TenantSlug | Source_ExternalTenantAlias | Source_PrincipalId
  | Source_TenantAttribution | Source_TenantLifecycle | Source_SourceTime | Source_VirtualShard
  | Source_AssignmentEpoch | Source_CommitPosition | Source_RecordOrdinal | Source_ValueLimitProfile
  | Source_ValueLimit | Source_AttributeValue

record domain_failure =
  failure_code :: domain_failure_code
  failure_retry :: domain_retry
  failure_completion :: domain_completion
  failure_origin :: failure_source

definition domain_rejection ::
  "domain_failure_code \<Rightarrow> domain_retry \<Rightarrow> failure_source \<Rightarrow> domain_failure" where
  "domain_rejection code retry source =
     \<lparr> failure_code = code, failure_retry = retry, failure_completion = Domain_Rejected,
       failure_origin = source \<rparr>"

definition invalid_identifier :: "failure_source \<Rightarrow> domain_failure" where
  "invalid_identifier source = domain_rejection InvalidIdentifier Retry_AfterInputCorrection source"

definition invalid_attribution :: domain_failure where
  "invalid_attribution = domain_rejection InvalidAttribution Retry_Never Source_TenantAttribution"

definition invalid_lifecycle_transition :: domain_failure where
  "invalid_lifecycle_transition = domain_rejection InvalidLifecycleTransition Retry_Never Source_TenantLifecycle"

definition invalid_time_annotation :: domain_failure where
  "invalid_time_annotation = domain_rejection InvalidTimeAnnotation Retry_AfterInputCorrection Source_SourceTime"

definition arithmetic_overflow :: "failure_source \<Rightarrow> domain_failure" where
  "arithmetic_overflow source = domain_rejection ArithmeticOverflow Retry_Never source"

definition limit_exceeds_system :: domain_failure where
  "limit_exceeds_system = domain_rejection LimitExceedsSystem Retry_AfterInputCorrection Source_ValueLimitProfile"

definition invalid_limit :: "failure_source \<Rightarrow> domain_failure" where
  "invalid_limit source = domain_rejection InvalidLimit Retry_AfterInputCorrection source"

definition value_limit_exceeded :: domain_failure where
  "value_limit_exceeded = domain_rejection ValueLimitExceeded Retry_AfterInputCorrection Source_AttributeValue"

definition allocation_unavailable :: domain_failure where
  "allocation_unavailable = domain_rejection AllocationUnavailable Retry_AfterBackoff Source_AttributeValue"

section \<open>Identities\<close>

definition hex_character :: "u8 \<Rightarrow> u8" where
  "hex_character value = (if value < 10 then min 255 (48 + value) else min 255 (97 + (value - 10)))"

definition is_ascii_digit :: "u8 \<Rightarrow> bool" where
  "is_ascii_digit c \<longleftrightarrow> 48 \<le> c \<and> c \<le> 57"

definition is_ascii_lowercase :: "u8 \<Rightarrow> bool" where
  "is_ascii_lowercase c \<longleftrightarrow> 97 \<le> c \<and> c \<le> 122"

definition is_ascii_uppercase :: "u8 \<Rightarrow> bool" where
  "is_ascii_uppercase c \<longleftrightarrow> 65 \<le> c \<and> c \<le> 90"

definition is_canonical_hex :: "u8 \<Rightarrow> bool" where
  "is_canonical_hex c \<longleftrightarrow> is_ascii_digit c \<or> 97 \<le> c \<and> c \<le> 102"

definition decode_hex_character :: "u8 \<Rightarrow> u8" where
  "decode_hex_character c = (if is_ascii_digit c then c - 48 else min 255 (c - 97 + 10))"

definition decode_hex_pair :: "u8 \<Rightarrow> u8 \<Rightarrow> u8" where
  "decode_hex_pair high low = (push_bit 4 (decode_hex_character high) mod 256) OR decode_hex_character low"

text \<open>One byte of the text: a hyphen before bytes 4, 6, 8 and 10, then its two digits.\<close>

definition canonical_byte_text :: "nat \<times> u8 \<Rightarrow> bytes" where
  "canonical_byte_text ib =
     (if fst ib \<in> {4, 6, 8, 10} then [45] else []) @
     [hex_character (drop_bit 4 (snd ib)), hex_character (snd ib AND 15)]"

definition canonical_identifier_text :: "bytes \<Rightarrow> bytes" where
  "canonical_identifier_text bs = concat (map canonical_byte_text (enumerate 0 bs))"

fun decode_digit_pairs :: "bytes \<Rightarrow> bytes" where
  "decode_digit_pairs (high # low # rest) = decode_hex_pair high low # decode_digit_pairs rest"
| "decode_digit_pairs _ = []"

definition identifier_separators :: "bytes \<Rightarrow> bytes" where
  "identifier_separators s = [s ! 8, s ! 13, s ! 18, s ! 23]"

definition identifier_digits :: "bytes \<Rightarrow> bytes" where
  "identifier_digits s =
     take 8 s @ take 4 (drop 9 s) @ take 4 (drop 14 s) @ take 4 (drop 19 s) @ take 12 (drop 24 s)"

definition parse_identifier :: "bytes \<Rightarrow> failure_source \<Rightarrow> domain_failure + bytes" where
  "parse_identifier source failure_source =
     (if length source \<noteq> 36 then Inl (invalid_identifier failure_source)
      else if (\<exists>c \<in> set (identifier_separators source). c \<noteq> 45) \<or>
              \<not> (\<forall>c \<in> set (identifier_digits source). is_canonical_hex c)
      then Inl (invalid_identifier failure_source)
      else Inr (decode_digit_pairs (identifier_digits source)))"

type_synonym tenant_identifier = bytes
type_synonym principal_identifier = bytes

definition tenant_from_bytes :: "bytes \<Rightarrow> domain_failure + tenant_identifier" where
  "tenant_from_bytes bs = (if list_all (\<lambda>b. b = 0) bs then Inl (invalid_identifier Source_TenantId) else Inr bs)"

definition tenant_parse_canonical :: "bytes \<Rightarrow> domain_failure + tenant_identifier" where
  "tenant_parse_canonical source = and_then (parse_identifier source Source_TenantId) tenant_from_bytes"

definition tenant_to_canonical_text :: "tenant_identifier \<Rightarrow> bytes" where
  "tenant_to_canonical_text t = canonical_identifier_text t"

definition principal_from_bytes :: "bytes \<Rightarrow> domain_failure + principal_identifier" where
  "principal_from_bytes bs =
     (if list_all (\<lambda>b. b = 0) bs then Inl (invalid_identifier Source_PrincipalId) else Inr bs)"

definition principal_parse_canonical :: "bytes \<Rightarrow> domain_failure + principal_identifier" where
  "principal_parse_canonical source = and_then (parse_identifier source Source_PrincipalId) principal_from_bytes"

definition MAX_TENANT_SLUG_BYTES :: nat where "MAX_TENANT_SLUG_BYTES = 63"

definition slug_parse_canonical :: "bytes \<Rightarrow> domain_failure + bytes" where
  "slug_parse_canonical source =
     (if source = [] \<or> MAX_TENANT_SLUG_BYTES < length source then Inl (invalid_identifier Source_TenantSlug)
      else
        let valid_boundaries = (hd source \<noteq> 45 \<and> last source \<noteq> 45);
            valid_characters = list_all (\<lambda>c. is_ascii_lowercase c \<or> is_ascii_digit c \<or> c = 45) source
        in if \<not> valid_boundaries \<or> \<not> valid_characters then Inl (invalid_identifier Source_TenantSlug)
           else Inr source)"

definition MAX_ALIAS_BYTES :: nat where "MAX_ALIAS_BYTES = 128"

definition alias_parse :: "bytes \<Rightarrow> domain_failure + bytes" where
  "alias_parse source =
     (if source = [] \<or> MAX_ALIAS_BYTES < length source \<or>
         \<not> list_all (\<lambda>c. is_ascii_lowercase c \<or> is_ascii_uppercase c \<or> is_ascii_digit c \<or> c \<in> {45, 95, 46}) source
      then Inl (invalid_identifier Source_ExternalTenantAlias) else Inr source)"

datatype authority_scope = Scope_Ingest | Scope_Query | Scope_TenantAdministration | Scope_SystemAdministration

definition is_tenant_scoped :: "authority_scope \<Rightarrow> bool" where
  "is_tenant_scoped s \<longleftrightarrow> s \<in> {Scope_Ingest, Scope_Query, Scope_TenantAdministration}"

record tenant_attribution =
  attribution_principal :: principal_identifier
  attribution_scope :: authority_scope
  attribution_tenant :: tenant_identifier

definition attribution_new ::
  "principal_identifier \<Rightarrow> authority_scope \<Rightarrow> tenant_identifier \<Rightarrow> domain_failure + tenant_attribution" where
  "attribution_new who scope tenant =
     (if \<not> is_tenant_scoped scope then Inl invalid_attribution
      else Inr \<lparr> attribution_principal = who, attribution_scope = scope, attribution_tenant = tenant \<rparr>)"

section \<open>Shards, epochs and positions\<close>

definition virtual_shard_new :: "u32 \<Rightarrow> domain_failure + u32" where
  "virtual_shard_new value = (if value = 0 then Inl (invalid_identifier Source_VirtualShard) else Inr value)"

text \<open>\<open>advance_by\<close> of \<open>AssignmentEpoch\<close> and \<open>CommitPosition\<close>; the increment is a \<open>NonZeroU64\<close>.\<close>

definition epoch_advance_by :: "u64 \<Rightarrow> u64 \<Rightarrow> domain_failure + u64" where
  "epoch_advance_by self increment =
     ok_or (checked_add u64_max self increment) (arithmetic_overflow Source_AssignmentEpoch)"

definition epoch_next :: "u64 \<Rightarrow> domain_failure + u64" where
  "epoch_next self = epoch_advance_by self 1"

definition position_advance_by :: "u64 \<Rightarrow> u64 \<Rightarrow> domain_failure + u64" where
  "position_advance_by self increment =
     ok_or (checked_add u64_max self increment) (arithmetic_overflow Source_CommitPosition)"

definition position_next :: "u64 \<Rightarrow> domain_failure + u64" where
  "position_next self = position_advance_by self 1"

definition RECORD_ORDINAL_MAXIMUM :: u16 where "RECORD_ORDINAL_MAXIMUM = 1023"

definition record_ordinal_new :: "u16 \<Rightarrow> domain_failure + u16" where
  "record_ordinal_new value =
     (if RECORD_ORDINAL_MAXIMUM < value then Inl (invalid_identifier Source_RecordOrdinal) else Inr value)"

datatype signal_kind = Logs | Traces

section \<open>Tenant lifecycle\<close>

datatype tenant_lifecycle_state = Tenant_Active | Tenant_ReadOnly | Tenant_Suspended | Tenant_Purging | Tenant_Purged

definition lifecycle_transition_is_valid :: "tenant_lifecycle_state \<Rightarrow> tenant_lifecycle_state \<Rightarrow> bool" where
  "lifecycle_transition_is_valid current target \<longleftrightarrow>
     (current, target) \<in>
       {(Tenant_Active, Tenant_ReadOnly), (Tenant_Active, Tenant_Suspended), (Tenant_Active, Tenant_Purging),
        (Tenant_ReadOnly, Tenant_Active), (Tenant_ReadOnly, Tenant_Suspended), (Tenant_ReadOnly, Tenant_Purging),
        (Tenant_Suspended, Tenant_Active), (Tenant_Suspended, Tenant_ReadOnly), (Tenant_Suspended, Tenant_Purging),
        (Tenant_Purging, Tenant_Purged)}"

definition transition_to ::
  "tenant_lifecycle_state \<Rightarrow> tenant_lifecycle_state \<Rightarrow> domain_failure + tenant_lifecycle_state" where
  "transition_to self target =
     (if lifecycle_transition_is_valid self target then Inr target else Inl invalid_lifecycle_transition)"

definition begin_purge :: "tenant_lifecycle_state \<Rightarrow> domain_failure + tenant_lifecycle_state" where
  "begin_purge self = transition_to self Tenant_Purging"

definition complete_purge :: "tenant_lifecycle_state \<Rightarrow> domain_failure + tenant_lifecycle_state" where
  "complete_purge self = transition_to self Tenant_Purged"

section \<open>Source, observed and query times\<close>

text \<open>\<open>UnixNanoseconds\<close> wraps an \<open>i64\<close>; the wrapper is dropped.\<close>

type_synonym instant = int

datatype source_time_quality = Usable | Missing | Zero | Outlier | Contradictory

definition validate_present_source_time :: "instant \<Rightarrow> source_time_quality \<Rightarrow> domain_failure + unit" where
  "validate_present_source_time instant quality =
     (let is_zero = (instant = 0);
          has_zero_annotation = (quality = Zero);
          contradictory_zero = (is_zero \<and> quality = Contradictory)
      in if quality = Missing \<or> (\<not> contradictory_zero \<and> is_zero \<noteq> has_zero_annotation)
         then Inl invalid_time_annotation else Inr ())"

record event_time =
  event_instant :: "instant option"
  event_quality :: source_time_quality
  event_raw :: "u64 option"

definition event_missing :: event_time where
  "event_missing = \<lparr> event_instant = None, event_quality = Missing, event_raw = None \<rparr>"

definition event_received :: "instant \<Rightarrow> source_time_quality \<Rightarrow> domain_failure + event_time" where
  "event_received instant quality =
     and_then (validate_present_source_time instant quality) (\<lambda>_.
     Inr \<lparr> event_instant = Some instant, event_quality = quality, event_raw = None \<rparr>)"

definition event_out_of_range :: "u64 \<Rightarrow> domain_failure + event_time" where
  "event_out_of_range value =
     (if int value \<le> i64_max then Inl invalid_time_annotation
      else Inr \<lparr> event_instant = None, event_quality = Outlier, event_raw = Some value \<rparr>)"

definition event_source_value :: "event_time \<Rightarrow> u64 option" where
  "event_source_value t =
     (case event_instant t of
        Some i \<Rightarrow> if 0 \<le> i then Some (nat i) else None
      | None \<Rightarrow> event_raw t)"

definition event_is_usable :: "event_time \<Rightarrow> bool" where
  "event_is_usable t \<longleftrightarrow> event_quality t = Usable \<or> (event_quality t = Outlier \<and> event_raw t = None)"

definition event_usable_instant :: "event_time \<Rightarrow> instant option" where
  "event_usable_instant t = (if event_is_usable t then event_instant t else None)"

record observed_time =
  observed_instant :: instant
  observed_quality :: source_time_quality

definition observed_received :: "instant \<Rightarrow> source_time_quality \<Rightarrow> domain_failure + observed_time" where
  "observed_received instant quality =
     and_then (validate_present_source_time instant quality) (\<lambda>_.
     Inr \<lparr> observed_instant = instant, observed_quality = quality \<rparr>)"

definition observed_usable_instant :: "observed_time \<Rightarrow> instant option" where
  "observed_usable_instant t = (if observed_quality t = Usable then Some (observed_instant t) else None)"

datatype query_time_provenance = From_Event | From_Observed | From_Ingest

record query_time =
  query_instant :: instant
  query_provenance :: query_time_provenance

text \<open>The ingest-time candidate is its instant.\<close>

definition query_time_for_log :: "event_time \<Rightarrow> observed_time option \<Rightarrow> instant \<Rightarrow> query_time" where
  "query_time_for_log event_time observed_time ingest_time =
     (case event_usable_instant event_time of
        Some instant \<Rightarrow> \<lparr> query_instant = instant, query_provenance = From_Event \<rparr>
      | None \<Rightarrow>
          (case Option.bind observed_time observed_usable_instant of
             Some instant \<Rightarrow> \<lparr> query_instant = instant, query_provenance = From_Observed \<rparr>
           | None \<Rightarrow> \<lparr> query_instant = ingest_time, query_provenance = From_Ingest \<rparr>))"

definition query_time_for_span :: "event_time \<Rightarrow> instant \<Rightarrow> query_time" where
  "query_time_for_span start_time ingest_time =
     (case event_usable_instant start_time of
        Some instant \<Rightarrow> \<lparr> query_instant = instant, query_provenance = From_Event \<rparr>
      | None \<Rightarrow> \<lparr> query_instant = ingest_time, query_provenance = From_Ingest \<rparr>)"

section \<open>Canonical text\<close>

lemma hex_nibble: "v < 16 \<Longrightarrow> is_canonical_hex (hex_character v) \<and> decode_hex_character (hex_character v) = v"
  by (auto simp: hex_character_def is_canonical_hex_def decode_hex_character_def is_ascii_digit_def)

lemma hex_digit: "is_canonical_hex c \<Longrightarrow> decode_hex_character c < 16 \<and> hex_character (decode_hex_character c) = c"
  by (auto simp: hex_character_def is_canonical_hex_def decode_hex_character_def is_ascii_digit_def)

lemma nibbles_join: "h < 16 \<Longrightarrow> l < 16 \<Longrightarrow> (push_bit 4 h mod 256) OR l = 16 * h + (l :: nat)"
proof -
  assume *: "h < 16" "l < 16"
  have high: "\<not> bit l n" if "4 \<le> n" for n
  proof -
    have "(2::nat) ^ 4 \<le> 2 ^ n" using that by (rule power_increasing) simp
    then show ?thesis using *(2) by (simp add: bit_iff_odd)
  qed
  then have "push_bit 4 h OR l = push_bit 4 h + l"
    by (intro disjunctive_add_eq_or [symmetric] bit_eqI) (auto simp: bit_simps dest: high)
  then show ?thesis using *(1) by (simp add: push_bit_eq_mult)
qed

lemma decode_hex_pair_value:
  "is_canonical_hex h \<Longrightarrow> is_canonical_hex l \<Longrightarrow>
   decode_hex_pair h l = 16 * decode_hex_character h + decode_hex_character l"
  by (simp add: decode_hex_pair_def nibbles_join hex_digit)

lemma low_nibble: "(b :: nat) AND 15 = b mod 16"
  using take_bit_eq_mask [of 4 b] by (simp add: mask_eq_exp_minus_1 take_bit_eq_mod)

lemma decode_hex_byte:
  "b < 256 \<Longrightarrow> decode_hex_pair (hex_character (drop_bit 4 b)) (hex_character (b AND 15)) = b"
  by (subst decode_hex_pair_value) (simp_all add: hex_nibble low_nibble drop_bit_eq_div)

lemma hex_byte_digits:
  "b < 256 \<Longrightarrow> is_canonical_hex (hex_character (drop_bit 4 b)) \<and> is_canonical_hex (hex_character (b AND 15))"
  by (simp add: hex_nibble low_nibble drop_bit_eq_div)

lemma decode_hex_pair_digits:
  assumes "is_canonical_hex h" "is_canonical_hex l"
  shows "decode_hex_pair h l < 256 \<and> hex_character (drop_bit 4 (decode_hex_pair h l)) = h \<and>
         hex_character (decode_hex_pair h l AND 15) = l"
  using hex_digit [OF assms(1)] hex_digit [OF assms(2)]
  by (simp add: decode_hex_pair_value assms low_nibble drop_bit_eq_div)

lemma canonical_text_16:
  "canonical_identifier_text [b0, b1, b2, b3, b4, b5, b6, b7, b8, b9, b10, b11, b12, b13, b14, b15] =
   (let h = (\<lambda>b. hex_character (drop_bit 4 b)); l = (\<lambda>b. hex_character (b AND 15)) in
    [h b0, l b0, h b1, l b1, h b2, l b2, h b3, l b3, 45, h b4, l b4, h b5, l b5, 45, h b6, l b6, h b7, l b7, 45,
     h b8, l b8, h b9, l b9, 45, h b10, l b10, h b11, l b11, h b12, l b12, h b13, l b13, h b14, l b14, h b15, l b15])"
  by (simp add: canonical_identifier_text_def canonical_byte_text_def Let_def)

lemma list_of_length_16:
  "length bs = 16 \<Longrightarrow>
   \<exists>b0 b1 b2 b3 b4 b5 b6 b7 b8 b9 b10 b11 b12 b13 b14 b15.
     bs = [b0, b1, b2, b3, b4, b5, b6, b7, b8, b9, b10, b11, b12, b13, b14, b15]"
  by (auto simp: length_Suc_conv numeral_eq_Suc)

lemma parse_canonical_text:
  assumes "length bs = 16" "bytes_ok bs"
  shows "parse_identifier (canonical_identifier_text bs) src = Inr bs"
proof -
  obtain b0 b1 b2 b3 b4 b5 b6 b7 b8 b9 b10 b11 b12 b13 b14 b15 where
    bs: "bs = [b0, b1, b2, b3, b4, b5, b6, b7, b8, b9, b10, b11, b12, b13, b14, b15]"
    using list_of_length_16 [OF assms(1)] by blast
  show ?thesis
    using assms(2) unfolding bs canonical_text_16 Let_def
    by (simp add: parse_identifier_def identifier_separators_def identifier_digits_def bytes_ok_def
        hex_byte_digits decode_hex_byte)
qed

fun hex_pairs_text :: "bytes \<Rightarrow> bytes" where
  "hex_pairs_text [] = []"
| "hex_pairs_text (b # bs) = hex_character (drop_bit 4 b) # hex_character (b AND 15) # hex_pairs_text bs"

lemma decode_digit_pairs_text:
  "list_all is_canonical_hex ds \<Longrightarrow> even (length ds) \<Longrightarrow>
   hex_pairs_text (decode_digit_pairs ds) = ds \<and> bytes_ok (decode_digit_pairs ds) \<and>
   length (decode_digit_pairs ds) = length ds div 2"
  by (induction ds rule: decode_digit_pairs.induct) (auto simp: decode_hex_pair_digits bytes_ok_def)

lemma canonical_text_pairs:
  assumes "length bs = 16"
  shows "identifier_digits (canonical_identifier_text bs) = hex_pairs_text bs"
    and "length (canonical_identifier_text bs) = 36"
    and "identifier_separators (canonical_identifier_text bs) = [45, 45, 45, 45]"
proof -
  obtain b0 b1 b2 b3 b4 b5 b6 b7 b8 b9 b10 b11 b12 b13 b14 b15 where
    bs: "bs = [b0, b1, b2, b3, b4, b5, b6, b7, b8, b9, b10, b11, b12, b13, b14, b15]"
    using list_of_length_16 [OF assms] by blast
  show "identifier_digits (canonical_identifier_text bs) = hex_pairs_text bs"
    "length (canonical_identifier_text bs) = 36"
    "identifier_separators (canonical_identifier_text bs) = [45, 45, 45, 45]"
    unfolding bs canonical_text_16 Let_def by (simp_all add: identifier_digits_def identifier_separators_def)
qed

text \<open>A text of 36 bytes is its digits with its separators in place.\<close>

lemma drop_piece: "i + n < length xs \<Longrightarrow> drop i xs = take n (drop i xs) @ xs ! (i + n) # drop (Suc (i + n)) xs"
  by (metis Cons_nth_drop_Suc add.commute append_take_drop_id drop_drop)

lemma identifier_text_split:
  assumes "length xs = 36"
  shows "xs = take 8 xs @ xs ! 8 # take 4 (drop 9 xs) @ xs ! 13 # take 4 (drop 14 xs) @ xs ! 18 #
    take 4 (drop 19 xs) @ xs ! 23 # take 12 (drop 24 xs)"
  using drop_piece [of 0 8 xs] drop_piece [of 9 4 xs] drop_piece [of 14 4 xs] drop_piece [of 19 4 xs] assms
  by simp

lemma identifier_text_determined:
  assumes "length s = 36" "length t = 36" "identifier_digits s = identifier_digits t"
    "identifier_separators s = identifier_separators t"
  shows "s = t"
  using assms(3,4) unfolding identifier_digits_def identifier_separators_def
  by (subst identifier_text_split [OF assms(1)], subst identifier_text_split [OF assms(2)]) (simp add: assms(1,2))

lemma parse_identifier_iff:
  "parse_identifier s src = Inr bs \<longleftrightarrow> length bs = 16 \<and> bytes_ok bs \<and> s = canonical_identifier_text bs"
proof
  assume *: "parse_identifier s src = Inr bs"
  then have len: "length s = 36" and seps: "\<forall>c \<in> set (identifier_separators s). c = 45"
    and digits: "list_all is_canonical_hex (identifier_digits s)" and bs: "bs = decode_digit_pairs (identifier_digits s)"
    by (auto simp: parse_identifier_def list_all_iff split: if_splits)
  have "length (identifier_digits s) = 32" using len by (simp add: identifier_digits_def)
  then have out: "hex_pairs_text bs = identifier_digits s" "bytes_ok bs" "length bs = 16"
    using decode_digit_pairs_text [OF digits] bs by auto
  moreover have "s = canonical_identifier_text bs"
    by (rule identifier_text_determined)
      (use len seps canonical_text_pairs [OF out(3)] out(1) in \<open>auto simp: identifier_separators_def\<close>)
  ultimately show "length bs = 16 \<and> bytes_ok bs \<and> s = canonical_identifier_text bs" by simp
qed (auto simp: parse_canonical_text)

end
