(* ===== verification/Values.thy ===== *)
theory Values
  imports Domain
begin

text \<open>
  Dynamic attribute values of \<^verbatim>\<open>positron-domain\<close> (\<^verbatim>\<open>value/\<close>): the value-limit profile, the
  candidate tree a receiver builds, the validated tree the stores keep, the allocation-free
  shape check and the revalidation of a stored value. Strings are their UTF-8 bytes;
  an \<open>i64\<close> is an \<open>int\<close>, a floating-point bit pattern a natural number below $2^{64}$.
\<close>

section \<open>Limits\<close>

text \<open>
  \<open>ByteLimit\<close>, \<open>CollectionLimit\<close> and \<open>NestingLimit\<close> are non-zero numbers; their constructors
  differ in the width only.
\<close>

definition limit_new :: "nat \<Rightarrow> domain_failure + nat" where
  "limit_new value = (if value = 0 then Inl (invalid_limit Source_ValueLimit) else Inr value)"

record request_limits =
  request_compressed_bytes :: u32
  request_decompressed_bytes :: u32
  request_records :: u32
  request_attributes :: u32

record record_limits =
  encoded_record_bytes :: u32
  decoded_record_bytes :: u32
  log_body_bytes :: u32

record dynamic_value_limits =
  individual_value_bytes :: u32
  attributes_per_namespace :: u32
  key_path_bytes :: u32
  nesting_depth :: u16
  array_entries :: u32
  key_value_list_entries :: u32

record value_limit_set =
  request_part :: request_limits
  record_part :: record_limits
  dynamic_part :: dynamic_value_limits

definition request_exceeds :: "request_limits \<Rightarrow> request_limits \<Rightarrow> bool" where
  "request_exceeds self system \<longleftrightarrow>
     request_compressed_bytes system < request_compressed_bytes self \<or>
     request_decompressed_bytes system < request_decompressed_bytes self \<or>
     request_records system < request_records self \<or>
     request_attributes system < request_attributes self"

definition record_exceeds :: "record_limits \<Rightarrow> record_limits \<Rightarrow> bool" where
  "record_exceeds self system \<longleftrightarrow>
     encoded_record_bytes system < encoded_record_bytes self \<or>
     decoded_record_bytes system < decoded_record_bytes self \<or>
     log_body_bytes system < log_body_bytes self"

definition dynamic_exceeds :: "dynamic_value_limits \<Rightarrow> dynamic_value_limits \<Rightarrow> bool" where
  "dynamic_exceeds self system \<longleftrightarrow>
     individual_value_bytes system < individual_value_bytes self \<or>
     attributes_per_namespace system < attributes_per_namespace self \<or>
     key_path_bytes system < key_path_bytes self \<or>
     nesting_depth system < nesting_depth self \<or>
     array_entries system < array_entries self \<or>
     key_value_list_entries system < key_value_list_entries self"

definition limit_set_exceeds :: "value_limit_set \<Rightarrow> value_limit_set \<Rightarrow> bool" where
  "limit_set_exceeds self system \<longleftrightarrow>
     request_exceeds (request_part self) (request_part system) \<or>
     record_exceeds (record_part self) (record_part system) \<or>
     dynamic_exceeds (dynamic_part self) (dynamic_part system)"

record value_limit_profile =
  system_limits :: value_limit_set
  tenant_limits :: "value_limit_set option"

definition release_1_system_maximum :: value_limit_profile where
  "release_1_system_maximum =
     \<lparr> system_limits =
         \<lparr> request_part = \<lparr> request_compressed_bytes = 1048576, request_decompressed_bytes = 1048576,
                            request_records = 1024, request_attributes = 4096 \<rparr>,
           record_part = \<lparr> encoded_record_bytes = 1048576, decoded_record_bytes = 1048576,
                           log_body_bytes = 262144 \<rparr>,
           dynamic_part = \<lparr> individual_value_bytes = 65536, attributes_per_namespace = 1024,
                            key_path_bytes = 65536, nesting_depth = 128, array_entries = 1024,
                            key_value_list_entries = 1024 \<rparr> \<rparr>,
       tenant_limits = None \<rparr>"

definition profile_validate ::
  "value_limit_set \<Rightarrow> value_limit_set option \<Rightarrow> domain_failure + value_limit_profile" where
  "profile_validate system tenant =
     (if limit_set_exceeds system (system_limits release_1_system_maximum) \<or>
         (case tenant of None \<Rightarrow> False | Some t \<Rightarrow> limit_set_exceeds t system)
      then Inl limit_exceeds_system
      else Inr \<lparr> system_limits = system, tenant_limits = tenant \<rparr>)"

definition effective_limits :: "value_limit_profile \<Rightarrow> value_limit_set" where
  "effective_limits p = (case tenant_limits p of Some tenant \<Rightarrow> tenant | None \<Rightarrow> system_limits p)"

text \<open>\<open>usize\<close> holds every \<open>u32\<close>: the fallback of the comparison is never taken.\<close>

definition exceeds_byte_limit :: "usize \<Rightarrow> u32 \<Rightarrow> bool" where
  "exceeds_byte_limit actual limit \<longleftrightarrow> limit < actual"

definition exceeds_collection_limit :: "usize \<Rightarrow> u32 \<Rightarrow> bool" where
  "exceeds_collection_limit actual limit \<longleftrightarrow> limit < actual"

definition checked_decoded_add :: "usize \<Rightarrow> usize \<Rightarrow> domain_failure + usize" where
  "checked_decoded_add left right = ok_or (checked_add u64_max left right) value_limit_exceeded"

section \<open>Kinds, markers and values\<close>

datatype attribute_value_kind =
    Kind_Null | Kind_Boolean | Kind_SignedInteger | Kind_FloatingPoint | Kind_String | Kind_Bytes | Kind_Array
  | Kind_KeyValueList | Kind_Marker

datatype marker_action = Removed | Redacted | TruncatedBytes | TruncatedElements

text \<open>The derived \<open>Ord\<close> of both enumerations is the order of their variants.\<close>

fun kind_rank :: "attribute_value_kind \<Rightarrow> nat" where
  "kind_rank Kind_Null = 0"
| "kind_rank Kind_Boolean = 1"
| "kind_rank Kind_SignedInteger = 2"
| "kind_rank Kind_FloatingPoint = 3"
| "kind_rank Kind_String = 4"
| "kind_rank Kind_Bytes = 5"
| "kind_rank Kind_Array = 6"
| "kind_rank Kind_KeyValueList = 7"
| "kind_rank Kind_Marker = 8"

fun marker_action_tag :: "marker_action \<Rightarrow> u8" where
  "marker_action_tag Removed = 0"
| "marker_action_tag Redacted = 1"
| "marker_action_tag TruncatedBytes = 2"
| "marker_action_tag TruncatedElements = 3"

lemma kind_rank_inject: "kind_rank a = kind_rank b \<longleftrightarrow> a = b"
  by (cases a; cases b) simp_all

lemma marker_action_tag_inject: "marker_action_tag a = marker_action_tag b \<longleftrightarrow> a = b"
  by (cases a; cases b) simp_all

instantiation attribute_value_kind :: linorder
begin

definition less_eq_attribute_value_kind :: "attribute_value_kind \<Rightarrow> attribute_value_kind \<Rightarrow> bool" where
  "less_eq_attribute_value_kind a b \<longleftrightarrow> kind_rank a \<le> kind_rank b"

definition less_attribute_value_kind :: "attribute_value_kind \<Rightarrow> attribute_value_kind \<Rightarrow> bool" where
  "less_attribute_value_kind a b \<longleftrightarrow> kind_rank a < kind_rank b"

instance
  by standard (auto simp: less_eq_attribute_value_kind_def less_attribute_value_kind_def kind_rank_inject)

end

instantiation marker_action :: linorder
begin

definition less_eq_marker_action :: "marker_action \<Rightarrow> marker_action \<Rightarrow> bool" where
  "less_eq_marker_action a b \<longleftrightarrow> marker_action_tag a \<le> marker_action_tag b"

definition less_marker_action :: "marker_action \<Rightarrow> marker_action \<Rightarrow> bool" where
  "less_marker_action a b \<longleftrightarrow> marker_action_tag a < marker_action_tag b"

instance
  by standard (auto simp: less_eq_marker_action_def less_marker_action_def marker_action_tag_inject)

end

record redaction_marker =
  original_kind :: attribute_value_kind
  marker_act :: marker_action

definition marker_is_valid :: "redaction_marker \<Rightarrow> bool" where
  "marker_is_valid m \<longleftrightarrow> original_kind m \<noteq> Kind_Marker \<and> marker_act m \<in> {Removed, Redacted}"

datatype candidate_value =
    C_Null
  | C_Boolean bool
  | C_SignedInteger int
  | C_FloatingPointBits u64
  | C_String bytes
  | C_Bytes bytes
  | C_Array "candidate_value list"
  | C_KeyValueList "(bytes \<times> candidate_value) list"
  | C_Marker redaction_marker
  | C_Truncated candidate_value marker_action

datatype validated_value =
    V_Null
  | V_Boolean bool
  | V_SignedInteger int
  | V_FloatingPointBits u64
  | V_String bytes
  | V_Bytes bytes
  | V_Array "validated_value list"
  | V_KeyValueList "(bytes \<times> validated_value) list"
  | V_Marker redaction_marker
  | V_Truncated validated_value marker_action

text \<open>Every branch of \<open>candidate_native_kind\<close> is a \<open>Some\<close>; the model drops the wrapper.\<close>

fun candidate_native_kind :: "candidate_value \<Rightarrow> attribute_value_kind" where
  "candidate_native_kind C_Null = Kind_Null"
| "candidate_native_kind (C_Boolean _) = Kind_Boolean"
| "candidate_native_kind (C_SignedInteger _) = Kind_SignedInteger"
| "candidate_native_kind (C_FloatingPointBits _) = Kind_FloatingPoint"
| "candidate_native_kind (C_String _) = Kind_String"
| "candidate_native_kind (C_Bytes _) = Kind_Bytes"
| "candidate_native_kind (C_Array _) = Kind_Array"
| "candidate_native_kind (C_KeyValueList _) = Kind_KeyValueList"
| "candidate_native_kind (C_Marker m) = original_kind m"
| "candidate_native_kind (C_Truncated v _) = candidate_native_kind v"

fun value_kind :: "validated_value \<Rightarrow> attribute_value_kind" where
  "value_kind V_Null = Kind_Null"
| "value_kind (V_Boolean _) = Kind_Boolean"
| "value_kind (V_SignedInteger _) = Kind_SignedInteger"
| "value_kind (V_FloatingPointBits _) = Kind_FloatingPoint"
| "value_kind (V_String _) = Kind_String"
| "value_kind (V_Bytes _) = Kind_Bytes"
| "value_kind (V_Array _) = Kind_Array"
| "value_kind (V_KeyValueList _) = Kind_KeyValueList"
| "value_kind (V_Marker _) = Kind_Marker"
| "value_kind (V_Truncated v _) = value_kind v"

definition truncation_action_valid :: "marker_action \<Rightarrow> attribute_value_kind \<Rightarrow> bool" where
  "truncation_action_valid action kind \<longleftrightarrow>
     action = TruncatedBytes \<and> kind \<in> {Kind_String, Kind_Bytes} \<or>
     action = TruncatedElements \<and> kind \<in> {Kind_Array, Kind_KeyValueList}"

fun is_marker_or_truncated :: "candidate_value \<Rightarrow> bool" where
  "is_marker_or_truncated (C_Marker _) = True"
| "is_marker_or_truncated (C_Truncated _ _) = True"
| "is_marker_or_truncated _ = False"

section \<open>The shape of a candidate\<close>

text \<open>Loops over the children of a value recurse into them: \<open>try_fold\<close> with its congruence.\<close>

lemma and_then_cong [fundef_cong]:
  "r = r' \<Longrightarrow> (\<And>a. r' = Inr a \<Longrightarrow> k a = k' a) \<Longrightarrow> and_then r k = and_then r' k'"
  by (cases r') simp_all

lemma for_fold_cong [fundef_cong]:
  "xs = ys \<Longrightarrow> b = c \<Longrightarrow> (\<And>a y. y \<in> set ys \<Longrightarrow> f a y = g a y) \<Longrightarrow> for_fold f b xs = for_fold g c ys"
proof (induction ys arbitrary: xs b c)
  case (Cons y ys)
  show ?case unfolding Cons.prems(1,2) by (simp add: Cons.prems(3) and_then_def Cons.IH split: sum.splits)
qed simp

datatype value_limit_dimension =
  Dim_KeyPathBytes | Dim_IndividualValueBytes | Dim_NestingDepth | Dim_ArrayEntries | Dim_KeyValueListEntries

record value_limit_violation =
  violation_dimension :: value_limit_dimension
  violation_actual :: u64
  violation_allowed :: u64

datatype candidate_shape_failure = Shape_Invalid | Shape_Limit value_limit_violation

definition limit_failure :: "value_limit_dimension \<Rightarrow> usize \<Rightarrow> u32 \<Rightarrow> candidate_shape_failure" where
  "limit_failure dimension actual allowed =
     (case try_from u64_max actual of
        None \<Rightarrow> Shape_Invalid
      | Some actual \<Rightarrow>
          Shape_Limit \<lparr> violation_dimension = dimension, violation_actual = actual, violation_allowed = allowed \<rparr>)"

definition depth_limit_failure :: "u16 \<Rightarrow> candidate_shape_failure" where
  "depth_limit_failure remaining_depth = limit_failure Dim_NestingDepth (remaining_depth + 1) remaining_depth"

text \<open>The check at the end of \<open>candidate_shape::validate\<close>, and the so_far of its folds.\<close>

definition shape_bounded :: "u32 \<Rightarrow> usize \<Rightarrow> candidate_shape_failure + usize" where
  "shape_bounded value_bytes bytes_used =
     (if exceeds_byte_limit bytes_used value_bytes
      then Inl (limit_failure Dim_IndividualValueBytes bytes_used value_bytes) else Inr bytes_used)"

definition shape_add :: "usize \<Rightarrow> usize \<Rightarrow> candidate_shape_failure + usize" where
  "shape_add so_far child_size = ok_or (checked_add u64_max so_far child_size) Shape_Invalid"

fun shape_validate ::
  "value_limit_set \<Rightarrow> u32 \<Rightarrow> u16 \<Rightarrow> candidate_value \<Rightarrow> candidate_shape_failure + usize" where
  "shape_validate limits value_bytes depth C_Null = shape_bounded value_bytes 0"
| "shape_validate limits value_bytes depth (C_Boolean _) = shape_bounded value_bytes 1"
| "shape_validate limits value_bytes depth (C_SignedInteger _) = shape_bounded value_bytes 8"
| "shape_validate limits value_bytes depth (C_FloatingPointBits _) = shape_bounded value_bytes 8"
| "shape_validate limits value_bytes depth (C_String value) = shape_bounded value_bytes (length value)"
| "shape_validate limits value_bytes depth (C_Bytes value) = shape_bounded value_bytes (length value)"
| "shape_validate limits value_bytes depth (C_Array values) =
     (case checked_sub depth 1 of
        None \<Rightarrow> Inl (depth_limit_failure depth)
      | Some child_depth \<Rightarrow>
          if exceeds_collection_limit (length values) (array_entries (dynamic_part limits))
          then Inl (limit_failure Dim_ArrayEntries (length values) (array_entries (dynamic_part limits)))
          else and_then
                 (for_fold (\<lambda>so_far value.
                    and_then (shape_validate limits value_bytes child_depth value) (shape_add so_far)) 0 values)
                 (shape_bounded value_bytes))"
| "shape_validate limits value_bytes depth (C_KeyValueList values) =
     (case checked_sub depth 1 of
        None \<Rightarrow> Inl (depth_limit_failure depth)
      | Some child_depth \<Rightarrow>
          if exceeds_collection_limit (length values) (key_value_list_entries (dynamic_part limits))
          then Inl (limit_failure Dim_KeyValueListEntries (length values)
                 (key_value_list_entries (dynamic_part limits)))
          else and_then
                 (for_fold (\<lambda>so_far entry.
                    if fst entry = [] then Inl Shape_Invalid
                    else if exceeds_byte_limit (length (fst entry)) (key_path_bytes (dynamic_part limits))
                    then Inl (limit_failure Dim_KeyPathBytes (length (fst entry)) (key_path_bytes (dynamic_part limits)))
                    else and_then (shape_validate limits value_bytes child_depth (snd entry)) (shape_add so_far))
                    0 values)
                 (shape_bounded value_bytes))"
| "shape_validate limits value_bytes depth (C_Marker marker) =
     (if marker_is_valid marker then shape_bounded value_bytes 0 else Inl Shape_Invalid)"
| "shape_validate limits value_bytes depth (C_Truncated value action) =
     (if is_marker_or_truncated value \<or> \<not> truncation_action_valid action (candidate_native_kind value)
      then Inl Shape_Invalid
      else and_then (shape_validate limits value_bytes depth value) (shape_bounded value_bytes))"

definition validate_shape_detailed :: "value_limit_profile \<Rightarrow> candidate_value \<Rightarrow> candidate_shape_failure + unit" where
  "validate_shape_detailed profile self =
     (let limits = effective_limits profile in
      and_then (shape_validate limits (individual_value_bytes (dynamic_part limits))
                  (nesting_depth (dynamic_part limits)) self) (\<lambda>_. Inr ()))"

definition validate_shape :: "value_limit_profile \<Rightarrow> candidate_value \<Rightarrow> domain_failure + unit" where
  "validate_shape profile self =
     (case validate_shape_detailed profile self of Inl _ \<Rightarrow> Inl value_limit_exceeded | Inr u \<Rightarrow> Inr u)"

section \<open>Revalidation of a stored value\<close>

definition value_child_depth :: "u16 \<Rightarrow> domain_failure + u16" where
  "value_child_depth remaining_depth = ok_or (checked_sub remaining_depth 1) value_limit_exceeded"

definition size_bounded :: "u32 \<Rightarrow> usize \<Rightarrow> domain_failure + usize" where
  "size_bounded value_bytes bytes_used =
     (if exceeds_byte_limit bytes_used value_bytes then Inl value_limit_exceeded else Inr bytes_used)"

fun validated_size_against ::
  "value_limit_set \<Rightarrow> u32 \<Rightarrow> u16 \<Rightarrow> validated_value \<Rightarrow> domain_failure + usize" where
  "validated_size_against limits value_bytes depth V_Null = size_bounded value_bytes 0"
| "validated_size_against limits value_bytes depth (V_Boolean _) = size_bounded value_bytes 1"
| "validated_size_against limits value_bytes depth (V_SignedInteger _) = size_bounded value_bytes 8"
| "validated_size_against limits value_bytes depth (V_FloatingPointBits _) = size_bounded value_bytes 8"
| "validated_size_against limits value_bytes depth (V_Marker _) = size_bounded value_bytes 0"
| "validated_size_against limits value_bytes depth (V_Truncated value _) =
     and_then (validated_size_against limits value_bytes depth value) (size_bounded value_bytes)"
| "validated_size_against limits value_bytes depth (V_String value) = size_bounded value_bytes (length value)"
| "validated_size_against limits value_bytes depth (V_Bytes value) = size_bounded value_bytes (length value)"
| "validated_size_against limits value_bytes depth (V_Array values) =
     and_then (value_child_depth depth) (\<lambda>child_depth.
     if exceeds_collection_limit (length values) (array_entries (dynamic_part limits)) then Inl value_limit_exceeded
     else and_then
            (for_fold (\<lambda>so_far value.
               and_then (validated_size_against limits value_bytes child_depth value) (checked_decoded_add so_far))
               0 values)
            (size_bounded value_bytes))"
| "validated_size_against limits value_bytes depth (V_KeyValueList values) =
     and_then (value_child_depth depth) (\<lambda>child_depth.
     if exceeds_collection_limit (length values) (key_value_list_entries (dynamic_part limits))
     then Inl value_limit_exceeded
     else and_then
            (for_fold (\<lambda>so_far entry.
               if fst entry = [] \<or> exceeds_byte_limit (length (fst entry)) (key_path_bytes (dynamic_part limits))
               then Inl value_limit_exceeded
               else and_then (validated_size_against limits value_bytes child_depth (snd entry))
                      (checked_decoded_add so_far))
               0 values)
            (size_bounded value_bytes))"

definition validate_against :: "value_limit_set \<Rightarrow> u32 \<Rightarrow> u16 \<Rightarrow> validated_value \<Rightarrow> domain_failure + unit" where
  "validate_against limits value_bytes remaining_depth self =
     and_then (validated_size_against limits value_bytes remaining_depth self) (\<lambda>_. Inr ())"

section \<open>Well-formed values\<close>

text \<open>
  What the Rust types fix of a candidate: the width of its numbers. What validation adds:
  collections and payloads within \<open>usize\<close>, valid markers, truncations of a native value by
  the action of its kind.
\<close>

fun candidate_ok :: "candidate_value \<Rightarrow> bool" where
  "candidate_ok (C_SignedInteger v) \<longleftrightarrow> i64_ok v"
| "candidate_ok (C_FloatingPointBits bits) \<longleftrightarrow> bits \<le> u64_max"
| "candidate_ok (C_Array vs) \<longleftrightarrow> (\<forall>v \<in> set vs. candidate_ok v)"
| "candidate_ok (C_KeyValueList es) \<longleftrightarrow> (\<forall>e \<in> set es. candidate_ok (snd e))"
| "candidate_ok (C_Truncated v _) \<longleftrightarrow> candidate_ok v"
| "candidate_ok _ \<longleftrightarrow> True"

fun is_truncated :: "validated_value \<Rightarrow> bool" where
  "is_truncated (V_Truncated _ _) = True"
| "is_truncated _ = False"

fun value_ok :: "validated_value \<Rightarrow> bool" where
  "value_ok (V_SignedInteger v) \<longleftrightarrow> i64_ok v"
| "value_ok (V_FloatingPointBits bits) \<longleftrightarrow> bits \<le> u64_max"
| "value_ok (V_String s) \<longleftrightarrow> length s \<le> u64_max"
| "value_ok (V_Bytes s) \<longleftrightarrow> length s \<le> u64_max"
| "value_ok (V_Array vs) \<longleftrightarrow> length vs \<le> u64_max \<and> (\<forall>v \<in> set vs. value_ok v)"
| "value_ok (V_KeyValueList es) \<longleftrightarrow>
     length es \<le> u64_max \<and> (\<forall>e \<in> set es. length (fst e) \<le> u64_max \<and> value_ok (snd e))"
| "value_ok (V_Marker m) \<longleftrightarrow> marker_is_valid m"
| "value_ok (V_Truncated v act) \<longleftrightarrow> value_ok v \<and> \<not> is_truncated v \<and> truncation_action_valid act (value_kind v)"
| "value_ok _ \<longleftrightarrow> True"

section \<open>Reading a value\<close>

fun contains_marker :: "validated_value \<Rightarrow> bool" where
  "contains_marker (V_Marker _) = True"
| "contains_marker (V_Truncated value _) = contains_marker value"
| "contains_marker (V_Array values) = (\<exists>v \<in> set values. contains_marker v)"
| "contains_marker (V_KeyValueList values) = (\<exists>e \<in> set values. contains_marker (snd e))"
| "contains_marker _ = False"

fun contains_policy_marker :: "candidate_value \<Rightarrow> bool" where
  "contains_policy_marker (C_Marker _) = True"
| "contains_policy_marker (C_Truncated _ _) = True"
| "contains_policy_marker (C_Array values) = (\<exists>v \<in> set values. contains_policy_marker v)"
| "contains_policy_marker (C_KeyValueList values) = (\<exists>e \<in> set values. contains_policy_marker (snd e))"
| "contains_policy_marker _ = False"

fun decoded_size_bytes :: "validated_value \<Rightarrow> domain_failure + usize" where
  "decoded_size_bytes V_Null = Inr 0"
| "decoded_size_bytes (V_Boolean _) = Inr 1"
| "decoded_size_bytes (V_SignedInteger _) = Inr 8"
| "decoded_size_bytes (V_FloatingPointBits _) = Inr 8"
| "decoded_size_bytes (V_String value) = Inr (length value)"
| "decoded_size_bytes (V_Bytes value) = Inr (length value)"
| "decoded_size_bytes (V_Array values) =
     for_fold (\<lambda>so_far value. and_then (decoded_size_bytes value) (checked_decoded_add so_far)) 0 values"
| "decoded_size_bytes (V_KeyValueList values) =
     for_fold (\<lambda>so_far entry.
       and_then (checked_decoded_add so_far (length (fst entry))) (\<lambda>so_far.
       and_then (decoded_size_bytes (snd entry)) (checked_decoded_add so_far))) 0 values"
| "decoded_size_bytes (V_Marker _) = Inr 0"
| "decoded_size_bytes (V_Truncated value _) = decoded_size_bytes value"

end
