(* ===== verification/Comparison.thy ===== *)
theory Comparison
  imports Values
begin

text \<open>
  The canonical order of validated values and its byte encoding
  (\<^verbatim>\<open>value/validated_encoding.rs\<close>). The encoding is a prefix code whose bytewise
  lexicographic order is the order of the values, on every value whose payload-free
  markers carry one action.
\<close>

section \<open>Orderings\<close>

datatype ordering = Less | Equal | Greater

definition cmp_of :: "'a :: linorder \<Rightarrow> 'a \<Rightarrow> ordering" where
  "cmp_of a b = (if a < b then Less else if a = b then Equal else Greater)"

definition then_with :: "ordering \<Rightarrow> ordering \<Rightarrow> ordering" where
  "then_with a b = (if a = Equal then b else a)"

text \<open>\<open>Ord\<close> of slices: lexicographic, a proper prefix is smaller.\<close>

fun list_cmp :: "('a \<Rightarrow> 'a \<Rightarrow> ordering) \<Rightarrow> 'a list \<Rightarrow> 'a list \<Rightarrow> ordering" where
  "list_cmp f [] [] = Equal"
| "list_cmp f [] (y # ys) = Less"
| "list_cmp f (x # xs) [] = Greater"
| "list_cmp f (x # xs) (y # ys) = then_with (f x y) (list_cmp f xs ys)"

lemma list_cmp_cong [fundef_cong]:
  "xs = xs' \<Longrightarrow> ys = ys' \<Longrightarrow> (\<And>x y. x \<in> set xs' \<Longrightarrow> y \<in> set ys' \<Longrightarrow> f x y = g x y) \<Longrightarrow>
   list_cmp f xs ys = list_cmp g xs' ys'"
proof (induction g xs' ys' arbitrary: xs ys rule: list_cmp.induct)
  case (4 g x xs y ys)
  then show ?case by (simp add: then_with_def)
qed simp_all

definition bytes_cmp :: "bytes \<Rightarrow> bytes \<Rightarrow> ordering" where
  "bytes_cmp = list_cmp cmp_of"

lemma cmp_of_same [simp]: "cmp_of a a = Equal"
  by (simp add: cmp_of_def)

lemma cmp_of_Equal_iff [simp]: "cmp_of a b = Equal \<longleftrightarrow> a = b"
  by (simp add: cmp_of_def)

lemma then_with_simps [simp]:
  "then_with Equal b = b"
  "then_with Less b = Less"
  "then_with Greater b = Greater"
  "then_with a Equal = a"
  by (simp_all add: then_with_def)

lemma then_with_assoc: "then_with (then_with a b) c = then_with a (then_with b c)"
  by (simp add: then_with_def)

lemma bytes_cmp_simps [simp]:
  "bytes_cmp [] [] = Equal"
  "bytes_cmp [] (y # ys) = Less"
  "bytes_cmp (x # xs) [] = Greater"
  "bytes_cmp (x # xs) (y # ys) = then_with (cmp_of x y) (bytes_cmp xs ys)"
  by (simp_all add: bytes_cmp_def)

section \<open>The canonical order\<close>

text \<open>\<open>f64::total_cmp\<close>: the bits as a signed integer, the low 63 bits of a negative one flipped.\<close>

definition total_cmp_key :: "u64 \<Rightarrow> int" where
  "total_cmp_key bits =
     (let left = i64_from_bits bits in left XOR (if left < 0 then 9223372036854775807 else 0))"

definition total_cmp :: "u64 \<Rightarrow> u64 \<Rightarrow> ordering" where
  "total_cmp left right = cmp_of (total_cmp_key left) (total_cmp_key right)"

definition marker_cmp :: "redaction_marker \<Rightarrow> redaction_marker \<Rightarrow> ordering" where
  "marker_cmp left right =
     then_with (cmp_of (original_kind left) (original_kind right)) (cmp_of (marker_act left) (marker_act right))"

lemma array_child_size: "v \<in> set vs \<Longrightarrow> size v < size (V_Array vs)"
  by (induction vs) auto

lemma entry_child_size: "(k, v) \<in> set es \<Longrightarrow> size v < size (V_KeyValueList es)"
  by (induction es) auto

text \<open>
  Values of one variant compare by their payload, a truncation as the value it wraps, and
  values of different variants by their kind.
\<close>

function value_cmp :: "validated_value \<Rightarrow> validated_value \<Rightarrow> ordering" where
  "value_cmp self other =
     (case self of
        V_Truncated value _ \<Rightarrow> value_cmp value other
      | _ \<Rightarrow>
        (case other of
           V_Truncated value _ \<Rightarrow> value_cmp self value
         | V_Null \<Rightarrow> cmp_of (value_kind self) (value_kind other)
         | V_Boolean right \<Rightarrow>
             (case self of V_Boolean left \<Rightarrow> cmp_of left right | _ \<Rightarrow> cmp_of (value_kind self) (value_kind other))
         | V_SignedInteger right \<Rightarrow>
             (case self of V_SignedInteger left \<Rightarrow> cmp_of left right
              | _ \<Rightarrow> cmp_of (value_kind self) (value_kind other))
         | V_FloatingPointBits right \<Rightarrow>
             (case self of V_FloatingPointBits left \<Rightarrow> total_cmp left right
              | _ \<Rightarrow> cmp_of (value_kind self) (value_kind other))
         | V_String right \<Rightarrow>
             (case self of V_String left \<Rightarrow> bytes_cmp left right | _ \<Rightarrow> cmp_of (value_kind self) (value_kind other))
         | V_Bytes right \<Rightarrow>
             (case self of V_Bytes left \<Rightarrow> bytes_cmp left right | _ \<Rightarrow> cmp_of (value_kind self) (value_kind other))
         | V_Array right \<Rightarrow>
             (case self of V_Array left \<Rightarrow> list_cmp value_cmp left right
              | _ \<Rightarrow> cmp_of (value_kind self) (value_kind other))
         | V_KeyValueList right \<Rightarrow>
             (case self of V_KeyValueList left \<Rightarrow>
                list_cmp (\<lambda>l r. then_with (bytes_cmp (fst l) (fst r)) (value_cmp (snd l) (snd r))) left right
              | _ \<Rightarrow> cmp_of (value_kind self) (value_kind other))
         | V_Marker right \<Rightarrow>
             (case self of V_Marker left \<Rightarrow> marker_cmp left right
              | _ \<Rightarrow> cmp_of (value_kind self) (value_kind other))))"
  by auto
termination
  by (relation "measure (\<lambda>(a, b). size a + size b)")
    (auto dest!: array_child_size entry_child_size)

declare value_cmp.simps [simp del]

section \<open>The comparison encoding\<close>

fun comparison_native_kind_tag :: "attribute_value_kind \<Rightarrow> u8" where
  "comparison_native_kind_tag Kind_Marker = 0"
| "comparison_native_kind_tag kind = kind_rank kind"

definition comparison_sequence :: "bytes \<Rightarrow> bytes" where
  "comparison_sequence bs = concat (map (\<lambda>b. [1, b]) bs) @ [0]"

text \<open>
  The bytes \<open>visit_comparison_encoding\<close> hands to its visitor, in order; \<open>append_comparison_encoding\<close>
  collects them.
\<close>

definition sign_bit :: u64 where "sign_bit = 9223372036854775808"

definition ordered_integer :: "int \<Rightarrow> u64" where
  "ordered_integer value = i64_bits value XOR sign_bit"

definition ordered_float :: "u64 \<Rightarrow> u64" where
  "ordered_float bits = (if bits AND sign_bit = 0 then bits XOR sign_bit else u64_max - bits)"

fun comparison_encoding :: "validated_value \<Rightarrow> bytes" where
  "comparison_encoding V_Null = [0]"
| "comparison_encoding (V_Boolean value) = [1, of_bool value]"
| "comparison_encoding (V_SignedInteger value) = 2 # be_bytes 8 (ordered_integer value)"
| "comparison_encoding (V_FloatingPointBits bits) = 3 # be_bytes 8 (ordered_float bits)"
| "comparison_encoding (V_String value) = 4 # comparison_sequence value"
| "comparison_encoding (V_Bytes value) = 5 # comparison_sequence value"
| "comparison_encoding (V_Array values) = 6 # concat (map (\<lambda>value. 1 # comparison_encoding value) values) @ [0]"
| "comparison_encoding (V_KeyValueList values) =
     7 # concat (map (\<lambda>entry. 1 # comparison_sequence (fst entry) @ comparison_encoding (snd entry)) values) @ [0]"
| "comparison_encoding (V_Marker marker) =
     [8, marker_action_tag (marker_act marker), comparison_native_kind_tag (original_kind marker)]"
| "comparison_encoding (V_Truncated value _) = comparison_encoding value"

definition comparison_bare_sequence_size :: "usize \<Rightarrow> domain_failure + usize" where
  "comparison_bare_sequence_size n =
     ok_or (Option.bind (checked_mul u64_max n 2) (\<lambda>bytes_used. checked_add u64_max bytes_used 1)) value_limit_exceeded"

definition comparison_sequence_size :: "usize \<Rightarrow> domain_failure + usize" where
  "comparison_sequence_size n = and_then (comparison_bare_sequence_size n) (checked_decoded_add 1)"

fun comparison_encoded_size_bytes :: "validated_value \<Rightarrow> domain_failure + usize" where
  "comparison_encoded_size_bytes V_Null = Inr 1"
| "comparison_encoded_size_bytes (V_Boolean _) = Inr 2"
| "comparison_encoded_size_bytes (V_SignedInteger _) = Inr 9"
| "comparison_encoded_size_bytes (V_FloatingPointBits _) = Inr 9"
| "comparison_encoded_size_bytes (V_Marker _) = Inr 3"
| "comparison_encoded_size_bytes (V_Truncated value _) = comparison_encoded_size_bytes value"
| "comparison_encoded_size_bytes (V_String value) = comparison_sequence_size (length value)"
| "comparison_encoded_size_bytes (V_Bytes value) = comparison_sequence_size (length value)"
| "comparison_encoded_size_bytes (V_Array values) =
     for_fold (\<lambda>so_far value.
       and_then (checked_decoded_add so_far 1) (\<lambda>so_far.
       and_then (comparison_encoded_size_bytes value) (checked_decoded_add so_far))) 2 values"
| "comparison_encoded_size_bytes (V_KeyValueList values) =
     for_fold (\<lambda>so_far entry.
       and_then (checked_decoded_add so_far 1) (\<lambda>so_far.
       and_then (comparison_bare_sequence_size (length (fst entry))) (\<lambda>key_bytes.
       and_then (checked_decoded_add so_far key_bytes) (\<lambda>so_far.
       and_then (comparison_encoded_size_bytes (snd entry)) (checked_decoded_add so_far))))) 2 values"

section \<open>Prefix codes and their order\<close>

text \<open>
  An encoder \<open>f\<close> orders like \<open>c\<close> when comparing two encodings, whatever follows them,
  compares the values first and what follows second. It is then a prefix code.
\<close>

definition orders_like :: "('a \<Rightarrow> bytes) \<Rightarrow> ('a \<Rightarrow> 'a \<Rightarrow> ordering) \<Rightarrow> 'a \<Rightarrow> 'a \<Rightarrow> bool" where
  "orders_like f c a b \<longleftrightarrow>
     (\<forall>u w. bytes_cmp (f a @ u) (f b @ w) = then_with (c a b) (bytes_cmp u w))"

lemma orders_likeI: "(\<And>u w. bytes_cmp (f a @ u) (f b @ w) = then_with (c a b) (bytes_cmp u w)) \<Longrightarrow> orders_like f c a b"
  by (simp add: orders_like_def)

lemma orders_likeD: "orders_like f c a b \<Longrightarrow> bytes_cmp (f a @ u) (f b @ w) = then_with (c a b) (bytes_cmp u w)"
  by (simp add: orders_like_def)

lemma orders_like_pair:
  assumes "orders_like f c a a'" "orders_like g d b b'"
  shows "bytes_cmp ((f a @ g b) @ u) ((f a' @ g b') @ w) = then_with (then_with (c a a') (d b b')) (bytes_cmp u w)"
  by (simp add: orders_likeD [OF assms(1)] orders_likeD [OF assms(2)] then_with_assoc)

definition terminated :: "('a \<Rightarrow> bytes) \<Rightarrow> 'a list \<Rightarrow> bytes" where
  "terminated f xs = concat (map (\<lambda>x. 1 # f x) xs) @ [0]"

lemma terminated_simps [simp]:
  "terminated f [] = [0]"
  "terminated f (x # xs) = 1 # f x @ terminated f xs"
  by (simp_all add: terminated_def)

lemma terminated_orders:
  "(\<And>x y. x \<in> set xs \<Longrightarrow> y \<in> set ys \<Longrightarrow> orders_like f c x y) \<Longrightarrow> orders_like (terminated f) (list_cmp c) xs ys"
proof (induction c xs ys rule: list_cmp.induct)
  case (4 c x xs y ys)
  then have "orders_like f c x y" "orders_like (terminated f) (list_cmp c) xs ys" by simp_all
  then show ?case by (intro orders_likeI) (simp add: orders_likeD then_with_assoc)
qed (auto intro!: orders_likeI simp: cmp_of_def)

lemma singleton_orders: "orders_like (\<lambda>b. [b]) cmp_of a b"
  by (simp add: orders_like_def)

lemma comparison_sequence_terminated: "comparison_sequence bs = terminated (\<lambda>b. [b]) bs"
  by (simp add: comparison_sequence_def terminated_def)

lemma comparison_sequence_orders: "orders_like comparison_sequence bytes_cmp a b"
  using terminated_orders [of a b "\<lambda>b. [b]" cmp_of] singleton_orders
  by (simp add: orders_like_def comparison_sequence_terminated bytes_cmp_def)

lemma cmp_of_div_mod: "then_with (cmp_of (a div 256) (b div 256)) (cmp_of (a mod 256) (b mod 256)) = cmp_of a (b :: nat)"
proof (cases "a div 256" "b div 256" rule: linorder_cases)
  case less
  then have "a < b" by (metis div_le_mono not_less)
  with less show ?thesis by (simp add: cmp_of_def)
next
  case equal
  then have "a mod 256 < b mod 256 \<longleftrightarrow> a < b" "a mod 256 = b mod 256 \<longleftrightarrow> a = b"
    by (metis add_less_cancel_left div_mult_mod_eq, metis div_mult_mod_eq)
  with equal show ?thesis by (simp add: cmp_of_def)
next
  case greater
  then have "b < a" by (metis div_le_mono not_less)
  with greater show ?thesis by (simp add: cmp_of_def)
qed

lemma be_bytes_orders: "a < 256 ^ n \<Longrightarrow> b < 256 ^ n \<Longrightarrow> orders_like (be_bytes n) cmp_of a b"
proof (induction n arbitrary: a b)
  case (Suc n)
  have "a div 256 < 256 ^ n" "b div 256 < 256 ^ n"
    using Suc.prems by (simp_all add: less_mult_imp_div_less mult.commute)
  then have "orders_like (be_bytes n) cmp_of (a div 256) (b div 256)" by (rule Suc.IH)
  then show ?case
    by (intro orders_likeI) (simp add: orders_likeD then_with_assoc [symmetric] cmp_of_div_mod)
qed (simp add: orders_like_def)

lemma exp_bit_disjoint: "(v :: nat) < 2 ^ n \<Longrightarrow> v XOR 2 ^ n = v + 2 ^ n"
proof -
  assume v: "v < 2 ^ n"
  have "\<not> bit v n" using v by (simp add: bit_iff_odd)
  then show ?thesis by (intro disjunctive_add_eq_xor [symmetric] bit_eqI) (auto simp: bit_simps)
qed

lemma exp_bit_cancel: "(v :: nat) < 2 ^ n \<Longrightarrow> (v + 2 ^ n) XOR 2 ^ n = v"
  by (simp add: exp_bit_disjoint [symmetric] xor.assoc)

lemma sign_bit_set: "v < 9223372036854775808 \<Longrightarrow> v XOR sign_bit = v + 9223372036854775808"
  using exp_bit_disjoint [of v 63] by (simp add: sign_bit_def)

lemma sign_bit_clear: "v < 9223372036854775808 \<Longrightarrow> (v + 9223372036854775808) XOR sign_bit = v"
  using exp_bit_cancel [of v 63] by (simp add: sign_bit_def)

lemma ordered_integer_value: "i64_ok v \<Longrightarrow> ordered_integer v = nat (v + 9223372036854775808)"
proof (cases "0 \<le> v")
  case True
  assume ok: "i64_ok v"
  then have "i64_bits v = nat v" "nat v < 9223372036854775808"
    using True by (simp_all add: i64_bits_def i64_ok_def i64_max_def nat_less_iff)
  then show ?thesis using True by (simp add: ordered_integer_def sign_bit_set nat_add_distrib)
next
  case False
  assume ok: "i64_ok v"
  then have range: "- 9223372036854775808 \<le> v" by (simp add: i64_ok_def i64_min_def)
  then have low: "nat (v + 9223372036854775808) < 9223372036854775808" using False by linarith
  have "i64_bits v = nat (v + 18446744073709551616)" using ok False by (simp add: i64_bits_def i64_negative_mod)
  also have "\<dots> = nat (v + 9223372036854775808) + 9223372036854775808" using range by linarith
  finally show ?thesis by (simp add: ordered_integer_def sign_bit_clear [OF low])
qed

lemma sign_bit_test: "bits \<le> u64_max \<Longrightarrow> bits AND sign_bit = 0 \<longleftrightarrow> bits < 9223372036854775808"
proof (cases "bits < 9223372036854775808")
  case False
  assume "bits \<le> u64_max"
  then have "bits div 9223372036854775808 = 1" using False by (intro div_nat_eqI) (simp_all add: u64_max_def)
  then show ?thesis using False and_exp_eq_0_iff_not_bit [of bits 63] by (simp add: sign_bit_def bit_iff_odd)
qed (use and_exp_eq_0_iff_not_bit [of bits 63] in \<open>simp add: sign_bit_def bit_iff_odd\<close>)

lemma flip_low_bits:
  fixes low :: int
  assumes "0 \<le> low" "low < 2 ^ n"
  shows "(low - 2 ^ n) XOR mask n = NOT low"
proof -
  have high: "m < n" if "bit low m" for m
    using assms that by (metis bit_take_bit_iff take_bit_int_eq_self_iff)
  have "low - 2 ^ n = low + NOT (mask n)" by (simp add: minus_exp_eq_not_mask [symmetric])
  also have "\<dots> = low OR NOT (mask n)"
    by (rule disjunctive_add_eq_or, rule bit_eqI) (auto simp: bit_simps dest: high)
  finally show ?thesis by (auto intro!: bit_eqI simp: bit_simps dest: high)
qed

lemma total_cmp_key_negative:
  assumes "\<not> bits < 9223372036854775808" "bits \<le> u64_max"
  shows "total_cmp_key bits = 9223372036854775807 - int bits"
proof -
  define low where "low = int bits - 9223372036854775808"
  have low: "0 \<le> low" "low < 2 ^ 63" using assms by (simp_all add: low_def u64_max_def)
  have "i64_from_bits bits = low - 2 ^ 63" using assms(1) by (simp add: i64_from_bits_def low_def)
  then have "total_cmp_key bits = NOT low"
    using flip_low_bits [OF low] low by (simp add: total_cmp_key_def mask_eq_exp_minus_1)
  then show ?thesis by (simp add: not_int_def low_def)
qed

lemma total_cmp_key_positive: "bits < 9223372036854775808 \<Longrightarrow> total_cmp_key bits = int bits"
  by (simp add: total_cmp_key_def i64_from_bits_def)

lemma total_cmp_key_range: "bits \<le> u64_max \<Longrightarrow> - 9223372036854775808 \<le> total_cmp_key bits"
  by (cases "bits < 9223372036854775808") (simp_all add: total_cmp_key_positive total_cmp_key_negative u64_max_def)

lemma ordered_float_value: "bits \<le> u64_max \<Longrightarrow> ordered_float bits = nat (total_cmp_key bits + 9223372036854775808)"
proof (cases "bits < 9223372036854775808")
  case True
  assume "bits \<le> u64_max"
  with True show ?thesis
    by (simp add: ordered_float_def sign_bit_test sign_bit_set total_cmp_key_positive nat_add_distrib)
next
  case False
  assume ok: "bits \<le> u64_max"
  then have "nat (total_cmp_key bits + 9223372036854775808) = u64_max - bits"
    using False by (simp add: total_cmp_key_negative u64_max_def nat_eq_iff of_nat_diff)
  then show ?thesis using False ok by (simp add: ordered_float_def sign_bit_test)
qed

section \<open>The order of the encodings is the order of the values\<close>

fun markers_use :: "marker_action \<Rightarrow> validated_value \<Rightarrow> bool" where
  "markers_use act (V_Array vs) \<longleftrightarrow> (\<forall>v \<in> set vs. markers_use act v)"
| "markers_use act (V_KeyValueList es) \<longleftrightarrow> (\<forall>e \<in> set es. markers_use act (snd e))"
| "markers_use act (V_Marker m) \<longleftrightarrow> marker_act m = act"
| "markers_use act (V_Truncated v _) \<longleftrightarrow> markers_use act v"
| "markers_use act _ \<longleftrightarrow> True"

lemma value_cmp_truncated [simp]:
  "value_cmp (V_Truncated v act) b = value_cmp v b"
  "\<not> is_truncated a \<Longrightarrow> value_cmp a (V_Truncated w act) = value_cmp a w"
  by (subst value_cmp.simps, simp) (subst value_cmp.simps, cases a, simp_all)

lemma value_cmp_mixed:
  "\<not> is_truncated a \<Longrightarrow> \<not> is_truncated b \<Longrightarrow> value_kind a \<noteq> value_kind b \<Longrightarrow>
   value_cmp a b = cmp_of (value_kind a) (value_kind b)"
  by (subst value_cmp.simps) (cases a; cases b; simp)

lemma value_cmp_same [simp]:
  "value_cmp V_Null V_Null = Equal"
  "value_cmp (V_Boolean p) (V_Boolean q) = cmp_of p q"
  "value_cmp (V_SignedInteger i) (V_SignedInteger j) = cmp_of i j"
  "value_cmp (V_FloatingPointBits m) (V_FloatingPointBits n) = total_cmp m n"
  "value_cmp (V_String s) (V_String t) = bytes_cmp s t"
  "value_cmp (V_Bytes s) (V_Bytes t) = bytes_cmp s t"
  "value_cmp (V_Array vs) (V_Array ws) = list_cmp value_cmp vs ws"
  "value_cmp (V_KeyValueList es) (V_KeyValueList fs) =
     list_cmp (\<lambda>l r. then_with (bytes_cmp (fst l) (fst r)) (value_cmp (snd l) (snd r))) es fs"
  "value_cmp (V_Marker x) (V_Marker y) = marker_cmp x y"
  by (subst value_cmp.simps, simp)+

lemma comparison_encoding_head: "\<exists>rest. comparison_encoding v = kind_rank (value_kind v) # rest"
  by (induction v) simp_all

lemma cmp_of_kind: "cmp_of (kind_rank a) (kind_rank b) = cmp_of a b"
  by (simp add: cmp_of_def less_attribute_value_kind_def kind_rank_inject)

lemma mixed_orders:
  assumes "\<not> is_truncated a" "\<not> is_truncated b" "value_kind a \<noteq> value_kind b"
  shows "orders_like comparison_encoding value_cmp a b"
proof -
  obtain r t where "comparison_encoding a = kind_rank (value_kind a) # r"
    "comparison_encoding b = kind_rank (value_kind b) # t" using comparison_encoding_head by metis
  moreover have "cmp_of (value_kind a) (value_kind b) \<noteq> Equal" using assms(3) by simp
  ultimately show ?thesis
    by (intro orders_likeI) (simp add: value_cmp_mixed assms cmp_of_kind then_with_def)
qed

lemma marker_tag_rank: "marker_is_valid m \<Longrightarrow> comparison_native_kind_tag (original_kind m) = kind_rank (original_kind m)"
  by (cases "original_kind m") (simp_all add: marker_is_valid_def)

lemma cmp_of_nat_int: "- c \<le> a \<Longrightarrow> - c \<le> b \<Longrightarrow> cmp_of (nat (a + c)) (nat (b + c)) = cmp_of a b"
  by (auto simp: cmp_of_def)

lemma integer_orders:
  assumes "i64_ok i" "i64_ok j"
  shows "bytes_cmp (be_bytes 8 (ordered_integer i) @ u) (be_bytes 8 (ordered_integer j) @ w) =
         then_with (cmp_of i j) (bytes_cmp u w)"
proof -
  have "orders_like (be_bytes 8) cmp_of (ordered_integer i) (ordered_integer j)"
    using assms by (intro be_bytes_orders) (simp_all add: ordered_integer_value i64_ok_def i64_min_def i64_max_def nat_less_iff)
  moreover have "cmp_of (ordered_integer i) (ordered_integer j) = cmp_of i j"
    using assms by (simp add: ordered_integer_value cmp_of_nat_int i64_ok_def i64_min_def)
  ultimately show ?thesis by (simp add: orders_likeD)
qed

lemma float_orders:
  assumes "m \<le> u64_max" "n \<le> u64_max"
  shows "bytes_cmp (be_bytes 8 (ordered_float m) @ u) (be_bytes 8 (ordered_float n) @ w) =
         then_with (total_cmp m n) (bytes_cmp u w)"
proof -
  have "ordered_float k < 256 ^ 8" if "k \<le> u64_max" for k
    using that by (auto simp: ordered_float_def sign_bit_test sign_bit_set u64_max_def)
  then have "orders_like (be_bytes 8) cmp_of (ordered_float m) (ordered_float n)"
    using assms by (intro be_bytes_orders) simp_all
  moreover have "cmp_of (ordered_float m) (ordered_float n) = total_cmp m n"
    using assms by (simp add: ordered_float_value cmp_of_nat_int total_cmp_key_range total_cmp_def)
  ultimately show ?thesis by (simp add: orders_likeD)
qed

lemma array_orders:
  assumes "\<And>v w. v \<in> set vs \<Longrightarrow> w \<in> set ws \<Longrightarrow> orders_like comparison_encoding value_cmp v w"
  shows "orders_like comparison_encoding value_cmp (V_Array vs) (V_Array ws)"
  using terminated_orders [of vs ws comparison_encoding value_cmp, OF assms]
  by (simp add: orders_like_def terminated_def)

lemma entries_order:
  assumes "\<And>e f. e \<in> set es \<Longrightarrow> f \<in> set fs \<Longrightarrow> orders_like comparison_encoding value_cmp (snd e) (snd f)"
  shows "orders_like comparison_encoding value_cmp (V_KeyValueList es) (V_KeyValueList fs)"
proof -
  let ?f = "\<lambda>e. comparison_sequence (fst e) @ comparison_encoding (snd e)"
  let ?c = "\<lambda>l r. then_with (bytes_cmp (fst l) (fst r)) (value_cmp (snd l) (snd r))"
  have "orders_like ?f ?c e f" if "e \<in> set es" "f \<in> set fs" for e f
    using orders_like_pair [OF comparison_sequence_orders assms [OF that]] by (intro orders_likeI)
  then have "orders_like (terminated ?f) (list_cmp ?c) es fs" by (rule terminated_orders)
  then show ?thesis by (simp add: orders_like_def terminated_def)
qed

lemma marker_orders:
  assumes "marker_is_valid x" "marker_is_valid y" "marker_act x = marker_act y"
  shows "orders_like comparison_encoding value_cmp (V_Marker x) (V_Marker y)"
  by (intro orders_likeI) (simp add: assms marker_tag_rank marker_cmp_def cmp_of_kind)

lemma scalar_orders:
  "orders_like comparison_encoding value_cmp V_Null V_Null"
  "orders_like comparison_encoding value_cmp (V_Boolean p) (V_Boolean q)"
  "i64_ok i \<Longrightarrow> i64_ok j \<Longrightarrow> orders_like comparison_encoding value_cmp (V_SignedInteger i) (V_SignedInteger j)"
  "m \<le> u64_max \<Longrightarrow> n \<le> u64_max \<Longrightarrow>
   orders_like comparison_encoding value_cmp (V_FloatingPointBits m) (V_FloatingPointBits n)"
  "orders_like comparison_encoding value_cmp (V_String s) (V_String t)"
  "orders_like comparison_encoding value_cmp (V_Bytes s) (V_Bytes t)"
  by (intro orders_likeI; (cases p; cases q)?;
      simp add: integer_orders float_orders orders_likeD [OF comparison_sequence_orders] cmp_of_def)+

lemma comparison_orders:
  "value_ok a \<Longrightarrow> value_ok b \<Longrightarrow> markers_use act a \<Longrightarrow> markers_use act b \<Longrightarrow>
   orders_like comparison_encoding value_cmp a b"
proof (induction "size a + size b" arbitrary: a b rule: less_induct)
  case less
  consider (left) v t where "a = V_Truncated v t" | (right) w t where "\<not> is_truncated a" "b = V_Truncated w t"
    | (mixed) "\<not> is_truncated a" "\<not> is_truncated b" "value_kind a \<noteq> value_kind b"
    | (same) "\<not> is_truncated a" "\<not> is_truncated b" "value_kind a = value_kind b"
    by (cases "is_truncated a"; cases "is_truncated b") (auto elim!: is_truncated.elims)
  then show ?case
  proof cases
    case left
    then show ?thesis using less.hyps [of v b] less.prems by (simp add: orders_like_def)
  next
    case right
    then show ?thesis using less.hyps [of a w] less.prems by (simp add: orders_like_def)
  next
    case mixed
    then show ?thesis by (rule mixed_orders)
  next
    case same
    have arrays: "orders_like comparison_encoding value_cmp a b" if "a = V_Array vs" "b = V_Array ws" for vs ws
      using less.prems array_child_size unfolding that
      by (intro array_orders less.hyps) (fastforce simp: that dest: array_child_size)+
    have entries: "orders_like comparison_encoding value_cmp a b"
      if "a = V_KeyValueList es" "b = V_KeyValueList fs" for es fs
      using less.prems unfolding that
      by (intro entries_order less.hyps) (fastforce simp: that dest: entry_child_size)+
    show ?thesis
      using same less.prems arrays entries
      by (cases a; cases b) (auto intro: scalar_orders marker_orders)
  qed
qed

section \<open>The size announced for an encoding\<close>

lemma for_fold_sizes:
  assumes "for_fold f b xs = Inr n" "\<And>c x m. x \<in> set xs \<Longrightarrow> f c x = Inr m \<Longrightarrow> m = c + length (g x)"
  shows "n = b + length (concat (map g xs))"
  using assms
proof (induction xs arbitrary: b)
  case (Cons x xs)
  from Cons.prems(1) obtain m where m: "f b x = Inr m" "for_fold f m xs = Inr n" by auto
  then have "n = m + length (concat (map g xs))" using Cons.prems(2) by (intro Cons.IH) auto
  then show ?case using Cons.prems(2) [OF _ m(1)] by simp
qed simp

lemma length_comparison_sequence: "length (comparison_sequence bs) = 2 * length bs + 1"
  by (induction bs) (simp_all add: comparison_sequence_def)

lemma comparison_size_exact: "comparison_encoded_size_bytes v = Inr n \<Longrightarrow> n = length (comparison_encoding v)"
proof (induction v arbitrary: n)
  case (V_Array vs)
  have "n = 2 + length (concat (map (\<lambda>v. 1 # comparison_encoding v) vs))"
    using V_Array.prems unfolding comparison_encoded_size_bytes.simps
    by (rule for_fold_sizes) (auto simp: checked_decoded_add_def dest: V_Array.IH)
  then show ?case by simp
next
  case (V_KeyValueList es)
  have "n = 2 + length (concat (map (\<lambda>e. 1 # comparison_sequence (fst e) @ comparison_encoding (snd e)) es))"
    using V_KeyValueList.prems unfolding comparison_encoded_size_bytes.simps
    by (rule for_fold_sizes)
      (auto simp: checked_decoded_add_def comparison_bare_sequence_size_def length_comparison_sequence checked_mul_def
        split: if_splits dest!: V_KeyValueList.IH [rotated -1])
  then show ?case by simp
qed (auto simp: comparison_sequence_size_def comparison_bare_sequence_size_def checked_decoded_add_def
    length_comparison_sequence checked_mul_def split: if_splits)

end
