(* ===== verification/Observe.thy ===== *)
theory Observe
  imports Values
begin

text \<open>
  Observed traversals of native values (\<^verbatim>\<open>value/observed.rs\<close>, \<^verbatim>\<open>value/observed_encoding.rs\<close>): a
  caller's observer is told of every structural step and every payload chunk, and may stop
  the traversal. A traversal threads the state of its observer; a failure ends it.
\<close>

section \<open>Observers\<close>

definition NATIVE_VALUE_PAYLOAD_CHUNK_BYTES :: usize where "NATIVE_VALUE_PAYLOAD_CHUNK_BYTES = 1024"

datatype 'e observed_value_failure = Domain_Failure domain_failure | Observer_Failure 'e

text \<open>The trait \<open>NativeValueObserver\<close>: its methods on the observer's state.\<close>

record ('s, 'e) observer =
  ob_structure :: "'s \<Rightarrow> ('e + unit) \<times> 's"
  ob_payload :: "bytes \<Rightarrow> 's \<Rightarrow> ('e + unit) \<times> 's"
  ob_allocate :: "usize \<Rightarrow> 's \<Rightarrow> ('e + unit) \<times> 's"
  ob_release :: "usize \<Rightarrow> 's \<Rightarrow> ('e + unit) \<times> 's"

definition unobserved :: "('s, 'e) observer" where
  "unobserved =
     \<lparr> ob_structure = (\<lambda>s. (Inr (), s)), ob_payload = (\<lambda>_ s. (Inr (), s)), ob_allocate = (\<lambda>_ s. (Inr (), s)),
       ob_release = (\<lambda>_ s. (Inr (), s)) \<rparr>"

type_synonym ('s, 'e, 'a) observed = "'s \<Rightarrow> ('e observed_value_failure + 'a) \<times> 's"

definition obs_return :: "'a \<Rightarrow> ('s, 'e, 'a) observed" where
  "obs_return a s = (Inr a, s)"

definition obs_fail :: "'e observed_value_failure \<Rightarrow> ('s, 'e, 'a) observed" where
  "obs_fail e s = (Inl e, s)"

definition obs_bind :: "('s, 'e, 'a) observed \<Rightarrow> ('a \<Rightarrow> ('s, 'e, 'b) observed) \<Rightarrow> ('s, 'e, 'b) observed" where
  "obs_bind m k s = (case m s of (Inl e, s') \<Rightarrow> (Inl e, s') | (Inr a, s') \<Rightarrow> k a s')"

text \<open>A call of the observer, and a result of the domain inside a traversal.\<close>

definition obs_call :: "('s \<Rightarrow> ('e + unit) \<times> 's) \<Rightarrow> ('s, 'e, unit) observed" where
  "obs_call f s = (case f s of (Inl e, s') \<Rightarrow> (Inl (Observer_Failure e), s') | (Inr u, s') \<Rightarrow> (Inr u, s'))"

definition obs_domain :: "domain_failure + 'a \<Rightarrow> ('s, 'e, 'a) observed" where
  "obs_domain r = (case r of Inl e \<Rightarrow> obs_fail (Domain_Failure e) | Inr a \<Rightarrow> obs_return a)"

fun obs_fold :: "('b \<Rightarrow> 'a \<Rightarrow> ('s, 'e, 'b) observed) \<Rightarrow> 'b \<Rightarrow> 'a list \<Rightarrow> ('s, 'e, 'b) observed" where
  "obs_fold f b [] = obs_return b"
| "obs_fold f b (x # xs) = obs_bind (f b x) (\<lambda>c. obs_fold f c xs)"

lemma obs_fold_cong [fundef_cong]:
  "xs = ys \<Longrightarrow> b = c \<Longrightarrow> (\<And>a y. y \<in> set ys \<Longrightarrow> f a y = g a y) \<Longrightarrow> obs_fold f b xs = obs_fold g c ys"
proof (induction ys arbitrary: xs b c)
  case (Cons y ys)
  have "obs_fold f d ys = obs_fold g d ys" for d using Cons.prems by (intro Cons.IH) auto
  then show ?case using Cons.prems by (simp add: obs_bind_def fun_eq_iff split: sum.splits prod.splits)
qed simp

definition observe_structure :: "('s, 'e) observer \<Rightarrow> ('s, 'e, unit) observed" where
  "observe_structure ob = obs_call (ob_structure ob)"

function chunks :: "nat \<Rightarrow> 'a list \<Rightarrow> 'a list list" where
  "chunks n xs = (if n = 0 \<or> xs = [] then [] else take n xs # chunks n (drop n xs))"
  by auto
termination by (relation "measure (\<lambda>(n, xs). length xs)") auto

declare chunks.simps [simp del]

definition observe_payload :: "('s, 'e) observer \<Rightarrow> bytes \<Rightarrow> ('s, 'e, unit) observed" where
  "observe_payload ob payload =
     obs_fold (\<lambda>_ chunk. obs_call (ob_payload ob chunk)) () (chunks NATIVE_VALUE_PAYLOAD_CHUNK_BYTES payload)"

definition observed_add :: "usize \<Rightarrow> usize \<Rightarrow> ('s, 'e, usize) observed" where
  "observed_add left right = obs_domain (checked_decoded_add left right)"

lemma obs_bind_Inr [simp]:
  "obs_bind m k s = (Inr b, t) \<longleftrightarrow> (\<exists>a s'. m s = (Inr a, s') \<and> k a s' = (Inr b, t))"
  by (auto simp: obs_bind_def split: prod.splits sum.splits)

lemma obs_bind_Inl:
  "obs_bind m k s = (Inl e, t) \<longleftrightarrow> m s = (Inl e, t) \<or> (\<exists>a s'. m s = (Inr a, s') \<and> k a s' = (Inl e, t))"
  by (auto simp: obs_bind_def split: prod.splits sum.splits)

lemma obs_return_iff [simp]: "obs_return a s = (r, t) \<longleftrightarrow> r = Inr a \<and> t = s"
  by (auto simp: obs_return_def)

lemma obs_fail_iff [simp]: "obs_fail e s = (r, t) \<longleftrightarrow> r = Inl e \<and> t = s"
  by (auto simp: obs_fail_def)

lemma obs_domain_iff [simp]:
  "obs_domain r s = (Inr a, t) \<longleftrightarrow> r = Inr a \<and> t = s"
  "obs_domain r s = (Inl e, t) \<longleftrightarrow> (\<exists>d. r = Inl d \<and> e = Domain_Failure d) \<and> t = s"
  by (cases r; auto simp: obs_domain_def)+

section \<open>Observed sizes\<close>

fun decoded_size_bytes_observed :: "('s, 'e) observer \<Rightarrow> validated_value \<Rightarrow> ('s, 'e, usize) observed" where
  "decoded_size_bytes_observed ob V_Null = obs_bind (observe_structure ob) (\<lambda>_. obs_return 0)"
| "decoded_size_bytes_observed ob (V_Marker _) = obs_bind (observe_structure ob) (\<lambda>_. obs_return 0)"
| "decoded_size_bytes_observed ob (V_Boolean _) = obs_bind (observe_structure ob) (\<lambda>_. obs_return 1)"
| "decoded_size_bytes_observed ob (V_SignedInteger _) = obs_bind (observe_structure ob) (\<lambda>_. obs_return 8)"
| "decoded_size_bytes_observed ob (V_FloatingPointBits _) = obs_bind (observe_structure ob) (\<lambda>_. obs_return 8)"
| "decoded_size_bytes_observed ob (V_String value) =
     obs_bind (observe_structure ob) (\<lambda>_.
     obs_bind (observe_payload ob value) (\<lambda>_. obs_return (length value)))"
| "decoded_size_bytes_observed ob (V_Bytes value) =
     obs_bind (observe_structure ob) (\<lambda>_.
     obs_bind (observe_payload ob value) (\<lambda>_. obs_return (length value)))"
| "decoded_size_bytes_observed ob (V_Array values) =
     obs_bind (observe_structure ob) (\<lambda>_.
     obs_fold (\<lambda>so_far value.
       obs_bind (decoded_size_bytes_observed ob value) (observed_add so_far)) 0 values)"
| "decoded_size_bytes_observed ob (V_KeyValueList values) =
     obs_bind (observe_structure ob) (\<lambda>_.
     obs_fold (\<lambda>so_far entry.
       obs_bind (observe_structure ob) (\<lambda>_.
       obs_bind (observe_payload ob (fst entry)) (\<lambda>_.
       obs_bind (observed_add so_far (length (fst entry))) (\<lambda>so_far.
       obs_bind (decoded_size_bytes_observed ob (snd entry)) (observed_add so_far))))) 0 values)"
| "decoded_size_bytes_observed ob (V_Truncated value _) =
     obs_bind (observe_structure ob) (\<lambda>_. decoded_size_bytes_observed ob value)"

definition canonical_prefix_size :: "usize \<Rightarrow> domain_failure + usize" where
  "canonical_prefix_size n = (case try_from u64_max n of None \<Rightarrow> Inl value_limit_exceeded | Some _ \<Rightarrow> Inr 9)"

definition canonical_sequence_size :: "usize \<Rightarrow> domain_failure + usize" where
  "canonical_sequence_size payload =
     and_then (canonical_prefix_size payload) (\<lambda>prefix. checked_decoded_add prefix payload)"

fun canonical_encoded_size_bytes_observed ::
  "('s, 'e) observer \<Rightarrow> validated_value \<Rightarrow> ('s, 'e, usize) observed" where
  "canonical_encoded_size_bytes_observed ob V_Null = obs_bind (observe_structure ob) (\<lambda>_. obs_return 1)"
| "canonical_encoded_size_bytes_observed ob (V_Boolean _) = obs_bind (observe_structure ob) (\<lambda>_. obs_return 2)"
| "canonical_encoded_size_bytes_observed ob (V_SignedInteger _) = obs_bind (observe_structure ob) (\<lambda>_. obs_return 9)"
| "canonical_encoded_size_bytes_observed ob (V_FloatingPointBits _) = obs_bind (observe_structure ob) (\<lambda>_. obs_return 9)"
| "canonical_encoded_size_bytes_observed ob (V_Marker _) = obs_bind (observe_structure ob) (\<lambda>_. obs_return 3)"
| "canonical_encoded_size_bytes_observed ob (V_Truncated value _) =
     obs_bind (observe_structure ob) (\<lambda>_.
     obs_bind (canonical_encoded_size_bytes_observed ob value) (observed_add 3))"
| "canonical_encoded_size_bytes_observed ob (V_String value) =
     obs_bind (observe_structure ob) (\<lambda>_.
     obs_bind (observe_payload ob value) (\<lambda>_. obs_domain (canonical_sequence_size (length value))))"
| "canonical_encoded_size_bytes_observed ob (V_Bytes value) =
     obs_bind (observe_structure ob) (\<lambda>_.
     obs_bind (observe_payload ob value) (\<lambda>_. obs_domain (canonical_sequence_size (length value))))"
| "canonical_encoded_size_bytes_observed ob (V_Array values) =
     obs_bind (observe_structure ob) (\<lambda>_.
     obs_bind (obs_domain (canonical_prefix_size (length values))) (\<lambda>prefix.
     obs_fold (\<lambda>so_far value.
       obs_bind (canonical_encoded_size_bytes_observed ob value) (observed_add so_far)) prefix values))"
| "canonical_encoded_size_bytes_observed ob (V_KeyValueList values) =
     obs_bind (observe_structure ob) (\<lambda>_.
     obs_bind (obs_domain (canonical_prefix_size (length values))) (\<lambda>prefix.
     obs_fold (\<lambda>so_far entry.
       obs_bind (observe_structure ob) (\<lambda>_.
       obs_bind (observe_payload ob (fst entry)) (\<lambda>_.
       obs_bind (observed_add so_far 8) (\<lambda>so_far.
       obs_bind (observed_add so_far (length (fst entry))) (\<lambda>so_far.
       obs_bind (canonical_encoded_size_bytes_observed ob (snd entry)) (observed_add so_far)))))) prefix values))"

section \<open>The canonical encoding\<close>

text \<open>
  The visitor appends the bytes it is given: the state of a visiting traversal is the
  observer's state and the bytes visited so far.
\<close>

definition visiting :: "('s, 'e, 'a) observed \<Rightarrow> ('s \<times> bytes, 'e, 'a) observed" where
  "visiting m so = (case m (fst so) of (r, s') \<Rightarrow> (r, (s', snd so)))"

definition visit :: "bytes \<Rightarrow> ('s \<times> bytes, 'e, unit) observed" where
  "visit bs so = (Inr (), (fst so, snd so @ bs))"

definition visit_length :: "usize \<Rightarrow> ('s \<times> bytes, 'e, unit) observed" where
  "visit_length n =
     (case try_from u64_max n of None \<Rightarrow> obs_fail (Domain_Failure value_limit_exceeded)
      | Some n \<Rightarrow> visit (be_bytes 8 n))"

definition visit_observed_payload :: "('s, 'e) observer \<Rightarrow> bytes \<Rightarrow> ('s \<times> bytes, 'e, unit) observed" where
  "visit_observed_payload ob payload =
     obs_fold (\<lambda>_ chunk. obs_bind (visiting (obs_call (ob_payload ob chunk))) (\<lambda>_. visit chunk)) ()
       (chunks NATIVE_VALUE_PAYLOAD_CHUNK_BYTES payload)"

fun native_kind_tag :: "attribute_value_kind \<Rightarrow> domain_failure + u8" where
  "native_kind_tag Kind_Marker = Inl value_limit_exceeded"
| "native_kind_tag kind = Inr (kind_rank kind)"

fun visit_canonical_encoding_observed ::
  "('s, 'e) observer \<Rightarrow> validated_value \<Rightarrow> ('s \<times> bytes, 'e, unit) observed" where
  "visit_canonical_encoding_observed ob V_Null =
     obs_bind (visiting (observe_structure ob)) (\<lambda>_. visit [0])"
| "visit_canonical_encoding_observed ob (V_Boolean value) =
     obs_bind (visiting (observe_structure ob)) (\<lambda>_. visit [1, of_bool value])"
| "visit_canonical_encoding_observed ob (V_SignedInteger value) =
     obs_bind (visiting (observe_structure ob)) (\<lambda>_.
     obs_bind (visit [2]) (\<lambda>_. visit (i64_be_bytes value)))"
| "visit_canonical_encoding_observed ob (V_FloatingPointBits value) =
     obs_bind (visiting (observe_structure ob)) (\<lambda>_.
     obs_bind (visit [3]) (\<lambda>_. visit (be_bytes 8 value)))"
| "visit_canonical_encoding_observed ob (V_String value) =
     obs_bind (visiting (observe_structure ob)) (\<lambda>_.
     obs_bind (visit [4]) (\<lambda>_.
     obs_bind (visit_length (length value)) (\<lambda>_. visit_observed_payload ob value)))"
| "visit_canonical_encoding_observed ob (V_Bytes value) =
     obs_bind (visiting (observe_structure ob)) (\<lambda>_.
     obs_bind (visit [5]) (\<lambda>_.
     obs_bind (visit_length (length value)) (\<lambda>_. visit_observed_payload ob value)))"
| "visit_canonical_encoding_observed ob (V_Array values) =
     obs_bind (visiting (observe_structure ob)) (\<lambda>_.
     obs_bind (visit [6]) (\<lambda>_.
     obs_bind (visit_length (length values)) (\<lambda>_.
     obs_fold (\<lambda>_ value. visit_canonical_encoding_observed ob value) () values)))"
| "visit_canonical_encoding_observed ob (V_KeyValueList values) =
     obs_bind (visiting (observe_structure ob)) (\<lambda>_.
     obs_bind (visit [7]) (\<lambda>_.
     obs_bind (visit_length (length values)) (\<lambda>_.
     obs_fold (\<lambda>_ entry.
       obs_bind (visiting (observe_structure ob)) (\<lambda>_.
       obs_bind (visit_length (length (fst entry))) (\<lambda>_.
       obs_bind (visit_observed_payload ob (fst entry)) (\<lambda>_.
       visit_canonical_encoding_observed ob (snd entry))))) () values)))"
| "visit_canonical_encoding_observed ob (V_Marker marker) =
     obs_bind (visiting (observe_structure ob)) (\<lambda>_.
     obs_bind (obs_domain (native_kind_tag (original_kind marker))) (\<lambda>tag.
     visit [8, marker_action_tag (marker_act marker), tag]))"
| "visit_canonical_encoding_observed ob (V_Truncated value action) =
     obs_bind (visiting (observe_structure ob)) (\<lambda>_.
     obs_bind (obs_domain (native_kind_tag (value_kind value))) (\<lambda>tag.
     obs_bind (visit [8, marker_action_tag action, tag]) (\<lambda>_.
     visit_canonical_encoding_observed ob value)))"

text \<open>
  The unobserved entry points: \<open>remove_observation\<close> unwraps the failures, \<open>append\<close> reserves the
  announced size first. The allocator's answer is an argument.
\<close>

definition remove_observation :: "('e observed_value_failure + 'a) \<times> 's \<Rightarrow> ('e \<Rightarrow> domain_failure) \<Rightarrow> domain_failure + 'a" where
  "remove_observation result never =
     (case fst result of
        Inr value \<Rightarrow> Inr value
      | Inl (Domain_Failure failure) \<Rightarrow> Inl failure
      | Inl (Observer_Failure e) \<Rightarrow> Inl (never e))"

definition canonical_encoded_size_bytes :: "validated_value \<Rightarrow> domain_failure + usize" where
  "canonical_encoded_size_bytes self =
     remove_observation (canonical_encoded_size_bytes_observed (unobserved :: (unit, domain_failure) observer) self ()) id"

definition append_canonical_encoding ::
  "bool \<Rightarrow> validated_value \<Rightarrow> bytes \<Rightarrow> (domain_failure + unit) \<times> bytes" where
  "append_canonical_encoding reserved self output =
     (case canonical_encoded_size_bytes self of
        Inl e \<Rightarrow> (Inl e, output)
      | Inr encoded \<Rightarrow>
          if \<not> reserved then (Inl allocation_unavailable, output)
          else let result = visit_canonical_encoding_observed
                              (unobserved :: (unit, domain_failure) observer) self ((), output)
               in (remove_observation result id, snd (snd result)))"

end
