(* ===== verification/Canonical.thy ===== *)
theory Canonical
  imports Observe
begin

text \<open>
  The canonical encoding of a validated value as a byte string, and what the observed
  traversals of \<^verbatim>\<open>Observe\<close> emit: every complete traversal emits exactly these bytes, whatever
  its observer, and the byte strings form a prefix code, so the encoding is self-delimiting.
\<close>

section \<open>The bytes\<close>

fun canonical_bytes :: "validated_value \<Rightarrow> bytes" where
  "canonical_bytes V_Null = [0]"
| "canonical_bytes (V_Boolean value) = [1, of_bool value]"
| "canonical_bytes (V_SignedInteger value) = 2 # i64_be_bytes value"
| "canonical_bytes (V_FloatingPointBits value) = 3 # be_bytes 8 value"
| "canonical_bytes (V_String value) = 4 # be_bytes 8 (length value) @ value"
| "canonical_bytes (V_Bytes value) = 5 # be_bytes 8 (length value) @ value"
| "canonical_bytes (V_Array values) = 6 # be_bytes 8 (length values) @ concat (map canonical_bytes values)"
| "canonical_bytes (V_KeyValueList values) =
     7 # be_bytes 8 (length values) @
     concat (map (\<lambda>e. be_bytes 8 (length (fst e)) @ fst e @ canonical_bytes (snd e)) values)"
| "canonical_bytes (V_Marker m) = [8, marker_action_tag (marker_act m), kind_rank (original_kind m)]"
| "canonical_bytes (V_Truncated value act) =
     [8, marker_action_tag act, kind_rank (value_kind value)] @ canonical_bytes value"

section \<open>What a traversal emits\<close>

lemma concat_chunks: "n \<noteq> 0 \<Longrightarrow> concat (chunks n xs) = xs"
  by (induction n xs rule: chunks.induct) (subst chunks.simps, simp)

lemma visiting_Inr [simp]: "visiting m so = (Inr a, t) \<longleftrightarrow> (\<exists>s'. m (fst so) = (Inr a, s') \<and> t = (s', snd so))"
  by (auto simp: visiting_def split: prod.splits)

lemma visit_iff [simp]: "visit bs so = (r, t) \<longleftrightarrow> r = Inr () \<and> t = (fst so, snd so @ bs)"
  by (auto simp: visit_def)

lemma visit_length_Inr [simp]:
  "visit_length n so = (Inr u, t) \<longleftrightarrow> n \<le> u64_max \<and> t = (fst so, snd so @ be_bytes 8 n)"
  by (auto simp: visit_length_def try_from_def)

lemma native_kind_tag_Inr [simp]: "native_kind_tag k = Inr tag \<longleftrightarrow> k \<noteq> Kind_Marker \<and> tag = kind_rank k"
  by (cases k) auto

lemma obs_fold_emits:
  assumes "obs_fold f () xs so = (Inr (), t)" "\<And>x so t. x \<in> set xs \<Longrightarrow> f () x so = (Inr (), t) \<Longrightarrow> snd t = snd so @ g x"
  shows "snd t = snd so @ concat (map g xs)"
  using assms
proof (induction xs arbitrary: so)
  case (Cons x xs)
  from Cons.prems(1) obtain so' where m: "f () x so = (Inr (), so')" "obs_fold f () xs so' = (Inr (), t)" by auto
  then have "snd t = snd so' @ concat (map g xs)" using Cons.prems(2) by (intro Cons.IH) auto
  then show ?case using Cons.prems(2) [OF _ m(1)] by simp
qed simp

lemma visit_observed_payload_emits:
  assumes "visit_observed_payload ob payload so = (Inr (), t)"
  shows "snd t = snd so @ payload"
proof -
  have "snd t = snd so @ concat (map (\<lambda>c. c) (chunks NATIVE_VALUE_PAYLOAD_CHUNK_BYTES payload))"
    using assms unfolding visit_observed_payload_def by (rule obs_fold_emits) auto
  then show ?thesis by (simp add: concat_chunks NATIVE_VALUE_PAYLOAD_CHUNK_BYTES_def)
qed

lemma canonical_traversal_emits:
  "visit_canonical_encoding_observed ob v so = (Inr (), t) \<Longrightarrow> snd t = snd so @ canonical_bytes v"
proof (induction v arbitrary: so t)
  case (V_Array vs)
  from V_Array.prems obtain so' where
    "snd so' = snd so @ 6 # be_bytes 8 (length vs)"
    and fold: "obs_fold (\<lambda>_ v. visit_canonical_encoding_observed ob v) () vs so' = (Inr (), t)"
    by auto
  moreover have "snd t = snd so' @ concat (map canonical_bytes vs)"
    using fold by (rule obs_fold_emits) (auto dest: V_Array.IH)
  ultimately show ?case by simp
next
  case (V_KeyValueList es)
  let ?g = "\<lambda>e. be_bytes 8 (length (fst e)) @ fst e @ canonical_bytes (snd e)"
  from V_KeyValueList.prems obtain so' where "snd so' = snd so @ 7 # be_bytes 8 (length es)"
    and fold: "obs_fold (\<lambda>_ entry.
       obs_bind (visiting (observe_structure ob)) (\<lambda>_.
       obs_bind (visit_length (length (fst entry))) (\<lambda>_.
       obs_bind (visit_observed_payload ob (fst entry)) (\<lambda>_.
       visit_canonical_encoding_observed ob (snd entry))))) () es so' = (Inr (), t)"
    by auto
  moreover have "snd t = snd so' @ concat (map ?g es)"
    using fold
    by (rule obs_fold_emits)
      (auto dest!: visit_observed_payload_emits V_KeyValueList.IH [rotated -1])
  ultimately show ?case by simp
next
  case (V_Truncated v act)
  from V_Truncated.prems obtain so' where "snd so' = snd so @ [8, marker_action_tag act, kind_rank (value_kind v)]"
    and "visit_canonical_encoding_observed ob v so' = (Inr (), t)" by auto
  then show ?case using V_Truncated.IH by simp
qed (auto dest!: visit_observed_payload_emits)

text \<open>An observer that never stops a traversal.\<close>

definition willing :: "('s, 'e) observer \<Rightarrow> bool" where
  "willing ob \<longleftrightarrow>
     (\<forall>s. \<exists>t. ob_structure ob s = (Inr (), t)) \<and> (\<forall>c s. \<exists>t. ob_payload ob c s = (Inr (), t))"

lemma willing_unobserved: "willing unobserved"
  by (simp add: willing_def unobserved_def)

lemma willing_structure: "willing ob \<Longrightarrow> \<exists>t. observe_structure ob s = (Inr (), t)"
proof -
  assume "willing ob"
  then obtain t where "ob_structure ob s = (Inr (), t)" unfolding willing_def by blast
  then show ?thesis by (simp add: observe_structure_def obs_call_def)
qed

lemma willing_payload: "willing ob \<Longrightarrow> \<exists>t. obs_call (ob_payload ob c) s = (Inr (), t)"
proof -
  assume "willing ob"
  then obtain t where "ob_payload ob c s = (Inr (), t)" unfolding willing_def by blast
  then show ?thesis by (simp add: obs_call_def)
qed

lemma obs_bind_run: "m s = (Inr a, s') \<Longrightarrow> obs_bind m k s = k a s'"
  by (simp add: obs_bind_def)

lemma obs_fold_runs:
  "(\<And>b x s. x \<in> set xs \<Longrightarrow> \<exists>c t. f b x s = (Inr c, t)) \<Longrightarrow> \<exists>c t. obs_fold f b xs s = (Inr c, t)"
proof (induction xs arbitrary: b s)
  case (Cons x xs)
  obtain c t where "f b x s = (Inr c, t)" using Cons.prems [of x b s] by auto
  then show ?case using Cons.IH [of c t] Cons.prems by (simp add: obs_bind_run)
qed simp

lemma willing_visit_payload: "willing ob \<Longrightarrow> \<exists>t. visit_observed_payload ob payload so = (Inr (), t)"
proof -
  assume ob: "willing ob"
  have "\<exists>c t. visit_observed_payload ob payload so = (Inr c, t)"
    unfolding visit_observed_payload_def
  proof (rule obs_fold_runs)
    fix c and so :: "'a \<times> bytes"
    obtain t where "obs_call (ob_payload ob c) (fst so) = (Inr (), t)" using willing_payload [OF ob] by blast
    then show "\<exists>d t. obs_bind (visiting (obs_call (ob_payload ob c))) (\<lambda>_. visit c) so = (Inr d, t)" by auto
  qed
  then show ?thesis by simp
qed

lemma willing_traversal_runs:
  assumes ob: "willing ob"
  shows "value_ok v \<Longrightarrow> \<exists>t. visit_canonical_encoding_observed ob v so = (Inr (), t)"
proof (induction v arbitrary: so)
  case (V_Array vs)
  have "\<exists>c t. obs_fold (\<lambda>_ v. visit_canonical_encoding_observed ob v) () vs so' = (Inr c, t)" for so'
    using V_Array by (intro obs_fold_runs) auto
  then show ?case using V_Array.prems willing_structure [OF ob] by fastforce
next
  case (V_KeyValueList es)
  have "\<exists>c t. obs_fold (\<lambda>_ entry.
       obs_bind (visiting (observe_structure ob)) (\<lambda>_.
       obs_bind (visit_length (length (fst entry))) (\<lambda>_.
       obs_bind (visit_observed_payload ob (fst entry)) (\<lambda>_.
       visit_canonical_encoding_observed ob (snd entry))))) () es so' = (Inr c, t)" for so'
  proof (rule obs_fold_runs)
    fix e and so :: "'a \<times> bytes"
    assume e: "e \<in> set es"
    obtain s1 where "observe_structure ob (fst so) = (Inr (), s1)" using willing_structure [OF ob] by blast
    moreover obtain t where "visit_observed_payload ob (fst e) (s1, snd so @ be_bytes 8 (length (fst e))) = (Inr (), t)"
      using willing_visit_payload [OF ob] by blast
    moreover have "value_ok (snd e)" "length (fst e) \<le> u64_max" using V_KeyValueList.prems e by auto
    moreover from this obtain t' where "visit_canonical_encoding_observed ob (snd e) t = (Inr (), t')"
      using V_KeyValueList.IH [of e "snd e" t] e by (cases e) auto
    ultimately show "\<exists>c t. obs_bind (visiting (observe_structure ob)) (\<lambda>_.
       obs_bind (visit_length (length (fst e))) (\<lambda>_.
       obs_bind (visit_observed_payload ob (fst e)) (\<lambda>_.
       visit_canonical_encoding_observed ob (snd e)))) so = (Inr c, t)" by (cases t; cases t') auto
  qed
  then show ?case using V_KeyValueList.prems willing_structure [OF ob] by fastforce
next
  case (V_Truncated v act)
  then have "value_kind v \<noteq> Kind_Marker" by (auto simp: truncation_action_valid_def)
  then show ?case using V_Truncated willing_structure [OF ob] by fastforce
qed (use willing_visit_payload [OF ob] willing_structure [OF ob] in \<open>fastforce simp: marker_is_valid_def\<close>)+

lemma canonical_encoding_total:
  assumes "willing ob" "value_ok v"
  shows "\<exists>s'. visit_canonical_encoding_observed ob v (s, out) = (Inr (), (s', out @ canonical_bytes v))"
  using willing_traversal_runs [OF assms, of "(s, out)"] canonical_traversal_emits [of ob v "(s, out)"]
  by (metis prod.collapse snd_conv)

section \<open>A prefix code\<close>

definition prefix_free_at :: "('a \<Rightarrow> bytes) \<Rightarrow> 'a \<Rightarrow> 'a \<Rightarrow> bool" where
  "prefix_free_at f a b \<longleftrightarrow> (\<forall>u w. f a @ u = f b @ w \<longrightarrow> a = b \<and> u = w)"

lemma prefix_free_atI: "(\<And>u w. f a @ u = f b @ w \<Longrightarrow> a = b \<and> u = w) \<Longrightarrow> prefix_free_at f a b"
  by (simp add: prefix_free_at_def)

lemma prefix_free_atD: "prefix_free_at f a b \<Longrightarrow> f a @ u = f b @ w \<Longrightarrow> a = b \<and> u = w"
  by (simp add: prefix_free_at_def)

lemma be_bytes_8_inject: "m \<le> u64_max \<Longrightarrow> n \<le> u64_max \<Longrightarrow> be_bytes 8 m = be_bytes 8 n \<longleftrightarrow> m = n"
proof -
  assume "m \<le> u64_max" "n \<le> u64_max"
  then have "be_value (be_bytes 8 m) = m" "be_value (be_bytes 8 n) = n"
    by (simp_all add: be_value_bytes_id u64_max_def)
  then show ?thesis by metis
qed

lemma i64_be_bytes_inject: "i64_ok i \<Longrightarrow> i64_ok j \<Longrightarrow> i64_be_bytes i = i64_be_bytes j \<longleftrightarrow> i = j"
  using i64_be_value_bytes by metis

lemma concat_prefix_free:
  assumes "length xs = length ys" "\<And>x y. x \<in> set xs \<Longrightarrow> y \<in> set ys \<Longrightarrow> prefix_free_at f x y"
    "concat (map f xs) @ u = concat (map f ys) @ w"
  shows "xs = ys \<and> u = w"
  using assms
proof (induction xs ys rule: list_induct2)
  case (Cons x xs y ys)
  have "f x @ concat (map f xs) @ u = f y @ concat (map f ys) @ w" using Cons.prems(2) by simp
  moreover have "prefix_free_at f x y" using Cons.prems(1) by simp
  ultimately have "x = y" "concat (map f xs) @ u = concat (map f ys) @ w" by (auto dest: prefix_free_atD)
  then show ?case using Cons.IH Cons.prems(1) by simp
qed simp

lemma entry_prefix_free:
  assumes "length (fst e) \<le> u64_max" "length (fst g) \<le> u64_max" "prefix_free_at f (snd e) (snd g)"
  shows "prefix_free_at (\<lambda>e. be_bytes 8 (length (fst e)) @ fst e @ f (snd e)) e g"
  by (rule prefix_free_atI)
    (use assms in \<open>auto simp: be_bytes_8_inject prod_eq_iff dest: prefix_free_atD\<close>)

lemma leaf_prefix_free:
  assumes "value_kind a \<notin> {Kind_Array, Kind_KeyValueList, Kind_Marker}" "\<not> is_truncated a" "value_ok a" "value_ok b"
  shows "prefix_free_at canonical_bytes a b"
  by (rule prefix_free_atI)
    (use assms in \<open>cases a; cases b; auto simp: be_bytes_8_inject i64_be_bytes_inject of_bool_def split: if_splits\<close>)

lemma canonical_prefix_free: "value_ok a \<Longrightarrow> value_ok b \<Longrightarrow> prefix_free_at canonical_bytes a b"
proof (induction a arbitrary: b)
  case (V_Array vs)
  show ?case
  proof (rule prefix_free_atI)
    fix u w assume eq: "canonical_bytes (V_Array vs) @ u = canonical_bytes b @ w"
    then obtain ws where b: "b = V_Array ws" by (cases b) simp_all
    have len: "length vs = length ws" "concat (map canonical_bytes vs) @ u = concat (map canonical_bytes ws) @ w"
      using eq V_Array.prems by (simp_all add: b be_bytes_8_inject)
    have "vs = ws \<and> u = w"
      by (rule concat_prefix_free [OF len(1) _ len(2)]) (use V_Array b in auto)
    then show "V_Array vs = b \<and> u = w" by (simp add: b)
  qed
next
  case (V_KeyValueList es)
  show ?case
  proof (rule prefix_free_atI)
    fix u w assume eq: "canonical_bytes (V_KeyValueList es) @ u = canonical_bytes b @ w"
    let ?f = "\<lambda>e. be_bytes 8 (length (fst e)) @ fst e @ canonical_bytes (snd e)"
    obtain fs where b: "b = V_KeyValueList fs" using eq by (cases b) simp_all
    have len: "length es = length fs" "concat (map ?f es) @ u = concat (map ?f fs) @ w"
      using eq V_KeyValueList.prems by (simp_all add: b be_bytes_8_inject)
    have child: "prefix_free_at canonical_bytes (snd e) (snd g)" if "e \<in> set es" "g \<in> set fs" for e g
      using V_KeyValueList.IH [of e "snd e" "snd g"] V_KeyValueList.prems that by (cases e) (auto simp: b)
    have "es = fs \<and> u = w"
      by (rule concat_prefix_free [OF len(1) entry_prefix_free len(2)])
        (use V_KeyValueList.prems b in \<open>auto intro: child\<close>)
    then show "V_KeyValueList es = b \<and> u = w" by (simp add: b)
  qed
next
  case (V_Truncated v act)
  have act: "act \<in> {TruncatedBytes, TruncatedElements}"
    using V_Truncated.prems by (auto simp: truncation_action_valid_def)
  show ?case
  proof (rule prefix_free_atI)
    fix u w assume eq: "canonical_bytes (V_Truncated v act) @ u = canonical_bytes b @ w"
    then obtain v' act' where b: "b = V_Truncated v' act'"
      using act V_Truncated.prems(2) by (cases b) (auto simp: marker_is_valid_def)
    have "act = act'" "canonical_bytes v @ u = canonical_bytes v' @ w"
      using eq by (simp_all add: b marker_action_tag_inject)
    moreover have "prefix_free_at canonical_bytes v v'" using V_Truncated b by simp
    ultimately show "V_Truncated v act = b \<and> u = w" by (auto simp: b dest: prefix_free_atD)
  qed
next
  case (V_Marker m)
  show ?case
  proof (rule prefix_free_atI)
    fix u w assume eq: "canonical_bytes (V_Marker m) @ u = canonical_bytes b @ w"
    then show "V_Marker m = b \<and> u = w"
      using V_Marker.prems
      by (cases b) (auto simp: marker_action_tag_inject kind_rank_inject marker_is_valid_def truncation_action_valid_def
          intro!: redaction_marker.equality)
  qed
qed (simp_all add: leaf_prefix_free)

section \<open>The size announced for an encoding\<close>

lemma obs_fold_sizes:
  assumes "obs_fold f b xs s = (Inr n, t)" "\<And>c x m s t. x \<in> set xs \<Longrightarrow> f c x s = (Inr m, t) \<Longrightarrow> m = c + length (g x)"
  shows "n = b + length (concat (map g xs))"
  using assms
proof (induction xs arbitrary: b s)
  case (Cons x xs)
  from Cons.prems(1) obtain m s' where m: "f b x s = (Inr m, s')" "obs_fold f m xs s' = (Inr n, t)" by auto
  then have "n = m + length (concat (map g xs))" using Cons.prems(2) by (intro Cons.IH) auto
  then show ?case using Cons.prems(2) [OF _ m(1)] by simp
qed simp

lemma observed_add_Inr [simp]: "observed_add a b s = (Inr n, t) \<longleftrightarrow> n = a + b \<and> a + b \<le> u64_max \<and> t = s"
  by (auto simp: observed_add_def checked_decoded_add_def)

lemma canonical_prefix_size_Inr [simp]: "canonical_prefix_size n = Inr m \<longleftrightarrow> n \<le> u64_max \<and> m = 9"
  by (auto simp: canonical_prefix_size_def try_from_def)

lemma canonical_size_exact:
  "canonical_encoded_size_bytes_observed ob v s = (Inr n, t) \<Longrightarrow> n = length (canonical_bytes v)"
proof (induction v arbitrary: n s t)
  case (V_Array vs)
  from V_Array.prems obtain s' where "obs_fold (\<lambda>so_far value.
    obs_bind (canonical_encoded_size_bytes_observed ob value) (observed_add so_far)) 9 vs s' = (Inr n, t)" by auto
  then have "n = 9 + length (concat (map canonical_bytes vs))"
    by (rule obs_fold_sizes) (auto dest: V_Array.IH)
  then show ?case by simp
next
  case (V_KeyValueList es)
  let ?g = "\<lambda>e. be_bytes 8 (length (fst e)) @ fst e @ canonical_bytes (snd e)"
  from V_KeyValueList.prems obtain s' where "obs_fold (\<lambda>so_far entry.
       obs_bind (observe_structure ob) (\<lambda>_.
       obs_bind (observe_payload ob (fst entry)) (\<lambda>_.
       obs_bind (observed_add so_far 8) (\<lambda>so_far.
       obs_bind (observed_add so_far (length (fst entry))) (\<lambda>so_far.
       obs_bind (canonical_encoded_size_bytes_observed ob (snd entry)) (observed_add so_far)))))) 9 es s' = (Inr n, t)"
    by auto
  then have "n = 9 + length (concat (map ?g es))"
    by (rule obs_fold_sizes) (auto dest!: V_KeyValueList.IH [rotated -1])
  then show ?case by simp
qed (auto simp: canonical_sequence_size_def checked_decoded_add_def)

lemma canonical_size_unobserved: "canonical_encoded_size_bytes v = Inr n \<Longrightarrow> n = length (canonical_bytes v)"
  using canonical_size_exact [of "unobserved :: (unit, domain_failure) observer" v "()" n "()"]
  by (cases "canonical_encoded_size_bytes_observed (unobserved :: (unit, domain_failure) observer) v ()")
    (auto simp: canonical_encoded_size_bytes_def remove_observation_def split: sum.splits observed_value_failure.splits)

lemma append_canonical_output:
  assumes "value_ok v" "append_canonical_encoding reserved v out = (Inr (), out')"
  shows "out' = out @ canonical_bytes v" "canonical_encoded_size_bytes v = Inr (length (canonical_bytes v))"
proof -
  obtain n where n: "canonical_encoded_size_bytes v = Inr n"
    using assms(2) by (auto simp: append_canonical_encoding_def split: sum.splits)
  then show "canonical_encoded_size_bytes v = Inr (length (canonical_bytes v))" using canonical_size_unobserved by simp
  show "out' = out @ canonical_bytes v"
    using assms(2) n canonical_encoding_total [of "unobserved :: (unit, domain_failure) observer", OF willing_unobserved assms(1), of "()" out]
    by (auto simp: append_canonical_encoding_def Let_def split: if_splits)
qed

end
