(* ===== verification/Validation.thy ===== *)
theory Validation
  imports Canonical
begin

text \<open>
  The validation of a candidate into a stored value (\<^verbatim>\<open>value/observed_validation.rs\<close>). Output
  slots are admitted by the observer before they are allocated and released when validation
  cannot finish. What the heap does is an argument: the capacity behind a payload, the
  capacity a reservation obtains (or its failure), the size of one value.
\<close>

section \<open>Capacities\<close>

record heap_layout =
  payload_capacity :: "bytes \<Rightarrow> usize"
  reserve_exact :: "usize \<Rightarrow> usize option"
  value_size_of :: usize

record observed_value_transfer =
  transfer_value :: validated_value
  transfer_value_size :: usize
  transfer_retained :: usize
  transfer_allocation :: usize

definition ARRAY_VALUE_SLOT_BYTES :: usize where "ARRAY_VALUE_SLOT_BYTES = 64"
definition KEY_VALUE_ENTRY_SLOT_BYTES :: usize where "KEY_VALUE_ENTRY_SLOT_BYTES = 96"

definition obs_catch ::
  "('s, 'e, 'a) observed \<Rightarrow> ('e observed_value_failure \<Rightarrow> ('s, 'e, 'a) observed) \<Rightarrow> ('s, 'e, 'a) observed" where
  "obs_catch m h s = (case m s of (Inl e, s') \<Rightarrow> h e s' | (Inr a, s') \<Rightarrow> (Inr a, s'))"

function next_power :: "nat \<Rightarrow> nat \<Rightarrow> nat" where
  "next_power p n = (if p = 0 \<or> n \<le> p then p else next_power (2 * p) n)"
  by auto
termination by (relation "measure (\<lambda>(p, n). n - p)") auto

declare next_power.simps [simp del]

definition checked_next_power_of_two :: "usize \<Rightarrow> usize option" where
  "checked_next_power_of_two n = try_from u64_max (next_power 1 n)"

definition checked_capacity_bytes :: "usize \<Rightarrow> usize \<Rightarrow> domain_failure + usize" where
  "checked_capacity_bytes capacity slot_bytes = ok_or (checked_mul u64_max capacity slot_bytes) value_limit_exceeded"

definition release_output_capacity :: "('s, 'e) observer \<Rightarrow> usize \<Rightarrow> ('s, 'e, unit) observed" where
  "release_output_capacity ob n = obs_call (ob_release ob n)"

definition reserve_output_capacity :: "('s, 'e) observer \<Rightarrow> usize \<Rightarrow> usize \<Rightarrow> ('s, 'e, usize) observed" where
  "reserve_output_capacity ob count slot_bytes =
     (if count = 0 then obs_return 0
      else obs_bind (obs_domain (ok_or (checked_next_power_of_two count) value_limit_exceeded)) (\<lambda>capacity.
           obs_bind (obs_domain (ok_or (checked_mul u64_max capacity slot_bytes) value_limit_exceeded)) (\<lambda>n.
           obs_bind (obs_call (ob_allocate ob n)) (\<lambda>_. obs_return n))))"

definition reconcile_output_capacity ::
  "('s, 'e) observer \<Rightarrow> usize \<Rightarrow> usize \<Rightarrow> usize \<Rightarrow> ('s, 'e, usize) observed" where
  "reconcile_output_capacity ob capacity slot_bytes admitted =
     (case checked_capacity_bytes capacity slot_bytes of
        Inl failure \<Rightarrow> obs_bind (release_output_capacity ob admitted) (\<lambda>_. obs_fail (Domain_Failure failure))
      | Inr actual \<Rightarrow>
          if admitted < actual
          then obs_bind (obs_domain (ok_or (checked_sub actual admitted) value_limit_exceeded)) (\<lambda>additional.
               obs_bind
                 (obs_catch (obs_call (ob_allocate ob additional)) (\<lambda>failure.
                    obs_bind (release_output_capacity ob admitted) (\<lambda>_. obs_fail failure)))
                 (\<lambda>_. obs_return actual))
          else let slack = admitted - actual in
               if 0 < slack then obs_bind (release_output_capacity ob slack) (\<lambda>_. obs_return actual)
               else obs_return actual)"

text \<open>The capacity of the reserved vector and the bytes admitted for it.\<close>

definition reserve_validated_capacity ::
  "('s, 'e) observer \<Rightarrow> heap_layout \<Rightarrow> usize \<Rightarrow> usize \<Rightarrow> ('s, 'e, usize \<times> usize) observed" where
  "reserve_validated_capacity ob heap count slot_bytes =
     obs_bind (reserve_output_capacity ob count slot_bytes) (\<lambda>admitted.
     (case reserve_exact heap count of
        None \<Rightarrow> obs_bind (release_output_capacity ob admitted) (\<lambda>_. obs_fail (Domain_Failure allocation_unavailable))
      | Some capacity \<Rightarrow>
          obs_bind (reconcile_output_capacity ob capacity slot_bytes admitted) (\<lambda>actual.
          obs_return (capacity, actual))))"

section \<open>Collections\<close>

text \<open>
  The loop of a collection ends with its values, their size and what they retain, or with a
  failure; either way with the bytes admitted so far, which its caller releases on failure.
\<close>

type_synonym 'v collected = "'v list \<times> usize \<times> usize"
type_synonym ('s, 'e, 'v) collecting = "usize \<Rightarrow> 's \<Rightarrow> (('e observed_value_failure + 'v collected) \<times> usize) \<times> 's"

definition collect_call :: "('s, 'e, 'a) observed \<Rightarrow> ('a \<Rightarrow> ('s, 'e, 'v) collecting) \<Rightarrow> ('s, 'e, 'v) collecting" where
  "collect_call m k admitted s =
     (case m s of (Inl e, s') \<Rightarrow> ((Inl e, admitted), s') | (Inr a, s') \<Rightarrow> k a admitted s')"

definition collect_fail :: "'e observed_value_failure \<Rightarrow> ('s, 'e, 'v) collecting" where
  "collect_fail e admitted s = ((Inl e, admitted), s)"

text \<open>
  What follows the validation of one child: the admitted bytes, the size and its limit, what
  the entry retains, and the new entry.
\<close>

definition absorb_child ::
  "('s, 'e) observer \<Rightarrow> u32 \<Rightarrow> observed_value_transfer \<Rightarrow> domain_failure + usize \<Rightarrow> 'v \<Rightarrow> 'v collected \<Rightarrow>
   ('v collected \<Rightarrow> ('s, 'e, 'v) collecting) \<Rightarrow> ('s, 'e, 'v) collecting" where
  "absorb_child ob value_bytes transfer entry_retained entry acc k admitted s =
     (case acc of (validated, value_size, retained) \<Rightarrow>
      (case checked_add u64_max admitted (transfer_allocation transfer) of
         None \<Rightarrow>
           collect_call (release_output_capacity ob (transfer_allocation transfer)) (\<lambda>_.
             collect_fail (Domain_Failure value_limit_exceeded)) admitted s
       | Some admitted \<Rightarrow>
           collect_call (obs_domain (checked_decoded_add value_size (transfer_value_size transfer))) (\<lambda>value_size.
             if exceeds_byte_limit value_size value_bytes then collect_fail (Domain_Failure value_limit_exceeded)
             else collect_call (obs_domain entry_retained) (\<lambda>entry_retained.
                  collect_call (obs_domain (checked_decoded_add retained entry_retained)) (\<lambda>retained.
                  k (validated @ [entry], value_size, retained)))) admitted s))"

definition finish_collection ::
  "('s, 'e) observer \<Rightarrow> ('v list \<Rightarrow> validated_value) \<Rightarrow>
   (('e observed_value_failure + 'v collected) \<times> usize) \<times> 's \<Rightarrow>
   ('e observed_value_failure + observed_value_transfer) \<times> 's" where
  "finish_collection ob build result =
     (case result of
        ((Inl e, admitted), s) \<Rightarrow> obs_bind (release_output_capacity ob admitted) (\<lambda>_. obs_fail e) s
      | ((Inr (validated, value_size, retained), admitted), s) \<Rightarrow>
          (Inr \<lparr> transfer_value = build validated, transfer_value_size = value_size,
                 transfer_retained = retained, transfer_allocation = admitted \<rparr>, s))"

text \<open>The depth, the entry limit, the reservation and the release around a collection's loop.\<close>

definition collection_frame ::
  "('s, 'e) observer \<Rightarrow> heap_layout \<Rightarrow> u16 \<Rightarrow> usize \<Rightarrow> u32 \<Rightarrow> usize \<Rightarrow>
   (u16 \<Rightarrow> 'v collected \<Rightarrow> ('s, 'e, 'v) collecting) \<Rightarrow> ('v list \<Rightarrow> validated_value) \<Rightarrow>
   ('s, 'e, observed_value_transfer) observed" where
  "collection_frame ob heap depth count limit slot_bytes loop build =
     (case checked_sub depth 1 of
        None \<Rightarrow> obs_fail (Domain_Failure value_limit_exceeded)
      | Some child_depth \<Rightarrow>
          if exceeds_collection_limit count limit then obs_fail (Domain_Failure value_limit_exceeded)
          else obs_bind (reserve_validated_capacity ob heap count slot_bytes) (\<lambda>(capacity, allocation).
               obs_bind (obs_domain (checked_capacity_bytes capacity slot_bytes)) (\<lambda>retained s.
               finish_collection ob build (loop child_depth ([], 0, retained) allocation s))))"

definition plain_transfer :: "validated_value \<Rightarrow> usize \<Rightarrow> usize \<Rightarrow> observed_value_transfer" where
  "plain_transfer v n retained =
     \<lparr> transfer_value = v, transfer_value_size = n, transfer_retained = retained, transfer_allocation = 0 \<rparr>"

text \<open>The wrapper of a truncation is admitted after the value inside it.\<close>

definition wrap_truncated ::
  "('s, 'e) observer \<Rightarrow> heap_layout \<Rightarrow> marker_action \<Rightarrow> observed_value_transfer \<Rightarrow>
   ('s, 'e, observed_value_transfer) observed" where
  "wrap_truncated ob heap action transfer =
     (let wrapper_bytes = value_size_of heap in
      obs_bind
        (obs_catch (obs_call (ob_allocate ob wrapper_bytes)) (\<lambda>failure.
           obs_bind (release_output_capacity ob (transfer_allocation transfer)) (\<lambda>_. obs_fail failure)))
        (\<lambda>_.
          case (checked_add u64_max (transfer_retained transfer) wrapper_bytes,
                checked_add u64_max (transfer_allocation transfer) wrapper_bytes) of
            (Some retained, Some allocation) \<Rightarrow>
              obs_return
                \<lparr> transfer_value = V_Truncated (transfer_value transfer) action,
                  transfer_value_size = transfer_value_size transfer,
                  transfer_retained = retained, transfer_allocation = allocation \<rparr>
          | _ \<Rightarrow>
              obs_bind (release_output_capacity ob wrapper_bytes) (\<lambda>_.
              obs_bind (release_output_capacity ob (transfer_allocation transfer)) (\<lambda>_.
              obs_fail (Domain_Failure value_limit_exceeded)))))"

section \<open>Validation\<close>

fun validate_observed_with_facts ::
  "('s, 'e) observer \<Rightarrow> heap_layout \<Rightarrow> value_limit_set \<Rightarrow> u32 \<Rightarrow> u16 \<Rightarrow> candidate_value \<Rightarrow>
   ('s, 'e, observed_value_transfer) observed"
and validate_array_loop ::
  "('s, 'e) observer \<Rightarrow> heap_layout \<Rightarrow> value_limit_set \<Rightarrow> u32 \<Rightarrow> candidate_value list \<Rightarrow> u16 \<Rightarrow>
   validated_value collected \<Rightarrow> ('s, 'e, validated_value) collecting"
and validate_entries_loop ::
  "('s, 'e) observer \<Rightarrow> heap_layout \<Rightarrow> value_limit_set \<Rightarrow> u32 \<Rightarrow> (bytes \<times> candidate_value) list \<Rightarrow> u16 \<Rightarrow>
   (bytes \<times> validated_value) collected \<Rightarrow> ('s, 'e, bytes \<times> validated_value) collecting" where
  "validate_observed_with_facts ob heap limits value_bytes depth C_Null =
     obs_bind (observe_structure ob) (\<lambda>_. obs_return (plain_transfer V_Null 0 0))"
| "validate_observed_with_facts ob heap limits value_bytes depth (C_Boolean value) =
     obs_bind (observe_structure ob) (\<lambda>_. obs_return (plain_transfer (V_Boolean value) 1 0))"
| "validate_observed_with_facts ob heap limits value_bytes depth (C_SignedInteger value) =
     obs_bind (observe_structure ob) (\<lambda>_. obs_return (plain_transfer (V_SignedInteger value) 8 0))"
| "validate_observed_with_facts ob heap limits value_bytes depth (C_FloatingPointBits value) =
     obs_bind (observe_structure ob) (\<lambda>_. obs_return (plain_transfer (V_FloatingPointBits value) 8 0))"
| "validate_observed_with_facts ob heap limits value_bytes depth (C_String value) =
     obs_bind (observe_structure ob) (\<lambda>_.
     obs_bind (observe_payload ob value) (\<lambda>_.
     if exceeds_byte_limit (length value) value_bytes then obs_fail (Domain_Failure value_limit_exceeded)
     else obs_return (plain_transfer (V_String value) (length value) (payload_capacity heap value))))"
| "validate_observed_with_facts ob heap limits value_bytes depth (C_Bytes value) =
     obs_bind (observe_structure ob) (\<lambda>_.
     obs_bind (observe_payload ob value) (\<lambda>_.
     if exceeds_byte_limit (length value) value_bytes then obs_fail (Domain_Failure value_limit_exceeded)
     else obs_return (plain_transfer (V_Bytes value) (length value) (payload_capacity heap value))))"
| "validate_observed_with_facts ob heap limits value_bytes depth (C_Array values) =
     obs_bind (observe_structure ob) (\<lambda>_.
     collection_frame ob heap depth (length values) (array_entries (dynamic_part limits)) ARRAY_VALUE_SLOT_BYTES
       (validate_array_loop ob heap limits value_bytes values) V_Array)"
| "validate_observed_with_facts ob heap limits value_bytes depth (C_KeyValueList values) =
     obs_bind (observe_structure ob) (\<lambda>_.
     collection_frame ob heap depth (length values) (key_value_list_entries (dynamic_part limits))
       KEY_VALUE_ENTRY_SLOT_BYTES (validate_entries_loop ob heap limits value_bytes values) V_KeyValueList)"
| "validate_observed_with_facts ob heap limits value_bytes depth (C_Marker marker) =
     obs_bind (observe_structure ob) (\<lambda>_.
     if \<not> marker_is_valid marker then obs_fail (Domain_Failure value_limit_exceeded)
     else obs_return (plain_transfer (V_Marker marker) 0 0))"
| "validate_observed_with_facts ob heap limits value_bytes depth (C_Truncated value action) =
     obs_bind (observe_structure ob) (\<lambda>_.
     if \<not> truncation_action_valid action (candidate_native_kind value) \<or> is_marker_or_truncated value
     then obs_fail (Domain_Failure value_limit_exceeded)
     else obs_bind (validate_observed_with_facts ob heap limits value_bytes depth value)
            (wrap_truncated ob heap action))"
| "validate_array_loop ob heap limits value_bytes [] child_depth acc = (\<lambda>admitted s. ((Inr acc, admitted), s))"
| "validate_array_loop ob heap limits value_bytes (value # values) child_depth acc =
     collect_call (validate_observed_with_facts ob heap limits value_bytes child_depth value) (\<lambda>transfer.
     absorb_child ob value_bytes transfer (Inr (transfer_retained transfer)) (transfer_value transfer) acc
       (validate_array_loop ob heap limits value_bytes values child_depth))"
| "validate_entries_loop ob heap limits value_bytes [] child_depth acc = (\<lambda>admitted s. ((Inr acc, admitted), s))"
| "validate_entries_loop ob heap limits value_bytes ((key, value) # values) child_depth acc =
     collect_call (observe_structure ob) (\<lambda>_.
     collect_call (observe_payload ob key) (\<lambda>_.
     if key = [] \<or> exceeds_byte_limit (length key) (key_path_bytes (dynamic_part limits))
     then collect_fail (Domain_Failure value_limit_exceeded)
     else collect_call (validate_observed_with_facts ob heap limits value_bytes child_depth value) (\<lambda>transfer.
          absorb_child ob value_bytes transfer
            (checked_decoded_add (payload_capacity heap key) (transfer_retained transfer))
            (key, transfer_value transfer) acc
            (validate_entries_loop ob heap limits value_bytes values child_depth))))"

text \<open>
  The entry points. \<open>validate_attribute_value\<close> runs with the observer that observes nothing;
  its error type has no value in Rust and one that never occurs here.
\<close>

definition validate_attribute_value ::
  "heap_layout \<Rightarrow> value_limit_set \<Rightarrow> u32 \<Rightarrow> u16 \<Rightarrow> candidate_value \<Rightarrow> domain_failure + validated_value" where
  "validate_attribute_value heap limits value_bytes remaining_depth candidate =
     and_then
       (remove_observation
          (validate_observed_with_facts (unobserved :: (unit, domain_failure) observer) heap limits value_bytes
             remaining_depth candidate ()) id)
       (\<lambda>transfer. Inr (transfer_value transfer))"

definition validate_attribute ::
  "heap_layout \<Rightarrow> value_limit_profile \<Rightarrow> candidate_value \<Rightarrow> domain_failure + validated_value" where
  "validate_attribute heap profile self =
     (let limits = effective_limits profile in
      validate_attribute_value heap limits (individual_value_bytes (dynamic_part limits))
        (nesting_depth (dynamic_part limits)) self)"

definition validate_log_body ::
  "heap_layout \<Rightarrow> value_limit_profile \<Rightarrow> candidate_value \<Rightarrow> domain_failure + validated_value" where
  "validate_log_body heap profile self =
     (let limits = effective_limits profile in
      validate_attribute_value heap limits (log_body_bytes (record_part limits))
        (nesting_depth (dynamic_part limits)) self)"

definition validate_attribute_observed_with_facts ::
  "('s, 'e) observer \<Rightarrow> heap_layout \<Rightarrow> value_limit_profile \<Rightarrow> candidate_value \<Rightarrow>
   ('s, 'e, observed_value_transfer) observed" where
  "validate_attribute_observed_with_facts ob heap profile self =
     (let limits = effective_limits profile in
      validate_observed_with_facts ob heap limits (individual_value_bytes (dynamic_part limits))
        (nesting_depth (dynamic_part limits)) self)"

section \<open>Occurrence sets\<close>

datatype attribute_namespace = Namespace_Stream | Namespace_Resource | Namespace_InstrumentationScope | Namespace_Record

record occurrence_set =
  set_namespace :: attribute_namespace
  set_key :: bytes
  set_occurrences :: "validated_value list"

text \<open>The four conditions the three constructors share.\<close>

definition occurrences_rejected :: "value_limit_set \<Rightarrow> bytes \<Rightarrow> nat \<Rightarrow> bool" where
  "occurrences_rejected limits key count \<longleftrightarrow>
     key = [] \<or> exceeds_byte_limit (length key) (key_path_bytes (dynamic_part limits)) \<or> count = 0 \<or>
     exceeds_collection_limit count (attributes_per_namespace (dynamic_part limits))"

definition occurrence_candidate_validate ::
  "heap_layout \<Rightarrow> attribute_namespace \<Rightarrow> bytes \<Rightarrow> candidate_value list \<Rightarrow> value_limit_profile \<Rightarrow>
   domain_failure + occurrence_set" where
  "occurrence_candidate_validate heap namespace key occurrences profile =
     (let limits = effective_limits profile in
      if occurrences_rejected limits key (length occurrences) then Inl value_limit_exceeded
      else if reserve_exact heap (length occurrences) = None then Inl allocation_unavailable
      else and_then
             (for_fold (\<lambda>validated candidate.
                and_then
                  (validate_attribute_value heap limits (individual_value_bytes (dynamic_part limits))
                     (nesting_depth (dynamic_part limits)) candidate)
                  (\<lambda>v. Inr (validated @ [v]))) [] occurrences)
             (\<lambda>validated. Inr \<lparr> set_namespace = namespace, set_key = key, set_occurrences = validated \<rparr>))"

definition occurrence_set_validate_with_profile ::
  "occurrence_set \<Rightarrow> value_limit_profile \<Rightarrow> domain_failure + unit" where
  "occurrence_set_validate_with_profile self profile =
     (let limits = effective_limits profile in
      if occurrences_rejected limits (set_key self) (length (set_occurrences self)) then Inl value_limit_exceeded
      else for_each
             (validate_against limits (individual_value_bytes (dynamic_part limits)) (nesting_depth (dynamic_part limits)))
             (set_occurrences self))"

definition occurrence_set_from_validated ::
  "attribute_namespace \<Rightarrow> bytes \<Rightarrow> validated_value list \<Rightarrow> value_limit_profile \<Rightarrow> domain_failure + occurrence_set" where
  "occurrence_set_from_validated namespace key occurrences profile =
     (let limits = effective_limits profile in
      if occurrences_rejected limits key (length occurrences) then Inl value_limit_exceeded
      else and_then
             (for_each
                (validate_against limits (individual_value_bytes (dynamic_part limits))
                   (nesting_depth (dynamic_part limits))) occurrences)
             (\<lambda>_. Inr \<lparr> set_namespace = namespace, set_key = key, set_occurrences = occurrences \<rparr>))"

end
