(* ===== verification/Validated.thy ===== *)
theory Validated
  imports Validation
begin

text \<open>
  What a successful validation guarantees: the stored value is the candidate's own tree,
  well formed and within the limits it was validated against; and how the shape check and the
  revalidation of a stored value relate to it.
\<close>

section \<open>The tree and its limits\<close>

fun as_candidate :: "validated_value \<Rightarrow> candidate_value" where
  "as_candidate V_Null = C_Null"
| "as_candidate (V_Boolean b) = C_Boolean b"
| "as_candidate (V_SignedInteger i) = C_SignedInteger i"
| "as_candidate (V_FloatingPointBits n) = C_FloatingPointBits n"
| "as_candidate (V_String s) = C_String s"
| "as_candidate (V_Bytes s) = C_Bytes s"
| "as_candidate (V_Array vs) = C_Array (map as_candidate vs)"
| "as_candidate (V_KeyValueList es) = C_KeyValueList (map (\<lambda>e. (fst e, as_candidate (snd e))) es)"
| "as_candidate (V_Marker m) = C_Marker m"
| "as_candidate (V_Truncated v act) = C_Truncated (as_candidate v) act"

text \<open>The size validation measures: payload bytes without the keys.\<close>

fun payload_size :: "validated_value \<Rightarrow> nat" where
  "payload_size V_Null = 0"
| "payload_size (V_Boolean _) = 1"
| "payload_size (V_SignedInteger _) = 8"
| "payload_size (V_FloatingPointBits _) = 8"
| "payload_size (V_String s) = length s"
| "payload_size (V_Bytes s) = length s"
| "payload_size (V_Array vs) = sum_list (map payload_size vs)"
| "payload_size (V_KeyValueList es) = sum_list (map (\<lambda>e. payload_size (snd e)) es)"
| "payload_size (V_Marker _) = 0"
| "payload_size (V_Truncated v _) = payload_size v"

text \<open>
  What the validator checks on its way down: the bytes of texts and of whole collections, depth,
  entries, keys, markers. It does not measure a boolean, an integer or a float of its own; inside
  a collection these count towards the bytes of the collection.
\<close>

fun shape_within :: "dynamic_value_limits \<Rightarrow> nat \<Rightarrow> nat \<Rightarrow> validated_value \<Rightarrow> bool" where
  "shape_within lim value_bytes depth (V_String s) \<longleftrightarrow> length s \<le> value_bytes"
| "shape_within lim value_bytes depth (V_Bytes s) \<longleftrightarrow> length s \<le> value_bytes"
| "shape_within lim value_bytes depth (V_Array vs) \<longleftrightarrow>
     0 < depth \<and> length vs \<le> array_entries lim \<and> sum_list (map payload_size vs) \<le> value_bytes \<and>
     (\<forall>v \<in> set vs. shape_within lim value_bytes (depth - 1) v)"
| "shape_within lim value_bytes depth (V_KeyValueList es) \<longleftrightarrow>
     0 < depth \<and> length es \<le> key_value_list_entries lim \<and>
     sum_list (map (\<lambda>e. payload_size (snd e)) es) \<le> value_bytes \<and>
     (\<forall>e \<in> set es. fst e \<noteq> [] \<and> length (fst e) \<le> key_path_bytes lim \<and>
        shape_within lim value_bytes (depth - 1) (snd e))"
| "shape_within lim value_bytes depth (V_Marker m) \<longleftrightarrow> marker_is_valid m"
| "shape_within lim value_bytes depth (V_Truncated v act) \<longleftrightarrow>
     shape_within lim value_bytes depth v \<and> \<not> is_truncated v \<and> truncation_action_valid act (value_kind v)"
| "shape_within lim value_bytes depth _ \<longleftrightarrow> True"

text \<open>The limits of a profile: every value of the tree, bare or nested, is bounded by the individual-value limit.\<close>

fun within_limits :: "dynamic_value_limits \<Rightarrow> nat \<Rightarrow> nat \<Rightarrow> validated_value \<Rightarrow> bool" where
  "within_limits lim value_bytes depth V_Null \<longleftrightarrow> True"
| "within_limits lim value_bytes depth (V_Boolean _) \<longleftrightarrow> 1 \<le> value_bytes"
| "within_limits lim value_bytes depth (V_SignedInteger _) \<longleftrightarrow> 8 \<le> value_bytes"
| "within_limits lim value_bytes depth (V_FloatingPointBits _) \<longleftrightarrow> 8 \<le> value_bytes"
| "within_limits lim value_bytes depth (V_String s) \<longleftrightarrow> length s \<le> value_bytes"
| "within_limits lim value_bytes depth (V_Bytes s) \<longleftrightarrow> length s \<le> value_bytes"
| "within_limits lim value_bytes depth (V_Array vs) \<longleftrightarrow>
     0 < depth \<and> length vs \<le> array_entries lim \<and> payload_size (V_Array vs) \<le> value_bytes \<and>
     (\<forall>v \<in> set vs. within_limits lim value_bytes (depth - 1) v)"
| "within_limits lim value_bytes depth (V_KeyValueList es) \<longleftrightarrow>
     0 < depth \<and> length es \<le> key_value_list_entries lim \<and> payload_size (V_KeyValueList es) \<le> value_bytes \<and>
     (\<forall>e \<in> set es. fst e \<noteq> [] \<and> length (fst e) \<le> key_path_bytes lim \<and>
        within_limits lim value_bytes (depth - 1) (snd e))"
| "within_limits lim value_bytes depth (V_Marker m) \<longleftrightarrow> marker_is_valid m"
| "within_limits lim value_bytes depth (V_Truncated v act) \<longleftrightarrow>
     within_limits lim value_bytes depth v \<and> \<not> is_truncated v \<and> truncation_action_valid act (value_kind v)"

fun bare_scalar :: "validated_value \<Rightarrow> bool" where
  "bare_scalar (V_Boolean _) = True"
| "bare_scalar (V_SignedInteger _) = True"
| "bare_scalar (V_FloatingPointBits _) = True"
| "bare_scalar _ = False"

text \<open>Limits are 32-bit numbers.\<close>

definition limits_ok :: "dynamic_value_limits \<Rightarrow> nat \<Rightarrow> bool" where
  "limits_ok lim value_bytes \<longleftrightarrow>
     array_entries lim \<le> u32_max \<and> key_value_list_entries lim \<le> u32_max \<and> key_path_bytes lim \<le> u32_max \<and>
     value_bytes \<le> u32_max"

lemma shape_within_value_ok:
  "limits_ok lim value_bytes \<Longrightarrow> shape_within lim value_bytes depth v \<Longrightarrow> candidate_ok (as_candidate v) \<Longrightarrow> value_ok v"
proof (induction v arbitrary: depth)
  case (V_KeyValueList es)
  then show ?case by (fastforce simp: limits_ok_def u32_max_def u64_max_def)
qed (auto simp: limits_ok_def u32_max_def u64_max_def)

text \<open>Only a scalar at the root escapes the individual-value limit.\<close>

lemma shape_within_size: "shape_within lim vb depth v \<Longrightarrow> payload_size v \<le> vb \<or> bare_scalar v"
proof (induction v arbitrary: depth)
  case (V_Truncated v act)
  then show ?case by (cases v) (auto simp: truncation_action_valid_def)
qed simp_all

lemma within_limits_iff:
  "within_limits lim vb depth v \<longleftrightarrow> shape_within lim vb depth v \<and> payload_size v \<le> vb"
proof (induction v arbitrary: depth)
  case (V_Array vs)
  have "payload_size v \<le> sum_list (map payload_size vs)" if "v \<in> set vs" for v
    using that by (intro member_le_sum_list) simp_all
  then show ?case using V_Array by fastforce
next
  case (V_KeyValueList es)
  have "payload_size (snd e) \<le> sum_list (map (\<lambda>e. payload_size (snd e)) es)" if "e \<in> set es" for e
    using that by (intro member_le_sum_list) auto
  then show ?case using V_KeyValueList by fastforce
qed auto

lemma bare_scalar_size: "bare_scalar v \<Longrightarrow> payload_size v \<le> 8"
  by (cases v) simp_all

section \<open>Inversion of a successful run\<close>

lemma collect_call_Inr:
  "collect_call m k adm s = ((Inr c, adm'), t) \<longleftrightarrow>
   (\<exists>a s'. m s = (Inr a, s') \<and> k a adm s' = ((Inr c, adm'), t))"
  by (auto simp: collect_call_def split: prod.splits sum.splits)

lemma collect_fail_Inr [simp]: "collect_fail e adm s \<noteq> ((Inr c, adm'), t)"
  by (simp add: collect_fail_def)

lemma absorb_child_Inr:
  assumes "absorb_child ob vb tr er entry (out, n, rt) k adm s = ((Inr c, adm'), t)"
  obtains rt' s' where "n + transfer_value_size tr \<le> vb"
    "k (out @ [entry], n + transfer_value_size tr, rt') (adm + transfer_allocation tr) s' = ((Inr c, adm'), t)"
  using assms
  by (auto simp: absorb_child_def collect_call_Inr checked_decoded_add_def exceeds_byte_limit_def
      split: option.splits if_splits)

lemma finish_collection_Inr:
  "finish_collection ob build r = (Inr tr, t) \<longleftrightarrow>
   (\<exists>out n rt adm. r = ((Inr (out, n, rt), adm), t) \<and>
      tr = \<lparr> transfer_value = build out, transfer_value_size = n, transfer_retained = rt, transfer_allocation = adm \<rparr>)"
  by (auto simp: finish_collection_def obs_bind_def split: prod.splits sum.splits)

lemma collection_frame_Inr:
  assumes "collection_frame ob heap depth count limit slot loop build s = (Inr tr, t)"
  obtains child_depth rt alloc s' out n rt' adm where "depth = Suc child_depth" "count \<le> limit"
    "loop child_depth ([], 0, rt) alloc s' = ((Inr (out, n, rt'), adm), t)"
    "transfer_value tr = build out" "transfer_value_size tr = n"
  using assms
  by (auto simp: collection_frame_def exceeds_collection_limit_def finish_collection_Inr
      split: option.splits if_splits)

section \<open>Validation returns the candidate within its limits\<close>

definition accepted :: "dynamic_value_limits \<Rightarrow> nat \<Rightarrow> nat \<Rightarrow> candidate_value \<Rightarrow> validated_value \<Rightarrow> bool" where
  "accepted lim value_bytes depth c v \<longleftrightarrow> as_candidate v = c \<and> shape_within lim value_bytes depth v"

definition collected_values ::
  "dynamic_value_limits \<Rightarrow> nat \<Rightarrow> nat \<Rightarrow> candidate_value list \<Rightarrow> validated_value collected \<Rightarrow> validated_value collected \<Rightarrow> bool"
where
  "collected_values lim vb depth cs acc res \<longleftrightarrow>
     (\<exists>vs. fst res = fst acc @ vs \<and> list_all2 (accepted lim vb depth) cs vs \<and>
        fst (snd res) = fst (snd acc) + sum_list (map payload_size vs) \<and> fst (snd res) \<le> max vb (fst (snd acc)))"

definition collected_entries ::
  "dynamic_value_limits \<Rightarrow> nat \<Rightarrow> nat \<Rightarrow> (bytes \<times> candidate_value) list \<Rightarrow> (bytes \<times> validated_value) collected \<Rightarrow>
   (bytes \<times> validated_value) collected \<Rightarrow> bool"
where
  "collected_entries lim vb depth cs acc res \<longleftrightarrow>
     (\<exists>es. fst res = fst acc @ es \<and>
        list_all2 (\<lambda>c e. fst e = fst c \<and> fst e \<noteq> [] \<and> length (fst e) \<le> key_path_bytes lim \<and>
          accepted lim vb depth (snd c) (snd e)) cs es \<and>
        fst (snd res) = fst (snd acc) + sum_list (map (\<lambda>e. payload_size (snd e)) es) \<and>
        fst (snd res) \<le> max vb (fst (snd acc)))"

lemma accepted_kind: "accepted lim vb depth c v \<Longrightarrow> \<not> is_marker_or_truncated c \<Longrightarrow>
  \<not> is_truncated v \<and> value_kind v = candidate_native_kind c"
  by (cases v) (auto simp: accepted_def)

lemma accepted_array: "list_all2 (accepted lim vb depth) cs vs \<Longrightarrow>
  map as_candidate vs = cs \<and> (\<forall>v \<in> set vs. shape_within lim vb depth v) \<and> length vs = length cs"
  by (induction rule: list_all2_induct) (simp_all add: accepted_def)

lemma accepted_entries:
  "list_all2 (\<lambda>c e. fst e = fst c \<and> fst e \<noteq> [] \<and> length (fst e) \<le> key_path_bytes lim \<and>
     accepted lim vb depth (snd c) (snd e)) cs es \<Longrightarrow>
   map (\<lambda>e. (fst e, as_candidate (snd e))) es = cs \<and> length es = length cs \<and>
   (\<forall>e \<in> set es. fst e \<noteq> [] \<and> length (fst e) \<le> key_path_bytes lim \<and> shape_within lim vb depth (snd e))"
  by (induction rule: list_all2_induct) (auto simp: accepted_def)

lemma accepted_collection_array:
  assumes "collected_values lim vb depth cs ([], 0, rt) (out, n, rt')" "length cs \<le> array_entries lim"
  shows "accepted lim vb (Suc depth) (C_Array cs) (V_Array out) \<and> n = payload_size (V_Array out)"
proof -
  have "list_all2 (accepted lim vb depth) cs out" "n = sum_list (map payload_size out)" "n \<le> vb"
    using assms(1) by (simp_all add: collected_values_def)
  moreover from this have "map as_candidate out = cs" "\<forall>v \<in> set out. shape_within lim vb depth v" "length out = length cs"
    using accepted_array [of lim vb depth cs out] by blast+
  ultimately show ?thesis using assms(2) unfolding accepted_def by simp
qed

lemma accepted_collection_entries:
  assumes "collected_entries lim vb depth cs ([], 0, rt) (out, n, rt')" "length cs \<le> key_value_list_entries lim"
  shows "accepted lim vb (Suc depth) (C_KeyValueList cs) (V_KeyValueList out) \<and> n = payload_size (V_KeyValueList out)"
proof -
  have "list_all2 (\<lambda>c e. fst e = fst c \<and> fst e \<noteq> [] \<and> length (fst e) \<le> key_path_bytes lim \<and>
     accepted lim vb depth (snd c) (snd e)) cs out"
    "n = sum_list (map (\<lambda>e. payload_size (snd e)) out)" "n \<le> vb"
    using assms(1) by (simp_all add: collected_entries_def)
  moreover note accepted_entries [OF this(1)]
  ultimately show ?thesis using assms(2) unfolding accepted_def as_candidate.simps shape_within.simps payload_size.simps
    by (metis diff_Suc_1 zero_less_Suc)
qed

lemma collected_values_step:
  assumes "accepted lim vb depth c v" "collected_values lim vb depth cs (out @ [v], n + payload_size v, rt) res"
    "n + payload_size v \<le> vb"
  shows "collected_values lim vb depth (c # cs) (out, n, rt') res"
proof -
  obtain vs where "fst res = (out @ [v]) @ vs" "list_all2 (accepted lim vb depth) cs vs"
    "fst (snd res) = n + payload_size v + sum_list (map payload_size vs)" "fst (snd res) \<le> vb"
    using assms(2,3) by (auto simp: collected_values_def)
  then show ?thesis
    unfolding collected_values_def using assms(1) by (intro exI [of _ "v # vs"]) simp
qed

lemma collected_entries_step:
  assumes "accepted lim vb depth c v" "key \<noteq> []" "length key \<le> key_path_bytes lim"
    "collected_entries lim vb depth cs (out @ [(key, v)], n + payload_size v, rt) res" "n + payload_size v \<le> vb"
  shows "collected_entries lim vb depth ((key, c) # cs) (out, n, rt') res"
proof -
  obtain es where "fst res = (out @ [(key, v)]) @ es"
    "list_all2 (\<lambda>c e. fst e = fst c \<and> fst e \<noteq> [] \<and> length (fst e) \<le> key_path_bytes lim \<and>
       accepted lim vb depth (snd c) (snd e)) cs es"
    "fst (snd res) = n + payload_size v + sum_list (map (\<lambda>e. payload_size (snd e)) es)" "fst (snd res) \<le> vb"
    using assms(4,5) by (auto simp: collected_entries_def)
  then show ?thesis
    unfolding collected_entries_def using assms(1,2,3) by (intro exI [of _ "(key, v) # es"]) simp
qed

lemma wrap_truncated_Inr:
  "wrap_truncated ob heap act tr s = (Inr tr', t) \<Longrightarrow>
   transfer_value tr' = V_Truncated (transfer_value tr) act \<and> transfer_value_size tr' = transfer_value_size tr"
  by (auto simp: wrap_truncated_def Let_def split: option.splits)

lemma validation_accepts:
  "validate_observed_with_facts ob heap limits vb depth c s = (Inr tr, t) \<Longrightarrow>
     accepted (dynamic_part limits) vb depth c (transfer_value tr) \<and>
     transfer_value_size tr = payload_size (transfer_value tr)"
  "validate_array_loop ob heap limits vb cs depth acc adm s = ((Inr res, adm'), t) \<Longrightarrow>
     collected_values (dynamic_part limits) vb depth cs acc res"
  "validate_entries_loop ob heap limits vb es depth acc' adm s = ((Inr res', adm'), t) \<Longrightarrow>
     collected_entries (dynamic_part limits) vb depth es acc' res'"
proof (induction ob heap limits vb depth c and ob heap limits vb cs depth acc and ob heap limits vb es depth acc'
    arbitrary: s tr t and adm s res adm' t and adm s res' adm' t
    rule: validate_observed_with_facts_validate_array_loop_validate_entries_loop.induct)
  case (7 ob heap limits vb depth cs)
  from 7(2) obtain s0 where "collection_frame ob heap depth (length cs) (array_entries (dynamic_part limits))
    ARRAY_VALUE_SLOT_BYTES (validate_array_loop ob heap limits vb cs) V_Array s0 = (Inr tr, t)" by auto
  then obtain child_depth rt alloc s' out n rt' adm where *: "depth = Suc child_depth"
    "length cs \<le> array_entries (dynamic_part limits)"
    "validate_array_loop ob heap limits vb cs child_depth ([], 0, rt) alloc s' = ((Inr (out, n, rt'), adm), t)"
    "transfer_value tr = V_Array out" "transfer_value_size tr = n" by (rule collection_frame_Inr)
  from 7(1) [OF *(3)] show ?case
    unfolding *(1,4,5) using *(2) by (rule accepted_collection_array)
next
  case (8 ob heap limits vb depth cs)
  from 8(2) obtain s0 where "collection_frame ob heap depth (length cs) (key_value_list_entries (dynamic_part limits))
    KEY_VALUE_ENTRY_SLOT_BYTES (validate_entries_loop ob heap limits vb cs) V_KeyValueList s0 = (Inr tr, t)" by auto
  then obtain child_depth rt alloc s' out n rt' adm where *: "depth = Suc child_depth"
    "length cs \<le> key_value_list_entries (dynamic_part limits)"
    "validate_entries_loop ob heap limits vb cs child_depth ([], 0, rt) alloc s' = ((Inr (out, n, rt'), adm), t)"
    "transfer_value tr = V_KeyValueList out" "transfer_value_size tr = n" by (rule collection_frame_Inr)
  from 8(1) [OF *(3)] show ?case
    unfolding *(1,4,5) using *(2) by (rule accepted_collection_entries)
next
  case (10 ob heap limits vb depth c act)
  from 10(2) obtain s1 tr1 s2 where guard: "truncation_action_valid act (candidate_native_kind c)" "\<not> is_marker_or_truncated c"
    and run: "validate_observed_with_facts ob heap limits vb depth c s1 = (Inr tr1, s2)"
    and wrap: "wrap_truncated ob heap act tr1 s2 = (Inr tr, t)"
    by (auto split: if_splits)
  from 10(1) [OF _ run] guard have "accepted (dynamic_part limits) vb depth c (transfer_value tr1)"
    "transfer_value_size tr1 = payload_size (transfer_value tr1)" by simp_all
  then show ?case
    using accepted_kind [of "dynamic_part limits" vb depth c] guard wrap_truncated_Inr [OF wrap]
    by (simp add: accepted_def)
next
  case (12 ob heap limits vb c cs depth acc)
  obtain out n rt where acc: "acc = (out, n, rt)" by (cases acc)
  from 12(3) obtain tr s1 where run: "validate_observed_with_facts ob heap limits vb depth c s = (Inr tr, s1)"
    and absorb: "absorb_child ob vb tr (Inr (transfer_retained tr)) (transfer_value tr) (out, n, rt)
      (validate_array_loop ob heap limits vb cs depth) adm s1 = ((Inr res, adm'), t)"
    by (auto simp: collect_call_Inr acc)
  have child: "accepted (dynamic_part limits) vb depth c (transfer_value tr)"
    "transfer_value_size tr = payload_size (transfer_value tr)" using 12(1) [OF run] by simp_all
  obtain rt' s' where rest: "n + payload_size (transfer_value tr) \<le> vb"
    "validate_array_loop ob heap limits vb cs depth (out @ [transfer_value tr], n + payload_size (transfer_value tr), rt')
       (adm + transfer_allocation tr) s' = ((Inr res, adm'), t)"
    using absorb unfolding child(2) [symmetric] by (rule absorb_child_Inr)
  show ?case unfolding acc by (rule collected_values_step [OF child(1) 12(2) [OF rest(2)] rest(1)])
next
  case (14 ob heap limits vb key c cs depth acc)
  obtain out n rt where acc: "acc = (out, n, rt)" by (cases acc)
  from 14(3) obtain s0 tr s1 er where key: "key \<noteq> []" "length key \<le> key_path_bytes (dynamic_part limits)"
    and run: "validate_observed_with_facts ob heap limits vb depth c s0 = (Inr tr, s1)"
    and absorb: "absorb_child ob vb tr er (key, transfer_value tr) (out, n, rt)
      (validate_entries_loop ob heap limits vb cs depth) adm s1 = ((Inr res', adm'), t)"
    by (auto simp: collect_call_Inr acc exceeds_byte_limit_def split: if_splits)
  have child: "accepted (dynamic_part limits) vb depth c (transfer_value tr)"
    "transfer_value_size tr = payload_size (transfer_value tr)"
    using 14(1) [OF _ run] key by (simp_all add: exceeds_byte_limit_def)
  obtain rt' s' where rest: "n + payload_size (transfer_value tr) \<le> vb"
    "validate_entries_loop ob heap limits vb cs depth
       (out @ [(key, transfer_value tr)], n + payload_size (transfer_value tr), rt')
       (adm + transfer_allocation tr) s' = ((Inr res', adm'), t)"
    using absorb unfolding child(2) [symmetric] by (rule absorb_child_Inr)
  show ?case unfolding acc by (rule collected_entries_step [OF child(1) key 14(2) [OF _ rest(2)] rest(1)])
    (use key in \<open>simp add: exceeds_byte_limit_def\<close>)
qed (auto simp: accepted_def plain_transfer_def exceeds_byte_limit_def collected_values_def collected_entries_def
    split: if_splits)

section \<open>The shape check and revalidation of an accepted value\<close>

lemma for_fold_adds:
  assumes "\<And>x c. x \<in> set xs \<Longrightarrow> c + g x \<le> u64_max \<Longrightarrow> f c x = Inr (c + g x)" "b + sum_list (map g xs) \<le> u64_max"
  shows "for_fold f b xs = Inr (b + sum_list (map g xs))"
  using assms
proof (induction xs arbitrary: b)
  case (Cons x xs)
  have "f b x = Inr (b + g x)" using Cons.prems by simp
  moreover have "for_fold f (b + g x) xs = Inr (b + g x + sum_list (map g xs))"
    using Cons.prems by (intro Cons.IH) simp_all
  ultimately show ?case by (simp add: add.assoc)
qed simp

lemma for_each_guard:
  assumes "\<And>x. x \<in> set xs \<Longrightarrow> f x = (if P x then Inr () else Inl e)"
  shows "for_each f xs = (if \<forall>x \<in> set xs. P x then Inr () else Inl e)"
  using assms by (induction xs) (auto simp: and_then_def)

lemma for_fold_map: "for_fold f b (map h xs) = for_fold (\<lambda>c x. f c (h x)) b xs"
  by (induction xs arbitrary: b) (simp_all add: and_then_def)

text \<open>
  Revalidation of an accepted value measures its whole payload, a scalar included. The shape check
  of a candidate measures the same.
\<close>

lemma revalidation_within:
  assumes "vb \<le> u32_max"
  shows "within_limits (dynamic_part limits) vb depth v \<Longrightarrow>
    validated_size_against limits vb depth v = Inr (payload_size v)"
proof (induction v arbitrary: depth)
  case (V_Array vs)
  obtain child where d: "depth = Suc child" using V_Array.prems by (cases depth) simp_all
  have "for_fold (\<lambda>so_far value.
      and_then (validated_size_against limits vb child value) (checked_decoded_add so_far)) 0 vs =
    Inr (0 + sum_list (map payload_size vs))"
    using V_Array d assms by (intro for_fold_adds) (auto simp: checked_decoded_add_def u32_max_def u64_max_def)
  then show ?case
    using V_Array.prems by (simp add: d value_child_depth_def checked_sub_def exceeds_collection_limit_def size_bounded_def
        exceeds_byte_limit_def)
next
  case (V_KeyValueList es)
  obtain child where d: "depth = Suc child" using V_KeyValueList.prems by (cases depth) simp_all
  have "for_fold (\<lambda>so_far entry.
      if fst entry = [] \<or> exceeds_byte_limit (length (fst entry)) (key_path_bytes (dynamic_part limits))
      then Inl value_limit_exceeded
      else and_then (validated_size_against limits vb child (snd entry)) (checked_decoded_add so_far)) 0 es =
    Inr (0 + sum_list (map (\<lambda>e. payload_size (snd e)) es))"
    using V_KeyValueList d assms
    by (intro for_fold_adds) (fastforce simp: checked_decoded_add_def exceeds_byte_limit_def u32_max_def u64_max_def)+
  then show ?case
    using V_KeyValueList.prems by (simp add: d value_child_depth_def checked_sub_def exceeds_collection_limit_def
        size_bounded_def exceeds_byte_limit_def)
next
  case (V_Truncated v act)
  then show ?case by (auto simp: within_limits_iff size_bounded_def exceeds_byte_limit_def)
qed (auto simp: size_bounded_def exceeds_byte_limit_def)

lemma revalidation_exact:
  assumes "vb \<le> u32_max" and "shape_within (dynamic_part limits) vb depth v"
  shows "validate_against limits vb depth v = (if payload_size v \<le> vb then Inr () else Inl value_limit_exceeded)"
proof (cases "payload_size v \<le> vb")
  case True
  then show ?thesis using revalidation_within [OF assms(1)] assms(2) by (simp add: validate_against_def within_limits_iff)
next
  case False
  then have "bare_scalar v" using shape_within_size [OF assms(2)] by simp
  then show ?thesis using False
    by (cases v) (simp_all add: validate_against_def size_bounded_def exceeds_byte_limit_def and_then_def)
qed

lemma as_candidate_shape:
  "\<not> is_truncated v \<Longrightarrow> value_kind v \<noteq> Kind_Marker \<Longrightarrow>
   \<not> is_marker_or_truncated (as_candidate v) \<and> candidate_native_kind (as_candidate v) = value_kind v"
  by (cases v) simp_all

lemma shape_size:
  assumes "vb \<le> u32_max"
  shows "within_limits (dynamic_part limits) vb depth v \<Longrightarrow>
    shape_validate limits vb depth (as_candidate v) = Inr (payload_size v)"
proof (induction v arbitrary: depth)
  case (V_Array vs)
  obtain child where d: "depth = Suc child" using V_Array.prems by (cases depth) simp_all
  have "for_fold (\<lambda>so_far value. and_then (shape_validate limits vb child value) (shape_add so_far)) 0
      (map as_candidate vs) = Inr (0 + sum_list (map payload_size vs))"
    unfolding for_fold_map
    using V_Array d assms by (intro for_fold_adds) (auto simp: shape_add_def u32_max_def u64_max_def)
  then show ?case
    using V_Array.prems by (simp add: d checked_sub_def exceeds_collection_limit_def shape_bounded_def exceeds_byte_limit_def)
next
  case (V_KeyValueList es)
  obtain child where d: "depth = Suc child" using V_KeyValueList.prems by (cases depth) simp_all
  have "for_fold (\<lambda>so_far entry.
      if fst entry = [] then Inl Shape_Invalid
      else if exceeds_byte_limit (length (fst entry)) (key_path_bytes (dynamic_part limits))
      then Inl (limit_failure Dim_KeyPathBytes (length (fst entry)) (key_path_bytes (dynamic_part limits)))
      else and_then (shape_validate limits vb child (snd entry)) (shape_add so_far)) 0
      (map (\<lambda>e. (fst e, as_candidate (snd e))) es) =
    Inr (0 + sum_list (map (\<lambda>e. payload_size (snd e)) es))"
    unfolding for_fold_map
    using V_KeyValueList d assms
    by (intro for_fold_adds) (fastforce simp: shape_add_def exceeds_byte_limit_def u32_max_def u64_max_def)+
  then show ?case
    using V_KeyValueList.prems by (simp add: d checked_sub_def exceeds_collection_limit_def shape_bounded_def
        exceeds_byte_limit_def)
next
  case (V_Truncated v act)
  then have "value_kind v \<noteq> Kind_Marker" by (auto simp: truncation_action_valid_def)
  then show ?case
    using V_Truncated as_candidate_shape [of v]
    by (auto simp: within_limits_iff shape_bounded_def exceeds_byte_limit_def)
qed (auto simp: shape_bounded_def exceeds_byte_limit_def)

section \<open>The unobserved entry points\<close>

lemma validate_attribute_value_accepts:
  assumes "validate_attribute_value heap limits vb depth c = Inr v"
  shows "accepted (dynamic_part limits) vb depth c v"
  using assms validation_accepts(1) [of "unobserved :: (unit, domain_failure) observer" heap limits vb depth c "()" _ "()"]
  by (cases "validate_observed_with_facts (unobserved :: (unit, domain_failure) observer) heap limits vb depth c ()")
    (auto simp: validate_attribute_value_def remove_observation_def split: sum.splits observed_value_failure.splits)

lemma for_fold_collects:
  "for_fold (\<lambda>out x. and_then (f x) (\<lambda>v. Inr (out @ [v]))) b xs = Inr res \<longleftrightarrow>
   (\<exists>vs. res = b @ vs \<and> list_all2 (\<lambda>x v. f x = Inr v) xs vs)"
proof (induction xs arbitrary: b)
  case (Cons x xs)
  then show ?case by (auto simp: list_all2_Cons1)
qed auto

end
