(* ===== verification/Planning.thy ===== *)
theory Planning
  imports Validated
begin

text \<open>
  Query planning memory (\<^verbatim>\<open>planning_memory.rs\<close>), the execution memory meter (\<^verbatim>\<open>memory.rs\<close>) and
  the observer that charges the validation of a value to a planning reservation
  (\<^verbatim>\<open>planning_observer.rs\<close>) of \<^verbatim>\<open>positron-query\<close>. The shared atomic counters are one state;
  each compare-and-swap loop is the step that finally succeeds.
\<close>

section \<open>Meters\<close>

datatype query_failure = Query_MemoryExhausted | Query_Internal

record query_memory =
  query_limit :: u64
  query_current :: u64
  query_peak :: u64

definition query_memory_new :: "u64 \<Rightarrow> query_memory" where
  "query_memory_new limit = \<lparr> query_limit = limit, query_current = 0, query_peak = 0 \<rparr>"

definition query_acquire :: "u64 \<Rightarrow> query_memory \<Rightarrow> (query_failure + unit) \<times> query_memory" where
  "query_acquire n self =
     (case checked_add u64_max (query_current self) n of
        None \<Rightarrow> (Inl Query_MemoryExhausted, self)
      | Some next \<Rightarrow>
          if query_limit self < next then (Inl Query_MemoryExhausted, self)
          else (Inr (), self\<lparr> query_current := next, query_peak := max (query_peak self) next \<rparr>))"

definition query_release :: "u64 \<Rightarrow> query_memory \<Rightarrow> (query_failure + unit) \<times> query_memory" where
  "query_release n self =
     (case checked_sub (query_current self) n of
        None \<Rightarrow> (Inl Query_Internal, self)
      | Some rest \<Rightarrow> (Inr (), self\<lparr> query_current := rest \<rparr>))"

record planning_memory =
  plan_limit :: u64
  plan_current :: u64
  plan_peak :: u64
  plan_retained :: u64

definition planning_new :: "u64 \<Rightarrow> planning_memory" where
  "planning_new limit = \<lparr> plan_limit = limit, plan_current = 0, plan_peak = 0, plan_retained = 0 \<rparr>"

text \<open>\<open>fetch_sub\<close> wraps.\<close>

definition fetch_sub :: "u64 \<Rightarrow> u64 \<Rightarrow> u64" where
  "fetch_sub a n = (a + (u64_max + 1 - n)) mod (u64_max + 1)"

lemma fetch_sub_exact: "n \<le> a \<Longrightarrow> a \<le> u64_max \<Longrightarrow> fetch_sub a n = a - n"
proof -
  assume *: "n \<le> a" "a \<le> u64_max"
  then have "a + (u64_max + 1 - n) = (a - n) + (u64_max + 1)" by simp
  then show ?thesis using * unfolding fetch_sub_def by (simp only: mod_add_self2) simp
qed

text \<open>The common growth step of \<open>reserve\<close> and \<open>reconcile\<close>.\<close>

definition planning_grow :: "u64 \<Rightarrow> planning_memory \<Rightarrow> (query_failure + unit) \<times> planning_memory" where
  "planning_grow n self =
     (case checked_add u64_max (plan_current self) n of
        None \<Rightarrow> (Inl Query_MemoryExhausted, self)
      | Some next \<Rightarrow>
          if plan_limit self < next then (Inl Query_MemoryExhausted, self)
          else (Inr (), self\<lparr> plan_current := next, plan_peak := max (plan_peak self) next \<rparr>))"

definition planning_reserve :: "u64 \<Rightarrow> planning_memory \<Rightarrow> (query_failure + u64) \<times> planning_memory" where
  "planning_reserve n self =
     (case planning_grow n self of (Inl e, s) \<Rightarrow> (Inl e, s) | (Inr _, s) \<Rightarrow> (Inr n, s))"

text \<open>A reservation is its number of bytes; its methods return it with the memory.\<close>

definition reservation_reconcile :: "u64 \<Rightarrow> planning_memory \<times> u64 \<Rightarrow> (query_failure + unit) \<times> (planning_memory \<times> u64)" where
  "reservation_reconcile n self =
     (case self of (memory, held) \<Rightarrow>
      if held < n
      then (case planning_grow (n - held) memory of
              (Inl e, memory) \<Rightarrow> (Inl e, (memory, held))
            | (Inr _, memory) \<Rightarrow> (Inr (), (memory, n)))
      else (Inr (), (memory\<lparr> plan_current := fetch_sub (plan_current memory) (held - n) \<rparr>, n)))"

definition reservation_release_bytes ::
  "u64 \<Rightarrow> planning_memory \<times> u64 \<Rightarrow> (query_failure + unit) \<times> (planning_memory \<times> u64)" where
  "reservation_release_bytes n self =
     (case checked_sub (snd self) n of
        None \<Rightarrow> (Inl Query_Internal, self)
      | Some remaining \<Rightarrow> reservation_reconcile remaining self)"

definition reservation_drop :: "planning_memory \<times> u64 \<Rightarrow> planning_memory" where
  "reservation_drop self = (fst self)\<lparr> plan_current := fetch_sub (plan_current (fst self)) (snd self) \<rparr>"

text \<open>\<open>retain_reservation\<close> consumes the reservation: an early return drops it.\<close>

definition retain_reservation :: "planning_memory \<times> u64 \<Rightarrow> u64 \<Rightarrow> (query_failure + unit) \<times> planning_memory" where
  "retain_reservation self n =
     (case reservation_reconcile n self of
        (Inl e, s) \<Rightarrow> (Inl e, reservation_drop s)
      | (Inr _, s) \<Rightarrow>
          (case checked_add u64_max (plan_retained (fst s)) n of
             None \<Rightarrow> (Inl Query_Internal, reservation_drop s)
           | Some retained \<Rightarrow> (Inr (), (fst s)\<lparr> plan_retained := retained \<rparr>)))"

definition take_retained :: "planning_memory \<Rightarrow> planning_memory \<times> u64" where
  "take_retained self = (self\<lparr> plan_retained := 0 \<rparr>, plan_retained self)"

definition reservation_merge :: "planning_memory \<times> u64 \<Rightarrow> u64 \<Rightarrow> (query_failure + unit) \<times> (planning_memory \<times> u64)" where
  "reservation_merge self other =
     (case checked_add u64_max (snd self) other of
        None \<Rightarrow> (Inl Query_Internal, (reservation_drop (fst self, other), snd self))
      | Some n \<Rightarrow> (Inr (), (fst self, n)))"

section \<open>The planning observer\<close>

definition planning_observe_allocation ::
  "usize \<Rightarrow> planning_memory \<times> u64 \<Rightarrow> (query_failure + unit) \<times> (planning_memory \<times> u64)" where
  "planning_observe_allocation n self =
     (case try_from u64_max n of
        None \<Rightarrow> (Inl Query_Internal, self)
      | Some n \<Rightarrow>
          (case checked_add u64_max (snd self) n of
             None \<Rightarrow> (Inl Query_MemoryExhausted, self)
           | Some additional \<Rightarrow> reservation_reconcile additional self))"

definition planning_release_allocation ::
  "usize \<Rightarrow> planning_memory \<times> u64 \<Rightarrow> (query_failure + unit) \<times> (planning_memory \<times> u64)" where
  "planning_release_allocation n self =
     (case try_from u64_max n of
        None \<Rightarrow> (Inl Query_Internal, self)
      | Some n \<Rightarrow> reservation_release_bytes n self)"

definition planning_observer :: "(planning_memory \<times> u64, query_failure) observer" where
  "planning_observer =
     \<lparr> ob_structure = (\<lambda>s. (Inr (), s)), ob_payload = (\<lambda>_ s. (Inr (), s)),
       ob_allocate = planning_observe_allocation, ob_release = planning_release_allocation \<rparr>"

end
