(* ===== verification/Metered.thy ===== *)
theory Metered
  imports Planning
begin

text \<open>
  Validation returns what it does not use: with an observer that meters allocations, a
  failed validation leaves the meter where it was and a successful one leaves exactly the
  bytes its result reports. The contract of such an observer is a locale, the planning
  observer its instance.
\<close>

section \<open>Owned bytes\<close>

text \<open>
  A computation that starts owning \<open>held\<close> bytes of the meter: it gives them back when it
  fails and owns \<open>gain\<close> when it succeeds. A collection's loop keeps its count of admitted
  bytes in step with the meter, whichever way it ends.
\<close>

definition settles ::
  "('s \<Rightarrow> bool) \<Rightarrow> ('s \<Rightarrow> nat) \<Rightarrow> nat \<Rightarrow> ('s, 'e, 'a) observed \<Rightarrow> ('a \<Rightarrow> nat) \<Rightarrow> bool" where
  "settles sound outstanding held m gain \<longleftrightarrow>
     (\<forall>s r t. sound s \<longrightarrow> held \<le> outstanding s \<longrightarrow> m s = (r, t) \<longrightarrow>
        sound t \<and> outstanding t + held = outstanding s + (case r of Inl _ \<Rightarrow> 0 | Inr a \<Rightarrow> gain a))"

definition conserves ::
  "('s \<Rightarrow> bool) \<Rightarrow> ('s \<Rightarrow> nat) \<Rightarrow> nat \<Rightarrow> ('s, 'e, 'v) collecting \<Rightarrow> bool" where
  "conserves sound outstanding extra c \<longleftrightarrow>
     (\<forall>adm s r adm' t. sound s \<longrightarrow> adm + extra \<le> outstanding s \<longrightarrow> c adm s = ((r, adm'), t) \<longrightarrow>
        sound t \<and> outstanding t + adm + extra = outstanding s + adm')"

lemma settlesI:
  "(\<And>s r t. sound s \<Longrightarrow> held \<le> outstanding s \<Longrightarrow> m s = (r, t) \<Longrightarrow>
      sound t \<and> outstanding t + held = outstanding s + (case r of Inl _ \<Rightarrow> 0 | Inr a \<Rightarrow> gain a)) \<Longrightarrow>
   settles sound outstanding held m gain"
  by (simp add: settles_def)

lemma settlesD:
  "settles sound outstanding held m gain \<Longrightarrow> sound s \<Longrightarrow> held \<le> outstanding s \<Longrightarrow> m s = (r, t) \<Longrightarrow>
   sound t \<and> outstanding t + held = outstanding s + (case r of Inl _ \<Rightarrow> 0 | Inr a \<Rightarrow> gain a)"
  by (simp add: settles_def)

lemma conservesI:
  "(\<And>adm s r adm' t. sound s \<Longrightarrow> adm + extra \<le> outstanding s \<Longrightarrow> c adm s = ((r, adm'), t) \<Longrightarrow>
      sound t \<and> outstanding t + adm + extra = outstanding s + adm') \<Longrightarrow> conserves sound outstanding extra c"
  by (simp add: conserves_def)

lemma conservesD:
  "conserves sound outstanding extra c \<Longrightarrow> sound s \<Longrightarrow> adm + extra \<le> outstanding s \<Longrightarrow> c adm s = ((r, adm'), t) \<Longrightarrow>
   sound t \<and> outstanding t + adm + extra = outstanding s + adm'"
  by (simp add: conserves_def)

lemma settles_return: "gain a = held \<Longrightarrow> settles sound outstanding held (obs_return a) gain"
  by (auto intro!: settlesI)

lemma settles_fail: "settles sound outstanding 0 (obs_fail e) gain"
  by (auto intro!: settlesI)

lemma settles_domain: "(\<And>a. r = Inr a \<Longrightarrow> gain a = 0) \<Longrightarrow> settles sound outstanding 0 (obs_domain r) gain"
  by (cases r) (auto intro!: settlesI simp: obs_domain_def)

lemma settles_bind:
  assumes m: "settles sound outstanding held m g" and k: "\<And>a. settles sound outstanding (g a) (k a) gain"
  shows "settles sound outstanding held (obs_bind m k) gain"
proof (rule settlesI)
  fix s r t assume *: "sound s" "held \<le> outstanding s" "obs_bind m k s = (r, t)"
  obtain r' s' where run: "m s = (r', s')" by (cases "m s")
  note first = settlesD [OF m *(1,2) run]
  show "sound t \<and> outstanding t + held = outstanding s + (case r of Inl _ \<Rightarrow> 0 | Inr a \<Rightarrow> gain a)"
  proof (cases r')
    case (Inl e)
    then show ?thesis using first run *(3) by (auto simp: obs_bind_def)
  next
    case (Inr a)
    have "k a s' = (r, t)" using run *(3) Inr by (simp add: obs_bind_def)
    moreover have "sound s'" "g a \<le> outstanding s'" using first Inr *(2) by auto
    ultimately show ?thesis using settlesD [OF k [of a], of s' r t] first Inr by simp
  qed
qed

lemma settles_mono: "settles sound outstanding held m g \<Longrightarrow> g = gain \<Longrightarrow> settles sound outstanding held m gain"
  by simp

lemma conserves_call:
  assumes m: "settles sound outstanding 0 m g" and k: "\<And>a. conserves sound outstanding (g a) (k a)"
  shows "conserves sound outstanding 0 (collect_call m k)"
proof (rule conservesI)
  fix adm s r adm' t assume *: "sound s" "adm + 0 \<le> outstanding s" "collect_call m k adm s = ((r, adm'), t)"
  obtain r' s' where run: "m s = (r', s')" by (cases "m s")
  note first = settlesD [OF m *(1) _ run]
  show "sound t \<and> outstanding t + adm + 0 = outstanding s + adm'"
  proof (cases r')
    case (Inl e)
    then show ?thesis using first run * by (simp add: collect_call_def)
  next
    case (Inr a)
    have "k a adm s' = ((r, adm'), t)" using run *(3) Inr by (simp add: collect_call_def)
    moreover have "sound s'" "outstanding s' = outstanding s + g a" using first Inr by auto
    ultimately show ?thesis using conservesD [OF k [of a], of s' adm r adm' t] *(2) by simp
  qed
qed

lemma conserves_domain:
  "(\<And>a. conserves sound outstanding 0 (k a)) \<Longrightarrow> conserves sound outstanding 0 (collect_call (obs_domain r) k)"
  by (rule conserves_call [OF settles_domain, where g = "\<lambda>_. 0"]) simp_all

lemma obs_bind_return [simp]: "obs_bind (obs_return a) k = k a"
  by (simp add: fun_eq_iff obs_bind_def obs_return_def)

lemma conserves_fail: "conserves sound outstanding 0 (collect_fail e)"
  by (auto intro!: conservesI simp: collect_fail_def)

section \<open>The contract of a metering observer\<close>

locale metered_observer =
  fixes ob :: "('s, 'e) observer" and sound :: "'s \<Rightarrow> bool" and outstanding :: "'s \<Rightarrow> nat"
  assumes structure_keeps: "sound s \<Longrightarrow> ob_structure ob s = (r, t) \<Longrightarrow> sound t \<and> outstanding t = outstanding s"
    and payload_keeps: "sound s \<Longrightarrow> ob_payload ob c s = (r, t) \<Longrightarrow> sound t \<and> outstanding t = outstanding s"
    and allocate_admits: "sound s \<Longrightarrow> ob_allocate ob n s = (Inr (), t) \<Longrightarrow> sound t \<and> outstanding t = outstanding s + n"
    and allocate_refuses: "sound s \<Longrightarrow> ob_allocate ob n s = (Inl e, t) \<Longrightarrow> sound t \<and> outstanding t = outstanding s"
    and release_returns: "sound s \<Longrightarrow> n \<le> outstanding s \<Longrightarrow>
      \<exists>t. ob_release ob n s = (Inr (), t) \<and> sound t \<and> outstanding t = outstanding s - n"
begin

lemma settles_structure: "settles sound outstanding 0 (observe_structure ob) (\<lambda>_. 0)"
  by (rule settlesI)
    (auto simp: observe_structure_def obs_call_def split: prod.splits sum.splits dest: structure_keeps)

lemma settles_payload_chunk: "settles sound outstanding 0 (obs_call (ob_payload ob c)) (\<lambda>_. 0)"
  by (rule settlesI) (auto simp: obs_call_def split: prod.splits sum.splits dest: payload_keeps)

lemma settles_payload: "settles sound outstanding 0 (observe_payload ob p) (\<lambda>_. 0)"
proof -
  have "settles sound outstanding 0 (obs_fold (\<lambda>_ c. obs_call (ob_payload ob c)) () cs) (\<lambda>_. 0)" for cs
    by (induction cs) (auto intro: settles_return settles_bind settles_payload_chunk)
  then show ?thesis by (simp add: observe_payload_def)
qed

lemma settles_allocate: "settles sound outstanding 0 (obs_call (ob_allocate ob n)) (\<lambda>_. n)"
  by (rule settlesI)
    (auto simp: obs_call_def split: prod.splits sum.splits dest: allocate_admits allocate_refuses)

lemma release_run:
  "sound s \<Longrightarrow> n \<le> outstanding s \<Longrightarrow>
   \<exists>t. release_output_capacity ob n s = (Inr (), t) \<and> sound t \<and> outstanding t = outstanding s - n"
  using release_returns [of s n] by (auto simp: release_output_capacity_def obs_call_def)

lemma settles_release_part: "settles sound outstanding (n + k) (release_output_capacity ob n) (\<lambda>_. k)"
proof (rule settlesI)
  fix s r t assume *: "sound s" "n + k \<le> outstanding s" "release_output_capacity ob n s = (r, t)"
  then show "sound t \<and> outstanding t + (n + k) = outstanding s + (case r of Inl _ \<Rightarrow> 0 | Inr a \<Rightarrow> k)"
    using release_run [of s n] by auto
qed

lemma settles_release: "settles sound outstanding n (release_output_capacity ob n) (\<lambda>_. 0)"
  using settles_release_part [of n 0] by simp

lemma settles_release_fail:
  "settles sound outstanding n (obs_bind (release_output_capacity ob n) (\<lambda>_. obs_fail e)) gain"
  by (rule settles_bind [OF settles_release settles_fail])

lemma settles_allocate_or_release:
  "settles sound outstanding n
     (obs_catch (obs_call (ob_allocate ob k)) (\<lambda>e. obs_bind (release_output_capacity ob n) (\<lambda>_. obs_fail e)))
     (\<lambda>_. n + k)"
proof (rule settlesI)
  fix s r t assume *: "sound s" "n \<le> outstanding s"
    "obs_catch (obs_call (ob_allocate ob k)) (\<lambda>e. obs_bind (release_output_capacity ob n) (\<lambda>_. obs_fail e)) s = (r, t)"
  obtain r' s' where run: "obs_call (ob_allocate ob k) s = (r', s')" by (cases "obs_call (ob_allocate ob k) s")
  note first = settlesD [OF settles_allocate *(1) _ run]
  show "sound t \<and> outstanding t + n = outstanding s + (case r of Inl _ \<Rightarrow> 0 | Inr a \<Rightarrow> n + k)"
  proof (cases r')
    case (Inl e)
    then have "obs_bind (release_output_capacity ob n) (\<lambda>_. obs_fail e) s' = (r, t)"
      using *(3) run by (simp add: obs_catch_def)
    moreover have "sound s'" "outstanding s' = outstanding s" using first Inl by auto
    ultimately show ?thesis using settlesD [OF settles_release_fail [where gain = "\<lambda>_. n + k"], of s' n e r t] *(2) by simp
  next
    case (Inr u)
    then show ?thesis using first *(2,3) run by (auto simp: obs_catch_def)
  qed
qed

lemma settles_reserve_output: "settles sound outstanding 0 (reserve_output_capacity ob count slot) (\<lambda>n. n)"
  by (auto simp: reserve_output_capacity_def
      intro!: settles_return settles_bind [OF settles_domain] settles_bind [OF settles_allocate])

lemma settles_reconcile:
  "settles sound outstanding admitted (reconcile_output_capacity ob capacity slot admitted) (\<lambda>n. n)"
proof (cases "checked_capacity_bytes capacity slot")
  case (Inl e)
  then show ?thesis by (simp add: reconcile_output_capacity_def settles_release_fail)
next
  case (Inr actual)
  consider "admitted < actual" | "actual < admitted" | "actual = admitted" by linarith
  then show ?thesis
  proof cases
    case 1
    then have "settles sound outstanding admitted
      (obs_bind (obs_catch (obs_call (ob_allocate ob (actual - admitted)))
         (\<lambda>e. obs_bind (release_output_capacity ob admitted) (\<lambda>_. obs_fail e))) (\<lambda>_. obs_return actual)) (\<lambda>n. n)"
      by (intro settles_bind [OF settles_allocate_or_release] settles_return) simp
    then show ?thesis
      using Inr 1 by (simp add: reconcile_output_capacity_def checked_sub_def obs_domain_def)
  next
    case 2
    have "settles sound outstanding (admitted - actual + actual)
      (obs_bind (release_output_capacity ob (admitted - actual)) (\<lambda>_. obs_return actual)) (\<lambda>n. n)"
      by (intro settles_bind [OF settles_release_part] settles_return) simp
    then show ?thesis using Inr 2 by (simp add: reconcile_output_capacity_def)
  next
    case 3
    then show ?thesis using Inr by (simp add: reconcile_output_capacity_def settles_return)
  qed
qed

lemma settles_reserve: "settles sound outstanding 0 (reserve_validated_capacity ob heap count slot) snd"
  unfolding reserve_validated_capacity_def
  by (intro settles_bind [OF settles_reserve_output])
    (auto split: option.split intro!: settles_release_fail settles_bind [OF settles_reconcile] settles_return)

lemma conserves_release_fail:
  "conserves sound outstanding n (collect_call (release_output_capacity ob n) (\<lambda>_. collect_fail e))"
proof (rule conservesI)
  fix adm s r adm' t assume *: "sound s" "adm + n \<le> outstanding s"
    "collect_call (release_output_capacity ob n) (\<lambda>_. collect_fail e) adm s = ((r, adm'), t)"
  then show "sound t \<and> outstanding t + adm + n = outstanding s + adm'"
    using release_run [of s n] by (auto simp: collect_call_def collect_fail_def)
qed

lemma conserves_absorb:
  assumes k: "\<And>acc. conserves sound outstanding 0 (k acc)"
  shows "conserves sound outstanding (transfer_allocation tr) (absorb_child ob vb tr er entry acc k)"
proof (rule conservesI)
  fix adm s r adm' t assume *: "sound s" "adm + transfer_allocation tr \<le> outstanding s"
    "absorb_child ob vb tr er entry acc k adm s = ((r, adm'), t)"
  obtain out n rt where acc: "acc = (out, n, rt)" by (cases acc)
  let ?rest = "collect_call (obs_domain (checked_decoded_add n (transfer_value_size tr))) (\<lambda>n.
    if exceeds_byte_limit n vb then collect_fail (Domain_Failure value_limit_exceeded)
    else collect_call (obs_domain er) (\<lambda>er.
         collect_call (obs_domain (checked_decoded_add rt er)) (\<lambda>rt. k (out @ [entry], n, rt))))"
  have rest: "conserves sound outstanding 0 ?rest"
    by (intro conserves_domain) (auto intro: conserves_fail conserves_domain k)
  show "sound t \<and> outstanding t + adm + transfer_allocation tr = outstanding s + adm'"
  proof (cases "checked_add u64_max adm (transfer_allocation tr)")
    case None
    have "collect_call (release_output_capacity ob (transfer_allocation tr))
      (\<lambda>_. collect_fail (Domain_Failure value_limit_exceeded)) adm s = ((r, adm'), t)"
      using *(3) by (simp add: absorb_child_def acc None)
    then show ?thesis by (rule conservesD [OF conserves_release_fail *(1,2)])
  next
    case (Some m)
    from Some have m: "m = adm + transfer_allocation tr" by simp
    have "?rest (adm + transfer_allocation tr) s = ((r, adm'), t)"
      using *(3) unfolding absorb_child_def acc prod.case Some option.case m .
    moreover have "adm + transfer_allocation tr + 0 \<le> outstanding s" using *(2) by simp
    ultimately have "sound t \<and> outstanding t + (adm + transfer_allocation tr) + 0 = outstanding s + adm'"
      by (intro conservesD [OF rest *(1)])
    then show ?thesis by (simp add: add.assoc)
  qed
qed

lemma settles_wrap: "settles sound outstanding (transfer_allocation tr) (wrap_truncated ob heap act tr) transfer_allocation"
  unfolding wrap_truncated_def Let_def
  by (intro settles_bind [OF settles_allocate_or_release])
    (auto split: option.split intro!: settles_return settles_bind [OF settles_release_part] settles_release_fail
      simp: add.commute)

lemma conserves_done: "conserves sound outstanding 0 (\<lambda>adm s. ((Inr acc, adm), s))"
  by (auto intro!: conservesI)

lemma finish_run:
  assumes "sound s" "outstanding s = base + adm" "finish_collection ob build ((r, adm), s) = (res, t)"
  shows "sound t \<and> outstanding t = base + (case res of Inl _ \<Rightarrow> 0 | Inr tr \<Rightarrow> transfer_allocation tr)"
proof (cases r)
  case (Inl e)
  then have "obs_bind (release_output_capacity ob adm) (\<lambda>_. obs_fail e) s = (res, t)"
    using assms(3) by (simp add: finish_collection_def)
  then show ?thesis
    using settlesD [OF settles_release_fail [where gain = transfer_allocation], of s adm e res t] assms(1,2) by simp
next
  case (Inr c)
  then show ?thesis using assms by (cases c) (auto simp: finish_collection_def)
qed

lemma reconcile_capacity_bytes:
  "reconcile_output_capacity ob cap slot adm s = (Inr n, t) \<Longrightarrow> checked_capacity_bytes cap slot = Inr n"
  by (cases "checked_capacity_bytes cap slot") (auto simp: reconcile_output_capacity_def Let_def split: if_splits)

lemma reserve_capacity_bytes:
  "reserve_validated_capacity ob heap count slot s = (Inr (cap, n), t) \<Longrightarrow> checked_capacity_bytes cap slot = Inr n"
  by (cases "reserve_exact heap count")
    (auto simp: reserve_validated_capacity_def dest: reconcile_capacity_bytes)

lemma settles_frame:
  assumes loop: "\<And>child_depth acc. conserves sound outstanding 0 (loop child_depth acc)"
  shows "settles sound outstanding 0 (collection_frame ob heap depth count limit slot loop build) transfer_allocation"
proof (cases "checked_sub depth 1")
  case None
  show ?thesis unfolding collection_frame_def None option.case by (rule settles_fail)
next
  case (Some child_depth)
  let ?body = "obs_bind (reserve_validated_capacity ob heap count slot) (\<lambda>(capacity, allocation).
    obs_bind (obs_domain (checked_capacity_bytes capacity slot)) (\<lambda>retained s.
    finish_collection ob build (loop child_depth ([], 0, retained) allocation s)))"
  have "settles sound outstanding 0 ?body transfer_allocation"
  proof (rule settlesI)
    fix s r t assume s: "sound s" and run: "?body s = (r, t)"
    obtain r1 s1 where res: "reserve_validated_capacity ob heap count slot s = (r1, s1)"
      by (cases "reserve_validated_capacity ob heap count slot s")
    note first = settlesD [OF settles_reserve s _ res]
    show "sound t \<and> outstanding t + 0 = outstanding s + (case r of Inl _ \<Rightarrow> 0 | Inr tr \<Rightarrow> transfer_allocation tr)"
    proof (cases r1)
      case (Inl e)
      then show ?thesis using first res run by (auto simp: obs_bind_def)
    next
      case (Inr c)
      obtain cap n where c: "c = (cap, n)" by (cases c)
      obtain r2 adm s2 where l: "loop child_depth ([], 0, n) n s1 = ((r2, adm), s2)"
        by (cases "loop child_depth ([], 0, n) n s1") auto
      have fin: "finish_collection ob build ((r2, adm), s2) = (r, t)"
        using run res Inr c reserve_capacity_bytes [OF res [unfolded Inr c]] l
        by (simp add: obs_bind_def obs_domain_def obs_return_def)
      have s1: "sound s1" "outstanding s1 = outstanding s + n" using first Inr c by auto
      have "sound s2" "outstanding s2 = outstanding s + adm"
        using conservesD [OF loop s1(1) _ l] s1(2) by auto
      from finish_run [OF this fin] show ?thesis by simp
    qed
  qed
  then show ?thesis unfolding collection_frame_def Some option.case by (simp add: settles_fail)
qed

lemma validation_settles_aux:
  "ob' = ob \<Longrightarrow> settles sound outstanding 0 (validate_observed_with_facts ob' heap limits vb depth c) transfer_allocation"
  "ob' = ob \<Longrightarrow> conserves sound outstanding 0 (validate_array_loop ob' heap limits vb cs child_depth acc)"
  "ob' = ob \<Longrightarrow> conserves sound outstanding 0 (validate_entries_loop ob' heap limits vb es child_depth acc')"
proof (induction ob' heap limits vb depth c and ob' heap limits vb cs child_depth acc and ob' heap limits vb es child_depth acc'
    rule: validate_observed_with_facts_validate_array_loop_validate_entries_loop.induct)
  case (10 ob' heap limits vb depth c act)
  then have child: "settles sound outstanding 0
      (obs_bind (validate_observed_with_facts ob heap limits vb depth c) (wrap_truncated ob heap act)) transfer_allocation"
    if "truncation_action_valid act (candidate_native_kind c)" "\<not> is_marker_or_truncated c"
    using that by (intro settles_bind [OF _ settles_wrap]) simp
  then show ?case using 10(2) by (auto intro!: settles_bind [OF settles_structure] settles_fail)
next
  case (12 ob' heap limits vb c cs depth acc)
  then have rest: "conserves sound outstanding 0 (validate_array_loop ob heap limits vb cs depth acc)" for acc by simp
  show ?case
    unfolding validate_array_loop.simps 12(3)
    by (rule conserves_call [OF _ conserves_absorb [OF rest]]) (use 12 in simp)
next
  case (14 ob' heap limits vb key c cs depth acc)
  then have rest: "conserves sound outstanding 0 (validate_entries_loop ob heap limits vb cs depth acc)"
    if "key \<noteq> []" "\<not> exceeds_byte_limit (length key) (key_path_bytes (dynamic_part limits))" for acc
    using that by simp
  have "conserves sound outstanding 0
      (collect_call (validate_observed_with_facts ob heap limits vb depth c) (\<lambda>tr.
         absorb_child ob vb tr (checked_decoded_add (payload_capacity heap key) (transfer_retained tr))
           (key, transfer_value tr) acc (validate_entries_loop ob heap limits vb cs depth)))"
    if "key \<noteq> []" "\<not> exceeds_byte_limit (length key) (key_path_bytes (dynamic_part limits))"
    using that 14 by (intro conserves_call [OF _ conserves_absorb [OF rest]]) simp_all
  then show ?case
    unfolding validate_entries_loop.simps 14(3)
    by (auto intro!: conserves_call [OF settles_structure] conserves_call [OF settles_payload] conserves_fail)
qed (auto simp: plain_transfer_def intro!: settles_bind [OF settles_structure] settles_bind [OF settles_payload]
    settles_return settles_fail settles_frame conserves_done)

lemma validation_balanced:
  assumes "sound s" "validate_observed_with_facts ob heap limits vb depth c s = (r, t)"
  shows "sound t \<and> outstanding t = outstanding s + (case r of Inl _ \<Rightarrow> 0 | Inr tr \<Rightarrow> transfer_allocation tr)"
  using settlesD [OF validation_settles_aux(1) [OF refl] assms(1) _ assms(2)] by simp

end

section \<open>The planning observer is one\<close>

text \<open>Its meter is the reservation; the shared counter covers every reservation.\<close>

definition planning_sound :: "planning_memory \<times> u64 \<Rightarrow> bool" where
  "planning_sound s \<longleftrightarrow> snd s \<le> plan_current (fst s) \<and> plan_current (fst s) \<le> u64_max"

lemma planning_grow_cases:
  assumes "planning_grow n m = (r, m')"
  shows "case r of Inl _ \<Rightarrow> m' = m | Inr _ \<Rightarrow> plan_current m' = plan_current m + n \<and> plan_current m' \<le> u64_max"
  using assms by (auto simp: planning_grow_def split: option.splits if_splits)

lemma reconcile_up:
  assumes "planning_sound s" "reservation_reconcile (snd s + n) s = (r, t)"
  shows "planning_sound t \<and> snd t = snd s + (case r of Inl _ \<Rightarrow> 0 | Inr _ \<Rightarrow> n)"
proof (cases "n = 0")
  case True
  then show ?thesis
    using assms by (cases s) (auto simp: reservation_reconcile_def planning_sound_def fetch_sub_exact)
next
  case False
  obtain r' m' where g: "planning_grow n (fst s) = (r', m')" by (cases "planning_grow n (fst s)")
  show ?thesis
    using assms False g planning_grow_cases [OF g]
    by (cases s; cases r') (auto simp: reservation_reconcile_def planning_sound_def)
qed

lemma reconcile_down:
  assumes "planning_sound s" "n \<le> snd s"
  shows "\<exists>t. reservation_reconcile (snd s - n) s = (Inr (), t) \<and> planning_sound t \<and> snd t = snd s - n"
  using assms by (cases s) (auto simp: reservation_reconcile_def planning_sound_def fetch_sub_exact)

interpretation plan_meter: metered_observer planning_observer planning_sound snd
proof
  fix s t :: "planning_memory \<times> u64" and n :: nat and e c and r :: "query_failure + unit"
  assume s: "planning_sound s"
  show "ob_structure planning_observer s = (r, t) \<Longrightarrow> planning_sound t \<and> snd t = snd s"
    "ob_payload planning_observer c s = (r, t) \<Longrightarrow> planning_sound t \<and> snd t = snd s"
    using s by (auto simp: planning_observer_def)
  show "ob_allocate planning_observer n s = (Inr (), t) \<Longrightarrow> planning_sound t \<and> snd t = snd s + n"
    "ob_allocate planning_observer n s = (Inl e, t) \<Longrightarrow> planning_sound t \<and> snd t = snd s"
    using reconcile_up [OF s, of n] s
    by (auto simp: planning_observer_def planning_observe_allocation_def try_from_def split: option.splits if_splits)
  assume n: "n \<le> snd s"
  then have "n \<le> u64_max" using s by (auto simp: planning_sound_def)
  then show "\<exists>t. ob_release planning_observer n s = (Inr (), t) \<and> planning_sound t \<and> snd t = snd s - n"
    using reconcile_down [OF s n] n
    by (simp add: planning_observer_def planning_release_allocation_def try_from_def reservation_release_bytes_def
        checked_sub_def)
qed

end
