(* ===== verification/Attributes.thy ===== *)
theory Attributes
  imports Comparison Metered "HOL-Library.Code_Target_Nat"
begin

text \<open>
  The properties of the domain values: identities, the tenant lifecycle, query times and
  dynamic attribute values.
\<close>

section \<open>Attribute values\<close>

text \<open>C8: The comparison encoding is order-isomorphic to the canonical order: comparing the encodings of
  two well-formed values byte by byte gives the result of \<open>Ord::cmp\<close> on the values, for all values
  whose payload-free markers carry the same action (in particular for all values without markers).\<close>

theorem comparison_encoding_orders:
  assumes "value_ok a" "value_ok b" "markers_use act a" "markers_use act b"
  shows "bytes_cmp (comparison_encoding a) (comparison_encoding b) = value_cmp a b"
  using orders_likeD [OF comparison_orders [OF assms], of "[]" "[]"] by simp

definition sample_left :: validated_value where
  "sample_left = V_Array [V_SignedInteger (- 1), V_KeyValueList [([107], V_String [97, 98])], V_Null]"

definition sample_right :: validated_value where
  "sample_right = V_Array [V_SignedInteger (- 1), V_Truncated (V_KeyValueList [([107], V_String [97])]) TruncatedElements,
     V_Marker \<lparr> original_kind = Kind_Bytes, marker_act = Removed \<rparr>]"

lemma sample_values_ok: "value_ok sample_left" "value_ok sample_right" "markers_use Removed sample_left"
  "markers_use Removed sample_right"
  by (auto simp: sample_left_def sample_right_def i64_ok_def i64_min_def i64_max_def u64_max_def marker_is_valid_def
      truncation_action_valid_def)

theorem comparison_encoding_orders_witness:
  "value_ok sample_left \<and> value_ok sample_right \<and> markers_use Removed sample_left \<and> markers_use Removed sample_right \<and>
   bytes_cmp (comparison_encoding sample_left) (comparison_encoding sample_right) = value_cmp sample_left sample_right"
  using comparison_encoding_orders [OF sample_values_ok] sample_values_ok by blast

text \<open>C36: The order of the encodings and \<open>Ord::cmp\<close> disagree on markers: the encoding compares the action
  first and the original kind second, \<open>cmp\<close> the kind first. Whenever one marker has the smaller action
  and the other the smaller kind, the two comparisons give different results.\<close>

theorem marker_encoding_disagrees:
  assumes "marker_is_valid x" "marker_is_valid y" "marker_act x < marker_act y" "original_kind y < original_kind x"
  shows "bytes_cmp (comparison_encoding (V_Marker x)) (comparison_encoding (V_Marker y)) \<noteq>
         value_cmp (V_Marker x) (V_Marker y)"
  using assms
  by (auto simp: marker_cmp_def cmp_of_def less_marker_action_def less_attribute_value_kind_def)

theorem marker_encoding_disagrees_witness:
  "bytes_cmp (comparison_encoding (V_Marker \<lparr> original_kind = Kind_String, marker_act = Removed \<rparr>))
     (comparison_encoding (V_Marker \<lparr> original_kind = Kind_Boolean, marker_act = Redacted \<rparr>)) \<noteq>
   value_cmp (V_Marker \<lparr> original_kind = Kind_String, marker_act = Removed \<rparr>)
     (V_Marker \<lparr> original_kind = Kind_Boolean, marker_act = Redacted \<rparr>)"
  by (rule marker_encoding_disagrees)
    (simp_all add: marker_is_valid_def less_marker_action_def less_attribute_value_kind_def)

text \<open>C20: The canonical encoding is self-delimiting: when two well-formed values are appended to empty
  buffers and more bytes follow, equal byte strings come from equal values followed by equal bytes.\<close>

theorem canonical_encoding_self_delimiting:
  assumes "value_ok a" "value_ok b" "append_canonical_encoding True a [] = (Inr (), x)"
    "append_canonical_encoding True b [] = (Inr (), y)" "x @ u = y @ w"
  shows "a = b \<and> u = w"
  using prefix_free_atD [OF canonical_prefix_free [OF assms(1,2)], of u w] append_canonical_output(1) [OF assms(1,3)]
    append_canonical_output(1) [OF assms(2,4)] assms(5)
  by simp

theorem canonical_encoding_self_delimiting_witness:
  "append_canonical_encoding True (V_Array [V_Boolean True, V_Null]) [] = (Inr (), [6, 0, 0, 0, 0, 0, 0, 0, 2, 1, 1, 0]) \<and>
   V_Array [V_Boolean True, V_Null] = V_Array [V_Boolean True, V_Null] \<and> [9 :: nat] = [9]"
proof -
  have run: "append_canonical_encoding True (V_Array [V_Boolean True, V_Null]) [] =
    (Inr (), [6, 0, 0, 0, 0, 0, 0, 0, 2, 1, 1, 0])" by code_simp
  have "value_ok (V_Array [V_Boolean True, V_Null])" by (simp add: u64_max_def)
  from canonical_encoding_self_delimiting [OF this this run run, of "[9]" "[9]"] run show ?thesis by simp
qed

text \<open>C21: A canonical encoding has exactly the size that was reserved for it: whatever a successful append adds
  to the buffer is as long as \<open>canonical_encoded_size_bytes\<close> announced.\<close>

theorem canonical_append_fills_reservation:
  assumes "value_ok v" "append_canonical_encoding True v out = (Inr (), out')"
  shows "canonical_encoded_size_bytes v = Inr (length out' - length out)"
  using append_canonical_output [OF assms] by simp

theorem canonical_append_fills_reservation_witness:
  "canonical_encoded_size_bytes (V_KeyValueList [([107], V_SignedInteger 5)]) = Inr 27"
proof -
  have run: "append_canonical_encoding True (V_KeyValueList [([107], V_SignedInteger 5)]) [1, 2] =
    (Inr (), [1, 2, 7, 0, 0, 0, 0, 0, 0, 0, 1, 0, 0, 0, 0, 0, 0, 0, 1, 107, 2, 0, 0, 0, 0, 0, 0, 0, 5])" by code_simp
  have "value_ok (V_KeyValueList [([107], V_SignedInteger 5)])"
    by (simp add: u64_max_def i64_ok_def i64_min_def i64_max_def)
  from canonical_append_fills_reservation [OF this run] show ?thesis by simp
qed

text \<open>C18: Validation is sound, up to one gap. A value that \<open>validate_attribute\<close> returns is the candidate's own
  tree and well formed. It is within every dynamic-value limit of the effective profile (bytes of every value,
  nesting depth, collection entries, key lengths) unless it is a bare boolean, integer or float whose own size is
  above the individual-value limit, which validation does not measure; under a limit of at least eight bytes every
  validated value is within the limits.\<close>

theorem validation_is_typed:
  assumes "validate_attribute heap profile c = Inr v" "candidate_ok c"
    "limits_ok (dynamic_part (effective_limits profile)) (individual_value_bytes (dynamic_part (effective_limits profile)))"
  shows "as_candidate v = c \<and> value_ok v \<and>
    (within_limits (dynamic_part (effective_limits profile))
       (individual_value_bytes (dynamic_part (effective_limits profile)))
       (nesting_depth (dynamic_part (effective_limits profile))) v \<or>
     bare_scalar v \<and> individual_value_bytes (dynamic_part (effective_limits profile)) < payload_size v) \<and>
    (8 \<le> individual_value_bytes (dynamic_part (effective_limits profile)) \<longrightarrow>
     within_limits (dynamic_part (effective_limits profile))
       (individual_value_bytes (dynamic_part (effective_limits profile)))
       (nesting_depth (dynamic_part (effective_limits profile))) v)"
proof -
  let ?lim = "dynamic_part (effective_limits profile)"
  have v: "as_candidate v = c" "shape_within ?lim (individual_value_bytes ?lim) (nesting_depth ?lim) v"
    using validate_attribute_value_accepts [OF assms(1) [unfolded validate_attribute_def Let_def]] by (simp_all add: accepted_def)
  show ?thesis
    using v shape_within_size [OF v(2)] bare_scalar_size [of v] shape_within_value_ok [OF assms(3) v(2)] assms(2)
    by (auto simp: within_limits_iff)
qed

definition sample_heap :: heap_layout where
  "sample_heap = \<lparr> payload_capacity = length, reserve_exact = Some, value_size_of = 32 \<rparr>"

definition sample_candidate :: candidate_value where
  "sample_candidate = C_Array [C_SignedInteger 7, C_Truncated (C_String [97]) TruncatedBytes,
     C_KeyValueList [([107], C_Boolean True)]]"

definition sample_validated :: validated_value where
  "sample_validated = V_Array [V_SignedInteger 7, V_Truncated (V_String [97]) TruncatedBytes,
     V_KeyValueList [([107], V_Boolean True)]]"

lemma sample_validates: "validate_attribute sample_heap release_1_system_maximum sample_candidate = Inr sample_validated"
  by code_simp

lemma sample_candidate_ok: "candidate_ok sample_candidate"
  by (simp add: sample_candidate_def i64_ok_def i64_min_def i64_max_def)

lemma sample_limits_ok:
  "limits_ok (dynamic_part (effective_limits release_1_system_maximum))
     (individual_value_bytes (dynamic_part (effective_limits release_1_system_maximum)))"
  by (simp add: limits_ok_def effective_limits_def release_1_system_maximum_def u32_max_def)

theorem validation_is_typed_witness:
  "validate_attribute sample_heap release_1_system_maximum sample_candidate = Inr sample_validated \<and>
   as_candidate sample_validated = sample_candidate \<and> value_ok sample_validated \<and>
   within_limits (dynamic_part (effective_limits release_1_system_maximum))
     (individual_value_bytes (dynamic_part (effective_limits release_1_system_maximum)))
     (nesting_depth (dynamic_part (effective_limits release_1_system_maximum))) sample_validated"
proof -
  have "8 \<le> individual_value_bytes (dynamic_part (effective_limits release_1_system_maximum))" by code_simp
  then show ?thesis
    using validation_is_typed [OF sample_validates sample_candidate_ok sample_limits_ok] sample_validates by blast
qed

text \<open>C9: Validation returns the memory it does not keep: run with the planning observer, a validation that
  fails leaves the reservation as it found it, and one that succeeds leaves exactly the bytes its result
  reports as allocated; the shared counter still covers the reservation.\<close>

theorem validation_returns_memory:
  assumes "planning_sound s" "validate_attribute_observed_with_facts planning_observer heap profile c s = (r, t)"
  shows "planning_sound t \<and> snd t = snd s + (case r of Inl _ \<Rightarrow> 0 | Inr transfer \<Rightarrow> transfer_allocation transfer)"
  using assms(2) unfolding validate_attribute_observed_with_facts_def Let_def
  by (rule plan_meter.validation_balanced [OF assms(1)])

definition sample_memory :: "planning_memory \<times> u64" where
  "sample_memory = (\<lparr> plan_limit = 200, plan_current = 40, plan_peak = 40, plan_retained = 0 \<rparr>, 30)"

theorem validation_returns_memory_witness:
  "planning_sound sample_memory \<and>
   fst (validate_attribute_observed_with_facts planning_observer sample_heap release_1_system_maximum
     (C_Array [C_Array [C_Null], C_Array [C_Null]]) sample_memory) = Inl (Observer_Failure Query_MemoryExhausted) \<and>
   snd (snd (validate_attribute_observed_with_facts planning_observer sample_heap release_1_system_maximum
     (C_Array [C_Array [C_Null], C_Array [C_Null]]) sample_memory)) = 30"
proof -
  let ?run = "validate_attribute_observed_with_facts planning_observer sample_heap release_1_system_maximum
    (C_Array [C_Array [C_Null], C_Array [C_Null]]) sample_memory"
  have sound: "planning_sound sample_memory" by (simp add: planning_sound_def sample_memory_def u64_max_def)
  have failed: "fst ?run = Inl (Observer_Failure Query_MemoryExhausted)" by code_simp
  have "?run = (fst ?run, snd ?run)" by simp
  from validation_returns_memory [OF sound this] sound failed show ?thesis by (simp add: sample_memory_def)
qed

text \<open>C19: Revalidation under the profile of the validation, exactly. An occurrence set that validation returned
  passes \<open>validate_with_profile\<close> under the same profile if and only if each of its values is within the
  individual-value limit, and fails with the value limit otherwise; only bare scalars can be above it, so under a
  limit of at least eight bytes every accepted set passes.\<close>

theorem accepted_sets_revalidate:
  assumes "occurrence_candidate_validate heap namespace key occurrences profile = Inr s"
    "individual_value_bytes (dynamic_part (effective_limits profile)) \<le> u32_max"
  shows "occurrence_set_validate_with_profile s profile =
      (if \<forall>v \<in> set (set_occurrences s). payload_size v \<le> individual_value_bytes (dynamic_part (effective_limits profile))
       then Inr () else Inl value_limit_exceeded) \<and>
    (\<forall>v \<in> set (set_occurrences s).
       payload_size v \<le> individual_value_bytes (dynamic_part (effective_limits profile)) \<or> bare_scalar v) \<and>
    (8 \<le> individual_value_bytes (dynamic_part (effective_limits profile)) \<longrightarrow>
       occurrence_set_validate_with_profile s profile = Inr ())"
proof -
  let ?limits = "effective_limits profile" and ?bytes = "individual_value_bytes (dynamic_part (effective_limits profile))"
  obtain vs where s: "s = \<lparr> set_namespace = namespace, set_key = key, set_occurrences = vs \<rparr>"
    and ok: "\<not> occurrences_rejected ?limits key (length occurrences)"
    and vs: "list_all2 (\<lambda>c v. validate_attribute_value heap ?limits ?bytes (nesting_depth (dynamic_part ?limits)) c = Inr v)
       occurrences vs"
    using assms(1) by (auto simp: occurrence_candidate_validate_def Let_def for_fold_collects split: if_splits)
  have shape: "shape_within (dynamic_part ?limits) ?bytes (nesting_depth (dynamic_part ?limits)) v" if "v \<in> set vs" for v
    using vs that validate_attribute_value_accepts by (fastforce simp: accepted_def list_all2_conv_all_nth in_set_conv_nth)
  have each: "validate_against ?limits ?bytes (nesting_depth (dynamic_part ?limits)) v =
      (if payload_size v \<le> ?bytes then Inr () else Inl value_limit_exceeded)" if "v \<in> set vs" for v
    by (rule revalidation_exact [OF assms(2) shape [OF that]])
  have run: "occurrence_set_validate_with_profile s profile =
      (if \<forall>v \<in> set vs. payload_size v \<le> ?bytes then Inr () else Inl value_limit_exceeded)"
    using ok list_all2_lengthD [OF vs] for_each_guard [of vs, OF each]
    by (simp add: occurrence_set_validate_with_profile_def Let_def s)
  have scalar: "payload_size v \<le> ?bytes \<or> bare_scalar v" if "v \<in> set vs" for v
    by (rule shape_within_size [OF shape [OF that]])
  then have "payload_size v \<le> ?bytes" if "v \<in> set vs" "8 \<le> ?bytes" for v
    using that bare_scalar_size [of v] by fastforce
  then show ?thesis using run scalar by (simp add: s)
qed

theorem accepted_sets_revalidate_witness:
  "occurrence_set_validate_with_profile
     \<lparr> set_namespace = Namespace_Record, set_key = [107], set_occurrences = [sample_validated] \<rparr> release_1_system_maximum =
   Inr ()"
proof -
  have "occurrence_candidate_validate sample_heap Namespace_Record [107] [sample_candidate] release_1_system_maximum =
    Inr \<lparr> set_namespace = Namespace_Record, set_key = [107], set_occurrences = [sample_validated] \<rparr>" by code_simp
  moreover have "8 \<le> individual_value_bytes (dynamic_part (effective_limits release_1_system_maximum))"
    "individual_value_bytes (dynamic_part (effective_limits release_1_system_maximum)) \<le> u32_max" by code_simp+
  ultimately show ?thesis using accepted_sets_revalidate by blast
qed

text \<open>C37: Under a smaller limit the checks disagree: with fewer than eight bytes per value, every integer passes
  validation, and the value it becomes is refused by revalidation under the same limits.\<close>

theorem narrow_limit_accepts_then_refuses:
  assumes "individual_value_bytes (dynamic_part (effective_limits profile)) < 8"
  shows "validate_attribute heap profile (C_SignedInteger i) = Inr (V_SignedInteger i) \<and>
    validate_against (effective_limits profile) (individual_value_bytes (dynamic_part (effective_limits profile)))
      (nesting_depth (dynamic_part (effective_limits profile))) (V_SignedInteger i) = Inl value_limit_exceeded"
  using assms
  by (simp add: validate_attribute_def validate_attribute_value_def Let_def obs_bind_def observe_structure_def obs_call_def
      unobserved_def obs_return_def remove_observation_def plain_transfer_def validate_against_def size_bounded_def
      exceeds_byte_limit_def and_then_def)

definition narrow_profile :: value_limit_profile where
  "narrow_profile = release_1_system_maximum\<lparr> tenant_limits :=
     Some ((system_limits release_1_system_maximum)\<lparr> dynamic_part :=
       (dynamic_part (system_limits release_1_system_maximum))\<lparr> individual_value_bytes := 4 \<rparr> \<rparr>) \<rparr>"

theorem narrow_limit_accepts_then_refuses_witness:
  "profile_validate (system_limits narrow_profile) (tenant_limits narrow_profile) = Inr narrow_profile \<and>
   validate_attribute sample_heap narrow_profile (C_SignedInteger 5) = Inr (V_SignedInteger 5) \<and>
   validate_against (effective_limits narrow_profile) 4 128 (V_SignedInteger 5) = Inl value_limit_exceeded"
proof -
  have "individual_value_bytes (dynamic_part (effective_limits narrow_profile)) = 4"
    "nesting_depth (dynamic_part (effective_limits narrow_profile)) = 128"
    by (simp_all add: narrow_profile_def effective_limits_def release_1_system_maximum_def)
  moreover have "profile_validate (system_limits narrow_profile) (tenant_limits narrow_profile) = Inr narrow_profile"
    by code_simp
  ultimately show ?thesis using narrow_limit_accepts_then_refuses [of narrow_profile sample_heap 5] by simp
qed

section \<open>Identities and lifecycle\<close>

text \<open>C30: The canonical text of a tenant identity: a text parses to an identity exactly when the identity is
  sixteen bytes, not all zero, and the text is the one the identity prints.\<close>

theorem tenant_text_roundtrip:
  "tenant_parse_canonical s = Inr t \<longleftrightarrow>
   length t = 16 \<and> bytes_ok t \<and> \<not> list_all (\<lambda>b. b = 0) t \<and> s = tenant_to_canonical_text t"
  by (auto simp: tenant_parse_canonical_def tenant_from_bytes_def tenant_to_canonical_text_def parse_identifier_iff
      split: if_splits)

text \<open>C31: Purging cannot be undone: any sequence of accepted transitions from the purging state is empty or is the
  single completion of the purge.\<close>

theorem purge_is_final:
  assumes "for_fold transition_to Tenant_Purging targets = Inr final"
  shows "(targets, final) \<in> {([], Tenant_Purging), ([Tenant_Purged], Tenant_Purged)}"
proof (cases targets)
  case (Cons target rest)
  then have target: "target = Tenant_Purged" and rest: "for_fold transition_to Tenant_Purged rest = Inr final"
    using assms by (auto simp: transition_to_def lifecycle_transition_is_valid_def split: if_splits)
  then show ?thesis
    using Cons by (cases rest) (auto simp: transition_to_def lifecycle_transition_is_valid_def split: if_splits)
qed (use assms in simp)

theorem purge_is_final_witness:
  "for_fold transition_to Tenant_Purging [Tenant_Purged] = Inr Tenant_Purged \<and>
   ([Tenant_Purged], Tenant_Purged) \<in> {([], Tenant_Purging), ([Tenant_Purged], Tenant_Purged)}"
proof -
  have "for_fold transition_to Tenant_Purging [Tenant_Purged] = Inr Tenant_Purged"
    by (simp add: transition_to_def lifecycle_transition_is_valid_def)
  then show ?thesis using purge_is_final by blast
qed

end
