(* ===== verification/Clock.thy ===== *)
theory Clock
  imports Domain "HOL-Library.AList"
begin

text \<open>
  \<^verbatim>\<open>lifecycle_clock.rs\<close> and \<^verbatim>\<open>retention_time.rs\<close> of \<^verbatim>\<open>positron-kernel\<close>: the time authority
  behind retention. Its state is the record of three mutexes, each with the flag that
  says whether it is poisoned. The wall clock and the process-monotonic clock are inputs:
  every operation takes the answers they give during the call.
\<close>

section \<open>Ingest time\<close>

record ingest_time_value =
  it_instant :: instant
  it_retention_authenticated :: bool

definition from_authenticated_durable :: "instant \<Rightarrow> ingest_time_value" where
  "from_authenticated_durable i = \<lparr> it_instant = i, it_retention_authenticated = True \<rparr>"

definition from_unretained_observation :: "instant \<Rightarrow> ingest_time_value" where
  "from_unretained_observation i = \<lparr> it_instant = i, it_retention_authenticated = False \<rparr>"

datatype lifecycle_clock_failure = Clock_Unavailable | Clock_OutOfRange | Clock_Uncertain

text \<open>The non-destructive observation clock.\<close>

record observation_clock =
  oc_last :: "instant option"
  oc_poisoned :: bool

definition observation_clock_new :: observation_clock where
  "observation_clock_new = \<lparr> oc_last = None, oc_poisoned = False \<rparr>"

definition assign_ingest_time ::
  "lifecycle_clock_failure + instant \<Rightarrow> observation_clock \<Rightarrow>
   (lifecycle_clock_failure + ingest_time_value) \<times> observation_clock" where
  "assign_ingest_time source self =
     (case source of
        Inl e \<Rightarrow> (Inl e, self)
      | Inr observed \<Rightarrow>
          if oc_poisoned self then (Inl Clock_Unavailable, self)
          else
            let assigned = (case oc_last self of None \<Rightarrow> observed | Some previous \<Rightarrow> max previous observed)
            in (Inr (from_unretained_observation assigned), self\<lparr> oc_last := Some assigned \<rparr>))"

section \<open>Safety state\<close>

definition DEFAULT_MAXIMUM_RECONCILIATION_OFFSET_NANOSECONDS :: u64 where
  "DEFAULT_MAXIMUM_RECONCILIATION_OFFSET_NANOSECONDS = 300000000000"

definition clock_policy_new :: "u64 \<Rightarrow> lifecycle_clock_failure + u64" where
  "clock_policy_new maximum = (if maximum = 0 then Inl Clock_OutOfRange else Inr maximum)"

datatype lifecycle_clock_state = Certain | ClockUncertain

datatype clock_acceptance_failure =
    Accept_Unavailable | NotUncertain | StaleAnchor | MissingDiscontinuity | PersistenceMismatch | Accept_OutOfRange

datatype anchor_acceptance_relation = ExactHistorical | ProvablyLater

record clock_safety =
  anchor :: instant
  anchor_elapsed :: u64
  clock_state :: lifecycle_clock_state
  last_wall_clock :: "instant option"
  observed_offset_nanoseconds :: "int option"
  wall_clock_correction_nanoseconds :: int
  revision :: u64

record clock_status =
  status_state :: lifecycle_clock_state
  status_safe_anchor :: instant
  status_last_wall_clock :: "instant option"
  status_observed_offset :: "int option"

record scope_baseline =
  baseline_instant :: instant
  elapsed_at_start :: u64

record segment_scope =
  scope_tenant :: tenant_identifier
  scope_signal :: signal_kind
  scope_shard :: u32

record time_config =
  tc_epoch :: instant
  tc_destructive_retention :: bool
  tc_has_source :: bool
  tc_maximum_offset :: u64

record time_authority =
  acceptance_poisoned :: bool
  safety_poisoned :: bool
  scopes_poisoned :: bool
  safety :: clock_safety
  scopes :: "(segment_scope \<times> scope_baseline) list"

text \<open>What the outside answers during one call: the monotonic clock and the wall clock.\<close>

record clock_reading =
  reading_elapsed :: "lifecycle_clock_failure + u64"
  reading_wall :: "lifecycle_clock_failure + instant"

text \<open>The limit of the scope map, \<open>MAX_TENANT_QUOTAS\<close> of the governor.\<close>

definition MAX_CLOCK_SCOPES :: nat where "MAX_CLOCK_SCOPES = 1024"

definition with_parts :: "instant \<Rightarrow> time_authority" where
  "with_parts epoch =
     \<lparr> acceptance_poisoned = False, safety_poisoned = False, scopes_poisoned = False,
       safety = \<lparr> anchor = epoch, anchor_elapsed = 0, clock_state = Certain, last_wall_clock = Some epoch,
                  observed_offset_nanoseconds = Some 0, wall_clock_correction_nanoseconds = 0, revision = 0 \<rparr>,
       scopes = [] \<rparr>"

definition establish_with_source ::
  "lifecycle_clock_failure + instant \<Rightarrow> u64 \<Rightarrow> lifecycle_clock_failure + time_config \<times> time_authority" where
  "establish_with_source source policy =
     and_then source (\<lambda>epoch.
     Inr (\<lparr> tc_epoch = epoch, tc_destructive_retention = True, tc_has_source = True, tc_maximum_offset = policy \<rparr>,
          with_parts epoch))"

section \<open>Moving time forward\<close>

definition advance_from :: "instant \<Rightarrow> u64 \<Rightarrow> u64 \<Rightarrow> lifecycle_clock_failure + instant" where
  "advance_from instant start elapsed =
     ok_or (Option.bind (checked_sub elapsed start) (\<lambda>delta.
            Option.bind (i64_of (int delta)) (\<lambda>delta. i64_checked_add instant delta))) Clock_OutOfRange"

definition advance_global :: "clock_safety \<Rightarrow> u64 \<Rightarrow> lifecycle_clock_failure + instant" where
  "advance_global s elapsed = advance_from (anchor s) (anchor_elapsed s) elapsed"

definition advance :: "scope_baseline \<Rightarrow> u64 \<Rightarrow> lifecycle_clock_failure + instant" where
  "advance b elapsed = advance_from (baseline_instant b) (elapsed_at_start b) elapsed"

text \<open>
  An error after the anchor moved leaves it moved: the guard is a live reference into the
  mutex.
\<close>

definition reconcile_while_acceptance_held ::
  "time_config \<Rightarrow> clock_reading \<Rightarrow> instant \<Rightarrow> u64 \<Rightarrow> time_authority \<Rightarrow>
   (lifecycle_clock_failure + unit) \<times> time_authority" where
  "reconcile_while_acceptance_held cfg reading durable_or_expected elapsed self =
     (if safety_poisoned self then (Inl Clock_Unavailable, self) else
      case advance_global (safety self) elapsed of
        Inl e \<Rightarrow> (Inl e, self)
      | Inr advanced \<Rightarrow>
          let expected = max advanced durable_or_expected;
              moved = (safety self)\<lparr> anchor := expected, anchor_elapsed := elapsed \<rparr>
          in case checked_add u64_max (revision moved) 1 of
               None \<Rightarrow> (Inl Clock_OutOfRange, self\<lparr> safety := moved \<rparr>)
             | Some next \<Rightarrow>
                 let revised = moved\<lparr> revision := next \<rparr>;
                     held = self\<lparr> safety := revised \<rparr>
                 in if \<not> tc_has_source cfg then (Inr (), held)
                    else case reading_wall reading of
                      Inl e \<Rightarrow> (Inl e, held)
                    | Inr wall \<Rightarrow>
                        (case i64_checked_sub wall expected of
                           None \<Rightarrow> (Inl Clock_OutOfRange, held)
                         | Some offset \<Rightarrow>
                             (case i64_checked_add wall (wall_clock_correction_nanoseconds revised) of
                                None \<Rightarrow> (Inl Clock_OutOfRange, held)
                              | Some adjusted_wall \<Rightarrow>
                                  (Inr (),
                                   self\<lparr> safety := revised\<lparr> last_wall_clock := Some wall,
                                     observed_offset_nanoseconds := Some offset,
                                     clock_state :=
                                       (if int (tc_maximum_offset cfg) < \<bar>adjusted_wall - expected\<bar>
                                        then ClockUncertain else Certain) \<rparr> \<rparr>))))"

definition reconcile ::
  "time_config \<Rightarrow> clock_reading \<Rightarrow> instant \<Rightarrow> u64 \<Rightarrow> time_authority \<Rightarrow>
   (lifecycle_clock_failure + unit) \<times> time_authority" where
  "reconcile cfg reading durable_or_expected elapsed self =
     (if acceptance_poisoned self then (Inl Clock_Unavailable, self)
      else reconcile_while_acceptance_held cfg reading durable_or_expected elapsed self)"

definition reconcile_current ::
  "time_config \<Rightarrow> clock_reading \<Rightarrow> u64 \<Rightarrow> time_authority \<Rightarrow> (lifecycle_clock_failure + unit) \<times> time_authority" where
  "reconcile_current cfg reading elapsed self =
     (if safety_poisoned self then (Inl Clock_Unavailable, self) else
      case advance_global (safety self) elapsed of
        Inl e \<Rightarrow> (Inl e, self)
      | Inr expected \<Rightarrow> reconcile cfg reading expected elapsed self)"

definition clock_status_of :: "time_config \<Rightarrow> time_authority \<Rightarrow> clock_status" where
  "clock_status_of cfg self =
     (if safety_poisoned self
      then \<lparr> status_state = ClockUncertain, status_safe_anchor = tc_epoch cfg, status_last_wall_clock = None,
             status_observed_offset = None \<rparr>
      else \<lparr> status_state = clock_state (safety self), status_safe_anchor = anchor (safety self),
             status_last_wall_clock = last_wall_clock (safety self),
             status_observed_offset = observed_offset_nanoseconds (safety self) \<rparr>)"

definition authorizes_destructive_retention :: "time_config \<Rightarrow> time_authority \<Rightarrow> bool" where
  "authorizes_destructive_retention cfg self =
     (tc_destructive_retention cfg \<and> status_state (clock_status_of cfg self) = Certain)"

section \<open>Minting time\<close>

text \<open>The map of scope baselines is an association list with distinct keys.\<close>

definition scopes_full :: "time_authority \<Rightarrow> segment_scope \<Rightarrow> bool" where
  "scopes_full self scope \<longleftrightarrow> map_of (scopes self) scope = None \<and> MAX_CLOCK_SCOPES \<le> length (scopes self)"

definition recover_scope ::
  "time_config \<Rightarrow> clock_reading \<Rightarrow> segment_scope \<Rightarrow> ingest_time_value \<Rightarrow> time_authority \<Rightarrow>
   (lifecycle_clock_failure + unit) \<times> time_authority" where
  "recover_scope cfg reading scope durable self =
     (case reading_elapsed reading of
        Inl e \<Rightarrow> (Inl e, self)
      | Inr elapsed \<Rightarrow>
          (case reconcile cfg reading (it_instant durable) elapsed self of
             (Inl e, self) \<Rightarrow> (Inl e, self)
           | (Inr _, self) \<Rightarrow>
               if scopes_poisoned self then (Inl Clock_Unavailable, self)
               else if scopes_full self scope then (Inl Clock_OutOfRange, self)
               else (case map_of (scopes self) scope of
                       Some baseline \<Rightarrow>
                         (case advance baseline elapsed of
                            Inl e \<Rightarrow> (Inl e, self)
                          | Inr current \<Rightarrow>
                              (Inr (), self\<lparr> scopes := AList.update scope
                                 \<lparr> baseline_instant = max current (it_instant durable), elapsed_at_start = elapsed \<rparr>
                                 (scopes self) \<rparr>))
                     | None \<Rightarrow>
                         (Inr (), self\<lparr> scopes := AList.update scope
                            \<lparr> baseline_instant = it_instant durable, elapsed_at_start = 0 \<rparr> (scopes self) \<rparr>))))"

text \<open>The baseline of a new scope stays even when the time it would give is out of range.\<close>

definition ingest_time ::
  "time_config \<Rightarrow> clock_reading \<Rightarrow> segment_scope \<Rightarrow> ingest_time_value option \<Rightarrow> time_authority \<Rightarrow>
   (lifecycle_clock_failure + ingest_time_value) \<times> time_authority" where
  "ingest_time cfg reading scope durable self =
     (case reading_elapsed reading of
        Inl e \<Rightarrow> (Inl e, self)
      | Inr elapsed \<Rightarrow>
          (case reconcile_current cfg reading elapsed self of
             (Inl e, self) \<Rightarrow> (Inl e, self)
           | (Inr _, self) \<Rightarrow>
               if scopes_poisoned self then (Inl Clock_Unavailable, self)
               else if scopes_full self scope then (Inl Clock_OutOfRange, self)
               else
                 let fresh = \<lparr> baseline_instant = (case durable of None \<Rightarrow> tc_epoch cfg | Some d \<Rightarrow> it_instant d),
                               elapsed_at_start = 0 \<rparr>;
                     (baseline, entered) =
                       (case map_of (scopes self) scope of
                          Some b \<Rightarrow> (b, scopes self)
                        | None \<Rightarrow> (fresh, AList.update scope fresh (scopes self)));
                     self = self\<lparr> scopes := entered \<rparr>
                 in (case advance baseline elapsed of
                       Inl e \<Rightarrow> (Inl e, self)
                     | Inr advanced \<Rightarrow> (Inr (from_authenticated_durable advanced), self))))"

definition destructive_ingest_time ::
  "time_config \<Rightarrow> clock_reading \<Rightarrow> segment_scope \<Rightarrow> ingest_time_value option \<Rightarrow> time_authority \<Rightarrow>
   (lifecycle_clock_failure + ingest_time_value) \<times> time_authority" where
  "destructive_ingest_time cfg reading scope durable self =
     (case ingest_time cfg reading scope durable self of
        (Inl e, self) \<Rightarrow> (Inl e, self)
      | (Inr ingest, self) \<Rightarrow>
          if authorizes_destructive_retention cfg self then (Inr ingest, self) else (Inl Clock_Uncertain, self))"

text \<open>Whole seconds of an instant: \<open>i64\<close> division truncates towards zero.\<close>

definition whole_seconds :: "instant \<Rightarrow> u64 option" where
  "whole_seconds value =
     (let q = (if value < 0 then - (- value div 1000000000) else value div 1000000000) in
      if 0 \<le> q then Some (nat q) else None)"

definition lease_recovery_time ::
  "time_config \<Rightarrow> clock_reading \<Rightarrow> segment_scope \<Rightarrow> ingest_time_value option \<Rightarrow> time_authority \<Rightarrow>
   (lifecycle_clock_failure + u64 option) \<times> time_authority" where
  "lease_recovery_time cfg reading scope durable self =
     (case durable of
        None \<Rightarrow> (Inr None, self)
      | Some durable \<Rightarrow>
          (case ingest_time cfg reading scope (Some durable) self of
             (Inl e, self) \<Rightarrow> (Inl e, self)
           | (Inr t, self) \<Rightarrow> (and_then (ok_or (whole_seconds (it_instant t)) Clock_OutOfRange) (\<lambda>v. Inr (Some v)), self)))"

definition lease_time ::
  "time_config \<Rightarrow> clock_reading \<Rightarrow> segment_scope \<Rightarrow> time_authority \<Rightarrow> (lifecycle_clock_failure + u64) \<times> time_authority" where
  "lease_time cfg reading scope self =
     (case ingest_time cfg reading scope None self of
        (Inl e, self) \<Rightarrow> (Inl e, self)
      | (Inr t, self) \<Rightarrow> (ok_or (whole_seconds (it_instant t)) Clock_OutOfRange, self))"

definition governance_now_seconds ::
  "time_config \<Rightarrow> clock_reading \<Rightarrow> time_authority \<Rightarrow> (lifecycle_clock_failure + u64) \<times> time_authority" where
  "governance_now_seconds cfg reading self =
     (case reading_elapsed reading of
        Inl e \<Rightarrow> (Inl e, self)
      | Inr elapsed \<Rightarrow>
          (case reconcile_current cfg reading elapsed self of
             (Inl e, self) \<Rightarrow> (Inl e, self)
           | (Inr _, self) \<Rightarrow>
               if safety_poisoned self then (Inl Clock_Unavailable, self)
               else (and_then (advance_global (safety self) elapsed) (\<lambda>t. ok_or (whole_seconds t) Clock_OutOfRange), self)))"

definition security_time_seconds ::
  "time_config \<Rightarrow> clock_reading \<Rightarrow> time_authority \<Rightarrow> (lifecycle_clock_failure + u64) \<times> time_authority" where
  "security_time_seconds cfg reading self =
     (if safety_poisoned self then (Inl Clock_Unavailable, self)
      else if clock_state (safety self) \<noteq> Certain then (Inl Clock_Uncertain, self)
      else case reading_elapsed reading of
        Inl e \<Rightarrow> (Inl e, self)
      | Inr elapsed \<Rightarrow>
          (case reconcile_current cfg reading elapsed self of
             (Inl e, self) \<Rightarrow> (Inl e, self)
           | (Inr _, self) \<Rightarrow>
               if safety_poisoned self then (Inl Clock_Unavailable, self)
               else if clock_state (safety self) \<noteq> Certain then (Inl Clock_Uncertain, self)
               else case last_wall_clock (safety self) of
                 None \<Rightarrow> (Inl Clock_Unavailable, self)
               | Some wall \<Rightarrow> (ok_or (whole_seconds wall) Clock_OutOfRange, self)))"

end
