(* ===== verification/Anchor.thy ===== *)
theory Anchor
  imports Clock
begin

text \<open>
  The durable lifecycle anchor of \<^verbatim>\<open>retention_time.rs\<close>: its record in the Catalog, recovery from
  a Catalog snapshot, the acceptance of a discontinuity, and candidates staged for a Catalog
  generation. A snapshot is the list of its plaintext objects.
\<close>

section \<open>The record\<close>

definition CLOCK_ANCHOR_MAGIC :: bytes where
  "CLOCK_ANCHOR_MAGIC = [80, 76, 73, 70, 67, 76, 75, 49]"

definition CLOCK_ANCHOR_VERSION :: u8 where "CLOCK_ANCHOR_VERSION = 2"
definition CLOCK_ANCHOR_V1_BYTES :: usize where "CLOCK_ANCHOR_V1_BYTES = 36"
definition CLOCK_ANCHOR_BYTES :: usize where "CLOCK_ANCHOR_BYTES = CLOCK_ANCHOR_V1_BYTES + 8"

text \<open>An optional field: a presence byte and eight bytes, zero when absent.\<close>

definition optional_field :: "int option \<Rightarrow> bytes" where
  "optional_field v = (case v of Some x \<Rightarrow> 1 # i64_be_bytes x | None \<Rightarrow> 0 # i64_be_bytes 0)"

definition state_byte :: "lifecycle_clock_state \<Rightarrow> u8" where
  "state_byte st = (case st of Certain \<Rightarrow> 0 | ClockUncertain \<Rightarrow> 1)"

text \<open>The bytes, and the encoder with the allocator's answer as its first argument.\<close>

definition anchor_bytes :: "clock_safety \<Rightarrow> bytes" where
  "anchor_bytes s =
     CLOCK_ANCHOR_MAGIC @ [CLOCK_ANCHOR_VERSION] @ [state_byte (clock_state s)] @ i64_be_bytes (anchor s) @
     optional_field (last_wall_clock s) @ optional_field (observed_offset_nanoseconds s) @
     i64_be_bytes (wall_clock_correction_nanoseconds s)"

definition encode_catalog_anchor :: "bool \<Rightarrow> clock_safety \<Rightarrow> lifecycle_clock_failure + bytes" where
  "encode_catalog_anchor reserved s = (if \<not> reserved then Inl Clock_OutOfRange else Inr (anchor_bytes s))"

definition read_i64 :: "bytes \<Rightarrow> usize \<Rightarrow> lifecycle_clock_failure + int" where
  "read_i64 bs start = ok_or (map_option i64_be_value (slice_range bs start 8)) Clock_OutOfRange"

definition read_optional :: "bytes \<Rightarrow> usize \<Rightarrow> lifecycle_clock_failure + int option" where
  "read_optional bs at =
     (case slice_get bs at of
        Some flag \<Rightarrow>
          if flag = 0 then Inr None
          else if flag = 1 then and_then (read_i64 bs (at + 1)) (\<lambda>v. Inr (Some v))
          else Inl Clock_OutOfRange
      | None \<Rightarrow> Inl Clock_OutOfRange)"

definition read_state :: "bytes \<Rightarrow> lifecycle_clock_failure + lifecycle_clock_state" where
  "read_state bs =
     (case slice_get bs 9 of
        Some flag \<Rightarrow>
          if flag = 0 then Inr Certain else if flag = 1 then Inr ClockUncertain else Inl Clock_OutOfRange
      | None \<Rightarrow> Inl Clock_OutOfRange)"

definition decode_catalog_anchor :: "bytes \<Rightarrow> lifecycle_clock_failure + clock_safety option" where
  "decode_catalog_anchor bs =
     (if take 8 bs \<noteq> CLOCK_ANCHOR_MAGIC then Inr None
      else and_then (ok_or (slice_get bs 8) Clock_OutOfRange) (\<lambda>version.
      if \<not> ((version = 1 \<and> length bs = CLOCK_ANCHOR_V1_BYTES) \<or>
            (version = CLOCK_ANCHOR_VERSION \<and> length bs = CLOCK_ANCHOR_BYTES))
      then Inl Clock_OutOfRange
      else and_then (read_state bs) (\<lambda>st.
           and_then (read_i64 bs 10) (\<lambda>anchor_instant.
           and_then (read_optional bs 18) (\<lambda>wall.
           and_then (read_optional bs 27) (\<lambda>offset.
           and_then (if version = 1 then Inr 0 else read_i64 bs CLOCK_ANCHOR_V1_BYTES) (\<lambda>correction.
           Inr (Some \<lparr> anchor = anchor_instant, anchor_elapsed = 0, clock_state = st, last_wall_clock = wall,
                       observed_offset_nanoseconds = offset, wall_clock_correction_nanoseconds = correction,
                       revision = 0 \<rparr>))))))))"

text \<open>What the record keeps of a safety state, and the states whose fields are machine integers.\<close>

definition durable_part :: "clock_safety \<Rightarrow> clock_safety" where
  "durable_part s = s\<lparr> anchor_elapsed := 0, revision := 0 \<rparr>"

definition safety_typed :: "clock_safety \<Rightarrow> bool" where
  "safety_typed s \<longleftrightarrow>
     i64_ok (anchor s) \<and> anchor_elapsed s \<le> u64_max \<and> pred_option i64_ok (last_wall_clock s) \<and>
     pred_option i64_ok (observed_offset_nanoseconds s) \<and> i64_ok (wall_clock_correction_nanoseconds s) \<and>
     revision s \<le> u64_max"

lemma length_optional_field [simp]: "length (optional_field v) = 9"
  by (simp add: optional_field_def split: option.splits)

lemma length_anchor_bytes [simp]: "length (anchor_bytes s) = CLOCK_ANCHOR_BYTES"
  by (simp add: anchor_bytes_def CLOCK_ANCHOR_MAGIC_def CLOCK_ANCHOR_BYTES_def CLOCK_ANCHOR_V1_BYTES_def)

lemma read_i64_field:
  assumes "bs = us @ i64_be_bytes v @ vs" and "length us = start" and "i64_ok v"
  shows "read_i64 bs start = Inr v"
  using assms by (simp add: read_i64_def codec_simps ok_or_def)

lemma read_optional_field:
  assumes bs: "bs = us @ optional_field v @ vs" and len: "length us = at" and ok: "pred_option i64_ok v"
  shows "read_optional bs at = Inr v"
proof (cases v)
  case None
  then have "bs = us @ 0 # i64_be_bytes 0 @ vs" by (simp add: bs optional_field_def)
  then have flag: "slice_get bs at = Some 0" using len by auto
  show ?thesis unfolding read_optional_def flag by (simp add: None)
next
  case (Some x)
  then have split: "bs = (us @ [1]) @ i64_be_bytes x @ vs" by (simp add: bs optional_field_def)
  have flag: "slice_get bs at = Some 1" using len by (auto simp: split)
  have got: "read_i64 bs (at + 1) = Inr x" using len ok by (intro read_i64_field [OF split]) (simp_all add: Some)
  show ?thesis unfolding read_optional_def flag got by (simp add: Some)
qed

text \<open>Where each field of the record stands.\<close>

lemma anchor_bytes_fields:
  "\<exists>us vs. anchor_bytes s = us @ i64_be_bytes (anchor s) @ vs \<and> length us = 10"
  "\<exists>us vs. anchor_bytes s = us @ optional_field (last_wall_clock s) @ vs \<and> length us = 18"
  "\<exists>us vs. anchor_bytes s = us @ optional_field (observed_offset_nanoseconds s) @ vs \<and> length us = 27"
  "\<exists>us vs. anchor_bytes s = us @ i64_be_bytes (wall_clock_correction_nanoseconds s) @ vs \<and> length us = 36"
proof -
  let ?head = "CLOCK_ANCHOR_MAGIC @ [CLOCK_ANCHOR_VERSION] @ [state_byte (clock_state s)]"
  let ?wall = "optional_field (last_wall_clock s)"
  let ?offset = "optional_field (observed_offset_nanoseconds s)"
  let ?correction = "i64_be_bytes (wall_clock_correction_nanoseconds s)"
  have len: "length ?head = 10" by (simp add: CLOCK_ANCHOR_MAGIC_def)
  show "\<exists>us vs. anchor_bytes s = us @ i64_be_bytes (anchor s) @ vs \<and> length us = 10"
    by (rule exI [of _ ?head], rule exI [of _ "?wall @ ?offset @ ?correction"])
      (simp add: anchor_bytes_def CLOCK_ANCHOR_MAGIC_def)
  show "\<exists>us vs. anchor_bytes s = us @ ?wall @ vs \<and> length us = 18"
    by (rule exI [of _ "?head @ i64_be_bytes (anchor s)"], rule exI [of _ "?offset @ ?correction"])
      (simp add: anchor_bytes_def CLOCK_ANCHOR_MAGIC_def)
  show "\<exists>us vs. anchor_bytes s = us @ ?offset @ vs \<and> length us = 27"
    by (rule exI [of _ "?head @ i64_be_bytes (anchor s) @ ?wall"], rule exI [of _ ?correction])
      (simp add: anchor_bytes_def CLOCK_ANCHOR_MAGIC_def)
  show "\<exists>us vs. anchor_bytes s = us @ ?correction @ vs \<and> length us = 36"
    by (rule exI [of _ "?head @ i64_be_bytes (anchor s) @ ?wall @ ?offset"], rule exI [of _ "[]"])
      (simp add: anchor_bytes_def CLOCK_ANCHOR_MAGIC_def)
qed

lemma anchor_bytes_head:
  "take 8 (anchor_bytes s) = CLOCK_ANCHOR_MAGIC"
  "slice_get (anchor_bytes s) 8 = Some CLOCK_ANCHOR_VERSION"
  "read_state (anchor_bytes s) = Inr (clock_state s)"
  by (simp_all add: anchor_bytes_def CLOCK_ANCHOR_MAGIC_def slice_get_def read_state_def state_byte_def
      split: lifecycle_clock_state.splits)

lemma decode_anchor_bytes:
  assumes "safety_typed s"
  shows "decode_catalog_anchor (anchor_bytes s) = Inr (Some (durable_part s))"
proof -
  have ok: "i64_ok (anchor s)" "pred_option i64_ok (last_wall_clock s)"
      "pred_option i64_ok (observed_offset_nanoseconds s)" "i64_ok (wall_clock_correction_nanoseconds s)"
    using assms by (simp_all add: safety_typed_def)
  have "read_i64 (anchor_bytes s) 10 = Inr (anchor s)"
    using anchor_bytes_fields(1) [of s] ok(1) by (blast intro: read_i64_field)
  moreover have "read_optional (anchor_bytes s) 18 = Inr (last_wall_clock s)"
    using anchor_bytes_fields(2) [of s] ok(2) by (blast intro: read_optional_field)
  moreover have "read_optional (anchor_bytes s) 27 = Inr (observed_offset_nanoseconds s)"
    using anchor_bytes_fields(3) [of s] ok(3) by (blast intro: read_optional_field)
  moreover have "read_i64 (anchor_bytes s) CLOCK_ANCHOR_V1_BYTES = Inr (wall_clock_correction_nanoseconds s)"
    using anchor_bytes_fields(4) [of s] ok(4) unfolding CLOCK_ANCHOR_V1_BYTES_def by (blast intro: read_i64_field)
  ultimately show ?thesis
    by (simp add: decode_catalog_anchor_def anchor_bytes_head ok_or_def CLOCK_ANCHOR_VERSION_def durable_part_def)
qed

text \<open>The record as a codec of durable states.\<close>

definition anchor_durable :: "clock_safety \<Rightarrow> bool" where
  "anchor_durable s \<longleftrightarrow> safety_typed s \<and> anchor_elapsed s = 0 \<and> revision s = 0"

lemma durable_part_id: "anchor_durable s \<Longrightarrow> durable_part s = s"
  by (simp add: anchor_durable_def durable_part_def)

interpretation anchor_codec: codec anchor_bytes
    "\<lambda>bs. and_then (decode_catalog_anchor bs) (\<lambda>r. ok_or r Clock_OutOfRange)" anchor_durable
proof unfold_locales
  fix s assume "anchor_durable s"
  then show "and_then (decode_catalog_anchor (anchor_bytes s)) (\<lambda>r. ok_or r Clock_OutOfRange) = Inr s"
    using durable_part_id [of s] by (simp add: decode_anchor_bytes anchor_durable_def ok_or_def)
qed

lemma anchor_bytes_durable_part: "anchor_bytes (durable_part s) = anchor_bytes s"
  by (simp add: anchor_bytes_def durable_part_def)

lemma anchor_bytes_inject:
  assumes "safety_typed s" and "safety_typed t"
  shows "anchor_bytes s = anchor_bytes t \<longleftrightarrow> durable_part s = durable_part t"
proof -
  have "anchor_durable (durable_part s)" "anchor_durable (durable_part t)"
    using assms by (simp_all add: anchor_durable_def safety_typed_def durable_part_def)
  from anchor_codec.encode_inject [OF this] show ?thesis by (simp add: anchor_bytes_durable_part)
qed

definition validate_catalog_anchor_record :: "bytes \<Rightarrow> lifecycle_clock_failure + bool" where
  "validate_catalog_anchor_record bs = and_then (decode_catalog_anchor bs) (\<lambda>r. Inr (r \<noteq> None))"

definition validate_catalog_anchor_singleton :: "bytes \<Rightarrow> bool \<Rightarrow> (lifecycle_clock_failure + bool) \<times> bool" where
  "validate_catalog_anchor_singleton bs anchor_seen =
     (case validate_catalog_anchor_record bs of
        Inl e \<Rightarrow> (Inl e, anchor_seen)
      | Inr is_anchor \<Rightarrow>
          if is_anchor then (if anchor_seen then Inl Clock_OutOfRange else Inr is_anchor, True)
          else (Inr is_anchor, anchor_seen))"

definition catalog_anchor_acceptance_relation ::
  "bytes \<Rightarrow> instant \<Rightarrow> instant \<Rightarrow> int \<Rightarrow> lifecycle_clock_failure + anchor_acceptance_relation option" where
  "catalog_anchor_acceptance_relation bs safe_anchor observed_wall_clock observed_offset =
     and_then (decode_catalog_anchor bs) (\<lambda>r.
     (case r of
        None \<Rightarrow> Inr None
      | Some record \<Rightarrow>
          and_then (ok_or (i64_checked_sub safe_anchor observed_wall_clock) Clock_OutOfRange) (\<lambda>correction.
          if clock_state record = Certain \<and> anchor record = safe_anchor \<and>
             last_wall_clock record = Some observed_wall_clock \<and>
             observed_offset_nanoseconds record = Some observed_offset \<and>
             wall_clock_correction_nanoseconds record = correction
          then Inr (Some ExactHistorical)
          else if safe_anchor < anchor record then Inr (Some ProvablyLater)
          else Inr None)))"

definition catalog_anchor_matches_accepted_discontinuity ::
  "bytes \<Rightarrow> instant \<Rightarrow> instant \<Rightarrow> int \<Rightarrow> lifecycle_clock_failure + bool" where
  "catalog_anchor_matches_accepted_discontinuity bs safe_anchor observed_wall_clock observed_offset =
     and_then (catalog_anchor_acceptance_relation bs safe_anchor observed_wall_clock observed_offset) (\<lambda>r.
     Inr (r = Some ExactHistorical))"

section \<open>Recovery\<close>

text \<open>The loop that finds the one anchor of a snapshot.\<close>

definition find_catalog_anchor :: "bytes list \<Rightarrow> lifecycle_clock_failure + clock_safety option" where
  "find_catalog_anchor objects =
     for_fold (\<lambda>found bs.
       and_then (decode_catalog_anchor bs) (\<lambda>r.
       (case r of
          None \<Rightarrow> Inr found
        | Some candidate \<Rightarrow> if found \<noteq> None then Inl Clock_OutOfRange else Inr (Some candidate)))) None objects"

definition recover_catalog_anchor ::
  "time_config \<Rightarrow> clock_reading \<Rightarrow> bytes list \<Rightarrow> time_authority \<Rightarrow> (lifecycle_clock_failure + unit) \<times> time_authority" where
  "recover_catalog_anchor cfg reading objects self =
     (case find_catalog_anchor objects of
        Inl e \<Rightarrow> (Inl e, self)
      | Inr None \<Rightarrow> (Inr (), self)
      | Inr (Some record) \<Rightarrow>
          if acceptance_poisoned self then (Inl Clock_Unavailable, self)
          else case reading_elapsed reading of
            Inl e \<Rightarrow> (Inl e, self)
          | Inr elapsed \<Rightarrow>
              if safety_poisoned self then (Inl Clock_Unavailable, self)
              else
                let restored = (safety self)\<lparr> anchor := anchor record, anchor_elapsed := elapsed,
                      last_wall_clock := last_wall_clock record,
                      observed_offset_nanoseconds := observed_offset_nanoseconds record,
                      wall_clock_correction_nanoseconds := wall_clock_correction_nanoseconds record,
                      clock_state := clock_state record \<rparr>
                in (case checked_add u64_max (revision restored) 1 of
                      None \<Rightarrow> (Inl Clock_OutOfRange, self\<lparr> safety := restored \<rparr>)
                    | Some next \<Rightarrow>
                        reconcile_while_acceptance_held cfg reading (anchor record) elapsed
                          (self\<lparr> safety := restored\<lparr> revision := next \<rparr> \<rparr>)))"

definition catalog_anchor_record ::
  "bool \<Rightarrow> ingest_time_value \<Rightarrow> time_authority \<Rightarrow> lifecycle_clock_failure + bytes" where
  "catalog_anchor_record reserved observed self =
     (if safety_poisoned self then Inl Clock_Unavailable
      else encode_catalog_anchor reserved
             ((safety self)\<lparr> anchor := max (anchor (safety self)) (it_instant observed) \<rparr>))"

section \<open>Accepting a discontinuity\<close>

text \<open>A prepared acceptance holds the acceptance lock until it is committed or dropped.\<close>

record prepared_acceptance =
  prepared_revision :: u64
  prepared_anchor :: instant
  prepared_wall :: instant
  prepared_offset :: int
  accepted_record :: bytes

definition prepare_discontinuity_acceptance ::
  "bool \<Rightarrow> time_config \<Rightarrow> instant \<Rightarrow> time_authority \<Rightarrow> clock_acceptance_failure + prepared_acceptance" where
  "prepare_discontinuity_acceptance reserved cfg expected_safe_anchor self =
     (if acceptance_poisoned self \<or> safety_poisoned self then Inl Accept_Unavailable
      else let s = safety self in
      if clock_state s \<noteq> ClockUncertain then Inl NotUncertain
      else if anchor s \<noteq> expected_safe_anchor then Inl StaleAnchor
      else and_then (ok_or (last_wall_clock s) MissingDiscontinuity) (\<lambda>wall.
           and_then (ok_or (observed_offset_nanoseconds s) MissingDiscontinuity) (\<lambda>offset.
           if \<bar>offset\<bar> \<le> int (tc_maximum_offset cfg) then Inl MissingDiscontinuity
           else and_then (ok_or (i64_checked_sub (anchor s) wall) Accept_OutOfRange) (\<lambda>correction.
                (case encode_catalog_anchor reserved
                        (s\<lparr> clock_state := Certain, wall_clock_correction_nanoseconds := correction \<rparr>) of
                   Inl _ \<Rightarrow> Inl Accept_OutOfRange
                 | Inr record \<Rightarrow>
                     Inr \<lparr> prepared_revision = revision s, prepared_anchor = anchor s, prepared_wall = wall,
                           prepared_offset = offset, accepted_record = record \<rparr>)))))"

text \<open>
  What \<open>commit_after_catalog\<close> reads of the Catalog commit: whether it carries an audit record, and
  its plaintext objects. Each assignment before an error stays.
\<close>

record catalog_commit_view =
  commit_has_audit :: bool
  commit_objects :: "bytes list"

definition commit_after_catalog ::
  "prepared_acceptance \<Rightarrow> catalog_commit_view \<Rightarrow> time_authority \<Rightarrow> (clock_acceptance_failure + unit) \<times> time_authority" where
  "commit_after_catalog p commit self =
     (if \<not> commit_has_audit commit \<or> accepted_record p \<notin> set (commit_objects commit)
      then (Inl PersistenceMismatch, self)
      else if safety_poisoned self then (Inl Accept_Unavailable, self)
      else if revision (safety self) \<noteq> prepared_revision p \<or> anchor (safety self) \<noteq> prepared_anchor p
      then (Inl StaleAnchor, self)
      else if clock_state (safety self) \<noteq> ClockUncertain then (Inl NotUncertain, self)
      else let certain = (safety self)\<lparr> clock_state := Certain \<rparr> in
           (case i64_checked_sub (prepared_anchor p) (prepared_wall p) of
              None \<Rightarrow> (Inl Accept_OutOfRange, self\<lparr> safety := certain \<rparr>)
            | Some correction \<Rightarrow>
                let corrected = certain\<lparr> wall_clock_correction_nanoseconds := correction \<rparr> in
                (case checked_add u64_max (revision corrected) 1 of
                   None \<Rightarrow> (Inl Accept_OutOfRange, self\<lparr> safety := corrected \<rparr>)
                 | Some next \<Rightarrow> (Inr (), self\<lparr> safety := corrected\<lparr> revision := next \<rparr> \<rparr>))))"

section \<open>Staged candidates\<close>

record staged_anchor =
  checkpoint :: clock_safety
  candidate_revision :: "u64 option"
  candidate_anchor :: "instant option"

definition stage_catalog_anchor :: "time_authority \<Rightarrow> lifecycle_clock_failure + staged_anchor" where
  "stage_catalog_anchor self =
     (if safety_poisoned self then Inl Clock_Unavailable
      else Inr \<lparr> checkpoint = safety self, candidate_revision = None, candidate_anchor = None \<rparr>)"

definition safety_revision :: "time_authority \<Rightarrow> lifecycle_clock_failure + u64" where
  "safety_revision self = (if safety_poisoned self then Inl Clock_Unavailable else Inr (revision (safety self)))"

definition observe_candidate ::
  "time_config \<Rightarrow> (time_authority \<Rightarrow> (lifecycle_clock_failure + 'a) \<times> time_authority) \<Rightarrow> staged_anchor \<Rightarrow>
   time_authority \<Rightarrow> (lifecycle_clock_failure + 'a) \<times> staged_anchor \<times> time_authority" where
  "observe_candidate cfg operation staged self =
     (case safety_revision self of
        Inl e \<Rightarrow> (Inl e, staged, self)
      | Inr before \<Rightarrow>
          (case operation self of (result, self) \<Rightarrow>
           let seen = (case safety_revision self of
                         Inr after \<Rightarrow> if after \<noteq> before then Some after else candidate_revision staged
                       | Inl _ \<Rightarrow> Some u64_max);
               staged = staged\<lparr> candidate_revision := seen \<rparr>;
               staged = (if seen \<noteq> None
                         then staged\<lparr> candidate_anchor := Some (status_safe_anchor (clock_status_of cfg self)) \<rparr>
                         else staged)
           in (result, staged, self)))"

definition catalog_anchor_subsumed :: "staged_anchor \<Rightarrow> bytes list \<Rightarrow> lifecycle_clock_failure + bool" where
  "catalog_anchor_subsumed staged objects =
     (case candidate_anchor staged of
        None \<Rightarrow> Inr False
      | Some candidate \<Rightarrow>
          and_then (find_catalog_anchor objects) (\<lambda>durable.
          Inr (case durable of None \<Rightarrow> False | Some record \<Rightarrow> candidate \<le> anchor record)))"

definition saturating_succ :: "u64 \<Rightarrow> u64" where
  "saturating_succ n = min u64_max (n + 1)"

text \<open>Dropping a staged anchor that was not committed.\<close>

definition abandon_catalog_anchor :: "staged_anchor \<Rightarrow> time_authority \<Rightarrow> time_authority" where
  "abandon_catalog_anchor staged self =
     (if acceptance_poisoned self \<or> safety_poisoned self then self
      else case candidate_revision staged of
        None \<Rightarrow> self
      | Some candidate \<Rightarrow>
          if revision (safety self) = candidate
          then let sampled_uncertainty = (clock_state (safety self) = ClockUncertain);
                   restored = checkpoint staged
               in self\<lparr> safety := if sampled_uncertainty then restored\<lparr> clock_state := ClockUncertain \<rparr> else restored \<rparr>
          else self\<lparr> safety := (safety self)\<lparr> clock_state := ClockUncertain,
                 revision := saturating_succ (revision (safety self)) \<rparr> \<rparr>)"

end
