(* ===== verification/ClockMachine.thy ===== *)
theory ClockMachine
  imports Anchor
begin

text \<open>
  The time authority as a machine: a process whose monotonic clock moves forward, whose
  calls read it when they run, and whose acceptance lock is held from a prepared acceptance
  until it is committed or dropped. The machine records every ingest time handed out.
\<close>

section \<open>The step relation\<close>

record clock_system =
  sys_authority :: time_authority
  sys_now :: u64
  sys_gate :: "prepared_acceptance option"
  sys_staged :: "staged_anchor list"
  sys_minted :: "(segment_scope \<times> instant) list"

text \<open>A call reads the present monotonic time, or the reading fails; the wall clock answers anything.\<close>

definition reads_at :: "u64 \<Rightarrow> clock_reading \<Rightarrow> bool" where
  "reads_at now reading \<longleftrightarrow>
     (\<forall>e. reading_elapsed reading = Inr e \<longrightarrow> e = now) \<and> pred_option i64_ok (case reading_wall reading of Inr w \<Rightarrow> Some w | Inl _ \<Rightarrow> None)"

definition record_minted ::
  "segment_scope \<Rightarrow> lifecycle_clock_failure + ingest_time_value \<Rightarrow> (segment_scope \<times> instant) list \<Rightarrow>
   (segment_scope \<times> instant) list" where
  "record_minted scope res minted = (case res of Inr t \<Rightarrow> minted @ [(scope, it_instant t)] | Inl _ \<Rightarrow> minted)"

definition remove_at :: "nat \<Rightarrow> 'a list \<Rightarrow> 'a list" where
  "remove_at i xs = take i xs @ drop (Suc i) xs"

definition durable_typed :: "ingest_time_value option \<Rightarrow> bool" where
  "durable_typed d \<longleftrightarrow> pred_option (\<lambda>t. i64_ok (it_instant t)) d"

text \<open>
  One call each. A call that takes the acceptance lock runs only while no prepared
  acceptance holds it. A panic of a thread that holds a lock poisons the lock.
\<close>

inductive clock_step :: "time_config \<Rightarrow> clock_system \<Rightarrow> clock_system \<Rightarrow> bool" for cfg :: time_config where
  tick: "sys_now S \<le> now' \<Longrightarrow> now' \<le> u64_max \<Longrightarrow> clock_step cfg S (S\<lparr> sys_now := now' \<rparr>)"
| mint: "sys_gate S = None \<Longrightarrow> reads_at (sys_now S) reading \<Longrightarrow> durable_typed durable \<Longrightarrow>
    ingest_time cfg reading scope durable (sys_authority S) = (res, a) \<Longrightarrow>
    clock_step cfg S (S\<lparr> sys_authority := a, sys_minted := record_minted scope res (sys_minted S) \<rparr>)"
| mint_destructive: "sys_gate S = None \<Longrightarrow> reads_at (sys_now S) reading \<Longrightarrow> durable_typed durable \<Longrightarrow>
    destructive_ingest_time cfg reading scope durable (sys_authority S) = (res, a) \<Longrightarrow>
    clock_step cfg S (S\<lparr> sys_authority := a, sys_minted := record_minted scope res (sys_minted S) \<rparr>)"
| recover_scope: "sys_gate S = None \<Longrightarrow> reads_at (sys_now S) reading \<Longrightarrow> durable_typed (Some durable) \<Longrightarrow>
    recover_scope cfg reading scope durable (sys_authority S) = (done, a) \<Longrightarrow>
    clock_step cfg S (S\<lparr> sys_authority := a \<rparr>)"
| recover_anchor: "sys_gate S = None \<Longrightarrow> reads_at (sys_now S) reading \<Longrightarrow> list_all bytes_ok objects \<Longrightarrow>
    recover_catalog_anchor cfg reading objects (sys_authority S) = (done, a) \<Longrightarrow>
    clock_step cfg S (S\<lparr> sys_authority := a \<rparr>)"
| governance: "sys_gate S = None \<Longrightarrow> reads_at (sys_now S) reading \<Longrightarrow>
    governance_now_seconds cfg reading (sys_authority S) = (seconds, a) \<Longrightarrow>
    clock_step cfg S (S\<lparr> sys_authority := a \<rparr>)"
| security: "sys_gate S = None \<Longrightarrow> reads_at (sys_now S) reading \<Longrightarrow>
    security_time_seconds cfg reading (sys_authority S) = (seconds, a) \<Longrightarrow>
    clock_step cfg S (S\<lparr> sys_authority := a \<rparr>)"
| prepare: "sys_gate S = None \<Longrightarrow>
    prepare_discontinuity_acceptance reserved cfg expected (sys_authority S) = Inr p \<Longrightarrow>
    clock_step cfg S (S\<lparr> sys_gate := Some p \<rparr>)"
| commit: "sys_gate S = Some p \<Longrightarrow> commit_after_catalog p view (sys_authority S) = (outcome, a) \<Longrightarrow>
    clock_step cfg S (S\<lparr> sys_authority := a, sys_gate := None \<rparr>)"
| drop_prepared: "sys_gate S = Some p \<Longrightarrow> clock_step cfg S (S\<lparr> sys_gate := None \<rparr>)"
| stage: "stage_catalog_anchor (sys_authority S) = Inr staged \<Longrightarrow>
    clock_step cfg S (S\<lparr> sys_staged := sys_staged S @ [staged] \<rparr>)"
| observe: "sys_gate S = None \<Longrightarrow> reads_at (sys_now S) reading \<Longrightarrow> durable_typed durable \<Longrightarrow> i < length (sys_staged S) \<Longrightarrow>
    operation \<in> {ingest_time cfg reading scope durable, destructive_ingest_time cfg reading scope durable} \<Longrightarrow>
    observe_candidate cfg operation (sys_staged S ! i) (sys_authority S) = (res, staged, a) \<Longrightarrow>
    clock_step cfg S (S\<lparr> sys_authority := a, sys_staged := (sys_staged S)[i := staged],
      sys_minted := record_minted scope res (sys_minted S) \<rparr>)"
| publish: "i < length (sys_staged S) \<Longrightarrow> clock_step cfg S (S\<lparr> sys_staged := remove_at i (sys_staged S) \<rparr>)"
| abandon: "sys_gate S = None \<Longrightarrow> i < length (sys_staged S) \<Longrightarrow>
    clock_step cfg S (S\<lparr> sys_authority := abandon_catalog_anchor (sys_staged S ! i) (sys_authority S),
      sys_staged := remove_at i (sys_staged S) \<rparr>)"
| poison: "clock_step cfg S (S\<lparr> sys_authority := (sys_authority S)\<lparr>
      acceptance_poisoned := acceptance_poisoned (sys_authority S) \<or> x,
      safety_poisoned := safety_poisoned (sys_authority S) \<or> y,
      scopes_poisoned := scopes_poisoned (sys_authority S) \<or> z \<rparr> \<rparr>)"

definition clock_start :: "time_authority \<Rightarrow> clock_system" where
  "clock_start a = \<lparr> sys_authority = a, sys_now = 0, sys_gate = None, sys_staged = [], sys_minted = [] \<rparr>"

definition clock_run :: "time_config \<Rightarrow> time_authority \<Rightarrow> clock_system \<Rightarrow> bool" where
  "clock_run cfg a S \<longleftrightarrow> (clock_step cfg)\<^sup>*\<^sup>* (clock_start a) S"

section \<open>Invariants\<close>

text \<open>The time a scope would read now.\<close>

definition clock_of :: "scope_baseline \<Rightarrow> u64 \<Rightarrow> instant" where
  "clock_of b now = baseline_instant b + int (now - elapsed_at_start b)"

definition scopes_sound :: "u64 \<Rightarrow> time_authority \<Rightarrow> bool" where
  "scopes_sound now a \<longleftrightarrow>
     distinct (map fst (scopes a)) \<and> length (scopes a) \<le> MAX_CLOCK_SCOPES \<and>
     (\<forall>k b. map_of (scopes a) k = Some b \<longrightarrow> elapsed_at_start b \<le> now)"

definition scopes_forward :: "u64 \<Rightarrow> time_authority \<Rightarrow> time_authority \<Rightarrow> bool" where
  "scopes_forward now a a' \<longleftrightarrow>
     (\<forall>k b. map_of (scopes a) k = Some b \<longrightarrow> (\<exists>b'. map_of (scopes a') k = Some b' \<and> clock_of b now \<le> clock_of b' now))"

definition minted_behind :: "u64 \<Rightarrow> time_authority \<Rightarrow> (segment_scope \<times> instant) list \<Rightarrow> bool" where
  "minted_behind now a minted \<longleftrightarrow>
     (\<forall>k t. (k, t) \<in> set minted \<longrightarrow> (\<exists>b. map_of (scopes a) k = Some b \<and> t \<le> clock_of b now))"

definition times_of :: "segment_scope \<Rightarrow> (segment_scope \<times> instant) list \<Rightarrow> instant list" where
  "times_of k minted = map snd (filter (\<lambda>m. fst m = k) minted)"

definition safety_current :: "u64 \<Rightarrow> clock_safety \<Rightarrow> bool" where
  "safety_current now s \<longleftrightarrow> safety_typed s \<and> anchor_elapsed s \<le> now"

text \<open>A held gate describes the safety state it was prepared from.\<close>

definition gate_matches :: "time_config \<Rightarrow> prepared_acceptance \<Rightarrow> clock_safety \<Rightarrow> bool" where
  "gate_matches cfg p s \<longleftrightarrow>
     clock_state s = ClockUncertain \<and> prepared_revision p = revision s \<and> prepared_anchor p = anchor s \<and>
     last_wall_clock s = Some (prepared_wall p) \<and> observed_offset_nanoseconds s = Some (prepared_offset p) \<and>
     int (tc_maximum_offset cfg) < \<bar>prepared_offset p\<bar> \<and> i64_ok (anchor s - prepared_wall p) \<and>
     accepted_record p = anchor_bytes (s\<lparr> clock_state := Certain,
       wall_clock_correction_nanoseconds := anchor s - prepared_wall p \<rparr>)"

definition clock_inv :: "time_config \<Rightarrow> clock_system \<Rightarrow> bool" where
  "clock_inv cfg S \<longleftrightarrow>
     sys_now S \<le> u64_max \<and> safety_current (sys_now S) (safety (sys_authority S)) \<and>
     (\<forall>t \<in> set (sys_staged S). safety_current (sys_now S) (checkpoint t)) \<and>
     pred_option (\<lambda>p. gate_matches cfg p (safety (sys_authority S))) (sys_gate S) \<and>
     scopes_sound (sys_now S) (sys_authority S) \<and> minted_behind (sys_now S) (sys_authority S) (sys_minted S) \<and>
     (\<forall>k. sorted (times_of k (sys_minted S)))"

section \<open>What each operation does\<close>

lemma advance_from_Inr:
  "advance_from i start e = Inr t \<longleftrightarrow> start \<le> e \<and> t = i + int (e - start) \<and> i64_ok (int (e - start)) \<and> i64_ok t"
  by (auto simp: advance_from_def ok_or_def i64_checked_defs checked_sub_def split: option.splits if_splits bind_splits)

lemma advance_global_Inr:
  "advance_global s e = Inr t \<longleftrightarrow>
     anchor_elapsed s \<le> e \<and> t = anchor s + int (e - anchor_elapsed s) \<and> i64_ok (int (e - anchor_elapsed s)) \<and> i64_ok t"
  by (simp add: advance_global_def advance_from_Inr)

lemma advance_global_ok: "advance_global s e = Inr t \<Longrightarrow> i64_ok t"
  unfolding advance_global_Inr by blast

lemma advance_Inr: "advance b e = Inr t \<Longrightarrow> elapsed_at_start b \<le> e \<and> t = clock_of b e"
  by (simp add: advance_def advance_from_Inr clock_of_def)

text \<open>An operation on the safety state only.\<close>

definition scopes_kept :: "time_authority \<Rightarrow> time_authority \<Rightarrow> bool" where
  "scopes_kept a a' \<longleftrightarrow> scopes a' = scopes a"

definition wall_typed :: "clock_reading \<Rightarrow> bool" where
  "wall_typed reading \<longleftrightarrow> (\<forall>w. reading_wall reading = Inr w \<longrightarrow> i64_ok w)"

lemma reads_at_wall: "reads_at now reading \<Longrightarrow> wall_typed reading"
  by (auto simp: reads_at_def wall_typed_def)

lemma reads_at_elapsed: "reads_at now reading \<Longrightarrow> reading_elapsed reading = Inr e \<Longrightarrow> e = now"
  by (simp add: reads_at_def)

lemma reconcile_held_sound:
  assumes "reconcile_while_acceptance_held cfg reading d now a = (res, a')" and "wall_typed reading" and "i64_ok d"
    and "now \<le> u64_max" and "safety_current now (safety a)"
  shows "scopes_kept a a' \<and> safety_current now (safety a')"
proof (cases "safety_poisoned a \<or> (\<exists>e. advance_global (safety a) now = Inl e)")
  case True
  then show ?thesis using assms by (auto simp: reconcile_while_acceptance_held_def scopes_kept_def split: if_splits)
next
  case False
  then obtain t where t: "advance_global (safety a) now = Inr t" by (cases "advance_global (safety a) now") auto
  have ok: "i64_ok (max t d)" using assms(3) advance_global_ok [OF t] by (simp add: max_def)
  show ?thesis using assms False ok
    by (auto simp: reconcile_while_acceptance_held_def t Let_def scopes_kept_def safety_current_def safety_typed_def
        i64_checked_defs wall_typed_def split: option.splits sum.splits if_splits)
qed

lemma reconcile_sound:
  assumes "reconcile cfg reading d now a = (res, a')" and "wall_typed reading" and "i64_ok d"
    and "now \<le> u64_max" and "safety_current now (safety a)"
  shows "scopes_kept a a' \<and> safety_current now (safety a')"
proof (cases "acceptance_poisoned a")
  case True
  then show ?thesis using assms by (simp add: reconcile_def scopes_kept_def)
next
  case False
  then have "reconcile_while_acceptance_held cfg reading d now a = (res, a')" using assms(1) by (simp add: reconcile_def)
  from reconcile_held_sound [OF this assms(2-)] show ?thesis .
qed

lemma reconcile_current_sound:
  assumes "reconcile_current cfg reading now a = (res, a')" and "wall_typed reading"
    and "now \<le> u64_max" and "safety_current now (safety a)"
  shows "scopes_kept a a' \<and> safety_current now (safety a')"
proof (cases "safety_poisoned a \<or> (\<exists>e. advance_global (safety a) now = Inl e)")
  case True
  then show ?thesis using assms by (auto simp: reconcile_current_def scopes_kept_def split: if_splits)
next
  case False
  then obtain t where t: "advance_global (safety a) now = Inr t" by (cases "advance_global (safety a) now") auto
  note advance_global_ok [OF t]
  moreover have "reconcile cfg reading t now a = (res, a')" using assms(1) False by (simp add: reconcile_current_def t)
  ultimately show ?thesis using reconcile_sound assms(2-) by blast
qed

text \<open>Entering or moving one baseline.\<close>

lemma length_alist_update:
  "length (AList.update k v xs) = (if k \<in> set (map fst xs) then length xs else Suc (length xs))"
  using arg_cong [OF AList.update_keys [of k v xs], of length] by (simp split: if_splits)

lemma scopes_sound_update:
  assumes "scopes_sound now a" and "\<not> scopes_full a k" and "elapsed_at_start b \<le> now" and "scopes a' = AList.update k b (scopes a)"
  shows "scopes_sound now a'"
  using assms by (auto simp: scopes_sound_def scopes_full_def AList.update_conv' AList.distinct_update length_alist_update
      map_of_eq_None_iff not_le less_eq_Suc_le)

lemma scopes_forward_update:
  assumes "scopes a' = AList.update k b (scopes a)"
    and "\<And>old. map_of (scopes a) k = Some old \<Longrightarrow> clock_of old now \<le> clock_of b now"
  shows "scopes_forward now a a'"
  using assms(2) by (auto simp: scopes_forward_def assms(1) AList.update_conv')

lemma scopes_forward_refl: "scopes a' = scopes a \<Longrightarrow> scopes_forward now a a'"
  by (simp add: scopes_forward_def)

lemma scopes_forward_trans: "scopes_forward now a b \<Longrightarrow> scopes_forward now b c \<Longrightarrow> scopes_forward now a c"
  unfolding scopes_forward_def by (meson order_trans)

lemma scopes_sound_cong: "scopes a' = scopes a \<Longrightarrow> scopes_sound now a' = scopes_sound now a"
  by (simp add: scopes_sound_def)

text \<open>
  The contract of a call that may touch baselines: the invariants stay, no scope's time moves
  back, and a time handed out is the time of its scope.
\<close>

definition scope_call_sound ::
  "u64 \<Rightarrow> segment_scope \<Rightarrow> time_authority \<Rightarrow> lifecycle_clock_failure + ingest_time_value \<Rightarrow> time_authority \<Rightarrow> bool" where
  "scope_call_sound now scope a res a' \<longleftrightarrow>
     safety_current now (safety a') \<and> scopes_sound now a' \<and> scopes_forward now a a' \<and>
     (\<forall>t. res = Inr t \<longrightarrow> (\<exists>b. map_of (scopes a') scope = Some b \<and> it_instant t = clock_of b now))"

lemma ingest_time_sound:
  assumes call: "ingest_time cfg reading scope durable a = (res, a')" and reads: "reads_at now reading"
    and now: "now \<le> u64_max" and safe: "safety_current now (safety a)" and sound: "scopes_sound now a"
  shows "scope_call_sound now scope a res a'"
proof (cases "reading_elapsed reading")
  case (Inl e)
  then show ?thesis using call safe sound by (auto simp: ingest_time_def scope_call_sound_def scopes_forward_refl)
next
  case (Inr e)
  then have e: "reading_elapsed reading = Inr now" using reads_at_elapsed [OF reads] by simp
  obtain r1 a1 where first: "reconcile_current cfg reading now a = (r1, a1)" by fastforce
  have kept: "scopes a1 = scopes a" and safe1: "safety_current now (safety a1)"
    using reconcile_current_sound [OF first reads_at_wall [OF reads] now safe] by (simp_all add: scopes_kept_def)
  have sound1: "scopes_sound now a1" using scopes_sound_cong [OF kept] sound by simp
  show ?thesis
  proof (cases "(\<exists>e. r1 = Inl e) \<or> scopes_poisoned a1 \<or> scopes_full a1 scope")
    case True
    then have "a' = a1 \<and> (\<exists>e. res = Inl e)"
      using call by (cases r1) (auto simp: ingest_time_def e first split: if_splits)
    then show ?thesis using safe1 sound1 scopes_forward_refl [OF kept] by (auto simp: scope_call_sound_def)
  next
    case False
    then have r1: "r1 = Inr ()" by (cases r1) auto
    define fresh where "fresh = \<lparr> baseline_instant = (case durable of None \<Rightarrow> tc_epoch cfg | Some d \<Rightarrow> it_instant d), elapsed_at_start = 0 \<rparr>"
    define b where "b = (case map_of (scopes a1) scope of Some b \<Rightarrow> b | None \<Rightarrow> fresh)"
    have a': "safety a' = safety a1" "scopes a' = (case map_of (scopes a1) scope of Some b \<Rightarrow> scopes a1 | None \<Rightarrow> AList.update scope b (scopes a1))"
      and res: "\<And>t. res = Inr t \<Longrightarrow> advance b now = Inr (it_instant t)"
      using call False unfolding ingest_time_def e b_def fresh_def
      by (auto simp: first r1 Let_def from_authenticated_durable_def split: option.splits sum.splits)
    have got: "map_of (scopes a') scope = Some b"
      by (auto simp: a' b_def AList.update_conv' split: option.splits)
    have "scopes_sound now a' \<and> scopes_forward now a1 a'"
    proof (cases "map_of (scopes a1) scope")
      case None
      then have upd: "scopes a' = AList.update scope b (scopes a1)" and "elapsed_at_start b \<le> now"
        using a'(2) by (simp_all add: b_def fresh_def)
      then show ?thesis using scopes_sound_update [OF sound1 _ _ upd] scopes_forward_update [OF upd] False None by simp
    next
      case (Some old)
      then have "scopes a' = scopes a1" using a'(2) by simp
      then show ?thesis using scopes_sound_cong sound1 scopes_forward_refl by metis
    qed
    then show ?thesis
      using safe1 a'(1) got res advance_Inr scopes_forward_trans [OF scopes_forward_refl [OF kept]]
      by (auto simp: scope_call_sound_def)
  qed
qed

lemma destructive_ingest_time_sound:
  assumes call: "destructive_ingest_time cfg reading scope durable a = (res, a')" and "reads_at now reading"
    and "now \<le> u64_max" and "safety_current now (safety a)" and "scopes_sound now a"
  shows "scope_call_sound now scope a res a'"
proof -
  obtain r1 a1 where first: "ingest_time cfg reading scope durable a = (r1, a1)" by fastforce
  have "a' = a1 \<and> (res = r1 \<or> (\<exists>e. res = Inl e))"
    using call by (auto simp: destructive_ingest_time_def first split: sum.splits if_splits)
  then show ?thesis using ingest_time_sound [OF first assms(2-)] by (auto simp: scope_call_sound_def)
qed

text \<open>A call that hands out no time has the same contract with a failure in its place.\<close>

abbreviation quiet_call_sound :: "u64 \<Rightarrow> time_authority \<Rightarrow> time_authority \<Rightarrow> bool" where
  "quiet_call_sound now a a' \<equiv>
     safety_current now (safety a') \<and> scopes_sound now a' \<and> scopes_forward now a a'"

lemma quiet_when_kept:
  assumes "safety_current now (safety a')" and "scopes_sound now a" and "scopes a' = scopes a"
  shows "quiet_call_sound now a a'"
  using assms scopes_sound_cong [OF assms(3)] scopes_forward_refl [OF assms(3)] by simp

lemma recover_scope_sound:
  assumes call: "recover_scope cfg reading scope durable a = (res, a')" and reads: "reads_at now reading"
    and typed: "durable_typed (Some durable)"
    and now: "now \<le> u64_max" and safe: "safety_current now (safety a)" and sound: "scopes_sound now a"
  shows "quiet_call_sound now a a'"
proof (cases "reading_elapsed reading")
  case (Inl e)
  then have "a' = a" using call by (auto simp: recover_scope_def)
  then show ?thesis using safe sound by (simp add: scopes_forward_refl)
next
  case (Inr e)
  then have e: "reading_elapsed reading = Inr now" using reads_at_elapsed [OF reads] by simp
  obtain r1 a1 where first: "reconcile cfg reading (it_instant durable) now a = (r1, a1)" by fastforce
  have kept: "scopes a1 = scopes a" and safe1: "safety_current now (safety a1)"
    using reconcile_sound [OF first reads_at_wall [OF reads] _ now safe] typed by (simp_all add: scopes_kept_def durable_typed_def)
  consider "a' = a1"
    | b where "scopes a' = AList.update scope b (scopes a1)" "safety a' = safety a1" "\<not> scopes_full a1 scope"
        "elapsed_at_start b \<le> now" "\<And>old. map_of (scopes a1) scope = Some old \<Longrightarrow> clock_of old now \<le> clock_of b now"
    using call unfolding recover_scope_def e
    by (auto simp: first dest!: advance_Inr split: sum.splits if_splits option.splits) (simp add: clock_of_def)+
  then show ?thesis
  proof cases
    case 1
    then show ?thesis using quiet_when_kept [OF safe1 sound kept] by simp
  next
    case (2 b)
    have "scopes_sound now a1" using scopes_sound_cong [OF kept] sound by simp
    then show ?thesis
      using 2 safe1 scopes_sound_update [OF _ 2(3,4,1)] scopes_forward_update [OF 2(1,5)]
        scopes_forward_trans [OF scopes_forward_refl [OF kept]] by simp
  qed
qed

text \<open>What a snapshot's anchor decodes to is a typed state.\<close>

lemma read_i64_typed: "read_i64 bs start = Inr v \<Longrightarrow> bytes_ok bs \<Longrightarrow> i64_ok v"
  by (auto simp: read_i64_def ok_or_def slice_range_Some intro!: i64_be_value_ok split: option.splits)

lemma read_optional_typed: "read_optional bs start = Inr v \<Longrightarrow> bytes_ok bs \<Longrightarrow> pred_option i64_ok v"
  by (auto simp: read_optional_def dest: read_i64_typed split: option.splits if_splits)

lemma decode_catalog_anchor_typed:
  assumes "decode_catalog_anchor bs = Inr (Some r)" and "bytes_ok bs"
  shows "safety_typed r"
  using assms unfolding decode_catalog_anchor_def
  by (auto simp: safety_typed_def i64_ok_def [of 0] i64_min_def i64_max_def
      dest: read_i64_typed read_optional_typed split: if_splits)

lemma find_anchor_origin:
  "for_fold (\<lambda>found bs.
       and_then (decode_catalog_anchor bs) (\<lambda>r.
       (case r of
          None \<Rightarrow> Inr found
        | Some candidate \<Rightarrow> if found \<noteq> None then Inl Clock_OutOfRange else Inr (Some candidate)))) acc objects = Inr (Some r) \<Longrightarrow>
   acc = Some r \<or> (\<exists>bs \<in> set objects. decode_catalog_anchor bs = Inr (Some r))"
proof (induction objects arbitrary: acc)
  case (Cons bs objects)
  then show ?case by (fastforce split: option.splits if_splits)
qed simp

lemma find_catalog_anchor_typed:
  assumes "find_catalog_anchor objects = Inr (Some r)" and "list_all bytes_ok objects"
  shows "safety_typed r"
  using find_anchor_origin [OF assms(1) [unfolded find_catalog_anchor_def]] assms(2) decode_catalog_anchor_typed
  by (auto simp: list_all_iff)

lemma recover_catalog_anchor_sound:
  assumes call: "recover_catalog_anchor cfg reading objects a = (res, a')" and reads: "reads_at now reading"
    and bytes: "list_all bytes_ok objects" and now: "now \<le> u64_max"
    and safe: "safety_current now (safety a)" and sound: "scopes_sound now a"
  shows "quiet_call_sound now a a'"
proof -
  consider "a' = a"
    | r where "find_catalog_anchor objects = Inr (Some r)" "reading_elapsed reading = Inr now"
    using call reads_at_elapsed [OF reads] unfolding recover_catalog_anchor_def
    by (auto split: sum.splits option.splits if_splits)
  then show ?thesis
  proof cases
    case 1
    then show ?thesis using safe sound by (simp add: scopes_forward_refl)
  next
    case (2 r)
    define restored where "restored = (safety a)\<lparr> anchor := anchor r, anchor_elapsed := now,
      last_wall_clock := last_wall_clock r, observed_offset_nanoseconds := observed_offset_nanoseconds r,
      wall_clock_correction_nanoseconds := wall_clock_correction_nanoseconds r, clock_state := clock_state r \<rparr>"
    have r: "safety_typed r" using find_catalog_anchor_typed [OF 2(1) bytes] .
    have s: "safety_current now restored"
      using safe r now by (simp add: restored_def safety_current_def safety_typed_def)
    consider "a' = a" | "a' = a\<lparr> safety := restored \<rparr>"
      | "revision restored + 1 \<le> u64_max" "reconcile_while_acceptance_held cfg reading (anchor r) now
          (a\<lparr> safety := restored\<lparr> revision := revision restored + 1 \<rparr> \<rparr>) = (res, a')"
      using call unfolding recover_catalog_anchor_def 2 restored_def [symmetric]
      by (auto simp: 2(2) Let_def restored_def [symmetric] checked_add_def split: option.splits if_splits)
    then show ?thesis
    proof cases
      case 3
      have "safety_current now (restored\<lparr> revision := revision restored + 1 \<rparr>)"
        using s 3(1) by (simp add: safety_current_def safety_typed_def)
      then have "scopes a' = scopes a \<and> safety_current now (safety a')"
        using reconcile_held_sound [OF 3(2) reads_at_wall [OF reads] _ now] r by (simp add: scopes_kept_def safety_typed_def)
      then show ?thesis using quiet_when_kept sound by blast
    qed (use safe s sound in \<open>auto simp: scopes_sound_def scopes_forward_def\<close>)
  qed
qed

lemma governance_now_seconds_sound:
  assumes call: "governance_now_seconds cfg reading a = (res, a')" and reads: "reads_at now reading" and now: "now \<le> u64_max"
    and safe: "safety_current now (safety a)" and sound: "scopes_sound now a"
  shows "quiet_call_sound now a a'"
proof -
  consider "a' = a" | r where "reconcile_current cfg reading now a = (r, a')"
    using call reads_at_elapsed [OF reads] unfolding governance_now_seconds_def
    by (auto split: sum.splits prod.splits if_splits)
  then show ?thesis
    using reconcile_current_sound [OF _ reads_at_wall [OF reads] now safe] quiet_when_kept [OF _ sound, of a'] safe
    by cases (auto simp: scopes_kept_def)
qed

lemma security_time_seconds_sound:
  assumes call: "security_time_seconds cfg reading a = (res, a')" and reads: "reads_at now reading" and now: "now \<le> u64_max"
    and safe: "safety_current now (safety a)" and sound: "scopes_sound now a"
  shows "quiet_call_sound now a a'"
proof -
  consider "a' = a" | r where "reconcile_current cfg reading now a = (r, a')"
    using call reads_at_elapsed [OF reads] unfolding security_time_seconds_def
    by (auto split: sum.splits prod.splits option.splits if_splits)
  then show ?thesis
    using reconcile_current_sound [OF _ reads_at_wall [OF reads] now safe] quiet_when_kept [OF _ sound, of a'] safe
    by cases (auto simp: scopes_kept_def)
qed

lemma observe_candidate_sound:
  assumes call: "observe_candidate cfg operation staged a = (res, staged', a')"
    and op: "operation \<in> {ingest_time cfg reading scope durable, destructive_ingest_time cfg reading scope durable}"
    and reads: "reads_at now reading" and now: "now \<le> u64_max" and safe: "safety_current now (safety a)" and sound: "scopes_sound now a"
  shows "scope_call_sound now scope a res a'" and "checkpoint staged' = checkpoint staged"
proof -
  consider e where "res = Inl e" "a' = a" "staged' = staged"
    | "operation a = (res, a')" "checkpoint staged' = checkpoint staged"
    using call unfolding observe_candidate_def
    by (auto simp: Let_def split: sum.splits prod.splits if_splits)
  then show "scope_call_sound now scope a res a'"
    using op ingest_time_sound [OF _ reads now safe sound] destructive_ingest_time_sound [OF _ reads now safe sound] safe sound
    by cases (auto simp: scope_call_sound_def scopes_forward_refl)
  show "checkpoint staged' = checkpoint staged"
    using call unfolding observe_candidate_def by (auto simp: Let_def split: sum.splits prod.splits if_splits)
qed

lemma abandon_sound:
  assumes "safety_current now (safety a)" and "safety_current now (checkpoint staged)" and "scopes_sound now a"
  shows "quiet_call_sound now a (abandon_catalog_anchor staged a)"
proof (rule quiet_when_kept [OF _ assms(3)])
  show "scopes (abandon_catalog_anchor staged a) = scopes a"
    by (simp add: abandon_catalog_anchor_def Let_def split: option.splits)
  show "safety_current now (safety (abandon_catalog_anchor staged a))"
    using assms(1,2)
    by (simp add: abandon_catalog_anchor_def Let_def safety_current_def safety_typed_def saturating_succ_def split: option.splits)
qed

lemma commit_sound:
  assumes "commit_after_catalog p view a = (res, a')" and "gate_matches cfg p (safety a)"
    and "safety_current now (safety a)" and "scopes_sound now a"
  shows "quiet_call_sound now a a'"
proof (rule quiet_when_kept [OF _ assms(4)])
  show "scopes a' = scopes a"
    using assms(1) by (auto simp: commit_after_catalog_def Let_def split: option.splits if_splits)
  show "safety_current now (safety a')"
    using assms(1-3) by (auto simp: commit_after_catalog_def Let_def gate_matches_def safety_current_def safety_typed_def
        i64_checked_defs split: option.splits if_splits)
qed

text \<open>Preparing reads the state it stands for.\<close>

lemma prepare_matches:
  assumes "prepare_discontinuity_acceptance reserved cfg expected a = Inr p"
  shows "gate_matches cfg p (safety a)" and "prepared_anchor p = expected"
  using assms unfolding prepare_discontinuity_acceptance_def
  by (auto simp: Let_def gate_matches_def ok_or_def i64_checked_defs encode_catalog_anchor_def
      split: option.splits sum.splits if_splits lifecycle_clock_state.splits)

section \<open>Every run keeps the invariant\<close>

lemma clock_of_mono: "now \<le> now' \<Longrightarrow> clock_of b now \<le> clock_of b now'"
  by (simp add: clock_of_def)

lemma times_of_append: "times_of k (minted @ [(scope, t)]) = times_of k minted @ (if scope = k then [t] else [])"
  by (simp add: times_of_def)

lemma minted_behind_forward:
  assumes "minted_behind now a minted" and "scopes_forward now a a'"
  shows "minted_behind now a' minted"
  using assms unfolding minted_behind_def scopes_forward_def by (meson order_trans)

lemma minted_after_call:
  assumes call: "scope_call_sound now scope a res a'" and behind: "minted_behind now a minted"
    and srt: "\<And>k. sorted (times_of k minted)"
  shows "minted_behind now a' (record_minted scope res minted)" and "sorted (times_of k (record_minted scope res minted))"
proof -
  have old: "minted_behind now a' minted" using minted_behind_forward [OF behind] call by (simp add: scope_call_sound_def)
  show "minted_behind now a' (record_minted scope res minted)"
    using old call by (auto simp: record_minted_def minted_behind_def scope_call_sound_def split: sum.splits)
  show "sorted (times_of k (record_minted scope res minted))"
  proof (cases res)
    case (Inr t)
    then obtain b where b: "map_of (scopes a') scope = Some b" "it_instant t = clock_of b now"
      using call by (auto simp: scope_call_sound_def)
    have "\<forall>u \<in> set (times_of scope minted). u \<le> it_instant t"
      using old b by (fastforce simp: times_of_def minted_behind_def)
    then show ?thesis using srt [of k] by (simp add: Inr record_minted_def times_of_append sorted_append)
  qed (use srt in \<open>simp add: record_minted_def\<close>)
qed

lemma clock_inv_after_call:
  assumes inv: "clock_inv cfg S" and gate: "sys_gate S = None" and call: "scope_call_sound (sys_now S) scope (sys_authority S) res a"
    and staged: "\<forall>t \<in> set ts. safety_current (sys_now S) (checkpoint t)"
  shows "clock_inv cfg (S\<lparr> sys_authority := a, sys_staged := ts, sys_minted := record_minted scope res (sys_minted S) \<rparr>)"
  using assms minted_after_call [OF call] by (simp add: clock_inv_def scope_call_sound_def)

lemma clock_inv_after_quiet:
  assumes inv: "clock_inv cfg S" and quiet: "quiet_call_sound (sys_now S) (sys_authority S) a"
    and staged: "set ts \<subseteq> set (sys_staged S)"
  shows "clock_inv cfg (S\<lparr> sys_authority := a, sys_gate := None, sys_staged := ts \<rparr>)"
  using assms minted_behind_forward by (auto simp: clock_inv_def)

lemma set_remove_at: "set (remove_at i xs) \<subseteq> set xs"
  by (auto simp: remove_at_def dest: in_set_takeD in_set_dropD)

lemma clock_inv_tick:
  assumes "clock_inv cfg S" and "sys_now S \<le> now'" and "now' \<le> u64_max"
  shows "clock_inv cfg (S\<lparr> sys_now := now' \<rparr>)"
  using assms clock_of_mono [OF assms(2)]
  by (auto simp: clock_inv_def safety_current_def scopes_sound_def minted_behind_def dest: order_trans)
    (meson order_trans)+

lemma clock_inv_quiet_call:
  assumes "clock_inv cfg S" and "sys_gate S = None" and "quiet_call_sound (sys_now S) (sys_authority S) a"
  shows "clock_inv cfg (S\<lparr> sys_authority := a \<rparr>)"
  using clock_inv_after_quiet [OF assms(1,3), of "sys_staged S"] assms(2) by (cases S) simp

lemma clock_inv_mint:
  assumes "clock_inv cfg S" and "sys_gate S = None" and "scope_call_sound (sys_now S) scope (sys_authority S) res a"
  shows "clock_inv cfg (S\<lparr> sys_authority := a, sys_minted := record_minted scope res (sys_minted S) \<rparr>)"
  using clock_inv_after_call [OF assms, of "sys_staged S"] assms(1) by (cases S) (simp add: clock_inv_def)

lemma clock_step_inv:
  assumes "clock_step cfg S T" and inv: "clock_inv cfg S"
  shows "clock_inv cfg T"
  using assms(1)
proof cases
  have now: "sys_now S \<le> u64_max" and safe: "safety_current (sys_now S) (safety (sys_authority S))"
    and sound: "scopes_sound (sys_now S) (sys_authority S)" using inv by (simp_all add: clock_inv_def)
  have staged_ok: "i < length (sys_staged S) \<Longrightarrow> safety_current (sys_now S) (checkpoint (sys_staged S ! i))" for i
    using inv by (simp add: clock_inv_def)
  {
    case (tick now')
    then show ?thesis using clock_inv_tick [OF inv] by simp
  next
    case mint
    then show ?thesis using clock_inv_mint [OF inv] ingest_time_sound [OF _ _ now safe sound] by blast
  next
    case mint_destructive
    then show ?thesis using clock_inv_mint [OF inv] destructive_ingest_time_sound [OF _ _ now safe sound] by blast
  next
    case recover_scope
    then show ?thesis using clock_inv_quiet_call [OF inv] recover_scope_sound [OF _ _ _ now safe sound] by blast
  next
    case recover_anchor
    then show ?thesis using clock_inv_quiet_call [OF inv] recover_catalog_anchor_sound [OF _ _ _ now safe sound] by blast
  next
    case governance
    then show ?thesis using clock_inv_quiet_call [OF inv] governance_now_seconds_sound [OF _ _ now safe sound] by blast
  next
    case security
    then show ?thesis using clock_inv_quiet_call [OF inv] security_time_seconds_sound [OF _ _ now safe sound] by blast
  next
    case (prepare reserved expected p)
    then show ?thesis using inv prepare_matches(1) by (simp add: clock_inv_def)
  next
    case (commit p view outcome a)
    then have "gate_matches cfg p (safety (sys_authority S))" using inv by (simp add: clock_inv_def)
    note quiet = commit_sound [OF commit(3) this safe sound]
    from clock_inv_after_quiet [OF inv quiet, of "sys_staged S"] show ?thesis by (cases S) (simp add: commit(1))
  next
    case drop_prepared
    then show ?thesis using inv by (simp add: clock_inv_def)
  next
    case (stage staged)
    then have "checkpoint staged = safety (sys_authority S)" by (auto simp: stage_catalog_anchor_def split: if_splits)
    then show ?thesis using inv stage(1) by (auto simp: clock_inv_def)
  next
    case (observe reading durable i operation scope res staged a)
    note call = observe_candidate_sound [OF observe(7,6) observe(3) now safe sound]
    have "\<forall>t \<in> set ((sys_staged S)[i := staged]). safety_current (sys_now S) (checkpoint t)"
      using staged_ok [OF observe(5)] call(2) inv by (auto simp: clock_inv_def dest!: set_update_subset_insert [THEN subsetD])
    from clock_inv_after_call [OF inv observe(2) call(1) this] show ?thesis by (simp add: observe(1))
  next
    case (publish i)
    then show ?thesis using inv set_remove_at [of i "sys_staged S"] by (auto simp: clock_inv_def)
  next
    case (abandon i)
    have "quiet_call_sound (sys_now S) (sys_authority S) (abandon_catalog_anchor (sys_staged S ! i) (sys_authority S))"
      using abandon_sound [OF safe staged_ok [OF abandon(3)] sound] .
    from clock_inv_after_quiet [OF inv this set_remove_at] abandon show ?thesis by (cases S) simp
  next
    case poison
    then show ?thesis using inv by (simp add: clock_inv_def scopes_sound_def minted_behind_def del: map_of_eq_Some_iff)
  }
qed

lemma clock_inv_start:
  assumes "establish_with_source (Inr epoch) policy = Inr (cfg, a)" and "i64_ok epoch"
  shows "clock_inv cfg (clock_start a)"
  using assms by (auto simp: establish_with_source_def with_parts_def clock_inv_def clock_start_def safety_current_def
      safety_typed_def i64_ok_def i64_min_def i64_max_def scopes_sound_def minted_behind_def times_of_def)

lemma clock_run_inv:
  assumes "establish_with_source (Inr epoch) policy = Inr (cfg, a)" and "i64_ok epoch" and "clock_run cfg a S"
  shows "clock_inv cfg S"
  using assms(3) unfolding clock_run_def
  by (induction rule: rtranclp_induct) (auto intro: clock_inv_start [OF assms(1,2)] clock_step_inv)

end
