(* ===== verification/Timekeeping.thy ===== *)
theory Timekeeping
  imports ClockMachine "HOL-Library.Code_Target_Nat"
begin

text \<open>
  What the time authority promises: times of a scope never run backwards, destructive time
  needs an agreeing wall clock, an accepted discontinuity reaches memory once it is durable,
  and the anchor survives a restart; and where the authority falls short of its documentation.
\<close>

section \<open>Successful observations\<close>

lemma reconcile_held_Inr:
  assumes "reconcile_while_acceptance_held cfg reading d e a = (Inr (), a')" and "tc_has_source cfg"
  obtains t w where "\<not> safety_poisoned a" and "advance_global (safety a) e = Inr t" and "reading_wall reading = Inr w"
    and "a' = a\<lparr> safety := (safety a)\<lparr> anchor := max t d, anchor_elapsed := e, revision := revision (safety a) + 1,
      last_wall_clock := Some w, observed_offset_nanoseconds := Some (w - max t d),
      clock_state := (if int (tc_maximum_offset cfg) < \<bar>w + wall_clock_correction_nanoseconds (safety a) - max t d\<bar>
                      then ClockUncertain else Certain) \<rparr> \<rparr>"
  using assms unfolding reconcile_while_acceptance_held_def Let_def
  by (auto simp: i64_checked_defs split: if_splits sum.splits option.splits)

lemma reconcile_current_Inr:
  assumes "reconcile_current cfg reading e a = (Inr (), a')"
  obtains t where "advance_global (safety a) e = Inr t" and "\<not> acceptance_poisoned a"
    and "reconcile_while_acceptance_held cfg reading t e a = (Inr (), a')"
  using assms unfolding reconcile_current_def reconcile_def by (auto split: if_splits sum.splits)

lemma ingest_time_Inr:
  assumes "ingest_time cfg reading scope durable a = (Inr t, a')"
  obtains e a1 where "reading_elapsed reading = Inr e" and "reconcile_current cfg reading e a = (Inr (), a1)"
    and "safety a' = safety a1" and "acceptance_poisoned a' = acceptance_poisoned a1"
    and "safety_poisoned a' = safety_poisoned a1" and "it_retention_authenticated t"
  using assms unfolding ingest_time_def
  by (auto simp: Let_def from_authenticated_durable_def split: if_splits sum.splits option.splits prod.splits)

text \<open>The safety state after a time was handed out under a wall clock.\<close>

lemma ingest_time_safety:
  assumes "ingest_time cfg reading scope durable a = (Inr t, a')" and "tc_has_source cfg"
  obtains e w expected where "reading_elapsed reading = Inr e" and "reading_wall reading = Inr w"
    and "advance_global (safety a) e = Inr expected" and "\<not> safety_poisoned a'" and "\<not> acceptance_poisoned a'"
    and "safety a' = (safety a)\<lparr> anchor := expected, anchor_elapsed := e, revision := revision (safety a) + 1,
      last_wall_clock := Some w, observed_offset_nanoseconds := Some (w - expected),
      clock_state := (if int (tc_maximum_offset cfg) < \<bar>w + wall_clock_correction_nanoseconds (safety a) - expected\<bar>
                      then ClockUncertain else Certain) \<rparr>"
    and "it_retention_authenticated t"
proof -
  obtain e a1 where e: "reading_elapsed reading = Inr e" and rec: "reconcile_current cfg reading e a = (Inr (), a1)"
    and a': "safety a' = safety a1" "acceptance_poisoned a' = acceptance_poisoned a1" "safety_poisoned a' = safety_poisoned a1"
    and t: "it_retention_authenticated t" using ingest_time_Inr [OF assms(1)] by blast
  obtain x where x: "advance_global (safety a) e = Inr x" "\<not> acceptance_poisoned a"
    and held: "reconcile_while_acceptance_held cfg reading x e a = (Inr (), a1)" using reconcile_current_Inr [OF rec] by blast
  obtain y w where w: "\<not> safety_poisoned a" "advance_global (safety a) e = Inr y" "reading_wall reading = Inr w"
    and a1: "a1 = a\<lparr> safety := (safety a)\<lparr> anchor := max y x, anchor_elapsed := e, revision := revision (safety a) + 1,
      last_wall_clock := Some w, observed_offset_nanoseconds := Some (w - max y x),
      clock_state := (if int (tc_maximum_offset cfg) < \<bar>w + wall_clock_correction_nanoseconds (safety a) - max y x\<bar>
                      then ClockUncertain else Certain) \<rparr> \<rparr>"
    using reconcile_held_Inr [OF held assms(2)] by blast
  have "y = x" using x(1) w(2) by simp
  with a1 show ?thesis using that [OF e w(3) x(1)] x(2) w(1) a' t by simp
qed

section \<open>The anchor of a snapshot\<close>

lemma find_skips:
  assumes "\<forall>bs \<in> set us. decode_catalog_anchor bs = Inr None"
  shows "for_fold (\<lambda>found bs.
       and_then (decode_catalog_anchor bs) (\<lambda>r.
       (case r of
          None \<Rightarrow> Inr found
        | Some candidate \<Rightarrow> if found \<noteq> None then Inl Clock_OutOfRange else Inr (Some candidate)))) acc (us @ vs) =
     for_fold (\<lambda>found bs.
       and_then (decode_catalog_anchor bs) (\<lambda>r.
       (case r of
          None \<Rightarrow> Inr found
        | Some candidate \<Rightarrow> if found \<noteq> None then Inl Clock_OutOfRange else Inr (Some candidate)))) acc vs"
  using assms by (induction us) simp_all

lemma find_catalog_anchor_single:
  assumes "\<forall>bs \<in> set us \<union> set vs. decode_catalog_anchor bs = Inr None" and "decode_catalog_anchor record = Inr (Some r)"
  shows "find_catalog_anchor (us @ record # vs) = Inr (Some r)"
  unfolding find_catalog_anchor_def using find_skips [of us] find_skips [of vs _ "[]"] assms by simp

text \<open>Installing a record restarts the clock at its anchor.\<close>

lemma recover_catalog_anchor_Inr:
  assumes found: "find_catalog_anchor objects = Inr (Some r)" and typed: "i64_ok (anchor r)"
    and "\<not> acceptance_poisoned a" and "\<not> safety_poisoned a" and "tc_has_source cfg"
    and "reading_elapsed reading = Inr e" and "reading_wall reading = Inr w"
    and "revision (safety a) + 2 \<le> u64_max" and "i64_ok (w - anchor r)"
    and "i64_ok (w + wall_clock_correction_nanoseconds r)"
  shows "recover_catalog_anchor cfg reading objects a =
    (Inr (), a\<lparr> safety := (safety a)\<lparr> anchor := anchor r, anchor_elapsed := e, revision := revision (safety a) + 2,
       last_wall_clock := Some w, observed_offset_nanoseconds := Some (w - anchor r),
       wall_clock_correction_nanoseconds := wall_clock_correction_nanoseconds r,
       clock_state := (if int (tc_maximum_offset cfg) < \<bar>w + wall_clock_correction_nanoseconds r - anchor r\<bar>
                       then ClockUncertain else Certain) \<rparr> \<rparr>)"
proof -
  have zero: "i64_ok 0" by (simp add: i64_ok_def i64_min_def i64_max_def)
  have adv: "advance_global s e = Inr (anchor r)" if "anchor s = anchor r" "anchor_elapsed s = e" for s
    unfolding advance_global_Inr using that zero typed by simp
  have checks: "i64_checked_sub w (anchor r) = Some (w - anchor r)"
      "i64_checked_add w (wall_clock_correction_nanoseconds r) = Some (w + wall_clock_correction_nanoseconds r)"
    using assms(9,10) by (simp_all add: i64_checked_defs)
  show ?thesis using assms(3-8)
    by (simp add: recover_catalog_anchor_def found Let_def checked_add_def reconcile_while_acceptance_held_def adv checks)
qed

section \<open>A sample history\<close>

text \<open>
  Established at instant 1000 with an offset limit of 10; the wall clock then jumps to 5000,
  the jump is accepted, and the wall clock comes back.
\<close>

definition sample_clock_cfg :: time_config where
  "sample_clock_cfg = \<lparr> tc_epoch = 1000, tc_destructive_retention = True, tc_has_source = True, tc_maximum_offset = 10 \<rparr>"

definition sample_scope :: segment_scope where
  "sample_scope = \<lparr> scope_tenant = replicate 16 1, scope_signal = Logs, scope_shard = 0 \<rparr>"

definition sample_reading :: "u64 \<Rightarrow> instant \<Rightarrow> clock_reading" where
  "sample_reading e w = \<lparr> reading_elapsed = Inr e, reading_wall = Inr w \<rparr>"

abbreviation sample_mint :: "u64 \<Rightarrow> instant \<Rightarrow> time_authority \<Rightarrow> (lifecycle_clock_failure + ingest_time_value) \<times> time_authority" where
  "sample_mint e w \<equiv> ingest_time sample_clock_cfg (sample_reading e w) sample_scope None"

definition sample_agreeing :: time_authority where "sample_agreeing = snd (sample_mint 0 1000 (with_parts 1000))"
definition sample_jumped :: time_authority where "sample_jumped = snd (sample_mint 5 5000 sample_agreeing)"

definition sample_prepared :: prepared_acceptance where
  "sample_prepared =
     \<lparr> prepared_revision = 2, prepared_anchor = 1005, prepared_wall = 5000, prepared_offset = 3995,
       accepted_record = anchor_bytes ((safety sample_jumped)\<lparr> clock_state := Certain,
         wall_clock_correction_nanoseconds := - 3995 \<rparr>) \<rparr>"

definition sample_commit_view :: catalog_commit_view where
  "sample_commit_view = \<lparr> commit_has_audit = True, commit_objects = [accepted_record sample_prepared] \<rparr>"

definition sample_accepted :: time_authority where
  "sample_accepted = snd (commit_after_catalog sample_prepared sample_commit_view sample_jumped)"

definition sample_run :: clock_system where
  "sample_run = \<lparr> sys_authority = sample_jumped, sys_now = 5, sys_gate = None, sys_staged = [],
     sys_minted = [(sample_scope, 1000), (sample_scope, 1005)] \<rparr>"

lemma clock_sample_established: "establish_with_source (Inr 1000) 10 = Inr (sample_clock_cfg, with_parts 1000)"
  by (simp add: establish_with_source_def sample_clock_cfg_def)

lemma i64_ok_1000: "i64_ok 1000"
  by (simp add: i64_ok_def i64_min_def i64_max_def)

lemma sample_reads: "i64_ok w \<Longrightarrow> reads_at e (sample_reading e w)"
  by (simp add: reads_at_def sample_reading_def)

lemma sample_mints:
  "sample_mint 0 1000 (with_parts 1000) = (Inr (from_authenticated_durable 1000), sample_agreeing)"
  "sample_mint 5 5000 sample_agreeing = (Inr (from_authenticated_durable 1005), sample_jumped)"
  by (code_simp)+

lemma sample_run_reached: "clock_run sample_clock_cfg (with_parts 1000) sample_run"
proof -
  let ?one = "(clock_start (with_parts 1000))\<lparr> sys_authority := sample_agreeing, sys_minted := [(sample_scope, 1000)] \<rparr>"
  let ?later = "?one\<lparr> sys_now := 5 \<rparr>"
  have "clock_step sample_clock_cfg (clock_start (with_parts 1000)) ?one"
    using clock_step.mint [OF _ _ _ trans [OF arg_cong [of _ _ "sample_mint 0 1000"] sample_mints(1)], of "clock_start (with_parts 1000)"]
    by (simp add: clock_start_def sample_reads i64_ok_1000 durable_typed_def record_minted_def from_authenticated_durable_def)
  moreover have "clock_step sample_clock_cfg ?one ?later"
    by (rule clock_step.tick) (simp_all add: clock_start_def u64_max_def)
  moreover have "clock_step sample_clock_cfg ?later sample_run"
    using clock_step.mint [OF _ _ _ trans [OF arg_cong [of _ _ "sample_mint 5 5000"] sample_mints(2)], of ?later]
    by (simp add: clock_start_def sample_reads i64_ok_def i64_min_def i64_max_def durable_typed_def record_minted_def
        from_authenticated_durable_def sample_run_def)
  ultimately show ?thesis unfolding clock_run_def by (meson converse_rtranclp_into_rtranclp rtranclp.rtrancl_refl)
qed

section \<open>Properties\<close>

text \<open>C7: Times never run backwards. Establish an authority and let any calls run, in any order and with
  any wall-clock readings: minting, destructive minting, scope and anchor recovery, accepted
  or dropped discontinuities, staged candidates published or abandoned, poisoned locks. The
  ingest times handed out for a scope form a non-decreasing sequence.\<close>

theorem minted_times_sorted:
  assumes "establish_with_source (Inr epoch) policy = Inr (cfg, a)" and "i64_ok epoch" and "clock_run cfg a S"
  shows "sorted (times_of scope (sys_minted S))"
  using clock_run_inv [OF assms] by (simp add: clock_inv_def)

theorem minted_times_sorted_witness:
  "establish_with_source (Inr 1000) 10 = Inr (sample_clock_cfg, with_parts 1000) \<and> i64_ok 1000 \<and>
   clock_run sample_clock_cfg (with_parts 1000) sample_run \<and> sorted (times_of sample_scope (sys_minted sample_run)) \<and>
   times_of sample_scope (sys_minted sample_run) = [1000, 1005]"
  using minted_times_sorted [OF clock_sample_established i64_ok_1000 sample_run_reached, of sample_scope]
    clock_sample_established i64_ok_1000 sample_run_reached
  by (simp add: sample_run_def times_of_def)

text \<open>C15: Destructive time needs an agreeing wall clock. When an authority with a wall clock hands out a
  time for destructive work, that same call read the wall clock, and the reading with the
  accepted correction lies within the policy's offset of the anchor advanced by the
  monotonic clock; the time is authenticated.\<close>

theorem destructive_needs_agreement:
  assumes "destructive_ingest_time cfg reading scope durable a = (Inr t, a')" and "tc_has_source cfg"
  shows "\<exists>e w. reading_elapsed reading = Inr e \<and> reading_wall reading = Inr w \<and>
    anchor (safety a') = anchor (safety a) + int (e - anchor_elapsed (safety a)) \<and>
    \<bar>w + wall_clock_correction_nanoseconds (safety a) - anchor (safety a')\<bar> \<le> int (tc_maximum_offset cfg) \<and>
    tc_destructive_retention cfg \<and> it_retention_authenticated t"
proof -
  have mint: "ingest_time cfg reading scope durable a = (Inr t, a')" and auth: "authorizes_destructive_retention cfg a'"
    using assms(1) by (auto simp: destructive_ingest_time_def split: sum.splits prod.splits if_splits)
  from ingest_time_safety [OF mint assms(2)] obtain e w expected where
    e: "reading_elapsed reading = Inr e" and w: "reading_wall reading = Inr w"
    and x: "advance_global (safety a) e = Inr expected" and "\<not> safety_poisoned a'"
    and s: "safety a' = (safety a)\<lparr> anchor := expected, anchor_elapsed := e, revision := revision (safety a) + 1,
      last_wall_clock := Some w, observed_offset_nanoseconds := Some (w - expected),
      clock_state := (if int (tc_maximum_offset cfg) < \<bar>w + wall_clock_correction_nanoseconds (safety a) - expected\<bar>
                      then ClockUncertain else Certain) \<rparr>"
    and "it_retention_authenticated t" by blast
  have "expected = anchor (safety a) + int (e - anchor_elapsed (safety a))" using x unfolding advance_global_Inr by blast
  then show ?thesis using e w s auth \<open>\<not> safety_poisoned a'\<close> \<open>it_retention_authenticated t\<close>
    by (simp add: authorizes_destructive_retention_def clock_status_of_def split: if_splits)
qed

theorem destructive_needs_agreement_witness:
  "\<exists>t a' e w. destructive_ingest_time sample_clock_cfg (sample_reading 5 1007) sample_scope None sample_agreeing = (Inr t, a') \<and>
    reading_elapsed (sample_reading 5 1007) = Inr e \<and> reading_wall (sample_reading 5 1007) = Inr w \<and>
    \<bar>w + wall_clock_correction_nanoseconds (safety sample_agreeing) - anchor (safety a')\<bar> \<le> int (tc_maximum_offset sample_clock_cfg)"
proof -
  have "destructive_ingest_time sample_clock_cfg (sample_reading 5 1007) sample_scope None sample_agreeing =
      (Inr (from_authenticated_durable 1005),
       snd (destructive_ingest_time sample_clock_cfg (sample_reading 5 1007) sample_scope None sample_agreeing))" by code_simp
  moreover have "tc_has_source sample_clock_cfg" by code_simp
  ultimately show ?thesis using destructive_needs_agreement by blast
qed

text \<open>C16: A durable acceptance takes effect. In any run, while an acceptance is prepared, committing it with
  a Catalog commit that carries an audit record and the accepted record succeeds, unless the
  safety lock is poisoned or the revision counter is exhausted: the clock becomes certain,
  and the state in memory is the state the durable record decodes to.\<close>

theorem prepared_acceptance_commits:
  assumes "establish_with_source (Inr epoch) policy = Inr (cfg, a)" and "i64_ok epoch" and "clock_run cfg a S"
    and "sys_gate S = Some p" and "commit_has_audit view" and "accepted_record p \<in> set (commit_objects view)"
    and "\<not> safety_poisoned (sys_authority S)" and "revision (safety (sys_authority S)) < u64_max"
  shows "\<exists>a'. commit_after_catalog p view (sys_authority S) = (Inr (), a') \<and> clock_state (safety a') = Certain \<and>
    decode_catalog_anchor (accepted_record p) = Inr (Some (durable_part (safety a')))"
proof -
  let ?s = "safety (sys_authority S)"
  let ?next = "?s\<lparr> clock_state := Certain, wall_clock_correction_nanoseconds := anchor ?s - prepared_wall p,
    revision := revision ?s + 1 \<rparr>"
  have gate: "gate_matches cfg p ?s" and cur: "safety_current (sys_now S) ?s"
    using clock_run_inv [OF assms(1-3)] assms(4) by (simp_all add: clock_inv_def)
  have commit: "commit_after_catalog p view (sys_authority S) = (Inr (), (sys_authority S)\<lparr> safety := ?next \<rparr>)"
    using assms(5-8) gate by (simp add: commit_after_catalog_def gate_matches_def i64_checked_defs i64_of_def i64_ok_def checked_add_def Let_def)
  have "safety_typed ?next" using cur gate assms(8) by (simp add: safety_current_def safety_typed_def gate_matches_def)
  moreover have "accepted_record p = anchor_bytes ?next" using gate by (simp add: gate_matches_def anchor_bytes_def)
  ultimately show ?thesis using commit decode_anchor_bytes [of ?next] by simp
qed

theorem prepared_acceptance_commits_witness:
  "\<exists>a'. commit_after_catalog sample_prepared sample_commit_view sample_jumped = (Inr (), a') \<and>
     clock_state (safety a') = Certain \<and>
     decode_catalog_anchor (accepted_record sample_prepared) = Inr (Some (durable_part (safety a')))"
proof -
  let ?S = "sample_run\<lparr> sys_gate := Some sample_prepared \<rparr>"
  have "prepare_discontinuity_acceptance True sample_clock_cfg 1005 sample_jumped = Inr sample_prepared" by code_simp
  then have "clock_step sample_clock_cfg sample_run ?S"
    by (intro clock_step.prepare [of _ True _ 1005]) (simp_all add: sample_run_def)
  then have "clock_run sample_clock_cfg (with_parts 1000) ?S"
    using sample_run_reached unfolding clock_run_def by (rule rtranclp.rtrancl_into_rtrancl [rotated])
  moreover have "\<not> safety_poisoned sample_jumped" "revision (safety sample_jumped) < u64_max" by code_simp+
  ultimately show ?thesis
    using prepared_acceptance_commits [OF clock_sample_established i64_ok_1000, of ?S sample_prepared sample_commit_view]
    by (simp add: sample_run_def sample_commit_view_def)
qed

text \<open>C17: The anchor survives a restart. The record a process writes for an observed time, read back from a
  snapshot in which it is the only anchor, restarts the clock of another process at the
  later of the anchor and the observed time, with the accepted correction; the clock is then
  certain exactly when the corrected wall clock agrees with it, so a jump made while the
  process was down is not absorbed.\<close>

theorem anchor_survives_restart:
  assumes "safety_typed (safety a)" and "i64_ok (it_instant observed)"
    and written: "catalog_anchor_record True observed a = Inr record"
    and "\<forall>bs \<in> set us \<union> set vs. decode_catalog_anchor bs = Inr None"
    and "\<not> acceptance_poisoned b" and "\<not> safety_poisoned b" and "tc_has_source cfg"
    and "reading_elapsed reading = Inr e" and "reading_wall reading = Inr w"
    and "revision (safety b) + 2 \<le> u64_max"
    and "i64_ok (w - max (anchor (safety a)) (it_instant observed))"
    and "i64_ok (w + wall_clock_correction_nanoseconds (safety a))"
  shows "\<exists>b'. recover_catalog_anchor cfg reading (us @ record # vs) b = (Inr (), b') \<and>
    anchor (safety b') = max (anchor (safety a)) (it_instant observed) \<and> anchor_elapsed (safety b') = e \<and>
    wall_clock_correction_nanoseconds (safety b') = wall_clock_correction_nanoseconds (safety a) \<and>
    (clock_state (safety b') = Certain \<longleftrightarrow>
       \<bar>w + wall_clock_correction_nanoseconds (safety a) - anchor (safety b')\<bar> \<le> int (tc_maximum_offset cfg))"
proof -
  let ?s = "(safety a)\<lparr> anchor := max (anchor (safety a)) (it_instant observed) \<rparr>"
  have typed: "safety_typed ?s" using assms(1,2) by (simp add: safety_typed_def max_def)
  have stored: "record = anchor_bytes ?s"
    using written by (simp add: catalog_anchor_record_def encode_catalog_anchor_def split: if_splits)
  have found: "find_catalog_anchor (us @ record # vs) = Inr (Some (durable_part ?s))"
    using find_catalog_anchor_single [OF assms(4)] decode_anchor_bytes [OF typed] by (simp add: stored)
  have part: "anchor (durable_part ?s) = max (anchor (safety a)) (it_instant observed)"
      "wall_clock_correction_nanoseconds (durable_part ?s) = wall_clock_correction_nanoseconds (safety a)"
    by (simp_all add: durable_part_def)
  have "i64_ok (anchor (durable_part ?s))" using typed by (simp add: part safety_typed_def)
  from recover_catalog_anchor_Inr [OF found this assms(5-10), unfolded part, OF assms(11,12)] show ?thesis by simp
qed

theorem anchor_survives_restart_witness:
  "\<exists>b'. recover_catalog_anchor sample_clock_cfg (sample_reading 3 9000)
      ([[1, 2]] @ anchor_bytes ((safety sample_accepted)\<lparr> anchor := 1020 \<rparr>) # []) (with_parts 8000) = (Inr (), b') \<and>
    anchor (safety b') = 1020 \<and> clock_state (safety b') = ClockUncertain"
proof -
  let ?observed = "from_authenticated_durable 1020"
  let ?stored = "anchor_bytes ((safety sample_accepted)\<lparr> anchor := 1020 \<rparr>)"
  have state: "safety sample_accepted = \<lparr> anchor = 1005, anchor_elapsed = 5, clock_state = Certain, last_wall_clock = Some 5000,
      observed_offset_nanoseconds = Some 3995, wall_clock_correction_nanoseconds = - 3995, revision = 3 \<rparr>" by code_simp
  have typed: "safety_typed (safety sample_accepted)"
    by (simp add: state safety_typed_def i64_ok_def i64_min_def i64_max_def u64_max_def)
  have "i64_ok (it_instant ?observed)"
    "catalog_anchor_record True ?observed sample_accepted = Inr ?stored"
    "\<forall>bs \<in> set [[1, 2]] \<union> set []. decode_catalog_anchor bs = Inr None"
    "\<not> acceptance_poisoned (with_parts 8000)" "\<not> safety_poisoned (with_parts 8000)" "tc_has_source sample_clock_cfg"
    "reading_elapsed (sample_reading 3 9000) = Inr 3" "reading_wall (sample_reading 3 9000) = Inr 9000"
    "revision (safety (with_parts 8000)) + 2 \<le> u64_max"
    "i64_ok (9000 - max (anchor (safety sample_accepted)) (it_instant ?observed))"
    "i64_ok (9000 + wall_clock_correction_nanoseconds (safety sample_accepted))" by code_simp+
  from anchor_survives_restart [OF typed this] obtain b' where
    "recover_catalog_anchor sample_clock_cfg (sample_reading 3 9000) ([[1, 2]] @ ?stored # []) (with_parts 8000) = (Inr (), b')"
    "anchor (safety b') = max (anchor (safety sample_accepted)) (it_instant ?observed)"
    "clock_state (safety b') = Certain \<longleftrightarrow>
       \<bar>9000 + wall_clock_correction_nanoseconds (safety sample_accepted) - anchor (safety b')\<bar> \<le> int (tc_maximum_offset sample_clock_cfg)"
    by blast
  moreover have "max (anchor (safety sample_accepted)) (it_instant ?observed) = 1020"
    "\<not> \<bar>9000 + wall_clock_correction_nanoseconds (safety sample_accepted) - 1020\<bar> \<le> int (tc_maximum_offset sample_clock_cfg)"
    by code_simp+
  ultimately show ?thesis by (metis lifecycle_clock_state.exhaust)
qed

text \<open>C38: A clock that returns cannot be accepted. After a discontinuity was accepted, a wall clock that comes
  back into agreement with the monotonic clock makes the authority uncertain again, because
  the accepted correction is still added; and then every attempt to accept is refused,
  because acceptance tests the offset without the correction.\<close>

theorem reverted_clock_cannot_be_accepted:
  assumes "reconcile cfg reading d e a = (Inr (), a')" and "tc_has_source cfg" and "reading_wall reading = Inr w"
    and "\<bar>w - anchor (safety a')\<bar> \<le> int (tc_maximum_offset cfg)"
    and "int (tc_maximum_offset cfg) < \<bar>w + wall_clock_correction_nanoseconds (safety a) - anchor (safety a')\<bar>"
  shows "clock_state (safety a') = ClockUncertain \<and>
    prepare_discontinuity_acceptance reserved cfg (anchor (safety a')) a' = Inl MissingDiscontinuity"
proof -
  have accept: "\<not> acceptance_poisoned a" and held: "reconcile_while_acceptance_held cfg reading d e a = (Inr (), a')"
    using assms(1) by (simp_all add: reconcile_def split: if_splits)
  from reconcile_held_Inr [OF held assms(2)] show ?thesis
    by cases (use assms(3-5) accept in \<open>simp add: prepare_discontinuity_acceptance_def ok_or_def\<close>)
qed

theorem reverted_clock_cannot_be_accepted_witness:
  "\<exists>a'. reconcile sample_clock_cfg (sample_reading 6 1006) 1006 6 sample_accepted = (Inr (), a') \<and>
     clock_state (safety sample_accepted) = Certain \<and> clock_state (safety a') = ClockUncertain \<and>
     prepare_discontinuity_acceptance True sample_clock_cfg (anchor (safety a')) a' = Inl MissingDiscontinuity"
proof -
  let ?a = "snd (reconcile sample_clock_cfg (sample_reading 6 1006) 1006 6 sample_accepted)"
  have step: "reconcile sample_clock_cfg (sample_reading 6 1006) 1006 6 sample_accepted = (Inr (), ?a)" by code_simp
  have "tc_has_source sample_clock_cfg" "reading_wall (sample_reading 6 1006) = Inr 1006"
    "\<bar>1006 - anchor (safety ?a)\<bar> \<le> int (tc_maximum_offset sample_clock_cfg)"
    "int (tc_maximum_offset sample_clock_cfg) <
       \<bar>1006 + wall_clock_correction_nanoseconds (safety sample_accepted) - anchor (safety ?a)\<bar>" by code_simp+
  from reverted_clock_cannot_be_accepted [OF step this, of True] step
  show ?thesis by (intro exI [of _ ?a] conjI) (simp_all, code_simp)
qed

text \<open>C39: A reading overtaken by another call is refused. Each call reads the monotonic clock before it takes
  a lock. When a call with a later reading goes first and hands out a time, a call that
  holds an earlier reading fails as out of range and changes nothing.\<close>

theorem overtaken_reading_refused:
  assumes "ingest_time cfg later scope durable a = (Inr t, a')" and "tc_has_source cfg"
    and "reading_elapsed later = Inr e" and "reading_elapsed earlier = Inr e'" and "e' < e"
  shows "ingest_time cfg earlier scope' durable' a' = (Inl Clock_OutOfRange, a')"
proof -
  from ingest_time_safety [OF assms(1,2)] have s: "anchor_elapsed (safety a') = e" "\<not> safety_poisoned a'"
    using assms(3) by force+
  then have "advance_global (safety a') e' = Inl Clock_OutOfRange"
    using assms(5) by (simp add: advance_global_def advance_from_def checked_sub_def ok_or_def)
  then show ?thesis using assms(4) s(2) by (simp add: ingest_time_def reconcile_current_def)
qed

theorem overtaken_reading_refused_witness:
  "sample_mint 5 5000 sample_agreeing = (Inr (from_authenticated_durable 1005), sample_jumped) \<and>
   sample_mint 4 1004 sample_jumped = (Inl Clock_OutOfRange, sample_jumped)"
proof -
  have "tc_has_source sample_clock_cfg" "reading_elapsed (sample_reading 5 5000) = Inr 5"
    "reading_elapsed (sample_reading 4 1004) = Inr 4" "(4 :: u64) < 5" by code_simp+
  from overtaken_reading_refused [OF sample_mints(2) this, of sample_scope None] show ?thesis using sample_mints(2) by simp
qed

text \<open>C40: Abandoning can undo another observation. A candidate is staged, another call observes time, and then
  the candidate observes time. Dropping the candidate while the clock is certain puts the
  safety state back to what it was at staging, so the other call's observation is undone.\<close>

theorem abandon_undoes_other_observation:
  assumes "stage_catalog_anchor a = Inr staged" and "tc_has_source cfg"
    and "ingest_time cfg other scope durable a = (Inr t, a1)"
    and "observe_candidate cfg (ingest_time cfg own scope' durable') staged a1 = (Inr u, staged', a2)"
    and "clock_state (safety a2) = Certain"
  shows "safety (abandon_catalog_anchor staged' a2) = safety a \<and> revision (safety a) < revision (safety a1)"
proof -
  have checkpoint: "checkpoint staged = safety a" using assms(1) by (auto simp: stage_catalog_anchor_def split: if_splits)
  from ingest_time_safety [OF assms(3,2)] have first: "revision (safety a1) = revision (safety a) + 1" "\<not> safety_poisoned a1"
    by force+
  have mint: "ingest_time cfg own scope' durable' a1 = (Inr u, a2)"
    using assms(4) first(2) by (auto simp: observe_candidate_def safety_revision_def Let_def split: prod.splits)
  from ingest_time_safety [OF mint assms(2)] have second: "revision (safety a2) = revision (safety a1) + 1"
      "\<not> safety_poisoned a2" "\<not> acceptance_poisoned a2" by force+
  have "candidate_revision staged' = Some (revision (safety a2))" "checkpoint staged' = safety a"
    using assms(4) first(2) second checkpoint by (auto simp: observe_candidate_def safety_revision_def Let_def mint)
  then show ?thesis using second first assms(5) by (simp add: abandon_catalog_anchor_def)
qed

theorem abandon_undoes_other_observation_witness:
  "\<exists>staged a1 staged' a2. stage_catalog_anchor sample_agreeing = Inr staged \<and>
     sample_mint 5 1005 sample_agreeing = (Inr (from_authenticated_durable 1005), a1) \<and>
     observe_candidate sample_clock_cfg (sample_mint 7 1007) staged a1 = (Inr (from_authenticated_durable 1007), staged', a2) \<and>
     safety (abandon_catalog_anchor staged' a2) = safety sample_agreeing \<and>
     revision (safety sample_agreeing) < revision (safety a1)"
proof -
  let ?staged = "\<lparr> checkpoint = safety sample_agreeing, candidate_revision = None, candidate_anchor = None \<rparr>"
  let ?a1 = "snd (sample_mint 5 1005 sample_agreeing)"
  let ?own = "observe_candidate sample_clock_cfg (sample_mint 7 1007) ?staged ?a1"
  have steps: "stage_catalog_anchor sample_agreeing = Inr ?staged" "tc_has_source sample_clock_cfg"
    "sample_mint 5 1005 sample_agreeing = (Inr (from_authenticated_durable 1005), ?a1)"
    "?own = (Inr (from_authenticated_durable 1007), fst (snd ?own), snd (snd ?own))"
    "clock_state (safety (snd (snd ?own))) = Certain" by code_simp+
  from abandon_undoes_other_observation [OF steps] steps show ?thesis by blast
qed

end
