(* ===== verification/Spec2Isabelle.thy ===== *)
theory Spec2Isabelle
  imports Calls Parts Edges Crowding Attributes Timekeeping
begin

text \<open>
  Verification of parts of Positron, a store for logs and traces written in Rust. The
  development has three lines of theories that share \<^verbatim>\<open>Prelude\<close>: the resource governor and the
  lifecycle clock of \<^verbatim>\<open>positron-kernel\<close>, and the domain values of \<^verbatim>\<open>positron-domain\<close> with the
  planning memory of \<^verbatim>\<open>positron-query\<close> that meters their validation. Paths below are relative
  to \<^verbatim>\<open>src/crates/\<close>.

  \<^bold>\<open>Conventions.\<close> Unsigned integers are naturals below their width; \<^verbatim>\<open>checked_add\<close> and its kin
  take the limit and return an option, so overflow is a branch. Signed instants are integers
  with the range written out (\<^verbatim>\<open>Bytes\<close>). A \<^verbatim>\<open>Result\<close> is a sum with the error on the left, an
  early return is \<^verbatim>\<open>and_then\<close>, a loop with an early return is \<^verbatim>\<open>for_each\<close> or \<^verbatim>\<open>for_fold\<close>. State
  behind a mutex is passed explicitly; an assignment made before an error stays, as it does
  behind a guard. What the code cannot decide itself is an argument: whether a lock is free or
  poisoned, what an allocator answers, the size of a Rust type, the reading of a clock.

  \<^bold>\<open>Resource governor\<close> (\<^verbatim>\<open>positron-kernel/src/resource_governor\<close>). A configuration fixes capacities
  and tenants; a claim is admitted against total, pool, tenant, principal and recovery limits
  and becomes a grant in a slot of the ledger; its holder has a reservation handle and may
  resize, cancel or drop it; dropped handles are drained by the next call that gets the lock.
  An accounting error fences the governor for good.
    \<^item> Model, one theory per source file or pair: \<^verbatim>\<open>Amounts\<close> (\<^verbatim>\<open>model.rs\<close>), \<^verbatim>\<open>Work\<close> (\<^verbatim>\<open>claim.rs\<close>,
      \<^verbatim>\<open>failure.rs\<close>), \<^verbatim>\<open>Decision\<close>, \<^verbatim>\<open>Inventory\<close> (\<^verbatim>\<open>inventory.rs\<close>, \<^verbatim>\<open>bootstrap.rs\<close>, disk pressure),
      \<^verbatim>\<open>Pools\<close> (\<^verbatim>\<open>policy.rs\<close>, \<^verbatim>\<open>pool_admission.rs\<close>), \<^verbatim>\<open>RecoveryPools\<close>, \<^verbatim>\<open>Fairness\<close>, \<^verbatim>\<open>Ledger\<close>, \<^verbatim>\<open>Release\<close>,
      \<^verbatim>\<open>Accounting\<close>, \<^verbatim>\<open>Admission\<close>, \<^verbatim>\<open>RecoveryAdmission\<close>, \<^verbatim>\<open>Resize\<close>, \<^verbatim>\<open>ResizeRecovery\<close> (with the handles
      of \<^verbatim>\<open>reservation.rs\<close>) and \<^verbatim>\<open>Setup\<close> (configuration, authority, leases). The state
      is the record of the accounting mutex; each operation is the whole function of that name.
    \<^item> Accounts: \<^verbatim>\<open>Books\<close> reads every usage vector, pool and counter as a family of accounts and a
      grant as a charge on them; \<^verbatim>\<open>Operations\<close> reads the records as a forest of roots and children;
      \<^verbatim>\<open>Conservation\<close>, \<^verbatim>\<open>Admitting\<close>, \<^verbatim>\<open>Plans\<close>, \<^verbatim>\<open>Reserve\<close>, \<^verbatim>\<open>Replacing\<close>, \<^verbatim>\<open>ReplacingRecovery\<close> and \<^verbatim>\<open>Sections\<close>
      show that every operation moves the accounts by exactly the charges it grants, exchanges
      or gives back.
    \<^item> Machine: \<^verbatim>\<open>Handles\<close> and \<^verbatim>\<open>Machine\<close> add the handles of the clients and interleave calls in any
      order with any lock outcomes; \<^verbatim>\<open>Established\<close>, \<^verbatim>\<open>Soundness\<close>, \<^verbatim>\<open>Capacity\<close>, \<^verbatim>\<open>Bounded\<close> lift the invariants
      and bounds to every reachable state, \<^verbatim>\<open>Refinement\<close> relates the machine to an abstract list of
      grants that never exceeds its limits, \<^verbatim>\<open>Sequences\<close> follows short sequences of calls.
    \<^item> Properties: \<^verbatim>\<open>Governor\<close> (all reachable states), \<^verbatim>\<open>Calls\<close> (single calls), \<^verbatim>\<open>Parts\<close> (pools, shares,
      leases, disk pressure, records), \<^verbatim>\<open>Edges\<close> and \<^verbatim>\<open>Crowding\<close> (when the
      governor refuses all work, fences itself, or keeps stale shares: general theorems over
      reachable states in \<^verbatim>\<open>Edges\<close>, one trace in \<^verbatim>\<open>Crowding\<close>). \<^verbatim>\<open>Sample\<close> is the
      configuration on which they are instantiated.

  \<^bold>\<open>Domain values\<close> (\<^verbatim>\<open>positron-domain/src\<close>, \<^verbatim>\<open>positron-query/src\<close>). Candidates from a protocol
  are validated against a limit profile into stored values; a stored value has an order, a
  comparison encoding for indexes and a canonical encoding for digests.
    \<^item> \<^verbatim>\<open>Bytes\<close>: big-endian fields, two's complement, the \<^verbatim>\<open>codec\<close> locale of an encoder with its decoder.
    \<^item> \<^verbatim>\<open>Domain\<close>: \<^verbatim>\<open>outcome.rs\<close>, \<^verbatim>\<open>identity.rs\<close>, \<^verbatim>\<open>routing.rs\<close>, \<^verbatim>\<open>lifecycle.rs\<close>, \<^verbatim>\<open>time.rs\<close>; parsing an
      identity is the inverse of printing it.
    \<^item> \<^verbatim>\<open>Values\<close>: limits, profiles, candidate and validated values, shape check and revalidation
      (\<^verbatim>\<open>value/*.rs\<close>). \<^verbatim>\<open>Comparison\<close>: \<^verbatim>\<open>Ord\<close> and the comparison encoding of \<^verbatim>\<open>validated_encoding.rs\<close>.
    \<^item> \<^verbatim>\<open>Observe\<close>: the observer trait as a record of functions on its state, and the walks over a
      value that report to it (\<^verbatim>\<open>observed.rs\<close>, \<^verbatim>\<open>observed_encoding.rs\<close>); \<^verbatim>\<open>Canonical\<close>: what the walks
      emit, that it is prefix-free and has the announced size.
    \<^item> \<^verbatim>\<open>Validation\<close> (\<^verbatim>\<open>observed_validation.rs\<close>, \<^verbatim>\<open>occurrences.rs\<close>): validation that admits its output
      slots with the observer and gives them back on failure; \<^verbatim>\<open>Validated\<close>: what it accepts, and
      when revalidation under the same limits accepts it again (a bare scalar is not measured by
      validation, but is by revalidation).
    \<^item> \<^verbatim>\<open>Planning\<close> (\<^verbatim>\<open>planning_memory.rs\<close>, \<^verbatim>\<open>memory.rs\<close>, \<^verbatim>\<open>planning_observer.rs\<close>); \<^verbatim>\<open>Metered\<close>: the locale
      of an observer that meters memory, in which validation is shown to be balanced, and its
      interpretation on the planning observer.
    \<^item> \<^verbatim>\<open>Attributes\<close>: the properties.

  \<^bold>\<open>Lifecycle clock\<close> (\<^verbatim>\<open>positron-kernel/src/lifecycle_clock.rs\<close>, \<^verbatim>\<open>retention_time.rs\<close>). The authority
  advances an anchor by the monotonic clock, compares it with the wall clock, and is uncertain
  while they disagree beyond a policy; an administrator may accept the disagreement with a
  durable record; a restart recovers the anchor from the Catalog.
    \<^item> \<^verbatim>\<open>Clock\<close>: the authority's state, reconciliation and the times it hands out. \<^verbatim>\<open>Anchor\<close>: the
      anchor record (an interpretation of \<^verbatim>\<open>codec\<close>), recovery, acceptance, staged anchors.
    \<^item> \<^verbatim>\<open>ClockMachine\<close>: calls in any order with any readings as an inductive step relation, and the
      invariant of its runs. A call is one step; the reading of the monotonic clock is the
      present time of the machine.
    \<^item> \<^verbatim>\<open>Timekeeping\<close>: the properties, with one on a reading that was overtaken by another call.

  \<^bold>\<open>Bounds.\<close> No model runs on fuel: every recursion is structural or has a measure. Limits of the
  code (slots, tenants, widths) are the code's own constants.

  \<^bold>\<open>Not modelled.\<close> Durable storage (catalog generations, segments, write-ahead and recovery),
  governance and audit, policy compilation, signal schemas and query execution are further
  subsystems of the repository that this development does not cover; the clock sees of a
  Catalog commit only whether it carries an audit record and its plaintext objects. The
  operating system (files, cgroups, sockets, process supervision), generated protocol code,
  configuration through serde and foreign function interfaces are outside the model. Of the
  modelled files, accessors, formatting, test support and the fallible clones of values are
  left out; the \<^verbatim>\<open>Drop\<close> of a handle is an operation of its own.
\<close>

end
